(* ===== verification/Prelude.thy ===== *)
theory Prelude
  imports "HOL-Library.Word" "HOL-Library.Signed_Division"
begin

text \<open>
  Shared vocabulary of the development: the machine types of the firmware, the outcome of a
  piece of firmware code, the sequencing combinator that plays the part of C's semicolon, and
  the small weakest-precondition calculus the component theories use for statements that
  hold in every environment.
\<close>

unbundle bit_operations_syntax

type_synonym byte = "8 word"
type_synonym word16 = "16 word"

text \<open>
  \<^item> \<open>codes\<close>: the values of the \<^verbatim>\<open>#define\<close>d command and reply codes;
  \<^item> \<open>wp\<close>: introduction rules for \<open>always\<close>, one per operation;
  \<^item> \<open>framed\<close>: what an operation leaves alone;
  \<^item> \<open>answer\<close>: rules for the protocol of replies, one per statement of the host commands.
\<close>

named_theorems codes
named_theorems wp
named_theorems framed
named_theorems answer

section \<open>Outcomes of firmware code\<close>

text \<open>
  A piece of firmware either finishes with a value and a new state, or stops: it waits for an
  event that the (finite) trace of external events no longer holds, or it touches an array
  outside its bounds, after which C promises nothing.
\<close>

datatype stop = Waiting | Out_of_bounds

datatype ('a, 's) outcome = Done 'a 's | Stop stop

definition on :: "('a, 's) outcome \<Rightarrow> ('a \<Rightarrow> 's \<Rightarrow> ('b, 't) outcome) \<Rightarrow> ('b, 't) outcome" where
  "on m f = (case m of Done a s \<Rightarrow> f a s | Stop e \<Rightarrow> Stop e)"

lemma on_Done [simp]: "on (Done a s) f = f a s"
  by (simp add: on_def)

lemma on_Stop [simp]: "on (Stop e) f = Stop e"
  by (simp add: on_def)

lemma on_assoc [simp]: "on (on m f) g = on m (\<lambda>a s. on (f a s) g)"
  by (cases m) simp_all

lemma on_Done_right [simp]: "on m Done = m"
  by (cases m) simp_all

lemma on_eq_Done_iff: "on m f = Done b t \<longleftrightarrow> (\<exists>a s. m = Done a s \<and> f a s = Done b t)"
  by (cases m) auto

lemma on_if [simp]: "on (if c then x else y) f = (if c then on x f else on y f)"
  by simp

lemma on_cong [fundef_cong]:
  assumes "m = m'" and "\<And>a s. m' = Done a s \<Longrightarrow> f a s = g a s"
  shows "on m f = on m' g"
  using assms by (cases m') simp_all

section \<open>A small calculus of postconditions\<close>

text \<open>
  \<open>always m Q\<close>: if \<open>m\<close> finishes, \<open>Q\<close> holds of its value and state.  \<open>finishes m Q\<close> adds that
  it does finish.
\<close>

definition always :: "('a, 's) outcome \<Rightarrow> ('a \<Rightarrow> 's \<Rightarrow> bool) \<Rightarrow> bool" where
  "always m Q = (case m of Done a s \<Rightarrow> Q a s | Stop e \<Rightarrow> True)"

definition finishes :: "('a, 's) outcome \<Rightarrow> ('a \<Rightarrow> 's \<Rightarrow> bool) \<Rightarrow> bool" where
  "finishes m Q = (case m of Done a s \<Rightarrow> Q a s | Stop e \<Rightarrow> False)"

lemma always_Done [simp]: "always (Done a s) Q = Q a s"
  by (simp add: always_def)

lemma always_Stop [simp]: "always (Stop e) Q"
  by (simp add: always_def)

lemma always_on [simp]: "always (on m f) Q = always m (\<lambda>a s. always (f a s) Q)"
  by (cases m) simp_all

lemma always_if [simp]: "always (if c then x else y) Q = ((c \<longrightarrow> always x Q) \<and> (\<not> c \<longrightarrow> always y Q))"
  by simp

lemma alwaysD: "always m Q \<Longrightarrow> m = Done a s \<Longrightarrow> Q a s"
  by simp

lemma alwaysI: "(\<And>a s. m = Done a s \<Longrightarrow> Q a s) \<Longrightarrow> always m Q"
  by (cases m) simp_all

lemma always_mono: "always m P \<Longrightarrow> (\<And>a s. P a s \<Longrightarrow> Q a s) \<Longrightarrow> always m Q"
  by (cases m) simp_all

lemma finishes_Done [simp]: "finishes (Done a s) Q = Q a s"
  by (simp add: finishes_def)

lemma finishes_Stop [simp]: "\<not> finishes (Stop e) Q"
  by (simp add: finishes_def)

lemma finishes_on [simp]: "finishes (on m f) Q = finishes m (\<lambda>a s. finishes (f a s) Q)"
  by (cases m) simp_all

lemma finishes_iff: "finishes m Q \<longleftrightarrow> (\<exists>a s. m = Done a s \<and> Q a s)"
  by (cases m) auto

section \<open>Generic facts on bytes and lists\<close>

lemma byte_lt_256 [simp]: "unat (b :: byte) < 256"
  using unsigned_less [of b, where ?'a = nat] by simp

lemma uint_byte_bounds: "0 \<le> uint (b :: byte)" "uint (b :: byte) < 256"
  using unsigned_less [of b, where ?'a = int] by simp_all

lemma byte_eqI: 
  assumes "\<And>n. n \<in> {0,1,2,3,4,5,6,7} \<Longrightarrow> bit (a :: byte) n = bit b n" shows "a = b"
proof (rule bit_word_eqI)
  fix n assume "n < LENGTH(8)"
  then have "n \<in> {0,1,2,3,4,5,6,7}" by (auto simp: numeral_eq_Suc less_Suc_eq)
  then show "bit a n = bit b n" by (rule assms)
qed

text \<open>\<open>bs\<close> written over \<open>buf\<close> from position \<open>p\<close>.\<close>

fun overwrite :: "nat \<Rightarrow> byte list \<Rightarrow> byte list \<Rightarrow> byte list" where
  "overwrite p [] buf = buf"
| "overwrite p (b # bs) buf = overwrite (Suc p) bs (buf[p := b])"

lemma length_overwrite [simp]: "length (overwrite p bs buf) = length buf"
  by (induction p bs buf rule: overwrite.induct) simp_all

lemma nth_overwrite:
  "p + length bs \<le> length buf \<Longrightarrow>
     overwrite p bs buf ! i = (if p \<le> i \<and> i < p + length bs then bs ! (i - p) else buf ! i)"
proof (induction p bs buf rule: overwrite.induct)
  case (2 p b bs buf)
  consider "i < p" | "i = p" | "p < i" by linarith
  then show ?case
  proof cases
    case 3
    then have "i - p = Suc (i - Suc p)" by simp
    with 2 3 show ?thesis by simp
  qed (use 2 in simp_all)
qed auto

lemma take_overwrite:
  "length bs \<le> length buf \<Longrightarrow> n \<le> length bs \<Longrightarrow> take n (overwrite 0 bs buf) = take n bs"
  by (rule nth_equalityI) (simp_all add: nth_overwrite)

text \<open>\<^verbatim>\<open>%02X\<close> of \<^verbatim>\<open>printf\<close>.\<close>

definition hex_digit :: "nat \<Rightarrow> byte" where
  "hex_digit n = (if n < 10 then 48 + of_nat n else 55 + of_nat n)"

definition hex2 :: "byte \<Rightarrow> byte list" where
  "hex2 b = [hex_digit (unat b div 16), hex_digit (unat b mod 16)]"

text \<open>The division of C on values that are not negative.\<close>

lemma sdiv_of_nat: "int m sdiv int n = int (m div n)"
  by (cases "m = 0"; cases "n = 0") (simp_all add: signed_divide_int_def zdiv_int)

end
