(* ===== verification/BusCodes.thy ===== *)
theory BusCodes
  imports Prelude
begin

text \<open>
  The command and reply codes of \<^verbatim>\<open>sbr9/buscodes.h\<close>, and the slave numbers \<^verbatim>\<open>ic1.c\<close> gives the
  chips on the parallel bus (\<^verbatim>\<open>IRQ_*\<close> and \<^verbatim>\<open>SLAVE_ID_*\<close>).  Their values are in the collection
  \<open>codes\<close>.
\<close>

section \<open>Commands of the master to the slaves\<close>

definition BUS_CMD_PING :: byte where
  BUS_CMD_PING_val [codes]: "BUS_CMD_PING = 0"

definition BUS_CMD_ID :: byte where
  BUS_CMD_ID_val [codes]: "BUS_CMD_ID = 1"

definition BUS_CMD_READ_REG :: byte where
  BUS_CMD_READ_REG_val [codes]: "BUS_CMD_READ_REG = 2"

definition BUS_CMD_WRITE_REG :: byte where
  BUS_CMD_WRITE_REG_val [codes]: "BUS_CMD_WRITE_REG = 3"

definition BUS_CMD_MARKER1 :: byte where
  BUS_CMD_MARKER1_val [codes]: "BUS_CMD_MARKER1 = 4"

definition BUS_CMD_DEPTH :: byte where
  BUS_CMD_DEPTH_val [codes]: "BUS_CMD_DEPTH = 5"

definition BUS_CMD_LCD_WRITE :: byte where
  BUS_CMD_LCD_WRITE_val [codes]: "BUS_CMD_LCD_WRITE = 6"

definition BUS_CMD_LCD_REFRESH :: byte where
  BUS_CMD_LCD_REFRESH_val [codes]: "BUS_CMD_LCD_REFRESH = 7"

definition BUS_CMD_LCD_LIGHT_ON :: byte where
  BUS_CMD_LCD_LIGHT_ON_val [codes]: "BUS_CMD_LCD_LIGHT_ON = 8"

definition BUS_CMD_LCD_LIGHT_OFF :: byte where
  BUS_CMD_LCD_LIGHT_OFF_val [codes]: "BUS_CMD_LCD_LIGHT_OFF = 9"

definition BUS_CMD_THRUSTERS_ON :: byte where
  BUS_CMD_THRUSTERS_ON_val [codes]: "BUS_CMD_THRUSTERS_ON = 10"

definition BUS_CMD_THRUSTERS_OFF :: byte where
  BUS_CMD_THRUSTERS_OFF_val [codes]: "BUS_CMD_THRUSTERS_OFF = 11"

definition BUS_CMD_MARKER2 :: byte where
  BUS_CMD_MARKER2_val [codes]: "BUS_CMD_MARKER2 = 12"

definition BUS_CMD_CHECKWATER :: byte where
  BUS_CMD_CHECKWATER_val [codes]: "BUS_CMD_CHECKWATER = 14"

definition BUS_CMD_TEMP :: byte where
  BUS_CMD_TEMP_val [codes]: "BUS_CMD_TEMP = 15"

definition BUS_CMD_BOARDSTATUS :: byte where
  BUS_CMD_BOARDSTATUS_val [codes]: "BUS_CMD_BOARDSTATUS = 16"

definition BUS_CMD_HARDKILL :: byte where
  BUS_CMD_HARDKILL_val [codes]: "BUS_CMD_HARDKILL = 17"

definition BUS_CMD_LCD_LIGHT_FLASH :: byte where
  BUS_CMD_LCD_LIGHT_FLASH_val [codes]: "BUS_CMD_LCD_LIGHT_FLASH = 18"

definition BUS_CMD_THRUSTER1_OFF :: byte where
  BUS_CMD_THRUSTER1_OFF_val [codes]: "BUS_CMD_THRUSTER1_OFF = 19"

definition BUS_CMD_THRUSTER2_OFF :: byte where
  BUS_CMD_THRUSTER2_OFF_val [codes]: "BUS_CMD_THRUSTER2_OFF = 20"

definition BUS_CMD_THRUSTER3_OFF :: byte where
  BUS_CMD_THRUSTER3_OFF_val [codes]: "BUS_CMD_THRUSTER3_OFF = 21"

definition BUS_CMD_THRUSTER4_OFF :: byte where
  BUS_CMD_THRUSTER4_OFF_val [codes]: "BUS_CMD_THRUSTER4_OFF = 22"

definition BUS_CMD_THRUSTER5_OFF :: byte where
  BUS_CMD_THRUSTER5_OFF_val [codes]: "BUS_CMD_THRUSTER5_OFF = 35"

definition BUS_CMD_THRUSTER6_OFF :: byte where
  BUS_CMD_THRUSTER6_OFF_val [codes]: "BUS_CMD_THRUSTER6_OFF = 36"

definition BUS_CMD_THRUSTER1_ON :: byte where
  BUS_CMD_THRUSTER1_ON_val [codes]: "BUS_CMD_THRUSTER1_ON = 23"

definition BUS_CMD_THRUSTER2_ON :: byte where
  BUS_CMD_THRUSTER2_ON_val [codes]: "BUS_CMD_THRUSTER2_ON = 24"

definition BUS_CMD_THRUSTER3_ON :: byte where
  BUS_CMD_THRUSTER3_ON_val [codes]: "BUS_CMD_THRUSTER3_ON = 25"

definition BUS_CMD_THRUSTER4_ON :: byte where
  BUS_CMD_THRUSTER4_ON_val [codes]: "BUS_CMD_THRUSTER4_ON = 26"

definition BUS_CMD_THRUSTER5_ON :: byte where
  BUS_CMD_THRUSTER5_ON_val [codes]: "BUS_CMD_THRUSTER5_ON = 37"

definition BUS_CMD_THRUSTER6_ON :: byte where
  BUS_CMD_THRUSTER6_ON_val [codes]: "BUS_CMD_THRUSTER6_ON = 38"

definition BUS_CMD_THRUSTER_STATE :: byte where
  BUS_CMD_THRUSTER_STATE_val [codes]: "BUS_CMD_THRUSTER_STATE = 28"

definition BUS_CMD_SONAR :: byte where
  BUS_CMD_SONAR_val [codes]: "BUS_CMD_SONAR = 27"

definition BUS_CMD_CLEARU1RX :: byte where
  BUS_CMD_CLEARU1RX_val [codes]: "BUS_CMD_CLEARU1RX = 29"

definition BUS_CMD_CLEARU2RX :: byte where
  BUS_CMD_CLEARU2RX_val [codes]: "BUS_CMD_CLEARU2RX = 30"

definition BUS_CMD_SETSPEED_U1 :: byte where
  BUS_CMD_SETSPEED_U1_val [codes]: "BUS_CMD_SETSPEED_U1 = 31"

definition BUS_CMD_SETSPEED_U2 :: byte where
  BUS_CMD_SETSPEED_U2_val [codes]: "BUS_CMD_SETSPEED_U2 = 32"

definition BUS_CMD_GETREPLY_U1 :: byte where
  BUS_CMD_GETREPLY_U1_val [codes]: "BUS_CMD_GETREPLY_U1 = 33"

definition BUS_CMD_GETREPLY_U2 :: byte where
  BUS_CMD_GETREPLY_U2_val [codes]: "BUS_CMD_GETREPLY_U2 = 34"

definition BUS_CMD_STARTSW :: byte where
  BUS_CMD_STARTSW_val [codes]: "BUS_CMD_STARTSW = 39"

definition BUS_CMD_BATT1_OFF :: byte where
  BUS_CMD_BATT1_OFF_val [codes]: "BUS_CMD_BATT1_OFF = 40"

definition BUS_CMD_BATT2_OFF :: byte where
  BUS_CMD_BATT2_OFF_val [codes]: "BUS_CMD_BATT2_OFF = 41"

definition BUS_CMD_BATT3_OFF :: byte where
  BUS_CMD_BATT3_OFF_val [codes]: "BUS_CMD_BATT3_OFF = 42"

definition BUS_CMD_BATT4_OFF :: byte where
  BUS_CMD_BATT4_OFF_val [codes]: "BUS_CMD_BATT4_OFF = 43"

definition BUS_CMD_BATT5_OFF :: byte where
  BUS_CMD_BATT5_OFF_val [codes]: "BUS_CMD_BATT5_OFF = 44"

definition BUS_CMD_BATT6_OFF :: byte where
  BUS_CMD_BATT6_OFF_val [codes]: "BUS_CMD_BATT6_OFF = 81"

definition BUS_CMD_BATT1_ON :: byte where
  BUS_CMD_BATT1_ON_val [codes]: "BUS_CMD_BATT1_ON = 45"

definition BUS_CMD_BATT2_ON :: byte where
  BUS_CMD_BATT2_ON_val [codes]: "BUS_CMD_BATT2_ON = 46"

definition BUS_CMD_BATT3_ON :: byte where
  BUS_CMD_BATT3_ON_val [codes]: "BUS_CMD_BATT3_ON = 47"

definition BUS_CMD_BATT4_ON :: byte where
  BUS_CMD_BATT4_ON_val [codes]: "BUS_CMD_BATT4_ON = 48"

definition BUS_CMD_BATT5_ON :: byte where
  BUS_CMD_BATT5_ON_val [codes]: "BUS_CMD_BATT5_ON = 49"

definition BUS_CMD_BATT6_ON :: byte where
  BUS_CMD_BATT6_ON_val [codes]: "BUS_CMD_BATT6_ON = 82"

definition BUS_CMD_BAR_COLOR :: byte where
  BUS_CMD_BAR_COLOR_val [codes]: "BUS_CMD_BAR_COLOR = 90"

definition BUS_CMD_BAR1_OFF :: byte where
  BUS_CMD_BAR1_OFF_val [codes]: "BUS_CMD_BAR1_OFF = 50"

definition BUS_CMD_BAR2_OFF :: byte where
  BUS_CMD_BAR2_OFF_val [codes]: "BUS_CMD_BAR2_OFF = 51"

definition BUS_CMD_BAR3_OFF :: byte where
  BUS_CMD_BAR3_OFF_val [codes]: "BUS_CMD_BAR3_OFF = 52"

definition BUS_CMD_BAR4_OFF :: byte where
  BUS_CMD_BAR4_OFF_val [codes]: "BUS_CMD_BAR4_OFF = 53"

definition BUS_CMD_BAR5_OFF :: byte where
  BUS_CMD_BAR5_OFF_val [codes]: "BUS_CMD_BAR5_OFF = 54"

definition BUS_CMD_BAR6_OFF :: byte where
  BUS_CMD_BAR6_OFF_val [codes]: "BUS_CMD_BAR6_OFF = 55"

definition BUS_CMD_BAR7_OFF :: byte where
  BUS_CMD_BAR7_OFF_val [codes]: "BUS_CMD_BAR7_OFF = 56"

definition BUS_CMD_BAR8_OFF :: byte where
  BUS_CMD_BAR8_OFF_val [codes]: "BUS_CMD_BAR8_OFF = 57"

definition BUS_CMD_BAR1_ON :: byte where
  BUS_CMD_BAR1_ON_val [codes]: "BUS_CMD_BAR1_ON = 58"

definition BUS_CMD_BAR2_ON :: byte where
  BUS_CMD_BAR2_ON_val [codes]: "BUS_CMD_BAR2_ON = 59"

definition BUS_CMD_BAR3_ON :: byte where
  BUS_CMD_BAR3_ON_val [codes]: "BUS_CMD_BAR3_ON = 60"

definition BUS_CMD_BAR4_ON :: byte where
  BUS_CMD_BAR4_ON_val [codes]: "BUS_CMD_BAR4_ON = 61"

definition BUS_CMD_BAR5_ON :: byte where
  BUS_CMD_BAR5_ON_val [codes]: "BUS_CMD_BAR5_ON = 62"

definition BUS_CMD_BAR6_ON :: byte where
  BUS_CMD_BAR6_ON_val [codes]: "BUS_CMD_BAR6_ON = 63"

definition BUS_CMD_BAR7_ON :: byte where
  BUS_CMD_BAR7_ON_val [codes]: "BUS_CMD_BAR7_ON = 64"

definition BUS_CMD_BAR8_ON :: byte where
  BUS_CMD_BAR8_ON_val [codes]: "BUS_CMD_BAR8_ON = 65"

definition BUS_CMD_BAR_STATE :: byte where
  BUS_CMD_BAR_STATE_val [codes]: "BUS_CMD_BAR_STATE = 66"

definition BUS_CMD_READ_OVR :: byte where
  BUS_CMD_READ_OVR_val [codes]: "BUS_CMD_READ_OVR = 67"

definition BUS_CMD_READ_IMOTOR :: byte where
  BUS_CMD_READ_IMOTOR_val [codes]: "BUS_CMD_READ_IMOTOR = 68"

definition BUS_CMD_READ_ASTATUS :: byte where
  BUS_CMD_READ_ASTATUS_val [codes]: "BUS_CMD_READ_ASTATUS = 69"

definition BUS_CMD_BATTSTATE :: byte where
  BUS_CMD_BATTSTATE_val [codes]: "BUS_CMD_BATTSTATE = 70"

definition BUS_CMD_BATTVOLTAGE :: byte where
  BUS_CMD_BATTVOLTAGE_val [codes]: "BUS_CMD_BATTVOLTAGE = 71"

definition BUS_CMD_BATTCURRENT :: byte where
  BUS_CMD_BATTCURRENT_val [codes]: "BUS_CMD_BATTCURRENT = 72"

definition BUS_CMD_EXTPOWER :: byte where
  BUS_CMD_EXTPOWER_val [codes]: "BUS_CMD_EXTPOWER = 73"

definition BUS_CMD_INTPOWER :: byte where
  BUS_CMD_INTPOWER_val [codes]: "BUS_CMD_INTPOWER = 74"

definition BUS_CMD_MOTRSPEEDS :: byte where
  BUS_CMD_MOTRSPEEDS_val [codes]: "BUS_CMD_MOTRSPEEDS = 75"

definition BUS_CMD_SET_BARMODE :: byte where
  BUS_CMD_SET_BARMODE_val [codes]: "BUS_CMD_SET_BARMODE = 76"

definition BUS_CMD_BFRESET :: byte where
  BUS_CMD_BFRESET_val [codes]: "BUS_CMD_BFRESET = 77"

definition BUS_CMD_SET_BARS :: byte where
  BUS_CMD_SET_BARS_val [codes]: "BUS_CMD_SET_BARS = 78"

definition BUS_CMD_BFIN_STOP :: byte where
  BUS_CMD_BFIN_STOP_val [codes]: "BUS_CMD_BFIN_STOP = 79"

definition BUS_CMD_BFIN_START :: byte where
  BUS_CMD_BFIN_START_val [codes]: "BUS_CMD_BFIN_START = 80"

definition BUS_CMD_SET_MOT_SPEEDS :: byte where
  BUS_CMD_SET_MOT_SPEEDS_val [codes]: "BUS_CMD_SET_MOT_SPEEDS = 83"

definition BUS_CMD_KILL_MOTORS :: byte where
  BUS_CMD_KILL_MOTORS_val [codes]: "BUS_CMD_KILL_MOTORS = 84"

definition BUS_CMD_SET_MOT_N :: byte where
  BUS_CMD_SET_MOT_N_val [codes]: "BUS_CMD_SET_MOT_N = 85"

definition BUS_CMD_SERVO_POWER_ON :: byte where
  BUS_CMD_SERVO_POWER_ON_val [codes]: "BUS_CMD_SERVO_POWER_ON = 86"

definition BUS_CMD_MAG_PWR_ON :: byte where
  BUS_CMD_MAG_PWR_ON_val [codes]: "BUS_CMD_MAG_PWR_ON = 86"

definition BUS_CMD_SERVO_POWER_OFF :: byte where
  BUS_CMD_SERVO_POWER_OFF_val [codes]: "BUS_CMD_SERVO_POWER_OFF = 87"

definition BUS_CMD_MAG_PWR_OFF :: byte where
  BUS_CMD_MAG_PWR_OFF_val [codes]: "BUS_CMD_MAG_PWR_OFF = 87"

definition BUS_CMD_SERVO_ENABLE :: byte where
  BUS_CMD_SERVO_ENABLE_val [codes]: "BUS_CMD_SERVO_ENABLE = 88"

definition BUS_CMD_SET_SERVO_POS :: byte where
  BUS_CMD_SET_SERVO_POS_val [codes]: "BUS_CMD_SET_SERVO_POS = 89"

definition BUS_CMD_DVL_ON :: byte where
  BUS_CMD_DVL_ON_val [codes]: "BUS_CMD_DVL_ON = 91"

definition BUS_CMD_DVL_OFF :: byte where
  BUS_CMD_DVL_OFF_val [codes]: "BUS_CMD_DVL_OFF = 92"

definition BUS_CMD_FIRE_TORP_1 :: byte where
  BUS_CMD_FIRE_TORP_1_val [codes]: "BUS_CMD_FIRE_TORP_1 = 93"

definition BUS_CMD_FIRE_TORP_2 :: byte where
  BUS_CMD_FIRE_TORP_2_val [codes]: "BUS_CMD_FIRE_TORP_2 = 94"

definition BUS_CMD_VOID_TORP_1 :: byte where
  BUS_CMD_VOID_TORP_1_val [codes]: "BUS_CMD_VOID_TORP_1 = 95"

definition BUS_CMD_VOID_TORP_2 :: byte where
  BUS_CMD_VOID_TORP_2_val [codes]: "BUS_CMD_VOID_TORP_2 = 96"

definition BUS_CMD_ARM_TORP_1 :: byte where
  BUS_CMD_ARM_TORP_1_val [codes]: "BUS_CMD_ARM_TORP_1 = 97"

definition BUS_CMD_ARM_TORP_2 :: byte where
  BUS_CMD_ARM_TORP_2_val [codes]: "BUS_CMD_ARM_TORP_2 = 98"

definition BUS_CMD_EXT_GRABBER :: byte where
  BUS_CMD_EXT_GRABBER_val [codes]: "BUS_CMD_EXT_GRABBER = 99"

definition BUS_CMD_RET_GRABBER :: byte where
  BUS_CMD_RET_GRABBER_val [codes]: "BUS_CMD_RET_GRABBER = 100"

definition BUS_CMD_VOID_GRABBER :: byte where
  BUS_CMD_VOID_GRABBER_val [codes]: "BUS_CMD_VOID_GRABBER = 101"

definition BUS_CMD_VOID_PNEU :: byte where
  BUS_CMD_VOID_PNEU_val [codes]: "BUS_CMD_VOID_PNEU = 102"

definition BUS_CMD_OFF_PNEU :: byte where
  BUS_CMD_OFF_PNEU_val [codes]: "BUS_CMD_OFF_PNEU = 103"

definition BUS_CMD_DERPY_ON :: byte where
  BUS_CMD_DERPY_ON_val [codes]: "BUS_CMD_DERPY_ON = 104"

definition BUS_CMD_DERPY_OFF :: byte where
  BUS_CMD_DERPY_OFF_val [codes]: "BUS_CMD_DERPY_OFF = 105"

definition BUS_CMD_SET_DERPY :: byte where
  BUS_CMD_SET_DERPY_val [codes]: "BUS_CMD_SET_DERPY = 106"

definition BUS_CMD_STOP_DERPY :: byte where
  BUS_CMD_STOP_DERPY_val [codes]: "BUS_CMD_STOP_DERPY = 107"

definition BUS_CMD_CAM_RELAY_ON :: byte where
  BUS_CMD_CAM_RELAY_ON_val [codes]: "BUS_CMD_CAM_RELAY_ON = 108"

definition BUS_CMD_CAM_RELAY_OFF :: byte where
  BUS_CMD_CAM_RELAY_OFF_val [codes]: "BUS_CMD_CAM_RELAY_OFF = 109"

section \<open>Commands of the host to the master, and the replies\<close>

definition HOST_CMD_SYNC :: byte where
  HOST_CMD_SYNC_val [codes]: "HOST_CMD_SYNC = 255"

definition HOST_CMD_PING :: byte where
  HOST_CMD_PING_val [codes]: "HOST_CMD_PING = 0"

definition HOST_REPLY_SUCCESS :: byte where
  HOST_REPLY_SUCCESS_val [codes]: "HOST_REPLY_SUCCESS = 188"

definition HOST_REPLY_FAILURE :: byte where
  HOST_REPLY_FAILURE_val [codes]: "HOST_REPLY_FAILURE = 223"

definition HOST_REPLY_BADCHKSUM :: byte where
  HOST_REPLY_BADCHKSUM_val [codes]: "HOST_REPLY_BADCHKSUM = 204"

definition HOST_CMD_SYSCHECK :: byte where
  HOST_CMD_SYSCHECK_val [codes]: "HOST_CMD_SYSCHECK = 1"

definition HOST_CMD_DEPTH :: byte where
  HOST_CMD_DEPTH_val [codes]: "HOST_CMD_DEPTH = 2"

definition HOST_REPLY_DEPTH :: byte where
  HOST_REPLY_DEPTH_val [codes]: "HOST_REPLY_DEPTH = 3"

definition HOST_CMD_BOARDSTATUS :: byte where
  HOST_CMD_BOARDSTATUS_val [codes]: "HOST_CMD_BOARDSTATUS = 4"

definition HOST_REPLY_BOARDSTATUS :: byte where
  HOST_REPLY_BOARDSTATUS_val [codes]: "HOST_REPLY_BOARDSTATUS = 5"

definition HOST_CMD_HARDKILL :: byte where
  HOST_CMD_HARDKILL_val [codes]: "HOST_CMD_HARDKILL = 6"

definition HOST_CMD_MARKER :: byte where
  HOST_CMD_MARKER_val [codes]: "HOST_CMD_MARKER = 7"

definition HOST_CMD_BACKLIGHT :: byte where
  HOST_CMD_BACKLIGHT_val [codes]: "HOST_CMD_BACKLIGHT = 8"

definition HOST_CMD_THRUSTERS :: byte where
  HOST_CMD_THRUSTERS_val [codes]: "HOST_CMD_THRUSTERS = 9"

definition HOST_CMD_TEMPERATURE :: byte where
  HOST_CMD_TEMPERATURE_val [codes]: "HOST_CMD_TEMPERATURE = 10"

definition HOST_REPLY_TEMPERATURE :: byte where
  HOST_REPLY_TEMPERATURE_val [codes]: "HOST_REPLY_TEMPERATURE = 11"

definition HOST_CMD_PRINTTEXT :: byte where
  HOST_CMD_PRINTTEXT_val [codes]: "HOST_CMD_PRINTTEXT = 12"

definition HOST_CMD_SONAR :: byte where
  HOST_CMD_SONAR_val [codes]: "HOST_CMD_SONAR = 13"

definition HOST_REPLY_SONAR :: byte where
  HOST_REPLY_SONAR_val [codes]: "HOST_REPLY_SONAR = 14"

definition HOST_CMD_RUNTIMEDIAG :: byte where
  HOST_CMD_RUNTIMEDIAG_val [codes]: "HOST_CMD_RUNTIMEDIAG = 15"

definition HOST_CMD_THRUSTERSTATE :: byte where
  HOST_CMD_THRUSTERSTATE_val [codes]: "HOST_CMD_THRUSTERSTATE = 16"

definition HOST_REPLY_THRUSTERSTATE :: byte where
  HOST_REPLY_THRUSTERSTATE_val [codes]: "HOST_REPLY_THRUSTERSTATE = 17"

definition HOST_CMD_SETSPEED :: byte where
  HOST_CMD_SETSPEED_val [codes]: "HOST_CMD_SETSPEED = 18"

definition HOST_CMD_MOTOR_READ :: byte where
  HOST_CMD_MOTOR_READ_val [codes]: "HOST_CMD_MOTOR_READ = 19"

definition HOST_CMD_MOTOR_REPLY :: byte where
  HOST_CMD_MOTOR_REPLY_val [codes]: "HOST_CMD_MOTOR_REPLY = 20"

definition HOST_CMD_BARS :: byte where
  HOST_CMD_BARS_val [codes]: "HOST_CMD_BARS = 21"

definition HOST_CMD_BARSTATE :: byte where
  HOST_CMD_BARSTATE_val [codes]: "HOST_CMD_BARSTATE = 22"

definition HOST_REPLY_BARSTATE :: byte where
  HOST_REPLY_BARSTATE_val [codes]: "HOST_REPLY_BARSTATE = 23"

definition HOST_CMD_IMOTOR :: byte where
  HOST_CMD_IMOTOR_val [codes]: "HOST_CMD_IMOTOR = 24"

definition HOST_REPLY_IMOTOR :: byte where
  HOST_REPLY_IMOTOR_val [codes]: "HOST_REPLY_IMOTOR = 25"

definition HOST_CMD_VLOW :: byte where
  HOST_CMD_VLOW_val [codes]: "HOST_CMD_VLOW = 26"

definition HOST_REPLY_VLOW :: byte where
  HOST_REPLY_VLOW_val [codes]: "HOST_REPLY_VLOW = 27"

definition HOST_CMD_READ_OVR :: byte where
  HOST_CMD_READ_OVR_val [codes]: "HOST_CMD_READ_OVR = 28"

definition HOST_REPLY_OVR :: byte where
  HOST_REPLY_OVR_val [codes]: "HOST_REPLY_OVR = 29"

definition HOST_CMD_BATTSTATE :: byte where
  HOST_CMD_BATTSTATE_val [codes]: "HOST_CMD_BATTSTATE = 30"

definition HOST_REPLY_BATTSTATE :: byte where
  HOST_REPLY_BATTSTATE_val [codes]: "HOST_REPLY_BATTSTATE = 31"

definition HOST_CMD_BATTCTL :: byte where
  HOST_CMD_BATTCTL_val [codes]: "HOST_CMD_BATTCTL = 32"

definition HOST_CMD_BATTVOLTAGE :: byte where
  HOST_CMD_BATTVOLTAGE_val [codes]: "HOST_CMD_BATTVOLTAGE = 33"

definition HOST_REPLY_BATTVOLTAGE :: byte where
  HOST_REPLY_BATTVOLTAGE_val [codes]: "HOST_REPLY_BATTVOLTAGE = 34"

definition HOST_CMD_BATTCURRENT :: byte where
  HOST_CMD_BATTCURRENT_val [codes]: "HOST_CMD_BATTCURRENT = 35"

definition HOST_REPLY_BATTCURRENT :: byte where
  HOST_REPLY_BATTCURRENT_val [codes]: "HOST_REPLY_BATTCURRENT = 36"

definition HOST_CMD_SWITCHPOWER :: byte where
  HOST_CMD_SWITCHPOWER_val [codes]: "HOST_CMD_SWITCHPOWER = 37"

definition HOST_CMD_READ_OVRLIMIT :: byte where
  HOST_CMD_READ_OVRLIMIT_val [codes]: "HOST_CMD_READ_OVRLIMIT = 38"

definition HOST_REPLY_OVRLIMIT :: byte where
  HOST_REPLY_OVRLIMIT_val [codes]: "HOST_REPLY_OVRLIMIT = 39"

definition HOST_CMD_SET_OVRLIMIT :: byte where
  HOST_CMD_SET_OVRLIMIT_val [codes]: "HOST_CMD_SET_OVRLIMIT = 40"

definition HOST_CMD_BFRESET :: byte where
  HOST_CMD_BFRESET_val [codes]: "HOST_CMD_BFRESET = 41"

definition HOST_CMD_BARANIMATION :: byte where
  HOST_CMD_BARANIMATION_val [codes]: "HOST_CMD_BARANIMATION = 42"

definition HOST_CMD_SET_BARS :: byte where
  HOST_CMD_SET_BARS_val [codes]: "HOST_CMD_SET_BARS = 43"

definition HOST_CMD_BFIN_STATE :: byte where
  HOST_CMD_BFIN_STATE_val [codes]: "HOST_CMD_BFIN_STATE = 44"

definition HOST_CMD_SERVO_ENABLE :: byte where
  HOST_CMD_SERVO_ENABLE_val [codes]: "HOST_CMD_SERVO_ENABLE = 45"

definition HOST_CMD_SET_SERVO_POS :: byte where
  HOST_CMD_SET_SERVO_POS_val [codes]: "HOST_CMD_SET_SERVO_POS = 46"

definition HOST_CMD_SERVO_POWER_ON :: byte where
  HOST_CMD_SERVO_POWER_ON_val [codes]: "HOST_CMD_SERVO_POWER_ON = 47"

definition HOST_CMD_MAG_PWR_ON :: byte where
  HOST_CMD_MAG_PWR_ON_val [codes]: "HOST_CMD_MAG_PWR_ON = 47"

definition HOST_CMD_SERVO_POWER_OFF :: byte where
  HOST_CMD_SERVO_POWER_OFF_val [codes]: "HOST_CMD_SERVO_POWER_OFF = 48"

definition HOST_CMD_MAG_PWR_OFF :: byte where
  HOST_CMD_MAG_PWR_OFF_val [codes]: "HOST_CMD_MAG_PWR_OFF = 48"

definition HOST_CMD_DVL_ON :: byte where
  HOST_CMD_DVL_ON_val [codes]: "HOST_CMD_DVL_ON = 50"

definition HOST_CMD_DVL_OFF :: byte where
  HOST_CMD_DVL_OFF_val [codes]: "HOST_CMD_DVL_OFF = 51"

definition HOST_CMD_FIRE_TORP_1 :: byte where
  HOST_CMD_FIRE_TORP_1_val [codes]: "HOST_CMD_FIRE_TORP_1 = 52"

definition HOST_CMD_FIRE_TORP_2 :: byte where
  HOST_CMD_FIRE_TORP_2_val [codes]: "HOST_CMD_FIRE_TORP_2 = 53"

definition HOST_CMD_VOID_TORP_1 :: byte where
  HOST_CMD_VOID_TORP_1_val [codes]: "HOST_CMD_VOID_TORP_1 = 54"

definition HOST_CMD_VOID_TORP_2 :: byte where
  HOST_CMD_VOID_TORP_2_val [codes]: "HOST_CMD_VOID_TORP_2 = 55"

definition HOST_CMD_ARM_TORP_1 :: byte where
  HOST_CMD_ARM_TORP_1_val [codes]: "HOST_CMD_ARM_TORP_1 = 56"

definition HOST_CMD_ARM_TORP_2 :: byte where
  HOST_CMD_ARM_TORP_2_val [codes]: "HOST_CMD_ARM_TORP_2 = 57"

definition HOST_CMD_EXT_GRABBER :: byte where
  HOST_CMD_EXT_GRABBER_val [codes]: "HOST_CMD_EXT_GRABBER = 58"

definition HOST_CMD_RET_GRABBER :: byte where
  HOST_CMD_RET_GRABBER_val [codes]: "HOST_CMD_RET_GRABBER = 59"

definition HOST_CMD_VOID_GRABBER :: byte where
  HOST_CMD_VOID_GRABBER_val [codes]: "HOST_CMD_VOID_GRABBER = 60"

definition HOST_CMD_VOID_PNEU :: byte where
  HOST_CMD_VOID_PNEU_val [codes]: "HOST_CMD_VOID_PNEU = 61"

definition HOST_CMD_OFF_PNEU :: byte where
  HOST_CMD_OFF_PNEU_val [codes]: "HOST_CMD_OFF_PNEU = 62"

definition HOST_CMD_DERPY_ON :: byte where
  HOST_CMD_DERPY_ON_val [codes]: "HOST_CMD_DERPY_ON = 63"

definition HOST_CMD_DERPY_OFF :: byte where
  HOST_CMD_DERPY_OFF_val [codes]: "HOST_CMD_DERPY_OFF = 64"

definition HOST_CMD_SET_DERPY :: byte where
  HOST_CMD_SET_DERPY_val [codes]: "HOST_CMD_SET_DERPY = 65"

definition HOST_CMD_STOP_DERPY :: byte where
  HOST_CMD_STOP_DERPY_val [codes]: "HOST_CMD_STOP_DERPY = 66"

definition HOST_CMD_CAM_RELAY_ON :: byte where
  HOST_CMD_CAM_RELAY_ON_val [codes]: "HOST_CMD_CAM_RELAY_ON = 67"

definition HOST_CMD_CAM_RELAY_OFF :: byte where
  HOST_CMD_CAM_RELAY_OFF_val [codes]: "HOST_CMD_CAM_RELAY_OFF = 68"

section \<open>Lengths\<close>

definition SONAR_PACKET_LEN :: nat where
  SONAR_PACKET_LEN_val [codes]: "SONAR_PACKET_LEN = 22"

section \<open>Slave numbers\<close>

definition IRQ_IC2 :: byte where
  IRQ_IC2_val [codes]: "IRQ_IC2 = 2"

definition IRQ_IC3 :: byte where
  IRQ_IC3_val [codes]: "IRQ_IC3 = 1"

definition IRQ_IC4 :: byte where
  IRQ_IC4_val [codes]: "IRQ_IC4 = 0"

definition IRQ_DISTRO :: byte where
  IRQ_DISTRO_val [codes]: "IRQ_DISTRO = 3"

definition IRQ_BALANCER :: byte where
  IRQ_BALANCER_val [codes]: "IRQ_BALANCER = 4"

definition IRQ_SONAR :: byte where
  IRQ_SONAR_val [codes]: "IRQ_SONAR = 5"

definition IRQ_MOTOR :: byte where
  IRQ_MOTOR_val [codes]: "IRQ_MOTOR = 6"

definition SLAVE_ID_POWERBOARD :: byte where
  SLAVE_ID_POWERBOARD_val [codes]: "SLAVE_ID_POWERBOARD = IRQ_DISTRO"

definition SLAVE_ID_DEPTH :: byte where
  SLAVE_ID_DEPTH_val [codes]: "SLAVE_ID_DEPTH = IRQ_IC4"

definition SLAVE_ID_THRUSTERS :: byte where
  SLAVE_ID_THRUSTERS_val [codes]: "SLAVE_ID_THRUSTERS = IRQ_DISTRO"

definition SLAVE_ID_MARKERS :: byte where
  SLAVE_ID_MARKERS_val [codes]: "SLAVE_ID_MARKERS = IRQ_MOTOR"

definition SLAVE_ID_TEMP :: byte where
  SLAVE_ID_TEMP_val [codes]: "SLAVE_ID_TEMP = IRQ_IC3"

definition SLAVE_ID_LCD :: byte where
  SLAVE_ID_LCD_val [codes]: "SLAVE_ID_LCD = IRQ_IC2"

definition SLAVE_ID_HARDKILL :: byte where
  SLAVE_ID_HARDKILL_val [codes]: "SLAVE_ID_HARDKILL = IRQ_BALANCER"

definition SLAVE_ID_SONAR :: byte where
  SLAVE_ID_SONAR_val [codes]: "SLAVE_ID_SONAR = IRQ_SONAR"

definition SLAVE_ID_STARTSW :: byte where
  SLAVE_ID_STARTSW_val [codes]: "SLAVE_ID_STARTSW = IRQ_IC3"

definition SLAVE_ID_KILLSW :: byte where
  SLAVE_ID_KILLSW_val [codes]: "SLAVE_ID_KILLSW = IRQ_DISTRO"

definition SLAVE_ID_BATTSTAT :: byte where
  SLAVE_ID_BATTSTAT_val [codes]: "SLAVE_ID_BATTSTAT = IRQ_BALANCER"

definition SLAVE_ID_BARS :: byte where
  SLAVE_ID_BARS_val [codes]: "SLAVE_ID_BARS = IRQ_DISTRO"

definition SLAVE_ID_IMOTOR :: byte where
  SLAVE_ID_IMOTOR_val [codes]: "SLAVE_ID_IMOTOR = IRQ_DISTRO"

definition SLAVE_ID_VLOW :: byte where
  SLAVE_ID_VLOW_val [codes]: "SLAVE_ID_VLOW = IRQ_DISTRO"

definition SLAVE_ID_DVL :: byte where
  SLAVE_ID_DVL_val [codes]: "SLAVE_ID_DVL = IRQ_DISTRO"

definition SLAVE_ID_MOTOR :: byte where
  SLAVE_ID_MOTOR_val [codes]: "SLAVE_ID_MOTOR = IRQ_MOTOR"

definition SLAVE_ID_TORPEDO :: byte where
  SLAVE_ID_TORPEDO_val [codes]: "SLAVE_ID_TORPEDO = IRQ_MOTOR"

definition SLAVE_ID_GRABBER :: byte where
  SLAVE_ID_GRABBER_val [codes]: "SLAVE_ID_GRABBER = IRQ_MOTOR"

definition SLAVE_ID_MM1 :: byte where
  SLAVE_ID_MM1_val [codes]: "SLAVE_ID_MM1 = IRQ_IC2"

definition SLAVE_ID_MM2 :: byte where
  SLAVE_ID_MM2_val [codes]: "SLAVE_ID_MM2 = IRQ_IC2"

definition SLAVE_ID_MM3 :: byte where
  SLAVE_ID_MM3_val [codes]: "SLAVE_ID_MM3 = IRQ_IC3"

definition SLAVE_ID_MM4 :: byte where
  SLAVE_ID_MM4_val [codes]: "SLAVE_ID_MM4 = IRQ_IC3"

definition SLAVE_ID_MM5 :: byte where
  SLAVE_ID_MM5_val [codes]: "SLAVE_ID_MM5 = IRQ_IC4"

definition SLAVE_ID_MM6 :: byte where
  SLAVE_ID_MM6_val [codes]: "SLAVE_ID_MM6 = IRQ_IC4"

text \<open>The build of the file defines \<^verbatim>\<open>MOTORBOARD\<close>: seven chips are on the bus.\<close>

definition NUM_SLAVES :: nat where
  NUM_SLAVES_val [codes]: "NUM_SLAVES = 7"

definition postList :: "byte list" where
  "postList = [IRQ_IC2, IRQ_IC3, IRQ_IC4, IRQ_DISTRO, IRQ_BALANCER, IRQ_SONAR, IRQ_MOTOR]"

end
