(* ===== verification/Common.thy ===== *)
theory Common
  imports BusCodes
begin

text \<open>
  Pure helpers of the firmware: the frame checksum of \<^verbatim>\<open>sbr9/common.c\<close> and the thruster speed
  conversion of \<^verbatim>\<open>sbr9/ic1.c\<close>.
\<close>

section \<open>The checksum\<close>

function chksum_loop :: "byte list \<Rightarrow> nat \<Rightarrow> nat \<Rightarrow> byte \<Rightarrow> byte" where
  "chksum_loop buffer n i acc =
     (if i < n then chksum_loop buffer n (Suc i) (acc + buffer ! i) else acc)"
  by pat_completeness auto
termination
  by (relation "measure (\<lambda>(buffer, n, i, acc). n - i)") auto

declare chksum_loop.simps [simp del]

definition chksum :: "byte list \<Rightarrow> nat \<Rightarrow> byte \<Rightarrow> byte" where
  "chksum buffer n extra = (chksum_loop buffer n 0 0 + extra) AND 0xFF"

lemma byte_AND_255 [simp]: "(b :: byte) AND 255 = b"
proof -
  have "(255 :: byte) = - 1" by simp
  then show ?thesis by (simp only: bit.conj_one_right)
qed

lemma chksum_loop_sum:
  "i \<le> n \<Longrightarrow> n \<le> length buf \<Longrightarrow> chksum_loop buf n i c = c + sum_list (drop i (take n buf))"
proof (induction buf n i c rule: chksum_loop.induct)
  case (1 buf n i c)
  show ?case
  proof (cases "i < n")
    case True
    then have "drop i (take n buf) = buf ! i # drop (Suc i) (take n buf)"
      using "1.prems" by (simp add: Cons_nth_drop_Suc [symmetric])
    with True "1.IH" "1.prems" show ?thesis
      by (simp add: chksum_loop.simps [of buf n i] add.assoc)
  next
    case False
    then show ?thesis by (simp add: chksum_loop.simps [of buf n i])
  qed
qed

text \<open>The reference definition: the sum of the first \<open>n\<close> bytes and the extra byte.\<close>

lemma chksum_sum:
  "n \<le> length buf \<Longrightarrow> chksum buf n extra = sum_list (take n buf) + extra"
  by (simp add: chksum_def chksum_loop_sum)

lemma chksum_take [simp]:
  "chksum (xs @ ys) (length xs) extra = sum_list xs + extra"
  by (simp add: chksum_sum)

lemma sum_list_update_byte:
  "i < length xs \<Longrightarrow> sum_list (xs[i := b]) = sum_list xs - xs ! i + (b :: byte)"
proof (induction xs arbitrary: i)
  case (Cons x xs)
  then show ?case by (cases i) simp_all
qed simp

lemma chksum_update_iff:
  assumes "i < n" and "n \<le> length buf"
  shows "chksum (buf[i := b]) n extra = chksum buf n extra \<longleftrightarrow> b = buf ! i"
proof -
  have "take n (buf[i := b]) = (take n buf)[i := b]"
    by (simp add: take_update_swap)
  with assms have "chksum (buf[i := b]) n extra = chksum buf n extra - buf ! i + b"
    by (simp add: chksum_sum sum_list_update_byte)
  moreover have "c - x + b = c \<longleftrightarrow> b = x" for c x :: byte
    by (auto simp: algebra_simps)
  ultimately show ?thesis by simp
qed

section \<open>The thruster speed conversion\<close>

text \<open>
  \<^verbatim>\<open>short\<close> is 16 bits and \<^verbatim>\<open>long\<close> 32 bits on the dsPIC; \<^verbatim>\<open>>>=\<close> on a signed value is
  arithmetic.
\<close>

definition convertSpeed :: "byte \<Rightarrow> byte \<Rightarrow> byte" where
  "convertSpeed high low =
     (let therealchunk = ucast high :: word16;
          therealchunk = push_bit 8 therealchunk;
          therealchunk = therealchunk OR ucast low;
          multTemp = scast therealchunk :: 32 word;
          multTemp = multTemp * 102;
          multTemp = (if multTemp <s 0 then multTemp + 0x3FF else multTemp);
          multTemp = signed_drop_bit 10 multTemp
      in if multTemp <s 0 then ucast (0x7F + multTemp) else ucast (0x80 + multTemp))"

text \<open>The big-endian 16-bit speed of a packet, and its scaling by 102/1024 towards zero.\<close>

definition speed16 :: "byte \<Rightarrow> byte \<Rightarrow> int" where
  "speed16 high low = sint (word_cat high low :: word16)"

definition scaled :: "int \<Rightarrow> int" where
  "scaled v = (if v < 0 then - ((- v * 102) div 1024) else (v * 102) div 1024)"

lemma sint_word_of_int_32: "- (2 ^ 31) \<le> i \<Longrightarrow> i < 2 ^ 31 \<Longrightarrow> sint (word_of_int i :: 32 word) = i"
  by (simp add: int_word_sint)

lemma chunk_eq: "push_bit 8 (ucast high :: word16) OR ucast low = (word_cat (high :: byte) (low :: byte) :: word16)"
  by (rule bit_word_eqI) (auto simp: bit_simps bit_word_cat_iff dest: bit_imp_le_length)

lemma speed16_bounds: "- 32768 \<le> speed16 high low" "speed16 high low < 32768"
  using sint_range_size [of "word_cat high low :: word16"] by (simp_all add: speed16_def word_size)

lemma scast_chunk: "(scast (word_cat high low :: word16) :: 32 word) = word_of_int (speed16 high low)"
  unfolding speed16_def by (rule scast_eq)

lemma ceil_div: "(x + 1023) div 1024 = - ((- x) div (1024 :: int))"
proof -
  define y where "y = - x"
  define q r where "q = y div 1024" and "r = y mod 1024"
  have "y = q * 1024 + r" by (simp add: q_def r_def)
  moreover have "0 \<le> r" "r < 1024" by (simp_all add: r_def)
  ultimately have "(x + 1023) div 1024 = - q"
    by (intro int_div_pos_eq [where r = "1023 - r"]) (simp_all add: y_def)
  then show ?thesis by (simp add: q_def y_def)
qed

lemma shifted_speed:
  fixes v :: int
  assumes "- 32768 \<le> v" "v < 32768"
  defines "m \<equiv> (word_of_int v :: 32 word) * 102"
  shows "sint (signed_drop_bit 10 (if m <s 0 then m + 0x3FF else m)) = scaled v"
proof -
  have m: "m = word_of_int (v * 102)"
    unfolding m_def by (simp add: wi_hom_mult)
  have s: "sint m = v * 102"
    unfolding m by (rule sint_word_of_int_32) (use assms in simp_all)
  have "sint (m + 0x3FF) = v * 102 + 1023"
  proof -
    have "m + 0x3FF = word_of_int (v * 102 + 1023)" unfolding m by (simp add: wi_hom_add)
    then show ?thesis by (simp only:) (rule sint_word_of_int_32, use assms in simp_all)
  qed
  moreover have "(v * 102 + 1023) div 1024 = - ((- v * 102) div 1024)" using ceil_div [of "v * 102"] by simp
  ultimately show ?thesis
    by (auto simp: word_sless_alt s sint_signed_drop_bit_eq drop_bit_eq_div scaled_def)
qed

lemma convertSpeed_spec:
  "convertSpeed high low =
     (let q = scaled (speed16 high low) in word_of_int (if q < 0 then 127 + q else 128 + q))"
proof -
  define w :: "32 word" where
    "w = signed_drop_bit 10
       (if word_of_int (speed16 high low) * 102 <s (0 :: 32 word)
        then word_of_int (speed16 high low) * 102 + 0x3FF
        else word_of_int (speed16 high low) * 102)"
  have w: "sint w = scaled (speed16 high low)"
    unfolding w_def by (rule shifted_speed [OF speed16_bounds])
  have "ucast (c + w) = (word_of_int (uint c + sint w) :: byte)" for c
  proof -
    have "c + w = word_of_int (uint c + sint w)"
      by (simp add: wi_hom_add [symmetric])
    then show ?thesis by (simp only:) (rule ucast_down_wi, simp add: is_down)
  qed
  then show ?thesis
    unfolding convertSpeed_def Let_def chunk_eq scast_chunk w_def [symmetric]
    by (simp add: word_sless_alt w)
qed

lemma scaled_mono: "v \<le> w \<Longrightarrow> scaled v \<le> scaled w"
  by (auto simp: scaled_def zdiv_mono1 intro: order_trans [of _ 0])

lemma scaled_bounds:
  assumes "\<bar>v\<bar> \<le> 1285"
  shows "- 127 \<le> scaled v" "scaled v \<le> 127"
  using scaled_mono [of "- 1285" v] scaled_mono [of v 1285] assms by (simp_all add: scaled_def)

lemma uint_convertSpeed:
  assumes "\<bar>speed16 high low\<bar> \<le> 1285"
  shows "uint (convertSpeed high low) =
    (if scaled (speed16 high low) < 0 then 127 + scaled (speed16 high low)
     else 128 + scaled (speed16 high low))"
  using scaled_bounds [OF assms]
  by (simp add: convertSpeed_spec Let_def uint_word_of_int)

text \<open>
  Property C40.  For every commanded speed of magnitude at most 1285 the byte sent to the motor
  board does not wrap: it is at least 128 exactly when the scaled speed is not negative, and
  a larger speed never gives a smaller byte.
\<close>

theorem convertSpeed_in_range:
  assumes "\<bar>speed16 h l\<bar> \<le> 1285" and "\<bar>speed16 h' l'\<bar> \<le> 1285"
  shows "(128 \<le> uint (convertSpeed h l) \<longleftrightarrow> 0 \<le> scaled (speed16 h l))
    \<and> \<bar>uint (convertSpeed h l) - 128 - scaled (speed16 h l)\<bar> \<le> 1
    \<and> (speed16 h l \<le> speed16 h' l' \<longrightarrow> uint (convertSpeed h l) \<le> uint (convertSpeed h' l'))"
proof (intro conjI impI)
  show "128 \<le> uint (convertSpeed h l) \<longleftrightarrow> 0 \<le> scaled (speed16 h l)"
    using assms(1) by (simp add: uint_convertSpeed)
  show "\<bar>uint (convertSpeed h l) - 128 - scaled (speed16 h l)\<bar> \<le> 1"
    using assms(1) by (simp add: uint_convertSpeed)
  assume "speed16 h l \<le> speed16 h' l'"
  then show "uint (convertSpeed h l) \<le> uint (convertSpeed h' l')"
    using scaled_mono [of "speed16 h l" "speed16 h' l'"] assms by (simp add: uint_convertSpeed)
qed

lemma speed16_ff: "speed16 0xFB 0 = - 1280" "speed16 5 0 = 1280" "speed16 5 6 = 1286" "speed16 5 5 = 1285"
  by (simp_all add: speed16_def word_cat_eq' concat_bit_def)

theorem convertSpeed_in_range_witness:
  "(128 \<le> uint (convertSpeed 0xFB 0) \<longleftrightarrow> 0 \<le> scaled (- 1280))
    \<and> uint (convertSpeed 0xFB 0) \<le> uint (convertSpeed 5 0)"
  using convertSpeed_in_range [where h = "0xFB" and l = 0 and h' = 5 and l' = 0] by (simp add: speed16_ff)

text \<open>
  The conversion has no guard: the next speed, 1286, comes out as the byte 0,
  full reverse, although the speed asked for is forward.
\<close>

theorem convertSpeed_wraps: "speed16 5 6 = 1286 \<and> convertSpeed 5 6 = 0 \<and> convertSpeed 5 5 = 0xFF"
  by (simp add: speed16_ff convertSpeed_spec scaled_def Let_def)

end
