(* ===== verification/Master.thy ===== *)
theory Master
  imports Common
begin

text \<open>
  The state of the master chip (\<^verbatim>\<open>sbr9/ic1.c\<close>) and its pins.  Everything beyond the pins, the
  slave chips above all, is an environment of any type \<open>'e\<close>: a \<open>bus_env\<close> says how it moves
  between two samples of the pins, given what the master drives, and what the pins read.
\<close>

section \<open>The environment of the bus\<close>

text \<open>
  What the master drives: the RW line, one Req line per slave, and those of the eight bus lines
  it has taken out of high impedance (\<open>d_mask\<close>) with their levels.
\<close>

record drive =
  d_rw :: bool
  d_req :: "nat \<Rightarrow> bool"
  d_mask :: byte
  d_data :: byte

record 'e bus_env =
  advance :: "drive \<Rightarrow> 'e \<Rightarrow> 'e"
  obs_akn :: "'e \<Rightarrow> bool"
  obs_portE :: "'e \<Rightarrow> word16"
  obs_rd0 :: "'e \<Rightarrow> bool"
  obs_rd1 :: "'e \<Rightarrow> bool"

section \<open>The state of the master\<close>

text \<open>
  One timer of the dsPIC with its interrupt bits.
\<close>

record timer =
  PR :: word16
  TMR :: word16
  TIF :: bool
  TIE :: bool
  TCS :: bool
  TCKPS :: nat
  TON :: bool

text \<open>
  What an iteration of a loop that waits on the serial link can find: nothing, a received byte,
  a new level of the USB detection pin, or Timer 1 having expired since the last iteration.
\<close>

datatype uart_event = No_data | Byte byte | Usb_pin bool | T1_expired

text \<open>
  Registers, global variables, and \<open>t1\<close>, the local of \<^verbatim>\<open>main\<close> that survives from one command to
  the next.  \<open>rx\<close> is the trace of events of the serial link still to come, \<open>tx\<close> the bytes sent to
  the host so far.
\<close>

record 'e master =
  env :: 'e
  IN_AKN :: bool
  PORTE :: word16
  RD0 :: bool
  RD1 :: bool
  TRISE :: word16
  TRISD0 :: bool
  TRISD1 :: bool
  LATE :: word16
  LATD0 :: bool
  LATD1 :: bool
  LAT_RW :: bool
  LAT_IRQ :: "nat \<Rightarrow> bool"
  LAT_LED_ERR :: bool
  LAT_LED_ACT :: bool
  usb :: bool
  rx :: "uart_event list"
  tx :: "byte list"
  timer1 :: timer
  timer2 :: timer
  failsafeTripped :: bool
  diagMsg :: byte
  rxBuf :: "byte list"
  t1 :: int

type_synonym ('a, 'e) fw = "'e master \<Rightarrow> ('a, 'e master) outcome"

definition TRIS_OUT :: bool where [codes]: "TRIS_OUT = False"
definition TRIS_IN :: bool where [codes]: "TRIS_IN = True"
definition RW_READ :: bool where [codes]: "RW_READ = False"
definition RW_WRITE :: bool where [codes]: "RW_WRITE = True"

definition BUS_TIMEOUT :: nat where "BUS_TIMEOUT = 25000"
definition BUS_ERROR :: int where [codes]: "BUS_ERROR = - 1"
definition BUS_FAILURE :: int where [codes]: "BUS_FAILURE = - 2"

text \<open>\<^verbatim>\<open>rxBuf\<close> has 60 bytes.  All its accesses at a constant index are below that.\<close>

definition RXBUF_LEN :: nat where [simp]: "RXBUF_LEN = 60"

definition wf_master :: "'e master \<Rightarrow> bool" where
  "wf_master s \<longleftrightarrow> length (rxBuf s) = RXBUF_LEN"

section \<open>Pins\<close>

text \<open>The lines the master drives: those whose TRIS bit says output.\<close>

definition drive_of :: "'e master \<Rightarrow> drive" where
  "drive_of s =
     (let mask = ucast (NOT (TRISE s) AND 0x3F)
                 OR push_bit 6 (of_bool (\<not> TRISD0 s)) OR push_bit 7 (of_bool (\<not> TRISD1 s));
          latch = ucast (LATE s AND 0x3F)
                 OR push_bit 6 (of_bool (LATD0 s)) OR push_bit 7 (of_bool (LATD1 s))
      in \<lparr>d_rw = LAT_RW s, d_req = LAT_IRQ s, d_mask = mask, d_data = latch AND mask\<rparr>)"

text \<open>Let the environment move once and sample the pins.\<close>

definition sample :: "'e bus_env \<Rightarrow> 'e master \<Rightarrow> 'e master" where
  "sample E s =
     (let e = advance E (drive_of s) (env s)
      in s\<lparr>env := e, IN_AKN := obs_akn E e, PORTE := obs_portE E e,
           RD0 := obs_rd0 E e, RD1 := obs_rd1 E e\<rparr>)"

definition readBus :: "'e master \<Rightarrow> byte" where
  "readBus s = ucast ((PORTE s AND 0x3F) OR push_bit 6 (of_bool (RD0 s)) OR push_bit 7 (of_bool (RD1 s)))"

definition writeBus :: "byte \<Rightarrow> 'e master \<Rightarrow> 'e master" where
  "writeBus b s = s\<lparr>
     TRISE := TRISE s AND 0xFFC0,
     TRISD1 := TRIS_OUT,
     TRISD0 := TRIS_OUT,
     LATE := (LATE s AND 0xFFC0) OR (ucast b AND 0x3F),
     LATD0 := (drop_bit 6 (b AND 0x40) = 1),
     LATD1 := (drop_bit 7 (b AND 0x80) = 1)\<rparr>"

definition freeBus :: "'e master \<Rightarrow> 'e master" where
  "freeBus s = s\<lparr>TRISD1 := TRIS_IN, TRISD0 := TRIS_IN, TRISE := TRISE s OR 0x3F\<rparr>"

text \<open>Only the lines 0 to 6 exist.\<close>

definition setReq :: "byte \<Rightarrow> bool \<Rightarrow> 'e master \<Rightarrow> 'e master" where
  "setReq req val s =
     (if req \<le> 6 then s\<lparr>LAT_IRQ := (LAT_IRQ s)(unat req := val)\<rparr> else s)"

section \<open>One byte over the bus\<close>

text \<open>
  The polling loops \<^verbatim>\<open>while(IN_AKN == ...) if(timeout++ == BUS_TIMEOUT) ...\<close>: the first argument
  counts the iterations left, \<^verbatim>\<open>BUS_TIMEOUT - timeout\<close>.  The value is whether the line changed.
\<close>

fun waitAkn :: "'e bus_env \<Rightarrow> bool \<Rightarrow> nat \<Rightarrow> 'e master \<Rightarrow> bool \<times> 'e master" where
  "waitAkn E level 0 s = (let s = sample E s in (IN_AKN s = level, s))"
| "waitAkn E level (Suc n) s =
     (let s = sample E s in if IN_AKN s = level then (True, s) else waitAkn E level n s)"

definition busReadByte :: "'e bus_env \<Rightarrow> byte \<Rightarrow> (int, 'e) fw" where
  "busReadByte E req s =
     (let s = s\<lparr>LAT_RW := RW_READ\<rparr>;
          s = setReq req True s;
          (high, s) = waitAkn E True BUS_TIMEOUT s
      in if \<not> high
         then let s = setReq req False s;
                  s = s\<lparr>LAT_LED_ERR := True\<rparr>
              in Done BUS_ERROR s
         else let data = readBus s;
                  s = setReq req False s;
                  (low, s) = waitAkn E False BUS_TIMEOUT s
              in if \<not> low
                 then Done BUS_FAILURE (s\<lparr>LAT_LED_ERR := True\<rparr>)
                 else Done (uint data) (s\<lparr>LAT_LED_ERR := False\<rparr>))"

definition busWriteByte :: "'e bus_env \<Rightarrow> byte \<Rightarrow> byte \<Rightarrow> (int, 'e) fw" where
  "busWriteByte E data req s =
     (let s = s\<lparr>LAT_RW := RW_WRITE\<rparr>;
          s = writeBus data s;
          s = setReq req True s;
          (high, s) = waitAkn E True BUS_TIMEOUT s
      in if \<not> high
         then let s = setReq req False s;
                  s = freeBus s
              in Done BUS_ERROR (s\<lparr>LAT_LED_ERR := True\<rparr>)
         else let s = freeBus s;
                  s = setReq req False s;
                  (low, s) = waitAkn E False BUS_TIMEOUT s
              in if \<not> low
                 then Done BUS_FAILURE (s\<lparr>LAT_LED_ERR := True\<rparr>)
                 else Done 0 (s\<lparr>LAT_LED_ERR := False\<rparr>))"

section \<open>Blocks\<close>

fun readDataBytes :: "'e bus_env \<Rightarrow> byte \<Rightarrow> nat \<Rightarrow> nat \<Rightarrow> (int, 'e) fw" where
  "readDataBytes E req rxPtr 0 s = Done 0 s"
| "readDataBytes E req rxPtr (Suc n) s =
     on (busReadByte E req s) (\<lambda>rxData s.
       if rxData < 0 then Done rxData s
       else if rxPtr < length (rxBuf s)
       then readDataBytes E req (Suc rxPtr) n
              (s\<lparr>rxBuf := (rxBuf s)[rxPtr := word_of_int rxData]\<rparr>)
       else Stop Out_of_bounds)"

text \<open>
  The length byte comes from the slave and is not checked against the size of \<^verbatim>\<open>rxBuf\<close>; the
  terminating zero is written one past the data.
\<close>

definition readDataBlock :: "'e bus_env \<Rightarrow> byte \<Rightarrow> (int, 'e) fw" where
  "readDataBlock E req s =
     on (busReadByte E req (s\<lparr>rxBuf := (rxBuf s)[0 := 0]\<rparr>)) (\<lambda>rxLen s.
       if rxLen < 0 then Done rxLen s
       else on (readDataBytes E req 0 (nat rxLen) s) (\<lambda>r s.
         if r < 0 then Done r s
         else if nat rxLen < length (rxBuf s)
         then Done rxLen (s\<lparr>rxBuf := (rxBuf s)[nat rxLen := 0]\<rparr>)
         else Stop Out_of_bounds))"

end
