(* ===== verification/MasterBus.thy ===== *)
theory MasterBus
  imports Master
begin

text \<open>
  What the byte and block transfers of \<^verbatim>\<open>Master\<close> promise in every environment, also one whose
  slaves misbehave: they end, their value is a byte or one of the two error codes, they touch
  nothing but the bus, and they leave it released.
\<close>

section \<open>What a transfer leaves alone\<close>

definition bus_only :: "'e master \<Rightarrow> 'e master \<Rightarrow> bool" where
  "bus_only s s' \<longleftrightarrow> usb s' = usb s \<and> rx s' = rx s \<and> tx s' = tx s
     \<and> timer1 s' = timer1 s \<and> timer2 s' = timer2 s \<and> failsafeTripped s' = failsafeTripped s
     \<and> diagMsg s' = diagMsg s \<and> rxBuf s' = rxBuf s \<and> t1 s' = t1 s
     \<and> LAT_LED_ACT s' = LAT_LED_ACT s"

text \<open>The bus is quiet when no Req line is up and the master drives none of the bus lines.\<close>

definition released :: "'e master \<Rightarrow> bool" where
  "released s \<longleftrightarrow> TRISD0 s \<and> TRISD1 s \<and> TRISE s AND 0x3F = 0x3F"

definition quiet :: "'e master \<Rightarrow> bool" where
  "quiet s \<longleftrightarrow> released s \<and> (\<forall>i. \<not> LAT_IRQ s i)"

lemma bus_only_refl [simp]: "bus_only s s"
  by (simp add: bus_only_def)

lemma bus_only_trans [trans]: "bus_only s t \<Longrightarrow> bus_only t u \<Longrightarrow> bus_only s u"
  by (simp add: bus_only_def)

lemma sample_bus_only [framed]: "bus_only s (sample E s)"
  by (simp add: bus_only_def sample_def Let_def)

lemma sample_drives [simp]:
  "LAT_IRQ (sample E s) = LAT_IRQ s" "TRISD0 (sample E s) = TRISD0 s"
  "TRISD1 (sample E s) = TRISD1 s" "TRISE (sample E s) = TRISE s"
  "LATE (sample E s) = LATE s" "LATD0 (sample E s) = LATD0 s" "LATD1 (sample E s) = LATD1 s"
  "LAT_RW (sample E s) = LAT_RW s" "LAT_LED_ERR (sample E s) = LAT_LED_ERR s"
  by (simp_all add: sample_def Let_def)

lemma waitAkn_drives:
  "waitAkn E level n s = (r, s') \<Longrightarrow>
     LAT_IRQ s' = LAT_IRQ s \<and> TRISD0 s' = TRISD0 s \<and> TRISD1 s' = TRISD1 s
     \<and> TRISE s' = TRISE s \<and> LATE s' = LATE s \<and> LATD0 s' = LATD0 s \<and> LATD1 s' = LATD1 s
     \<and> LAT_RW s' = LAT_RW s \<and> LAT_LED_ERR s' = LAT_LED_ERR s
     \<and> bus_only s s'"
proof (induction n arbitrary: s)
  case 0
  then show ?case by (auto simp: Let_def framed)
next
  case (Suc n)
  then show ?case
    by (auto simp: Let_def framed split: if_splits intro: bus_only_trans [OF sample_bus_only])
qed

lemma waitAkn_level: "waitAkn E level n s = (r, s') \<Longrightarrow> r \<longleftrightarrow> IN_AKN s' = level"
  by (induction n arbitrary: s) (auto simp: Let_def split: if_splits)

lemma setReq_bus_only [framed]: "bus_only s (setReq req v s)"
  by (simp add: setReq_def bus_only_def)

lemma freeBus_bus_only [framed]: "bus_only s (freeBus s)"
  by (simp add: freeBus_def bus_only_def)

lemma writeBus_bus_only [framed]: "bus_only s (writeBus b s)"
  by (simp add: writeBus_def bus_only_def)

lemma OR_AND_63 [simp]: "(w OR 63) AND 63 = (63 :: word16)"
  by (rule bit_word_eqI) (auto simp: bit_simps)

lemma released_freeBus [simp]: "released (freeBus s)"
  by (simp add: released_def freeBus_def codes)

section \<open>The levels of the lines\<close>

lemma top_bits: "(drop_bit 6 (b AND 0x40) = (1 :: byte)) = bit b 6" "(drop_bit 7 (b AND 0x80) = (1 :: byte)) = bit b 7"
  by (simp_all add: and_one_eq bit_iff_odd_drop_bit odd_iff_mod_2_eq_one)

lemma d_data_latch:
  "d_data (drive_of s) = (ucast (LATE s AND 0x3F) OR push_bit 6 (of_bool (LATD0 s)) OR push_bit 7 (of_bool (LATD1 s)))
     AND d_mask (drive_of s)"
  by (simp only: drive_of_def Let_def drive.simps)

lemma writeBus_drives: "d_mask (drive_of (writeBus b t)) = 0xFF" "d_data (drive_of (writeBus b t)) = b"
proof -
  show m: "d_mask (drive_of (writeBus b t)) = 0xFF"
    by (rule byte_eqI) (auto simp: drive_of_def writeBus_def Let_def codes bit_simps)
  have "LATE (writeBus b t) = (LATE t AND 0xFFC0) OR (ucast b AND 0x3F)"
    "LATD0 (writeBus b t) = bit b 6" "LATD1 (writeBus b t) = bit b 7"
    by (simp_all only: writeBus_def master.simps top_bits) (simp_all add: top_bits)
  moreover have "((LATE t AND 0xFFC0) OR (ucast b AND 0x3F)) AND 0x3F = ucast b AND 0x3F"
    by (simp add: bit.conj_disj_distrib2 and.assoc)
  ultimately have "d_data (drive_of (writeBus b t)) =
      (ucast (ucast b AND 0x3F :: word16) OR push_bit 6 (of_bool (bit b 6)) OR push_bit 7 (of_bool (bit b 7))) AND 0xFF"
    unfolding d_data_latch m by (simp only:)
  also have "\<dots> = b" by (rule byte_eqI) (auto simp: bit_simps)
  finally show "d_data (drive_of (writeBus b t)) = b" .
qed

lemma readBus_lines:
  assumes "PORTE s AND 0x3F = ucast b AND 0x3F" and "RD0 s = bit b 6" and "RD1 s = bit b 7"
  shows "readBus s = b"
  unfolding readBus_def assms by (rule byte_eqI) (auto simp: bit_simps)

section \<open>Every environment\<close>

text \<open>
  The summary of a byte transfer: it finishes, with one of the values \<open>V\<close>, within the frame,
  and a quiet bus is quiet again.
\<close>

definition transfer :: "int set \<Rightarrow> 'e master \<Rightarrow> (int, 'e master) outcome \<Rightarrow> bool" where
  "transfer V s m = finishes m (\<lambda>a s'. a \<in> V \<and> bus_only s s' \<and> (quiet s \<longrightarrow> quiet s'))"

lemma transferI:
  assumes "m = Done a s'" and "a \<in> V" and "bus_only s s'" and "quiet s \<Longrightarrow> quiet s'"
  shows "transfer V s m"
  using assms by (simp add: transfer_def)

lemmas bus_ops = setReq_def writeBus_def freeBus_def bus_only_def quiet_def released_def codes

lemma busWriteByte_transfer: "transfer {0, - 1, - 2} s (busWriteByte E data req s)"
proof -
  define s1 where "s1 = setReq req True (writeBus data (s\<lparr>LAT_RW := RW_WRITE\<rparr>))"
  obtain high s2 where w1: "waitAkn E True BUS_TIMEOUT s1 = (high, s2)" by force
  define s3 where "s3 = setReq req False (freeBus s2)"
  obtain low s4 where w2: "waitAkn E False BUS_TIMEOUT s3 = (low, s4)" by force
  note d1 = waitAkn_drives [OF w1] and d2 = waitAkn_drives [OF w2]
  show ?thesis
  proof (cases high)
    case False
    then have "busWriteByte E data req s =
        Done BUS_ERROR ((freeBus (setReq req False s2))\<lparr>LAT_LED_ERR := True\<rparr>)"
      using w1 by (simp add: busWriteByte_def s1_def Let_def)
    then show ?thesis
      by (rule transferI) (use d1 in \<open>auto simp: s1_def bus_ops\<close>)
  next
    case True
    then have "busWriteByte E data req s =
        (if low then Done 0 (s4\<lparr>LAT_LED_ERR := False\<rparr>)
         else Done BUS_FAILURE (s4\<lparr>LAT_LED_ERR := True\<rparr>))"
      using w1 w2 by (simp add: busWriteByte_def s1_def s3_def Let_def)
    moreover have "bus_only s s4" "quiet s \<longrightarrow> quiet s4"
      using d1 d2 by (auto simp: s1_def s3_def bus_ops)
    ultimately show ?thesis
      by (auto simp: transfer_def bus_ops)
  qed
qed

lemma busReadByte_transfer: "transfer ({- 2, - 1} \<union> {0..<256}) s (busReadByte E req s)"
proof -
  define s1 where "s1 = setReq req True (s\<lparr>LAT_RW := RW_READ\<rparr>)"
  obtain high s2 where w1: "waitAkn E True BUS_TIMEOUT s1 = (high, s2)" by force
  define s3 where "s3 = setReq req False s2"
  obtain low s4 where w2: "waitAkn E False BUS_TIMEOUT s3 = (low, s4)" by force
  note d1 = waitAkn_drives [OF w1] and d2 = waitAkn_drives [OF w2]
  show ?thesis
  proof (cases high)
    case False
    then have "busReadByte E req s = Done BUS_ERROR ((setReq req False s2)\<lparr>LAT_LED_ERR := True\<rparr>)"
      using w1 by (simp add: busReadByte_def s1_def Let_def)
    then show ?thesis
      by (rule transferI) (use d1 in \<open>auto simp: s1_def bus_ops\<close>)
  next
    case True
    then have "busReadByte E req s =
        (if low then Done (uint (readBus s2)) (s4\<lparr>LAT_LED_ERR := False\<rparr>)
         else Done BUS_FAILURE (s4\<lparr>LAT_LED_ERR := True\<rparr>))"
      using w1 w2 by (simp add: busReadByte_def s1_def s3_def Let_def)
    moreover have "bus_only s s4" "quiet s \<longrightarrow> quiet s4"
      using d1 d2 by (auto simp: s1_def s3_def bus_ops)
    moreover have "uint (readBus s2) \<in> {0..<256}"
      using uint_byte_bounds by simp
    ultimately show ?thesis
      by (auto simp: transfer_def bus_ops)
  qed
qed

lemma busWriteByte_cases:
  obtains a s' where "busWriteByte E data req s = Done a s'" "a = 0 \<or> a = - 1 \<or> a = - 2"
    "bus_only s s'" "quiet s \<longrightarrow> quiet s'"
  using busWriteByte_transfer [of s E data req] by (auto simp: transfer_def finishes_iff)

lemma busReadByte_cases:
  obtains a s' where "busReadByte E req s = Done a s'" "- 2 \<le> a" "a < 256"
    "bus_only s s'" "quiet s \<longrightarrow> quiet s'"
proof -
  obtain a s' where "busReadByte E req s = Done a s'" "a \<in> {- 2, - 1} \<union> {0..<256}"
    "bus_only s s'" "quiet s \<longrightarrow> quiet s'"
    using busReadByte_transfer [of s E req] unfolding transfer_def finishes_iff by blast
  then show thesis by (intro that [of a s']) auto
qed

section \<open>Rules for the calculus\<close>

lemma always_busWriteByte [wp]:
  assumes "\<And>a s'. a = 0 \<or> a = - 1 \<or> a = - 2 \<Longrightarrow> bus_only s s' \<Longrightarrow> (quiet s \<longrightarrow> quiet s') \<Longrightarrow> Q a s'"
  shows "always (busWriteByte E data req s) Q"
  by (rule busWriteByte_cases [of E data req s]) (simp add: assms)

text \<open>A block transfer may also change the receive buffer, but not its length.\<close>

definition block_only :: "'e master \<Rightarrow> 'e master \<Rightarrow> bool" where
  "block_only s s' \<longleftrightarrow> bus_only s (s'\<lparr>rxBuf := rxBuf s\<rparr>) \<and> length (rxBuf s') = length (rxBuf s)"

lemma block_only_refl [simp]: "block_only s s"
  by (simp add: block_only_def bus_only_def)

lemma block_only_trans [trans]: "block_only s t \<Longrightarrow> block_only t u \<Longrightarrow> block_only s u"
  by (simp add: block_only_def bus_only_def)

lemma bus_only_block_only: "bus_only s s' \<Longrightarrow> block_only s s'"
  by (simp add: block_only_def bus_only_def)

lemma quiet_rxBuf [simp]: "quiet (s\<lparr>rxBuf := b\<rparr>) = quiet s"
  by (simp add: quiet_def released_def)

lemma block_only_rxBuf: "length b = length (rxBuf s) \<Longrightarrow> block_only s (s\<lparr>rxBuf := b\<rparr>)"
  by (simp add: block_only_def bus_only_def)

lemma block_only_update: "block_only s t \<Longrightarrow> block_only s (t\<lparr>rxBuf := (rxBuf t)[i := b]\<rparr>)"
  by (simp add: block_only_def bus_only_def)

lemma readDataBytes_always:
  "always (readDataBytes E req p n s)
     (\<lambda>a s'. - 2 \<le> a \<and> a \<le> 0 \<and> block_only s s' \<and> (quiet s \<longrightarrow> quiet s'))"
proof (induction n arbitrary: p s)
  case 0
  then show ?case by simp
next
  case (Suc n)
  obtain a s' where r: "busReadByte E req s = Done a s'" "- 2 \<le> a" "a < 256"
    "bus_only s s'" "quiet s \<longrightarrow> quiet s'"
    by (rule busReadByte_cases [of E req s])
  let ?t = "s'\<lparr>rxBuf := (rxBuf s')[p := word_of_int a]\<rparr>"
  have "block_only s ?t" "block_only s s'"
    using r(4) by (auto intro: block_only_trans [OF bus_only_block_only block_only_rxBuf] bus_only_block_only)
  then show ?case
    using r(1,2,5) by (auto intro!: always_mono [OF Suc.IH [of "Suc p" ?t]] elim: block_only_trans)
qed

lemma always_readDataBlock [wp]:
  assumes "\<And>a s'. - 2 \<le> a \<Longrightarrow> a < 256 \<Longrightarrow> block_only s s' \<Longrightarrow> (quiet s \<longrightarrow> quiet s') \<Longrightarrow>
      (0 \<le> a \<Longrightarrow> a < int (length (rxBuf s'))) \<Longrightarrow> Q a s'"
  shows "always (readDataBlock E req s) Q"
proof -
  let ?s0 = "s\<lparr>rxBuf := (rxBuf s)[0 := 0]\<rparr>"
  obtain n s1 where r: "busReadByte E req ?s0 = Done n s1" "- 2 \<le> n" "n < 256"
    "bus_only ?s0 s1" "quiet ?s0 \<longrightarrow> quiet s1"
    by (rule busReadByte_cases [of E req ?s0])
  have b: "block_only s s1"
    using block_only_trans [OF block_only_rxBuf bus_only_block_only [OF r(4)]] by simp
  show ?thesis
  proof (cases "n < 0")
    case True
    with r b show ?thesis by (simp add: readDataBlock_def assms)
  next
    case False
    have "always (readDataBytes E req 0 (nat n) s1)
      (\<lambda>a t. always (if a < 0 then Done a t
         else if nat n < length (rxBuf t) then Done n (t\<lparr>rxBuf := (rxBuf t)[nat n := 0]\<rparr>)
         else Stop Out_of_bounds) Q)"
    proof (rule always_mono [OF readDataBytes_always])
      fix a :: int and t
      assume *: "- 2 \<le> a \<and> a \<le> 0 \<and> block_only s1 t \<and> (quiet s1 \<longrightarrow> quiet t)"
      then have "block_only s (t\<lparr>rxBuf := (rxBuf t)[nat n := 0]\<rparr>)" "block_only s t"
        using b by (auto intro: block_only_trans intro!: block_only_update)
      then show "always (if a < 0 then Done a t
         else if nat n < length (rxBuf t) then Done n (t\<lparr>rxBuf := (rxBuf t)[nat n := 0]\<rparr>)
         else Stop Out_of_bounds) Q"
        using * r(2,3,5) False by (auto intro!: assms)
    qed
    with r(1) False show ?thesis by (simp add: readDataBlock_def)
  qed
qed

end
