(* ===== verification/MasterIO.thy ===== *)
theory MasterIO
  imports MasterBus
begin

text \<open>
  The serial link to the host, the two timers, the motor failsafe and the messages on the LCD,
  as \<^verbatim>\<open>sbr9/ic1.c\<close> has them (built with \<^verbatim>\<open>SBR7\<close> and \<^verbatim>\<open>MOTORBOARD\<close>).
\<close>

section \<open>Timers and their interrupts\<close>

text \<open>\<^verbatim>\<open>PR, TMR, TxIF, TxIE, TCS, TCKPS, TON\<close> in the order the code sets them.\<close>

definition startTimer :: "word16 \<Rightarrow> timer" where
  "startTimer period =
     \<lparr>PR = period, TMR = 0, TIF = False, TIE = True, TCS = False, TCKPS = 3, TON = True\<rparr>"

definition actLight :: "'e master \<Rightarrow> 'e master" where
  "actLight s = s\<lparr>timer2 := startTimer 100, LAT_LED_ACT := True\<rparr>"

definition T2Interrupt :: "'e master \<Rightarrow> 'e master" where
  "T2Interrupt s = s\<lparr>timer2 := (timer2 s)\<lparr>TIF := False, TIE := False, TON := False\<rparr>,
                     LAT_LED_ACT := False\<rparr>"

definition setMotorFailsafe :: "'e master \<Rightarrow> 'e master" where
  "setMotorFailsafe s = s\<lparr>failsafeTripped := False, timer1 := startTimer 21972\<rparr>"

definition T1Interrupt :: "'e master \<Rightarrow> 'e master" where
  "T1Interrupt s = s\<lparr>timer1 := (timer1 s)\<lparr>TIF := False, TIE := False, TON := False\<rparr>,
                     failsafeTripped := True\<rparr>"

section \<open>The motor failsafe\<close>

text \<open>A sequence of transfers whose results the code ignores.\<close>

fun busWrites :: "'e bus_env \<Rightarrow> (byte \<times> byte) list \<Rightarrow> (unit, 'e) fw" where
  "busWrites E [] s = Done () s"
| "busWrites E ((data, req) # ws) s = on (busWriteByte E data req s) (\<lambda>_ s. busWrites E ws s)"

definition checkFailsafe :: "'e bus_env \<Rightarrow> (unit, 'e) fw" where
  "checkFailsafe E s =
     (if failsafeTripped s
      then busWrites E
        [(BUS_CMD_KILL_MOTORS, SLAVE_ID_MOTOR),
         (BUS_CMD_THRUSTER1_OFF, SLAVE_ID_THRUSTERS),
         (BUS_CMD_THRUSTER2_OFF, SLAVE_ID_THRUSTERS),
         (BUS_CMD_THRUSTER3_OFF, SLAVE_ID_THRUSTERS),
         (BUS_CMD_THRUSTER4_OFF, SLAVE_ID_THRUSTERS),
         (BUS_CMD_THRUSTER5_OFF, SLAVE_ID_THRUSTERS),
         (BUS_CMD_THRUSTER6_OFF, SLAVE_ID_THRUSTERS)]
        (s\<lparr>failsafeTripped := False\<rparr>)
      else Done () s)"

section \<open>The serial link\<close>

definition ERR_NOUSB :: int where [codes]: "ERR_NOUSB = - 1"

text \<open>
  The loop of \<^verbatim>\<open>waitchar\<close>, over the events still to come: \<open>Byte b\<close> is an iteration that finds
  \<^verbatim>\<open>URXDA\<close> set, \<open>No_data\<close> one that does not, and the two others happen between iterations.  The
  Timer 1 interrupt is taken only while the timer runs with its interrupt enabled.
\<close>

fun waitLoop :: "'e bus_env \<Rightarrow> uart_event list \<Rightarrow> (int, 'e) fw" where
  "waitLoop E [] s = Stop Waiting"
| "waitLoop E (Byte b # evs) s = Done (uint b) (s\<lparr>rx := evs\<rparr>)"
| "waitLoop E (No_data # evs) s =
     (if \<not> usb s then Done ERR_NOUSB (s\<lparr>rx := evs\<rparr>)
      else on (checkFailsafe E s) (\<lambda>_ s. waitLoop E evs s))"
| "waitLoop E (Usb_pin level # evs) s = waitLoop E evs (s\<lparr>usb := level\<rparr>)"
| "waitLoop E (T1_expired # evs) s =
     waitLoop E evs (if TON (timer1 s) \<and> TIE (timer1 s) then T1Interrupt s else s)"

definition waitchar :: "'e bus_env \<Rightarrow> (int, 'e) fw" where
  "waitchar E s = on (checkFailsafe E s) (\<lambda>_ s. waitLoop E (rx s) s)"

text \<open>The busy waits on the transmitter are the hardware's; each ends.\<close>

definition sendByte :: "byte \<Rightarrow> (unit, 'e) fw" where
  "sendByte i s = Done () (s\<lparr>tx := tx s @ [i]\<rparr>)"

fun sendBytes :: "byte list \<Rightarrow> (unit, 'e) fw" where
  "sendBytes [] s = Done () s"
| "sendBytes (b # bs) s = on (sendByte b s) (\<lambda>_ s. sendBytes bs s)"

text \<open>\<^verbatim>\<open>rxBuf[i] = waitchar(1)\<close>: the \<^verbatim>\<open>int\<close> becomes a byte, so a lost link reads as 0xFF.\<close>

definition recvTo :: "'e bus_env \<Rightarrow> nat \<Rightarrow> (unit, 'e) fw" where
  "recvTo E i s = on (waitchar E s) (\<lambda>c s. Done () (s\<lparr>rxBuf := (rxBuf s)[i := word_of_int c]\<rparr>))"

text \<open>\<^verbatim>\<open>for(i=p; i<p+n; i++) rxBuf[i] = waitchar(1);\<close>\<close>

fun recvRange :: "'e bus_env \<Rightarrow> nat \<Rightarrow> nat \<Rightarrow> (unit, 'e) fw" where
  "recvRange E p 0 s = Done () s"
| "recvRange E p (Suc n) s = on (recvTo E p s) (\<lambda>_ s. recvRange E (Suc p) n s)"

section \<open>Messages on the LCD\<close>

text \<open>A C string literal: its characters and the terminating zero.\<close>

definition cstr :: "string \<Rightarrow> byte list" where
  "cstr str = map of_char str @ [0]"

text \<open>
  The loop condition \<^verbatim>\<open>i<str[i]!=0\<close> parses as \<^verbatim>\<open>(i<str[i])!=0\<close>: the loop ends at the first
  position that is not below the character there.
\<close>

fun showChars :: "'e bus_env \<Rightarrow> nat \<Rightarrow> nat \<Rightarrow> byte list \<Rightarrow> (unit, 'e) fw" where
  "showChars E line i [] s = Stop Out_of_bounds"
| "showChars E line i (c # cs) s =
     (if i < unat c
      then on (busWriteByte E BUS_CMD_LCD_WRITE SLAVE_ID_LCD s) (\<lambda>_ s.
           on (busWriteByte E (of_nat (line * 16 + i)) SLAVE_ID_LCD s) (\<lambda>_ s.
           on (busWriteByte E c SLAVE_ID_LCD s) (\<lambda>_ s.
           showChars E line (Suc i) cs s)))
      else Done () s)"

definition showString :: "'e bus_env \<Rightarrow> byte list \<Rightarrow> nat \<Rightarrow> (unit, 'e) fw" where
  "showString E str line s =
     on (showChars E line 0 str s) (\<lambda>_ s.
     on (busWriteByte E BUS_CMD_LCD_REFRESH SLAVE_ID_LCD s) (\<lambda>_ s. Done () s))"

section \<open>The start switch and the pings\<close>

definition pollStartSw :: "'e bus_env \<Rightarrow> (int, 'e) fw" where
  "pollStartSw E s =
     on (busWriteByte E BUS_CMD_STARTSW SLAVE_ID_STARTSW s) (\<lambda>r s.
     if r \<noteq> 0 then on (sendByte HOST_REPLY_FAILURE s) (\<lambda>_ s. Done (- 1) s) else
     on (readDataBlock E SLAVE_ID_STARTSW s) (\<lambda>n s.
     if n \<noteq> 1 then on (sendByte HOST_REPLY_FAILURE s) (\<lambda>_ s. Done (- 1) s) else
     Done (uint (rxBuf s ! 0 AND 0x01)) s))"

text \<open>
  \<^verbatim>\<open>byte len = readDataBlock(irq)\<close> narrows the result to a byte, so both error codes become
  nonzero lengths.
\<close>

definition pingChip :: "'e bus_env \<Rightarrow> byte \<Rightarrow> (byte, 'e) fw" where
  "pingChip E irq s =
     on (busWriteByte E BUS_CMD_PING irq s) (\<lambda>r s.
     if r = BUS_ERROR \<or> r = BUS_FAILURE then Done 1 s
     else if r = 0
     then on (readDataBlock E irq s) (\<lambda>len s.
          if (word_of_int len :: byte) = 0 then Done 0 s else Done 1 s)
     else Done 0 s)"

text \<open>The blinking of \<^verbatim>\<open>blink\<close> is a delay that ends with the activity light off.\<close>

definition blink :: "byte \<Rightarrow> 'e master \<Rightarrow> 'e master" where
  "blink n s = (if n = 0 then s else s\<lparr>LAT_LED_ACT := False\<rparr>)"

end
