(* ===== verification/Commands.thy ===== *)
theory Commands
  imports MasterIO
begin

text \<open>
  The host commands of \<^verbatim>\<open>sbr9/ic1.c\<close>, one definition per \<^verbatim>\<open>case\<close> of the switch in \<^verbatim>\<open>main\<close>.
  A few combinators stand for statements the cases repeat word for word.
\<close>

section \<open>Statements the cases repeat\<close>

text \<open>\<^verbatim>\<open>if(busWriteByte(data, req) != 0) { sendByte(HOST_REPLY_FAILURE); break; }\<close>\<close>

definition must :: "'e bus_env \<Rightarrow> byte \<Rightarrow> byte \<Rightarrow> 'e master \<Rightarrow> (unit, 'e) fw \<Rightarrow> (unit, 'e master) outcome" where
  "must E data req s k =
     on (busWriteByte E data req s) (\<lambda>r s. if r \<noteq> 0 then sendByte HOST_REPLY_FAILURE s else k s)"

text \<open>\<^verbatim>\<open>if(readDataBlock(req) != n) { sendByte(HOST_REPLY_FAILURE); break; }\<close>\<close>

definition mustRead :: "'e bus_env \<Rightarrow> byte \<Rightarrow> nat \<Rightarrow> 'e master \<Rightarrow> (unit, 'e) fw \<Rightarrow> (unit, 'e master) outcome" where
  "mustRead E req n s k =
     on (readDataBlock E req s) (\<lambda>len s. if len \<noteq> int n then sendByte HOST_REPLY_FAILURE s else k s)"

text \<open>\<^verbatim>\<open>t1 = waitchar(1); if(t1 != cmd) { sendByte(HOST_REPLY_BADCHKSUM); break; }\<close>\<close>

definition waitT1 :: "'e bus_env \<Rightarrow> (int, 'e) fw" where
  "waitT1 E s = on (waitchar E s) (\<lambda>c s. Done c (s\<lparr>t1 := c\<rparr>))"

definition echoT1 :: "'e bus_env \<Rightarrow> byte \<Rightarrow> 'e master \<Rightarrow> (unit, 'e) fw \<Rightarrow> (unit, 'e master) outcome" where
  "echoT1 E cmd s k =
     on (waitT1 E s) (\<lambda>c s. if c \<noteq> uint cmd then sendByte HOST_REPLY_BADCHKSUM s else k s)"

text \<open>\<^verbatim>\<open>if(waitchar(1) != cmd) { sendByte(HOST_REPLY_BADCHKSUM); break; }\<close>\<close>

definition echo :: "'e bus_env \<Rightarrow> byte \<Rightarrow> 'e master \<Rightarrow> (unit, 'e) fw \<Rightarrow> (unit, 'e master) outcome" where
  "echo E cmd s k =
     on (waitchar E s) (\<lambda>c s. if c \<noteq> uint cmd then sendByte HOST_REPLY_BADCHKSUM s else k s)"

text \<open>Send the reply code, the first \<open>n\<close> bytes of \<^verbatim>\<open>rxBuf\<close> and their checksum.\<close>

definition sendRx :: "byte \<Rightarrow> nat \<Rightarrow> (unit, 'e) fw" where
  "sendRx reply n s =
     on (sendByte reply s) (\<lambda>_ s.
     on (sendBytes (map (\<lambda>i. rxBuf s ! i) [0..<n]) s) (\<lambda>_ s.
     sendByte (chksum (rxBuf s) n reply) s))"

text \<open>
  \<^verbatim>\<open>rxBuf[0] = waitchar(1); rxBuf[1] = waitchar(1);\<close> and the test of the parameter and the
  checksum.
\<close>

definition param :: "'e bus_env \<Rightarrow> byte \<Rightarrow> (byte \<Rightarrow> bool) \<Rightarrow> 'e master \<Rightarrow> (unit, 'e) fw \<Rightarrow> (unit, 'e master) outcome" where
  "param E cmd valid s k =
     on (recvTo E 0 s) (\<lambda>_ s.
     on (recvTo E 1 s) (\<lambda>_ s.
     if \<not> valid (rxBuf s ! 0) \<or> chksum (rxBuf s) 1 cmd \<noteq> rxBuf s ! 1
     then sendByte HOST_REPLY_BADCHKSUM s else k s))"

text \<open>An access to a constant array of the code.\<close>

definition element :: "byte list \<Rightarrow> int \<Rightarrow> 'e master \<Rightarrow> (byte \<Rightarrow> (unit, 'e) fw) \<Rightarrow> (unit, 'e master) outcome" where
  "element a i s k = (if 0 \<le> i \<and> i < int (length a) then k (a ! nat i) s else Stop Out_of_bounds)"

text \<open>One bus command, acknowledged to the host.\<close>

definition ack :: "'e bus_env \<Rightarrow> byte \<Rightarrow> byte \<Rightarrow> (unit, 'e) fw" where
  "ack E busCmd slaveId s = must E busCmd slaveId s (sendByte HOST_REPLY_SUCCESS)"

text \<open>One bus command whose answer of \<open>n\<close> bytes goes to the host.\<close>

definition query :: "'e bus_env \<Rightarrow> byte \<Rightarrow> byte \<Rightarrow> nat \<Rightarrow> byte \<Rightarrow> (unit, 'e) fw" where
  "query E busCmd slaveId n reply s =
     must E busCmd slaveId s (\<lambda>s. mustRead E slaveId n s (sendRx reply n))"

lemmas combinators = must_def mustRead_def waitT1_def echoT1_def echo_def sendRx_def param_def
  element_def ack_def query_def

section \<open>Link commands\<close>

definition host_sync :: "(unit, 'e) fw" where
  "host_sync s = sendByte HOST_REPLY_SUCCESS s"

definition host_ping :: "'e bus_env \<Rightarrow> (unit, 'e) fw" where
  "host_ping E s =
     on (waitT1 E s) (\<lambda>c s.
     if c = uint HOST_CMD_PING then sendByte HOST_REPLY_SUCCESS s
     else sendByte HOST_REPLY_BADCHKSUM s)"

text \<open>The loop pings the slaves numbered \<open>i\<close> to \<open>i + n - 1\<close> and counts the errors.\<close>

fun sysCheckLoop :: "'e bus_env \<Rightarrow> nat \<Rightarrow> nat \<Rightarrow> byte \<Rightarrow> (byte, 'e) fw" where
  "sysCheckLoop E i 0 err s = Done err s"
| "sysCheckLoop E i (Suc n) err s =
     on (busWriteByte E BUS_CMD_PING (of_nat i) s) (\<lambda>r s.
     if r = BUS_ERROR \<or> r = BUS_FAILURE then sysCheckLoop E (Suc i) n (err + 1) s
     else if r = 0
     then on (readDataBlock E (of_nat i) s) (\<lambda>len s.
          sysCheckLoop E (Suc i) n (if (word_of_int len :: byte) = 0 then err else err + 1) s)
     else sysCheckLoop E (Suc i) n err s)"

definition host_syscheck :: "'e bus_env \<Rightarrow> (unit, 'e) fw" where
  "host_syscheck E s =
     echoT1 E HOST_CMD_SYSCHECK s (\<lambda>s.
     on (sysCheckLoop E 0 NUM_SLAVES 0 s) (\<lambda>err s.
     if err = 0 then sendByte HOST_REPLY_SUCCESS s else sendByte HOST_REPLY_FAILURE s))"

section \<open>Commands with one byte of answer\<close>

definition simpleCmd :: "'e bus_env \<Rightarrow> byte \<Rightarrow> byte \<Rightarrow> byte \<Rightarrow> byte \<Rightarrow> (unit, 'e) fw" where
  "simpleCmd E cmdCode replyCode slaveId busCmd s =
     on (waitchar E s) (\<lambda>c s.
     if (word_of_int c :: byte) \<noteq> cmdCode then sendByte HOST_REPLY_BADCHKSUM s else
     must E busCmd slaveId s (\<lambda>s.
     mustRead E slaveId 1 s (\<lambda>s.
     on (sendByte replyCode s) (\<lambda>_ s.
     on (sendByte (rxBuf s ! 0) s) (\<lambda>_ s.
     sendByte (replyCode + rxBuf s ! 0) s)))))"

definition host_thrusterstate :: "'e bus_env \<Rightarrow> (unit, 'e) fw" where
  "host_thrusterstate E = simpleCmd E HOST_CMD_THRUSTERSTATE HOST_REPLY_THRUSTERSTATE SLAVE_ID_THRUSTERS BUS_CMD_THRUSTER_STATE"

definition host_read_ovr :: "'e bus_env \<Rightarrow> (unit, 'e) fw" where
  "host_read_ovr E = simpleCmd E HOST_CMD_READ_OVR HOST_REPLY_OVR SLAVE_ID_THRUSTERS BUS_CMD_READ_OVR"

definition host_battstate :: "'e bus_env \<Rightarrow> (unit, 'e) fw" where
  "host_battstate E = simpleCmd E HOST_CMD_BATTSTATE HOST_REPLY_BATTSTATE SLAVE_ID_BATTSTAT BUS_CMD_BATTSTATE"

definition host_barstate :: "'e bus_env \<Rightarrow> (unit, 'e) fw" where
  "host_barstate E = simpleCmd E HOST_CMD_BARSTATE HOST_REPLY_BARSTATE SLAVE_ID_BARS BUS_CMD_BAR_STATE"

section \<open>Commands that read a block\<close>

definition host_depth :: "'e bus_env \<Rightarrow> (unit, 'e) fw" where
  "host_depth E s =
     echoT1 E HOST_CMD_DEPTH s (query E BUS_CMD_DEPTH SLAVE_ID_DEPTH 2 HOST_REPLY_DEPTH)"

definition host_sonar :: "'e bus_env \<Rightarrow> (unit, 'e) fw" where
  "host_sonar E s =
     echoT1 E HOST_CMD_SONAR s (query E BUS_CMD_SONAR SLAVE_ID_SONAR SONAR_PACKET_LEN HOST_REPLY_SONAR)"

definition host_imotor :: "'e bus_env \<Rightarrow> (unit, 'e) fw" where
  "host_imotor E s =
     on (recvTo E 0 s) (\<lambda>_ s.
     if rxBuf s ! 0 \<noteq> HOST_CMD_IMOTOR then sendByte HOST_REPLY_BADCHKSUM s
     else query E BUS_CMD_READ_IMOTOR SLAVE_ID_IMOTOR 16 HOST_REPLY_IMOTOR s)"

definition host_vlow :: "'e bus_env \<Rightarrow> (unit, 'e) fw" where
  "host_vlow E s =
     echoT1 E HOST_CMD_VLOW s (query E BUS_CMD_READ_ASTATUS SLAVE_ID_VLOW 10 HOST_REPLY_VLOW)"

definition host_battvoltage :: "'e bus_env \<Rightarrow> (unit, 'e) fw" where
  "host_battvoltage E s =
     echoT1 E HOST_CMD_BATTVOLTAGE s (query E BUS_CMD_BATTVOLTAGE SLAVE_ID_BATTSTAT 14 HOST_REPLY_BATTVOLTAGE)"

definition host_battcurrent :: "'e bus_env \<Rightarrow> (unit, 'e) fw" where
  "host_battcurrent E s =
     echoT1 E HOST_CMD_BATTCURRENT s (query E BUS_CMD_BATTCURRENT SLAVE_ID_BATTSTAT 12 HOST_REPLY_BATTCURRENT)"

definition host_read_ovrlimit :: "'e bus_env \<Rightarrow> (unit, 'e) fw" where
  "host_read_ovrlimit E s =
     echoT1 E HOST_CMD_READ_OVRLIMIT s (\<lambda>s.
     must E BUS_CMD_READ_REG SLAVE_ID_THRUSTERS s (\<lambda>s.
     must E 0 SLAVE_ID_THRUSTERS s (\<lambda>s.
     mustRead E SLAVE_ID_THRUSTERS 1 s (\<lambda>s.
     let s = s\<lparr>t1 := uint (rxBuf s ! 0)\<rparr> in
     must E BUS_CMD_READ_REG SLAVE_ID_THRUSTERS s (\<lambda>s.
     must E 1 SLAVE_ID_THRUSTERS s (\<lambda>s.
     mustRead E SLAVE_ID_THRUSTERS 1 s (\<lambda>s.
     let s = s\<lparr>rxBuf := (rxBuf s)[1 := word_of_int (t1 s)]\<rparr> in
     on (sendByte HOST_REPLY_OVRLIMIT s) (\<lambda>_ s.
     on (sendByte (rxBuf s ! 1) s) (\<lambda>_ s.
     on (sendByte (rxBuf s ! 0) s) (\<lambda>_ s.
     sendByte (chksum (rxBuf s) 2 HOST_REPLY_OVRLIMIT) s))))))))))"

definition host_boardstatus :: "'e bus_env \<Rightarrow> (unit, 'e) fw" where
  "host_boardstatus E s =
     echoT1 E HOST_CMD_BOARDSTATUS s (\<lambda>s.
     let s = s\<lparr>t1 := 0\<rparr> in
     must E BUS_CMD_BOARDSTATUS SLAVE_ID_BATTSTAT s (\<lambda>s.
     mustRead E SLAVE_ID_BATTSTAT 1 s (\<lambda>s.
     let s = s\<lparr>t1 := uint (rxBuf s ! 0)\<rparr> in
     must E BUS_CMD_BOARDSTATUS SLAVE_ID_KILLSW s (\<lambda>s.
     mustRead E SLAVE_ID_KILLSW 1 s (\<lambda>s.
     let t2 = uint (rxBuf s ! 0 AND 0x01) in
     must E BUS_CMD_STARTSW SLAVE_ID_STARTSW s (\<lambda>s.
     mustRead E SLAVE_ID_STARTSW 1 s (\<lambda>s.
     let t2 = t2 OR push_bit 1 (uint (rxBuf s ! 0 AND 0x01));
         s = s\<lparr>rxBuf := (rxBuf s)[0 := word_of_int t2, 1 := word_of_int (t1 s)]\<rparr> in
     sendRx HOST_REPLY_BOARDSTATUS 2 s)))))))"

definition host_temperature :: "'e bus_env \<Rightarrow> (unit, 'e) fw" where
  "host_temperature E s =
     echoT1 E HOST_CMD_TEMPERATURE s (\<lambda>s.
     must E BUS_CMD_TEMP IRQ_DISTRO s (\<lambda>s.
     mustRead E IRQ_DISTRO 1 s (\<lambda>s.
     let s = s\<lparr>t1 := uint (rxBuf s ! 0)\<rparr> in
     must E BUS_CMD_TEMP IRQ_BALANCER s (\<lambda>s.
     mustRead E IRQ_BALANCER 1 s (\<lambda>s.
     let t2 = uint (rxBuf s ! 0) in
     must E BUS_CMD_TEMP SLAVE_ID_TEMP s (\<lambda>s.
     mustRead E SLAVE_ID_TEMP 5 s (\<lambda>s.
     let s = s\<lparr>rxBuf := (rxBuf s)[5 := word_of_int (t1 s), 6 := word_of_int t2]\<rparr> in
     sendRx HOST_REPLY_TEMPERATURE 7 s)))))))"

text \<open>One motor controller of \<^verbatim>\<open>HOST_CMD_MOTOR_READ\<close>; failures are counted in \<open>t1\<close>.\<close>

definition readMotor :: "'e bus_env \<Rightarrow> byte \<Rightarrow> byte \<Rightarrow> (byte, 'e) fw" where
  "readMotor E cmd slaveId s =
     on (busWriteByte E cmd slaveId s) (\<lambda>r s.
     let s = (if r \<noteq> 0 then s\<lparr>t1 := t1 s + 1\<rparr> else s) in
     on (readDataBlock E slaveId s) (\<lambda>len s.
     let s = (if len \<noteq> 1 then s\<lparr>t1 := t1 s + 1\<rparr> else s) in
     Done (rxBuf s ! 0) s))"

definition host_motor_read :: "'e bus_env \<Rightarrow> (unit, 'e) fw" where
  "host_motor_read E s =
     echoT1 E HOST_CMD_MOTOR_READ s (\<lambda>s.
     on (readMotor E BUS_CMD_GETREPLY_U1 SLAVE_ID_MM1 (s\<lparr>t1 := 0\<rparr>)) (\<lambda>r0 s.
     on (readMotor E BUS_CMD_GETREPLY_U2 SLAVE_ID_MM2 s) (\<lambda>r1 s.
     on (readMotor E BUS_CMD_GETREPLY_U1 SLAVE_ID_MM3 s) (\<lambda>r2 s.
     on (readMotor E BUS_CMD_GETREPLY_U2 SLAVE_ID_MM4 s) (\<lambda>r3 s.
     on (readMotor E BUS_CMD_GETREPLY_U1 SLAVE_ID_MM5 s) (\<lambda>r4 s.
     on (readMotor E BUS_CMD_GETREPLY_U2 SLAVE_ID_MM6 s) (\<lambda>r5 s.
     if t1 s \<noteq> 0 then sendByte HOST_REPLY_FAILURE s else
     let resp = [r0, r1, r2, r3, r4, r5] in
     on (sendByte HOST_CMD_MOTOR_REPLY s) (\<lambda>_ s.
     on (sendBytes resp s) (\<lambda>_ s.
     sendByte (chksum resp 6 HOST_CMD_MOTOR_REPLY) s)))))))))"

section \<open>Commands without parameters, acknowledged\<close>

definition host_cam_relay_on :: "'e bus_env \<Rightarrow> (unit, 'e) fw" where
  "host_cam_relay_on E s = echoT1 E HOST_CMD_CAM_RELAY_ON s (ack E BUS_CMD_CAM_RELAY_ON SLAVE_ID_DEPTH)"

definition host_cam_relay_off :: "'e bus_env \<Rightarrow> (unit, 'e) fw" where
  "host_cam_relay_off E s = echoT1 E HOST_CMD_CAM_RELAY_OFF s (ack E BUS_CMD_CAM_RELAY_OFF SLAVE_ID_DEPTH)"

definition host_bfreset :: "'e bus_env \<Rightarrow> (unit, 'e) fw" where
  "host_bfreset E s = echoT1 E HOST_CMD_BFRESET s (ack E BUS_CMD_BFRESET SLAVE_ID_SONAR)"

definition host_dvl_on :: "'e bus_env \<Rightarrow> (unit, 'e) fw" where
  "host_dvl_on E s = echoT1 E HOST_CMD_DVL_ON s (ack E BUS_CMD_DVL_ON SLAVE_ID_DVL)"

definition host_dvl_off :: "'e bus_env \<Rightarrow> (unit, 'e) fw" where
  "host_dvl_off E s = echoT1 E HOST_CMD_DVL_OFF s (ack E BUS_CMD_DVL_OFF SLAVE_ID_DVL)"

definition host_mag_pwr_on :: "'e bus_env \<Rightarrow> (unit, 'e) fw" where
  "host_mag_pwr_on E s = echo E HOST_CMD_MAG_PWR_ON s (ack E BUS_CMD_MAG_PWR_ON SLAVE_ID_MARKERS)"

definition host_mag_pwr_off :: "'e bus_env \<Rightarrow> (unit, 'e) fw" where
  "host_mag_pwr_off E s = echo E HOST_CMD_MAG_PWR_OFF s (ack E BUS_CMD_MAG_PWR_OFF SLAVE_ID_MARKERS)"

definition host_fire_torp_1 :: "'e bus_env \<Rightarrow> (unit, 'e) fw" where
  "host_fire_torp_1 E s = echo E HOST_CMD_FIRE_TORP_1 s (ack E BUS_CMD_FIRE_TORP_1 SLAVE_ID_TORPEDO)"

definition host_fire_torp_2 :: "'e bus_env \<Rightarrow> (unit, 'e) fw" where
  "host_fire_torp_2 E s = echo E HOST_CMD_FIRE_TORP_2 s (ack E BUS_CMD_FIRE_TORP_2 SLAVE_ID_TORPEDO)"

definition host_arm_torp_1 :: "'e bus_env \<Rightarrow> (unit, 'e) fw" where
  "host_arm_torp_1 E s = echo E HOST_CMD_ARM_TORP_1 s (ack E BUS_CMD_ARM_TORP_1 SLAVE_ID_TORPEDO)"

definition host_arm_torp_2 :: "'e bus_env \<Rightarrow> (unit, 'e) fw" where
  "host_arm_torp_2 E s = echo E HOST_CMD_ARM_TORP_2 s (ack E BUS_CMD_ARM_TORP_2 SLAVE_ID_TORPEDO)"

definition host_void_torp_1 :: "'e bus_env \<Rightarrow> (unit, 'e) fw" where
  "host_void_torp_1 E s = echo E HOST_CMD_VOID_TORP_1 s (ack E BUS_CMD_VOID_TORP_1 SLAVE_ID_TORPEDO)"

definition host_void_torp_2 :: "'e bus_env \<Rightarrow> (unit, 'e) fw" where
  "host_void_torp_2 E s = echo E HOST_CMD_VOID_TORP_2 s (ack E BUS_CMD_VOID_TORP_2 SLAVE_ID_TORPEDO)"

definition host_ext_grabber :: "'e bus_env \<Rightarrow> (unit, 'e) fw" where
  "host_ext_grabber E s = echo E HOST_CMD_EXT_GRABBER s (ack E BUS_CMD_EXT_GRABBER SLAVE_ID_GRABBER)"

definition host_ret_grabber :: "'e bus_env \<Rightarrow> (unit, 'e) fw" where
  "host_ret_grabber E s = echo E HOST_CMD_RET_GRABBER s (ack E BUS_CMD_RET_GRABBER SLAVE_ID_GRABBER)"

definition host_void_grabber :: "'e bus_env \<Rightarrow> (unit, 'e) fw" where
  "host_void_grabber E s = echo E HOST_CMD_VOID_GRABBER s (ack E BUS_CMD_VOID_GRABBER SLAVE_ID_GRABBER)"

definition host_void_pneu :: "'e bus_env \<Rightarrow> (unit, 'e) fw" where
  "host_void_pneu E s = echo E HOST_CMD_VOID_PNEU s (ack E BUS_CMD_VOID_PNEU SLAVE_ID_GRABBER)"

definition host_off_pneu :: "'e bus_env \<Rightarrow> (unit, 'e) fw" where
  "host_off_pneu E s = echo E HOST_CMD_OFF_PNEU s (ack E BUS_CMD_OFF_PNEU SLAVE_ID_GRABBER)"

definition host_derpy_on :: "'e bus_env \<Rightarrow> (unit, 'e) fw" where
  "host_derpy_on E s = echo E HOST_CMD_DERPY_ON s (ack E BUS_CMD_DERPY_ON SLAVE_ID_THRUSTERS)"

definition host_derpy_off :: "'e bus_env \<Rightarrow> (unit, 'e) fw" where
  "host_derpy_off E s =
     echo E HOST_CMD_DERPY_OFF s (\<lambda>s.
     must E BUS_CMD_DERPY_OFF SLAVE_ID_THRUSTERS s (ack E BUS_CMD_STOP_DERPY SLAVE_ID_MOTOR))"

definition host_stop_derpy :: "'e bus_env \<Rightarrow> (unit, 'e) fw" where
  "host_stop_derpy E s = echo E HOST_CMD_STOP_DERPY s (ack E BUS_CMD_STOP_DERPY SLAVE_ID_MOTOR)"

end
