(* ===== verification/CommandsSet.thy ===== *)
theory CommandsSet
  imports Commands
begin

text \<open>
  The host commands of \<^verbatim>\<open>sbr9/ic1.c\<close> that carry parameters, the switch itself and the main
  loop.
\<close>

section \<open>One parameter and a checksum\<close>

definition host_switchpower :: "'e bus_env \<Rightarrow> (unit, 'e) fw" where
  "host_switchpower E s =
     param E HOST_CMD_SWITCHPOWER (\<lambda>b. b = 0 \<or> b = 1) s (\<lambda>s.
     on (if rxBuf s ! 0 = 0 then busWriteByte E BUS_CMD_INTPOWER SLAVE_ID_BATTSTAT s
         else busWriteByte E BUS_CMD_EXTPOWER SLAVE_ID_BATTSTAT s) (\<lambda>r s.
     let s = s\<lparr>t1 := r\<rparr> in
     if t1 s \<noteq> 0 then sendByte HOST_REPLY_FAILURE s else sendByte HOST_REPLY_SUCCESS s))"

definition host_marker :: "'e bus_env \<Rightarrow> (unit, 'e) fw" where
  "host_marker E s =
     param E HOST_CMD_MARKER (\<lambda>b. b = 0 \<or> b = 1) s (\<lambda>s.
     ack E (if rxBuf s ! 0 = 0 then BUS_CMD_MARKER1 else BUS_CMD_MARKER2) SLAVE_ID_MARKERS s)"

definition blCommands :: "byte list" where
  "blCommands = [BUS_CMD_LCD_LIGHT_OFF, BUS_CMD_LCD_LIGHT_ON, BUS_CMD_LCD_LIGHT_FLASH]"

definition host_backlight :: "'e bus_env \<Rightarrow> (unit, 'e) fw" where
  "host_backlight E s =
     param E HOST_CMD_BACKLIGHT (\<lambda>b. b = 0 \<or> b = 1 \<or> b = 2) s (\<lambda>s.
     element blCommands (uint (rxBuf s ! 0)) s (\<lambda>c. ack E c SLAVE_ID_LCD))"

definition bfCommands :: "byte list" where
  "bfCommands = [BUS_CMD_BFIN_STOP, BUS_CMD_BFIN_START]"

definition host_bfin_state :: "'e bus_env \<Rightarrow> (unit, 'e) fw" where
  "host_bfin_state E s =
     param E HOST_CMD_BFIN_STATE (\<lambda>b. b = 0 \<or> b = 1) s (\<lambda>s.
     element bfCommands (uint (rxBuf s ! 0)) s (\<lambda>c. ack E c SLAVE_ID_SONAR))"

definition host_baranimation :: "'e bus_env \<Rightarrow> (unit, 'e) fw" where
  "host_baranimation E s =
     param E HOST_CMD_BARANIMATION (\<lambda>b. b = 0 \<or> b = 1 \<or> b = 2) s (\<lambda>s.
     must E BUS_CMD_SET_BARMODE SLAVE_ID_BARS s (\<lambda>s. ack E (rxBuf s ! 0) SLAVE_ID_BARS s))"

definition host_set_bars :: "'e bus_env \<Rightarrow> (unit, 'e) fw" where
  "host_set_bars E s =
     param E HOST_CMD_SET_BARS (\<lambda>b. True) s (\<lambda>s.
     must E BUS_CMD_SET_BARS SLAVE_ID_BARS s (\<lambda>s. ack E (rxBuf s ! 0) SLAVE_ID_BARS s))"

definition barCommands :: "byte list" where
  "barCommands =
     [BUS_CMD_BAR1_OFF, BUS_CMD_BAR2_OFF, BUS_CMD_BAR3_OFF, BUS_CMD_BAR4_OFF,
      BUS_CMD_BAR5_OFF, BUS_CMD_BAR6_OFF, BUS_CMD_BAR7_OFF, BUS_CMD_BAR8_OFF,
      BUS_CMD_BAR1_ON, BUS_CMD_BAR2_ON, BUS_CMD_BAR3_ON, BUS_CMD_BAR4_ON,
      BUS_CMD_BAR5_ON, BUS_CMD_BAR6_ON, BUS_CMD_BAR7_ON, BUS_CMD_BAR8_ON]"

definition host_bars :: "'e bus_env \<Rightarrow> (unit, 'e) fw" where
  "host_bars E s =
     param E HOST_CMD_BARS (\<lambda>b. b \<le> 15) s (\<lambda>s.
     element barCommands (uint (rxBuf s ! 0)) s (\<lambda>c. ack E c SLAVE_ID_BARS))"

definition battCommands :: "byte list" where
  "battCommands =
     [BUS_CMD_BATT1_OFF, BUS_CMD_BATT2_OFF, BUS_CMD_BATT3_OFF,
      BUS_CMD_BATT4_OFF, BUS_CMD_BATT5_OFF, BUS_CMD_BATT6_OFF,
      BUS_CMD_BATT1_ON, BUS_CMD_BATT2_ON, BUS_CMD_BATT3_ON,
      BUS_CMD_BATT4_ON, BUS_CMD_BATT5_ON, BUS_CMD_BATT6_ON]"

text \<open>The range test is on \<open>t1\<close>, which this case never sets, not on the parameter.\<close>

definition host_battctl :: "'e bus_env \<Rightarrow> (unit, 'e) fw" where
  "host_battctl E s =
     on (recvTo E 0 s) (\<lambda>_ s.
     on (recvTo E 1 s) (\<lambda>_ s.
     if t1 s > 9 \<or> chksum (rxBuf s) 1 HOST_CMD_BATTCTL \<noteq> rxBuf s ! 1
     then sendByte HOST_REPLY_BADCHKSUM s
     else element battCommands (uint (rxBuf s ! 0)) s (\<lambda>c. ack E c SLAVE_ID_BATTSTAT)))"

definition host_set_ovrlimit :: "'e bus_env \<Rightarrow> (unit, 'e) fw" where
  "host_set_ovrlimit E s =
     on (recvRange E 0 3 s) (\<lambda>_ s.
     if chksum (rxBuf s) 2 HOST_CMD_SET_OVRLIMIT \<noteq> rxBuf s ! 2
     then sendByte HOST_REPLY_BADCHKSUM s else
     must E BUS_CMD_WRITE_REG SLAVE_ID_THRUSTERS s (\<lambda>s.
     must E 0 SLAVE_ID_THRUSTERS s (\<lambda>s.
     must E (rxBuf s ! 0) SLAVE_ID_THRUSTERS s (\<lambda>s.
     must E BUS_CMD_WRITE_REG SLAVE_ID_THRUSTERS s (\<lambda>s.
     must E 1 SLAVE_ID_THRUSTERS s (\<lambda>s.
     must E (rxBuf s ! 1) SLAVE_ID_THRUSTERS s (sendByte HOST_REPLY_SUCCESS)))))))"

section \<open>Commands protected by a fixed sequence\<close>

definition hkSafety :: "byte list" where
  "hkSafety = [0xDE, 0xAD, 0xBE, 0xEF, 0x3E]"

definition tkSafety :: "byte list" where
  "tkSafety = [0xB1, 0xD0, 0x23, 0x7A, 0x69]"

definition host_hardkill :: "'e bus_env \<Rightarrow> (unit, 'e) fw" where
  "host_hardkill E s =
     on (recvRange E 0 5 s) (\<lambda>_ s.
     let cflag = (\<exists>i\<in>set [0..<5]. rxBuf s ! i \<noteq> hkSafety ! i) in
     if cflag then sendByte HOST_REPLY_BADCHKSUM s
     else ack E BUS_CMD_HARDKILL SLAVE_ID_HARDKILL s)"

definition tkCommands :: "byte list" where
  "tkCommands =
     [BUS_CMD_THRUSTER1_OFF, BUS_CMD_THRUSTER2_OFF, BUS_CMD_THRUSTER3_OFF,
      BUS_CMD_THRUSTER4_OFF, BUS_CMD_THRUSTER5_OFF, BUS_CMD_THRUSTER6_OFF,
      BUS_CMD_THRUSTER1_ON, BUS_CMD_THRUSTER2_ON, BUS_CMD_THRUSTER3_ON,
      BUS_CMD_THRUSTER4_ON, BUS_CMD_THRUSTER5_ON, BUS_CMD_THRUSTER6_ON]"

text \<open>
  \<open>t1\<close> and \<open>t2\<close> are \<^verbatim>\<open>long\<close>: a lost link gives \<open>-1\<close>, which passes the test against 11.
\<close>

definition host_thrusters :: "'e bus_env \<Rightarrow> (unit, 'e) fw" where
  "host_thrusters E s =
     on (recvRange E 0 5 s) (\<lambda>_ s.
     on (waitT1 E s) (\<lambda>_ s.
     on (waitchar E s) (\<lambda>t2 s.
     let cflag = (\<exists>i\<in>set [0..<5]. rxBuf s ! i \<noteq> tkSafety ! i);
         cs = sum_list (map (\<lambda>i. rxBuf s ! i) [0..<5]);
         cs = cs + word_of_int (t1 s + uint HOST_CMD_THRUSTERS) in
     if cflag \<or> t1 s > 11 \<or> t2 \<noteq> uint cs then sendByte HOST_REPLY_BADCHKSUM s
     else element tkCommands (t1 s) s (\<lambda>c. ack E c SLAVE_ID_THRUSTERS))))"

definition host_set_derpy :: "'e bus_env \<Rightarrow> (unit, 'e) fw" where
  "host_set_derpy E s =
     on (recvRange E 0 7 s) (\<lambda>_ s.
     if chksum (rxBuf s) 6 HOST_CMD_SET_DERPY \<noteq> rxBuf s ! 6
     then sendByte HOST_REPLY_BADCHKSUM s
     else if rxBuf s ! 2 \<noteq> of_char (CHR ''D'') \<or> rxBuf s ! 3 \<noteq> of_char (CHR ''E'')
           \<or> rxBuf s ! 4 \<noteq> of_char (CHR ''R'') \<or> rxBuf s ! 5 \<noteq> of_char (CHR ''P'')
     then sendByte HOST_REPLY_FAILURE s
     else must E BUS_CMD_SET_DERPY SLAVE_ID_MOTOR s (\<lambda>s.
          ack E (convertSpeed (rxBuf s ! 0) (rxBuf s ! 1)) SLAVE_ID_MOTOR s))"

section \<open>Text, diagnostics and speeds\<close>

text \<open>
  The loop \<^verbatim>\<open>for(i=0; i<16 && err==0; i++)\<close>; \<open>err\<close> is the sum of the results of the transfers.
\<close>

fun printTextLoop :: "'e bus_env \<Rightarrow> nat \<Rightarrow> nat \<Rightarrow> int \<Rightarrow> (int, 'e) fw" where
  "printTextLoop E i 0 err s = Done err s"
| "printTextLoop E i (Suc n) err s =
     (if err \<noteq> 0 then Done err s else
      on (busWriteByte E BUS_CMD_LCD_WRITE SLAVE_ID_LCD s) (\<lambda>r1 s.
      on (busWriteByte E (rxBuf s ! 16 * 16 + of_nat i) SLAVE_ID_LCD s) (\<lambda>r2 s.
      on (busWriteByte E (rxBuf s ! i) SLAVE_ID_LCD s) (\<lambda>r3 s.
      printTextLoop E (Suc i) n (err + r1 + r2 + r3) s))))"

definition host_printtext :: "'e bus_env \<Rightarrow> (unit, 'e) fw" where
  "host_printtext E s =
     on (recvTo E 16 s) (\<lambda>_ s.
     on (recvRange E 0 16 s) (\<lambda>_ s.
     on (recvTo E 17 s) (\<lambda>_ s.
     if rxBuf s ! 16 > 1 \<or> chksum (rxBuf s) 17 HOST_CMD_PRINTTEXT \<noteq> rxBuf s ! 17
     then sendByte HOST_REPLY_BADCHKSUM s else
     on (printTextLoop E 0 16 0 s) (\<lambda>err s.
     on (busWriteByte E BUS_CMD_LCD_REFRESH SLAVE_ID_LCD s) (\<lambda>r s.
     if err + r \<noteq> 0 then sendByte HOST_REPLY_FAILURE s else sendByte HOST_REPLY_SUCCESS s)))))"

definition host_runtimediag :: "'e bus_env \<Rightarrow> (unit, 'e) fw" where
  "host_runtimediag E s =
     param E HOST_CMD_RUNTIMEDIAG (\<lambda>b. b = 0 \<or> b = 1) s (\<lambda>s.
     let s = s\<lparr>diagMsg := rxBuf s ! 0\<rparr> in
     on (if diagMsg s = 0 then showString E (cstr ''Runtime Diag Off'') 1 s
         else showString E (cstr ''Runtime Diag On '') 1 s) (\<lambda>_ s.
     sendByte HOST_REPLY_SUCCESS s))"

text \<open>\<^verbatim>\<open>for(i=0; (i >> 1) < 6; i+=2)\<close>: two bytes at a time, failures counted in \<open>t1\<close>.\<close>

fun motorSpeedLoop :: "'e bus_env \<Rightarrow> nat \<Rightarrow> nat \<Rightarrow> (unit, 'e) fw" where
  "motorSpeedLoop E i 0 s = Done () s"
| "motorSpeedLoop E i (Suc n) s =
     on (busWriteByte E (convertSpeed (rxBuf s ! i) (rxBuf s ! (i + 1))) SLAVE_ID_MOTOR s) (\<lambda>r s.
     motorSpeedLoop E (i + 2) n (if r \<noteq> 0 then s\<lparr>t1 := t1 s + 1\<rparr> else s))"

text \<open>
  The byte told to the distribution board: \<^verbatim>\<open>speed\<close> is a 16-bit \<^verbatim>\<open>int\<close>, negated when negative,
  shifted right once and narrowed.
\<close>

definition distroSpeed :: "byte \<Rightarrow> byte \<Rightarrow> byte" where
  "distroSpeed high low =
     (let speed = push_bit 8 (ucast high :: word16) OR ucast low;
          speed = (if speed <s 0 then - speed else speed)
      in ucast (signed_drop_bit 1 speed))"

fun distroSpeedLoop :: "'e bus_env \<Rightarrow> nat \<Rightarrow> nat \<Rightarrow> (unit, 'e) fw" where
  "distroSpeedLoop E i 0 s = Done () s"
| "distroSpeedLoop E i (Suc n) s =
     on (busWriteByte E (distroSpeed (rxBuf s ! (2 * i)) (rxBuf s ! (2 * i + 1))) SLAVE_ID_THRUSTERS s) (\<lambda>r s.
     distroSpeedLoop E (Suc i) n (if r \<noteq> 0 then s\<lparr>t1 := t1 s + 1\<rparr> else s))"

definition host_setspeed :: "'e bus_env \<Rightarrow> (unit, 'e) fw" where
  "host_setspeed E s =
     on (recvRange E 0 13 (setMotorFailsafe s)) (\<lambda>_ s.
     if chksum (rxBuf s) 12 HOST_CMD_SETSPEED \<noteq> rxBuf s ! 12
     then sendByte HOST_REPLY_BADCHKSUM s else
     let s = s\<lparr>t1 := 0\<rparr> in
     on (busWriteByte E BUS_CMD_SET_MOT_SPEEDS SLAVE_ID_MOTOR s) (\<lambda>_ s.
     on (motorSpeedLoop E 0 6 s) (\<lambda>_ s.
     on (busWriteByte E BUS_CMD_MOTRSPEEDS SLAVE_ID_THRUSTERS s) (\<lambda>r s.
     on (if r = 0 then distroSpeedLoop E 0 6 s else Done () (s\<lparr>t1 := t1 s + 1\<rparr>)) (\<lambda>_ s.
     if t1 s = 0 then sendByte HOST_REPLY_SUCCESS s else sendByte HOST_REPLY_FAILURE s)))))"

end
