(* ===== verification/Firmware.thy ===== *)
theory Firmware
  imports CommandsSet
begin

text \<open>
  The switch of \<^verbatim>\<open>main\<close> in \<^verbatim>\<open>sbr9/ic1.c\<close> and its loop.
\<close>

section \<open>The switch\<close>

text \<open>Every \<^verbatim>\<open>case\<close> label with its code.  A byte without a label is ignored.\<close>

definition commands :: "'e bus_env \<Rightarrow> (byte \<times> (unit, 'e) fw) list" where
  "commands E =
     [(HOST_CMD_SYNC, host_sync),
      (HOST_CMD_PING, host_ping E),
      (HOST_CMD_SYSCHECK, host_syscheck E),
      (HOST_CMD_DEPTH, host_depth E),
      (HOST_CMD_THRUSTERSTATE, host_thrusterstate E),
      (HOST_CMD_READ_OVR, host_read_ovr E),
      (HOST_CMD_CAM_RELAY_ON, host_cam_relay_on E),
      (HOST_CMD_CAM_RELAY_OFF, host_cam_relay_off E),
      (HOST_CMD_BATTSTATE, host_battstate E),
      (HOST_CMD_BARSTATE, host_barstate E),
      (HOST_CMD_READ_OVRLIMIT, host_read_ovrlimit E),
      (HOST_CMD_SET_OVRLIMIT, host_set_ovrlimit E),
      (HOST_CMD_SWITCHPOWER, host_switchpower E),
      (HOST_CMD_BOARDSTATUS, host_boardstatus E),
      (HOST_CMD_HARDKILL, host_hardkill E),
      (HOST_CMD_MARKER, host_marker E),
      (HOST_CMD_BACKLIGHT, host_backlight E),
      (HOST_CMD_BFIN_STATE, host_bfin_state E),
      (HOST_CMD_BARANIMATION, host_baranimation E),
      (HOST_CMD_SET_BARS, host_set_bars E),
      (HOST_CMD_THRUSTERS, host_thrusters E),
      (HOST_CMD_BARS, host_bars E),
      (HOST_CMD_BATTCTL, host_battctl E),
      (HOST_CMD_TEMPERATURE, host_temperature E),
      (HOST_CMD_PRINTTEXT, host_printtext E),
      (HOST_CMD_SONAR, host_sonar E),
      (HOST_CMD_BFRESET, host_bfreset E),
      (HOST_CMD_RUNTIMEDIAG, host_runtimediag E),
      (HOST_CMD_SETSPEED, host_setspeed E),
      (HOST_CMD_MOTOR_READ, host_motor_read E),
      (HOST_CMD_IMOTOR, host_imotor E),
      (HOST_CMD_VLOW, host_vlow E),
      (HOST_CMD_BATTVOLTAGE, host_battvoltage E),
      (HOST_CMD_BATTCURRENT, host_battcurrent E),
      (HOST_CMD_DVL_ON, host_dvl_on E),
      (HOST_CMD_DVL_OFF, host_dvl_off E),
      (HOST_CMD_MAG_PWR_ON, host_mag_pwr_on E),
      (HOST_CMD_MAG_PWR_OFF, host_mag_pwr_off E),
      (HOST_CMD_FIRE_TORP_1, host_fire_torp_1 E),
      (HOST_CMD_FIRE_TORP_2, host_fire_torp_2 E),
      (HOST_CMD_ARM_TORP_1, host_arm_torp_1 E),
      (HOST_CMD_ARM_TORP_2, host_arm_torp_2 E),
      (HOST_CMD_VOID_TORP_1, host_void_torp_1 E),
      (HOST_CMD_VOID_TORP_2, host_void_torp_2 E),
      (HOST_CMD_EXT_GRABBER, host_ext_grabber E),
      (HOST_CMD_RET_GRABBER, host_ret_grabber E),
      (HOST_CMD_VOID_GRABBER, host_void_grabber E),
      (HOST_CMD_VOID_PNEU, host_void_pneu E),
      (HOST_CMD_OFF_PNEU, host_off_pneu E),
      (HOST_CMD_DERPY_ON, host_derpy_on E),
      (HOST_CMD_DERPY_OFF, host_derpy_off E),
      (HOST_CMD_STOP_DERPY, host_stop_derpy E),
      (HOST_CMD_SET_DERPY, host_set_derpy E)]"

definition hostCommand :: "'e bus_env \<Rightarrow> byte \<Rightarrow> (unit, 'e) fw" where
  "hostCommand E c s =
     (case map_of (commands E) c of None \<Rightarrow> Done () s | Some handler \<Rightarrow> handler s)"

section \<open>The loop\<close>

text \<open>
  \<^verbatim>\<open>while(IN_USBDETECT != USB_PRESENT)\<close>: the lights toggle until the pin comes back.  Bytes that
  arrive meanwhile stay in the receiver.
\<close>

fun waitUsb :: "uart_event list \<Rightarrow> uart_event list \<Rightarrow> (unit, 'e) fw" where
  "waitUsb kept evs s =
     (if usb s then Done () (s\<lparr>rx := rev kept @ evs\<rparr>) else
      (case evs of
         [] \<Rightarrow> Stop Waiting
       | Byte b # evs' \<Rightarrow> waitUsb (Byte b # kept) evs' s
       | No_data # evs' \<Rightarrow> waitUsb kept evs' (s\<lparr>LAT_LED_ACT := \<not> LAT_LED_ACT s, LAT_LED_ERR := \<not> LAT_LED_ERR s\<rparr>)
       | Usb_pin level # evs' \<Rightarrow> waitUsb kept evs' (s\<lparr>usb := level\<rparr>)
       | T1_expired # evs' \<Rightarrow> waitUsb kept evs' (if TON (timer1 s) \<and> TIE (timer1 s) then T1Interrupt s else s)))"

declare waitUsb.simps [simp del]

definition lostUsb :: "'e bus_env \<Rightarrow> (unit, 'e) fw" where
  "lostUsb E s =
     on (showString E (cstr ''Lost Mini...    '') 0 s) (\<lambda>_ s.
     on (showString E (cstr ''      ;_;       '') 1 s) (\<lambda>_ s.
     let s = s\<lparr>LAT_LED_ACT := False, LAT_LED_ERR := True\<rparr> in
     on (waitUsb [] (rx s) s) (\<lambda>_ s.
     on (showString E (cstr ''USB Restored... '') 0 s) (\<lambda>_ s.
     showString E (cstr ''     d^_^b      '') 1 s))))"

definition mainStep :: "'e bus_env \<Rightarrow> (unit, 'e) fw" where
  "mainStep E s =
     on (waitchar E (actLight s)) (\<lambda>c s.
     let c = (word_of_int c :: byte) in
     if \<not> usb s then lostUsb E s else hostCommand E c s)"

text \<open>The first \<open>n\<close> iterations of \<^verbatim>\<open>while(1)\<close>.\<close>

fun mainLoop :: "'e bus_env \<Rightarrow> nat \<Rightarrow> (unit, 'e) fw" where
  "mainLoop E 0 s = Done () s"
| "mainLoop E (Suc n) s = on (mainStep E s) (\<lambda>_ s. mainLoop E n s)"

end
