(* ===== verification/Replies.thy ===== *)
theory Replies
  imports Firmware
begin

text \<open>
  Properties of the master that hold whatever the slaves and the host do: every command is
  answered with exactly one well-formed reply, the receive buffer keeps its size and the bus is
  left released.
\<close>

section \<open>The reply protocol\<close>

text \<open>The commands that answer with data: the code of the reply and the number of data bytes.\<close>

definition data_replies :: "(byte \<times> byte \<times> nat) list" where
  "data_replies =
     [(HOST_CMD_DEPTH, HOST_REPLY_DEPTH, 2),
      (HOST_CMD_THRUSTERSTATE, HOST_REPLY_THRUSTERSTATE, 1),
      (HOST_CMD_READ_OVR, HOST_REPLY_OVR, 1),
      (HOST_CMD_BATTSTATE, HOST_REPLY_BATTSTATE, 1),
      (HOST_CMD_BARSTATE, HOST_REPLY_BARSTATE, 1),
      (HOST_CMD_READ_OVRLIMIT, HOST_REPLY_OVRLIMIT, 2),
      (HOST_CMD_BOARDSTATUS, HOST_REPLY_BOARDSTATUS, 2),
      (HOST_CMD_TEMPERATURE, HOST_REPLY_TEMPERATURE, 7),
      (HOST_CMD_SONAR, HOST_REPLY_SONAR, 22),
      (HOST_CMD_MOTOR_READ, HOST_CMD_MOTOR_REPLY, 6),
      (HOST_CMD_IMOTOR, HOST_REPLY_IMOTOR, 16),
      (HOST_CMD_VLOW, HOST_REPLY_VLOW, 10),
      (HOST_CMD_BATTVOLTAGE, HOST_REPLY_BATTVOLTAGE, 14),
      (HOST_CMD_BATTCURRENT, HOST_REPLY_BATTCURRENT, 12)]"

text \<open>
  A reply to the command \<open>c\<close>: an error code, or the success code, or, for a command that answers
  with data, the code, the data and the sum of both.
\<close>

definition reply_frame :: "byte \<Rightarrow> byte list \<Rightarrow> bool" where
  "reply_frame c fr \<longleftrightarrow>
     fr = [HOST_REPLY_FAILURE] \<or> fr = [HOST_REPLY_BADCHKSUM] \<or>
     (case map_of data_replies c of
        None \<Rightarrow> fr = [HOST_REPLY_SUCCESS]
      | Some (r, n) \<Rightarrow> length fr = n + 2 \<and> hd fr = r \<and> last fr = sum_list (butlast fr))"

text \<open>So far: nothing sent since \<open>s0\<close>, the buffer in shape, the bus released.\<close>

definition silent :: "'e master \<Rightarrow> 'e master \<Rightarrow> bool" where
  "silent s0 s \<longleftrightarrow> tx s = tx s0 \<and> wf_master s \<and> (quiet s0 \<longrightarrow> quiet s)"

definition answered :: "byte \<Rightarrow> 'e master \<Rightarrow> 'e master \<Rightarrow> bool" where
  "answered c s0 s \<longleftrightarrow> (\<exists>fr. reply_frame c fr \<and> tx s = tx s0 @ fr) \<and> wf_master s \<and> (quiet s0 \<longrightarrow> quiet s)"

lemma silent_refl: "wf_master s \<Longrightarrow> silent s s"
  by (simp add: silent_def)

lemma silent_bus_only: "silent s0 s \<Longrightarrow> bus_only s s' \<Longrightarrow> (quiet s \<longrightarrow> quiet s') \<Longrightarrow> silent s0 s'"
  by (simp add: silent_def bus_only_def wf_master_def)

lemma silent_block_only: "silent s0 s \<Longrightarrow> block_only s s' \<Longrightarrow> (quiet s \<longrightarrow> quiet s') \<Longrightarrow> silent s0 s'"
  by (simp add: silent_def bus_only_def block_only_def wf_master_def)

lemma silent_updates [simp]:
  "silent s0 (s\<lparr>t1 := x\<rparr>) = silent s0 s"
  "silent s0 (s\<lparr>diagMsg := b\<rparr>) = silent s0 s"
  "silent s0 (s\<lparr>rx := evs\<rparr>) = silent s0 s"
  "silent s0 (s\<lparr>usb := l\<rparr>) = silent s0 s"
  "silent s0 (s\<lparr>failsafeTripped := f\<rparr>) = silent s0 s"
  "silent s0 (s\<lparr>LAT_LED_ACT := f\<rparr>) = silent s0 s"
  "silent s0 (s\<lparr>LAT_LED_ERR := f\<rparr>) = silent s0 s"
  "silent s0 (s\<lparr>rxBuf := (rxBuf s)[i := b]\<rparr>) = silent s0 s"
  "silent s0 (s\<lparr>rxBuf := (rxBuf s)[i := b, j := b']\<rparr>) = silent s0 s"
  "silent s0 (actLight s) = silent s0 s"
  "silent s0 (setMotorFailsafe s) = silent s0 s"
  "silent s0 (T1Interrupt s) = silent s0 s"
  by (simp_all add: silent_def wf_master_def quiet_def released_def actLight_def
        setMotorFailsafe_def T1Interrupt_def)

section \<open>Rules, one per statement\<close>

lemma busWriteByte_silent [answer]:
  assumes "silent s0 s" and "\<And>a s'. silent s0 s' \<Longrightarrow> Q a s'"
  shows "always (busWriteByte E d r s) Q"
  by (rule always_busWriteByte) (use assms in \<open>blast intro: silent_bus_only\<close>)

lemma readDataBlock_silent [answer]:
  assumes "silent s0 s" and "\<And>a s'. silent s0 s' \<Longrightarrow> Q a s'"
  shows "always (readDataBlock E r s) Q"
  by (rule always_readDataBlock) (use assms in \<open>blast intro: silent_block_only\<close>)

lemma busWrites_silent:
  assumes "silent s0 s" and "\<And>a s'. silent s0 s' \<Longrightarrow> Q a s'"
  shows "always (busWrites E ws s) Q"
  using assms(1)
proof (induction ws arbitrary: s)
  case Nil
  then show ?case by (simp add: assms(2))
next
  case (Cons w ws)
  then show ?case by (cases w) (auto intro: busWriteByte_silent)
qed

lemma checkFailsafe_silent:
  assumes "silent s0 s" and "\<And>a s'. silent s0 s' \<Longrightarrow> Q a s'"
  shows "always (checkFailsafe E s) Q"
  using assms by (auto simp: checkFailsafe_def simp del: busWrites.simps intro!: busWrites_silent)

lemma waitLoop_silent:
  assumes "silent s0 s" and "\<And>a s'. silent s0 s' \<Longrightarrow> Q a s'"
  shows "always (waitLoop E evs s) Q"
  using assms(1)
proof (induction E evs s rule: waitLoop.induct)
  case (3 E evs s)
  have "silent s0 t" if "checkFailsafe E s = Done u t" for u t
    using checkFailsafe_silent [OF "3.prems", of "\<lambda>_. silent s0" E] that by simp
  then show ?case
    using "3.IH" "3.prems" by (cases "checkFailsafe E s") (auto intro: assms(2))
qed (auto intro!: assms(2))

lemma waitchar_silent [answer]:
  assumes "silent s0 s" and "\<And>a s'. silent s0 s' \<Longrightarrow> Q a s'"
  shows "always (waitchar E s) Q"
  using assms by (auto simp: waitchar_def intro!: checkFailsafe_silent waitLoop_silent)

lemma recvTo_silent [answer]:
  assumes "silent s0 s" and "\<And>a s'. silent s0 s' \<Longrightarrow> Q a s'"
  shows "always (recvTo E i s) Q"
  using assms(1) by (auto simp: recvTo_def intro!: waitchar_silent assms(2))

lemma recvRange_silent [answer]:
  assumes "silent s0 s" and "\<And>a s'. silent s0 s' \<Longrightarrow> Q a s'"
  shows "always (recvRange E p n s) Q"
  using assms(1)
proof (induction n arbitrary: p s)
  case (Suc n)
  then show ?case by (auto intro: recvTo_silent)
qed (simp add: assms(2))

lemma showChars_silent:
  assumes "silent s0 s" and "\<And>a s'. silent s0 s' \<Longrightarrow> Q a s'"
  shows "always (showChars E l i str s) Q"
  using assms(1)
proof (induction str arbitrary: i s)
  case (Cons c str)
  then show ?case by (auto intro!: busWriteByte_silent assms(2))
qed simp

lemma showString_silent [answer]:
  assumes "silent s0 s" and "\<And>a s'. silent s0 s' \<Longrightarrow> Q a s'"
  shows "always (showString E str l s) Q"
  using assms by (auto simp: showString_def intro!: showChars_silent busWriteByte_silent)

text \<open>The three acknowledgements.\<close>

lemma sendByte_failure [answer]:
  "silent s0 s \<Longrightarrow> always (sendByte HOST_REPLY_FAILURE s) (\<lambda>_. answered c s0)"
  by (auto simp: sendByte_def answered_def silent_def reply_frame_def wf_master_def quiet_def released_def)

lemma sendByte_badchksum [answer]:
  "silent s0 s \<Longrightarrow> always (sendByte HOST_REPLY_BADCHKSUM s) (\<lambda>_. answered c s0)"
  by (auto simp: sendByte_def answered_def silent_def reply_frame_def wf_master_def quiet_def released_def)

lemma sendByte_success [answer]:
  "silent s0 s \<Longrightarrow> map_of data_replies c = None \<Longrightarrow>
     always (sendByte HOST_REPLY_SUCCESS s) (\<lambda>_. answered c s0)"
  by (auto simp: sendByte_def answered_def silent_def reply_frame_def wf_master_def quiet_def released_def)

lemma sendBytes_eq [simp]: "sendBytes bs s = Done () (s\<lparr>tx := tx s @ bs\<rparr>)"
  by (induction bs arbitrary: s) (simp_all add: sendByte_def)

text \<open>A data reply.\<close>

lemma answered_data:
  assumes "silent s0 s" and "map_of data_replies c = Some (r, length ds)" and "k = sum_list ds + r"
  shows "answered c s0 (s\<lparr>tx := tx s @ r # ds @ [k]\<rparr>)"
proof -
  have "reply_frame c (r # ds @ [k])"
    using assms(2,3) by (simp add: reply_frame_def add.commute)
  with assms(1) show ?thesis
    by (auto simp: answered_def silent_def wf_master_def quiet_def released_def)
qed

lemma map_nth_upt: "n \<le> length xs \<Longrightarrow> map (\<lambda>i. xs ! i) [0..<n] = take n xs"
  by (rule nth_equalityI) simp_all

lemma sendRx_answered [answer]:
  assumes "silent s0 s" and "map_of data_replies c = Some (r, n)" and "n \<le> RXBUF_LEN"
  shows "always (sendRx r n s) (\<lambda>_. answered c s0)"
proof -
  have n: "n \<le> length (rxBuf s)"
    using assms(1,3) by (simp add: silent_def wf_master_def)
  then show ?thesis
    using answered_data [of s0 s c r "take n (rxBuf s)" "sum_list (take n (rxBuf s)) + r"] assms
    by (simp add: sendRx_def sendByte_def map_nth_upt chksum_sum min_absorb2)
qed

lemma must_answered [answer]:
  assumes "silent s0 s" and "\<And>s'. silent s0 s' \<Longrightarrow> always (k s') (\<lambda>_. answered c s0)"
  shows "always (must E d r s k) (\<lambda>_. answered c s0)"
  using assms by (auto simp: must_def intro!: answer)

lemma mustRead_answered [answer]:
  assumes "silent s0 s" and "\<And>s'. silent s0 s' \<Longrightarrow> always (k s') (\<lambda>_. answered c s0)"
  shows "always (mustRead E r n s k) (\<lambda>_. answered c s0)"
  unfolding mustRead_def always_on
  by (rule readDataBlock_silent [OF assms(1)]) (simp add: assms(2) sendByte_failure)

lemma waitT1_silent [answer]:
  assumes "silent s0 s" and "\<And>a s'. silent s0 s' \<Longrightarrow> Q a s'"
  shows "always (waitT1 E s) Q"
  unfolding waitT1_def always_on by (rule waitchar_silent [OF assms(1)]) (simp add: assms(2))

lemma echoT1_answered [answer]:
  assumes "silent s0 s" and "\<And>s'. silent s0 s' \<Longrightarrow> always (k s') (\<lambda>_. answered c s0)"
  shows "always (echoT1 E cmd s k) (\<lambda>_. answered c s0)"
  unfolding echoT1_def always_on
  by (rule waitT1_silent [OF assms(1)]) (simp add: assms(2) sendByte_badchksum)

lemma echo_answered [answer]:
  assumes "silent s0 s" and "\<And>s'. silent s0 s' \<Longrightarrow> always (k s') (\<lambda>_. answered c s0)"
  shows "always (echo E cmd s k) (\<lambda>_. answered c s0)"
  unfolding echo_def always_on
  by (rule waitchar_silent [OF assms(1)]) (simp add: assms(2) sendByte_badchksum)

lemma param_answered [answer]:
  assumes "silent s0 s" and "\<And>s'. silent s0 s' \<Longrightarrow> always (k s') (\<lambda>_. answered c s0)"
  shows "always (param E cmd valid s k) (\<lambda>_. answered c s0)"
  unfolding param_def always_on
  by (rule recvTo_silent [OF assms(1)], erule recvTo_silent) (simp add: assms(2) sendByte_badchksum)

lemma element_answered [answer]:
  assumes "silent s0 s" and "\<And>b s'. silent s0 s' \<Longrightarrow> always (k b s') (\<lambda>_. answered c s0)"
  shows "always (element a i s k) (\<lambda>_. answered c s0)"
  using assms by (simp add: element_def)

lemma ack_answered [answer]:
  assumes "silent s0 s" and "map_of data_replies c = None"
  shows "always (ack E b r s) (\<lambda>_. answered c s0)"
  unfolding ack_def by (rule must_answered [OF assms(1)]) (simp add: assms(2) sendByte_success)

lemma query_answered [answer]:
  assumes "silent s0 s" and "map_of data_replies c = Some (r, n)" and "n \<le> RXBUF_LEN"
  shows "always (query E b i n r s) (\<lambda>_. answered c s0)"
  unfolding query_def
  by (rule must_answered [OF assms(1)], erule mustRead_answered, erule sendRx_answered) (fact assms)+

end
