(* ===== verification/Answers.thy ===== *)
theory Answers
  imports Replies
begin

text \<open>
  Every command of the switch gives one well-formed reply, in every environment: the rules of
  \<^verbatim>\<open>Replies\<close> applied to each handler, and the lift to the switch and the main loop.
\<close>

section \<open>Loops inside the handlers\<close>

lemma sysCheckLoop_silent [answer]:
  assumes "silent s0 s" and "\<And>a s'. silent s0 s' \<Longrightarrow> Q a s'"
  shows "always (sysCheckLoop E i n err s) Q"
  using assms(1)
proof (induction n arbitrary: i err s)
  case (Suc n)
  then show ?case by (auto intro!: busWriteByte_silent readDataBlock_silent)
qed (simp add: assms(2))

lemma readMotor_silent [answer]:
  assumes "silent s0 s" and "\<And>a s'. silent s0 s' \<Longrightarrow> Q a s'"
  shows "always (readMotor E cmd i s) Q"
  unfolding readMotor_def always_on Let_def
  using assms by (auto intro!: answer)

lemma printTextLoop_silent [answer]:
  assumes "silent s0 s" and "\<And>a s'. silent s0 s' \<Longrightarrow> Q a s'"
  shows "always (printTextLoop E i n err s) Q"
  using assms(1)
proof (induction n arbitrary: i err s)
  case (Suc n)
  then show ?case by (auto intro!: busWriteByte_silent assms(2))
qed (simp add: assms(2))

lemma motorSpeedLoop_silent [answer]:
  assumes "silent s0 s" and "\<And>a s'. silent s0 s' \<Longrightarrow> Q a s'"
  shows "always (motorSpeedLoop E i n s) Q"
  using assms(1)
proof (induction n arbitrary: i s)
  case (Suc n)
  then show ?case by (auto intro!: busWriteByte_silent)
qed (simp add: assms(2))

lemma distroSpeedLoop_silent [answer]:
  assumes "silent s0 s" and "\<And>a s'. silent s0 s' \<Longrightarrow> Q a s'"
  shows "always (distroSpeedLoop E i n s) Q"
  using assms(1)
proof (induction n arbitrary: i s)
  case (Suc n)
  then show ?case by (auto intro!: busWriteByte_silent)
qed (simp add: assms(2))

section \<open>The handlers\<close>

text \<open>\<open>handles c h\<close>: the handler \<open>h\<close> answers the command \<open>c\<close>.\<close>

definition handles :: "byte \<Rightarrow> (unit, 'e) fw \<Rightarrow> bool" where
  "handles c h \<longleftrightarrow> (\<forall>s0 s. silent s0 s \<longrightarrow> always (h s) (\<lambda>_. answered c s0))"

lemma handlesI: "(\<And>s0 s. silent s0 s \<Longrightarrow> always (h s) (\<lambda>_. answered c s0)) \<Longrightarrow> handles c h"
  by (simp add: handles_def)

text \<open>What each command answers with.\<close>

lemma reply_of_command:
  "map_of data_replies HOST_CMD_SYNC = None"
  "map_of data_replies HOST_CMD_PING = None"
  "map_of data_replies HOST_CMD_SYSCHECK = None"
  "map_of data_replies HOST_CMD_DEPTH = Some (HOST_REPLY_DEPTH, 2)"
  "map_of data_replies HOST_CMD_THRUSTERSTATE = Some (HOST_REPLY_THRUSTERSTATE, 1)"
  "map_of data_replies HOST_CMD_READ_OVR = Some (HOST_REPLY_OVR, 1)"
  "map_of data_replies HOST_CMD_CAM_RELAY_ON = None"
  "map_of data_replies HOST_CMD_CAM_RELAY_OFF = None"
  "map_of data_replies HOST_CMD_BATTSTATE = Some (HOST_REPLY_BATTSTATE, 1)"
  "map_of data_replies HOST_CMD_BARSTATE = Some (HOST_REPLY_BARSTATE, 1)"
  "map_of data_replies HOST_CMD_READ_OVRLIMIT = Some (HOST_REPLY_OVRLIMIT, 2)"
  "map_of data_replies HOST_CMD_SET_OVRLIMIT = None"
  "map_of data_replies HOST_CMD_SWITCHPOWER = None"
  "map_of data_replies HOST_CMD_BOARDSTATUS = Some (HOST_REPLY_BOARDSTATUS, 2)"
  "map_of data_replies HOST_CMD_HARDKILL = None"
  "map_of data_replies HOST_CMD_MARKER = None"
  "map_of data_replies HOST_CMD_BACKLIGHT = None"
  "map_of data_replies HOST_CMD_BFIN_STATE = None"
  "map_of data_replies HOST_CMD_BARANIMATION = None"
  "map_of data_replies HOST_CMD_SET_BARS = None"
  "map_of data_replies HOST_CMD_THRUSTERS = None"
  "map_of data_replies HOST_CMD_BARS = None"
  "map_of data_replies HOST_CMD_BATTCTL = None"
  "map_of data_replies HOST_CMD_TEMPERATURE = Some (HOST_REPLY_TEMPERATURE, 7)"
  "map_of data_replies HOST_CMD_PRINTTEXT = None"
  "map_of data_replies HOST_CMD_SONAR = Some (HOST_REPLY_SONAR, 22)"
  "map_of data_replies HOST_CMD_BFRESET = None"
  "map_of data_replies HOST_CMD_RUNTIMEDIAG = None"
  "map_of data_replies HOST_CMD_SETSPEED = None"
  "map_of data_replies HOST_CMD_MOTOR_READ = Some (HOST_CMD_MOTOR_REPLY, 6)"
  "map_of data_replies HOST_CMD_IMOTOR = Some (HOST_REPLY_IMOTOR, 16)"
  "map_of data_replies HOST_CMD_VLOW = Some (HOST_REPLY_VLOW, 10)"
  "map_of data_replies HOST_CMD_BATTVOLTAGE = Some (HOST_REPLY_BATTVOLTAGE, 14)"
  "map_of data_replies HOST_CMD_BATTCURRENT = Some (HOST_REPLY_BATTCURRENT, 12)"
  "map_of data_replies HOST_CMD_DVL_ON = None"
  "map_of data_replies HOST_CMD_DVL_OFF = None"
  "map_of data_replies HOST_CMD_MAG_PWR_ON = None"
  "map_of data_replies HOST_CMD_MAG_PWR_OFF = None"
  "map_of data_replies HOST_CMD_FIRE_TORP_1 = None"
  "map_of data_replies HOST_CMD_FIRE_TORP_2 = None"
  "map_of data_replies HOST_CMD_ARM_TORP_1 = None"
  "map_of data_replies HOST_CMD_ARM_TORP_2 = None"
  "map_of data_replies HOST_CMD_VOID_TORP_1 = None"
  "map_of data_replies HOST_CMD_VOID_TORP_2 = None"
  "map_of data_replies HOST_CMD_EXT_GRABBER = None"
  "map_of data_replies HOST_CMD_RET_GRABBER = None"
  "map_of data_replies HOST_CMD_VOID_GRABBER = None"
  "map_of data_replies HOST_CMD_VOID_PNEU = None"
  "map_of data_replies HOST_CMD_OFF_PNEU = None"
  "map_of data_replies HOST_CMD_DERPY_ON = None"
  "map_of data_replies HOST_CMD_DERPY_OFF = None"
  "map_of data_replies HOST_CMD_STOP_DERPY = None"
  "map_of data_replies HOST_CMD_SET_DERPY = None"
  by (simp_all add: data_replies_def codes)

text \<open>Frames sent byte by byte.\<close>

lemma on_sendByte: "on (sendByte b s) k = k () (s\<lparr>tx := tx s @ [b]\<rparr>)"
  by (simp add: sendByte_def)

lemma sendByte_data:
  assumes "silent s0 s" and "map_of data_replies c = Some (r, length ds)" and "k = sum_list ds + r"
  shows "always (sendByte k (s\<lparr>tx := tx s @ r # ds\<rparr>)) (\<lambda>_. answered c s0)"
  using answered_data [OF assms] by (simp add: sendByte_def)

lemma silent_chksum2:
  "silent s0 s \<Longrightarrow> chksum (rxBuf s) 2 r = rxBuf s ! 0 + rxBuf s ! 1 + r"
  by (cases "rxBuf s"; cases "tl (rxBuf s)")
    (auto simp: silent_def wf_master_def chksum_sum numeral_2_eq_2)

lemma silent_chksum2_update:
  "silent s0 s \<Longrightarrow> chksum ((rxBuf s)[Suc 0 := b]) 2 r = rxBuf s ! 0 + b + r"
  "silent s0 s \<Longrightarrow> (rxBuf s)[Suc 0 := b] ! Suc 0 = b"
  using silent_chksum2 [of s0 "s\<lparr>rxBuf := (rxBuf s)[Suc 0 := b]\<rparr>" r]
  by (auto simp: silent_def wf_master_def)

lemma sendByte_data_update:
  assumes "silent s0 s" and "map_of data_replies c = Some (r, length ds)" and "k = sum_list ds + r"
  shows "always (sendByte k (s\<lparr>rxBuf := (rxBuf s)[i := b], tx := tx s @ r # ds\<rparr>)) (\<lambda>_. answered c s0)"
  using sendByte_data [of s0 "s\<lparr>rxBuf := (rxBuf s)[i := b]\<rparr>" c r ds k] assms by simp

lemma chksum_6: "chksum [a, b, c, d, e, f] 6 r = a + b + c + d + e + f + r"
  by (simp add: chksum_sum)

lemma simpleCmd_answered [answer]:
  assumes "silent s0 s" and "map_of data_replies c = Some (r, 1)"
  shows "always (simpleCmd E cmd r i b s) (\<lambda>_. answered c s0)"
  unfolding simpleCmd_def always_on
  by (rule waitchar_silent [OF assms(1)])
    (simp add: answer assms(2) on_sendByte sendByte_data add.commute)

lemmas answering = reply_of_command answer silent_refl Let_def

lemma link_handled:
  "handles HOST_CMD_SYNC host_sync"
  "handles HOST_CMD_PING (host_ping E)"
  "handles HOST_CMD_SYSCHECK (host_syscheck E)"
  unfolding host_sync_def host_ping_def host_syscheck_def
  by (rule handlesI; simp add: answering SONAR_PACKET_LEN_val)+

lemma simple_handled:
  "handles HOST_CMD_THRUSTERSTATE (host_thrusterstate E)"
  "handles HOST_CMD_READ_OVR (host_read_ovr E)"
  "handles HOST_CMD_BATTSTATE (host_battstate E)"
  "handles HOST_CMD_BARSTATE (host_barstate E)"
  unfolding host_thrusterstate_def host_read_ovr_def host_battstate_def host_barstate_def
  by (rule handlesI; simp add: answering SONAR_PACKET_LEN_val)+

lemma block_handled:
  "handles HOST_CMD_DEPTH (host_depth E)"
  "handles HOST_CMD_SONAR (host_sonar E)"
  "handles HOST_CMD_IMOTOR (host_imotor E)"
  "handles HOST_CMD_VLOW (host_vlow E)"
  "handles HOST_CMD_BATTVOLTAGE (host_battvoltage E)"
  "handles HOST_CMD_BATTCURRENT (host_battcurrent E)"
  unfolding host_depth_def host_sonar_def host_imotor_def host_vlow_def host_battvoltage_def host_battcurrent_def
  by (rule handlesI; simp add: answering SONAR_PACKET_LEN_val)+

lemma collect_handled:
  "handles HOST_CMD_READ_OVRLIMIT (host_read_ovrlimit E)"
  "handles HOST_CMD_BOARDSTATUS (host_boardstatus E)"
  "handles HOST_CMD_TEMPERATURE (host_temperature E)"
  "handles HOST_CMD_MOTOR_READ (host_motor_read E)"
  unfolding host_read_ovrlimit_def host_boardstatus_def host_temperature_def host_motor_read_def
  by (rule handlesI; simp add: answering on_sendByte sendByte_data sendByte_data_update silent_chksum2
        silent_chksum2_update chksum_6 add_ac)+

lemma ack_handled:
  "handles HOST_CMD_CAM_RELAY_ON (host_cam_relay_on E)"
  "handles HOST_CMD_CAM_RELAY_OFF (host_cam_relay_off E)"
  "handles HOST_CMD_BFRESET (host_bfreset E)"
  "handles HOST_CMD_DVL_ON (host_dvl_on E)"
  "handles HOST_CMD_DVL_OFF (host_dvl_off E)"
  "handles HOST_CMD_MAG_PWR_ON (host_mag_pwr_on E)"
  "handles HOST_CMD_MAG_PWR_OFF (host_mag_pwr_off E)"
  "handles HOST_CMD_FIRE_TORP_1 (host_fire_torp_1 E)"
  "handles HOST_CMD_FIRE_TORP_2 (host_fire_torp_2 E)"
  "handles HOST_CMD_ARM_TORP_1 (host_arm_torp_1 E)"
  "handles HOST_CMD_ARM_TORP_2 (host_arm_torp_2 E)"
  "handles HOST_CMD_VOID_TORP_1 (host_void_torp_1 E)"
  "handles HOST_CMD_VOID_TORP_2 (host_void_torp_2 E)"
  "handles HOST_CMD_EXT_GRABBER (host_ext_grabber E)"
  "handles HOST_CMD_RET_GRABBER (host_ret_grabber E)"
  "handles HOST_CMD_VOID_GRABBER (host_void_grabber E)"
  "handles HOST_CMD_VOID_PNEU (host_void_pneu E)"
  "handles HOST_CMD_OFF_PNEU (host_off_pneu E)"
  "handles HOST_CMD_DERPY_ON (host_derpy_on E)"
  "handles HOST_CMD_DERPY_OFF (host_derpy_off E)"
  "handles HOST_CMD_STOP_DERPY (host_stop_derpy E)"
  unfolding host_cam_relay_on_def host_cam_relay_off_def host_bfreset_def host_dvl_on_def host_dvl_off_def host_mag_pwr_on_def host_mag_pwr_off_def host_fire_torp_1_def host_fire_torp_2_def host_arm_torp_1_def host_arm_torp_2_def host_void_torp_1_def host_void_torp_2_def host_ext_grabber_def host_ret_grabber_def host_void_grabber_def host_void_pneu_def host_off_pneu_def host_derpy_on_def host_derpy_off_def host_stop_derpy_def
  by (rule handlesI; simp add: answering SONAR_PACKET_LEN_val)+

lemma param_handled:
  "handles HOST_CMD_SWITCHPOWER (host_switchpower E)"
  "handles HOST_CMD_MARKER (host_marker E)"
  "handles HOST_CMD_BACKLIGHT (host_backlight E)"
  "handles HOST_CMD_BFIN_STATE (host_bfin_state E)"
  "handles HOST_CMD_BARANIMATION (host_baranimation E)"
  "handles HOST_CMD_SET_BARS (host_set_bars E)"
  "handles HOST_CMD_BARS (host_bars E)"
  "handles HOST_CMD_BATTCTL (host_battctl E)"
  "handles HOST_CMD_SET_OVRLIMIT (host_set_ovrlimit E)"
  "handles HOST_CMD_HARDKILL (host_hardkill E)"
  "handles HOST_CMD_THRUSTERS (host_thrusters E)"
  "handles HOST_CMD_SET_DERPY (host_set_derpy E)"
  unfolding host_switchpower_def host_marker_def host_backlight_def host_bfin_state_def host_baranimation_def host_set_bars_def host_bars_def host_battctl_def host_set_ovrlimit_def host_hardkill_def host_thrusters_def host_set_derpy_def
  by (rule handlesI; simp add: answering SONAR_PACKET_LEN_val)+

lemma loop_handled:
  "handles HOST_CMD_PRINTTEXT (host_printtext E)"
  "handles HOST_CMD_RUNTIMEDIAG (host_runtimediag E)"
  "handles HOST_CMD_SETSPEED (host_setspeed E)"
  unfolding host_printtext_def host_runtimediag_def host_setspeed_def
  by (rule handlesI; simp add: answering SONAR_PACKET_LEN_val)+

lemma commands_handled: "list_all (\<lambda>(c, h). handles c h) (commands E)"
  unfolding commands_def
  by (simp add: link_handled simple_handled block_handled collect_handled ack_handled
        param_handled loop_handled)

end
