(* ===== verification/Frames.thy ===== *)
theory Frames
  imports Firmware
begin

text \<open>
  The packets of the host as the master takes them: which byte sequence after a command code is a
  well-formed frame, that any other one is refused before anything reaches the bus, and which bus
  transfers a well-formed one stands for.
\<close>

section \<open>Receiving\<close>

lemma checkFailsafe_idle [simp]: "\<not> failsafeTripped s \<Longrightarrow> checkFailsafe E s = Done () s"
  by (simp add: checkFailsafe_def)

lemma waitchar_byte [simp]:
  "\<not> failsafeTripped s \<Longrightarrow> rx s = Byte b # evs \<Longrightarrow> waitchar E s = Done (uint b) (s\<lparr>rx := evs\<rparr>)"
  by (simp add: waitchar_def)

lemma recvTo_byte [simp]:
  "\<not> failsafeTripped s \<Longrightarrow> rx s = Byte b # evs \<Longrightarrow>
     recvTo E i s = Done () (s\<lparr>rx := evs, rxBuf := (rxBuf s)[i := b]\<rparr>)"
  by (simp add: recvTo_def)

lemma recvRange_bytes:
  "\<not> failsafeTripped s \<Longrightarrow> rx s = map Byte bs @ evs \<Longrightarrow> n = length bs \<Longrightarrow>
     recvRange E p n s = Done () (s\<lparr>rx := evs, rxBuf := overwrite p bs (rxBuf s)\<rparr>)"
proof (induction bs arbitrary: s p n)
  case (Cons b bs)
  then show ?case by simp
qed simp

section \<open>Well-formed frames\<close>

text \<open>
  The commands that carry a payload and its checksum: the length of the payload and what the
  master demands of it.  Of \<^verbatim>\<open>HOST_CMD_BATTCTL\<close> it demands nothing.
\<close>

definition payloads :: "(byte \<times> nat \<times> (byte list \<Rightarrow> bool)) list" where
  "payloads =
     [(HOST_CMD_SWITCHPOWER, 1, \<lambda>p. p ! 0 \<le> 1),
      (HOST_CMD_MARKER, 1, \<lambda>p. p ! 0 \<le> 1),
      (HOST_CMD_BACKLIGHT, 1, \<lambda>p. p ! 0 \<le> 2),
      (HOST_CMD_BFIN_STATE, 1, \<lambda>p. p ! 0 \<le> 1),
      (HOST_CMD_BARANIMATION, 1, \<lambda>p. p ! 0 \<le> 2),
      (HOST_CMD_SET_BARS, 1, \<lambda>p. True),
      (HOST_CMD_BARS, 1, \<lambda>p. p ! 0 \<le> 15),
      (HOST_CMD_BATTCTL, 1, \<lambda>p. True),
      (HOST_CMD_RUNTIMEDIAG, 1, \<lambda>p. p ! 0 \<le> 1),
      (HOST_CMD_SET_OVRLIMIT, 2, \<lambda>p. True),
      (HOST_CMD_THRUSTERS, 6, \<lambda>p. take 5 p = tkSafety \<and> p ! 5 \<le> 11),
      (HOST_CMD_SET_DERPY, 6, \<lambda>p. drop 2 p = map of_char ''DERP''),
      (HOST_CMD_SETSPEED, 12, \<lambda>p. True),
      (HOST_CMD_PRINTTEXT, 17, \<lambda>p. p ! 0 \<le> 1)]"

text \<open>How many bytes follow the command code, and which are accepted.\<close>

definition frame_len :: "byte \<Rightarrow> nat" where
  "frame_len c =
     (if c = HOST_CMD_SYNC then 0 else if c = HOST_CMD_HARDKILL then 5
      else case map_of payloads c of None \<Rightarrow> 1 | Some (n, valid) \<Rightarrow> n + 1)"

definition summed :: "byte \<Rightarrow> byte list \<Rightarrow> bool" where
  "summed c bs \<longleftrightarrow> last bs = sum_list (butlast bs) + c"

definition well_framed :: "byte \<Rightarrow> byte list \<Rightarrow> bool" where
  "well_framed c bs \<longleftrightarrow>
     (if c = HOST_CMD_SYNC then bs = [] else if c = HOST_CMD_HARDKILL then bs = hkSafety
      else case map_of payloads c of
             None \<Rightarrow> bs = [c]
           | Some (n, valid) \<Rightarrow> length bs = n + 1 \<and> valid (butlast bs) \<and> summed c bs)"

text \<open>The reply to a frame that is not.\<close>

definition refusal :: "byte \<Rightarrow> byte list \<Rightarrow> byte" where
  "refusal c bs = (if c = HOST_CMD_SET_DERPY \<and> summed c bs then HOST_REPLY_FAILURE else HOST_REPLY_BADCHKSUM)"

section \<open>Refusal\<close>

text \<open>
  \<open>receives s bs evs\<close>: the link delivers the bytes \<open>bs\<close> next, and the failsafe is not waiting to be
  served.
\<close>

definition receives :: "'e master \<Rightarrow> byte list \<Rightarrow> uart_event list \<Rightarrow> bool" where
  "receives s bs evs \<longleftrightarrow> wf_master s \<and> \<not> failsafeTripped s \<and> rx s = map Byte bs @ evs"

definition refused :: "byte \<Rightarrow> uart_event list \<Rightarrow> 'e master \<Rightarrow> 'e master \<Rightarrow> bool" where
  "refused r evs s s' \<longleftrightarrow> env s' = env s \<and> drive_of s' = drive_of s \<and> rx s' = evs \<and> tx s' = tx s @ [r]
     \<and> wf_master s'"

definition refuses :: "byte \<Rightarrow> (unit, 'e) fw \<Rightarrow> bool" where
  "refuses c h \<longleftrightarrow> (\<forall>s bs evs. receives s bs evs \<and> length bs = frame_len c \<and> \<not> well_framed c bs
     \<longrightarrow> finishes (h s) (\<lambda>_. refused (refusal c bs) evs s))"

lemma refusesI:
  "(\<And>s bs evs. receives s bs evs \<Longrightarrow> length bs = frame_len c \<Longrightarrow> \<not> well_framed c bs
     \<Longrightarrow> finishes (h s) (\<lambda>_. refused (refusal c bs) evs s)) \<Longrightarrow> refuses c h"
  by (simp add: refuses_def)

text \<open>The commands whose frame follows one of the two common patterns.\<close>

definition plain :: "byte \<Rightarrow> bool" where
  "plain c \<longleftrightarrow> c \<noteq> HOST_CMD_SYNC \<and> c \<noteq> HOST_CMD_HARDKILL \<and> c \<noteq> HOST_CMD_SET_DERPY"

lemma no_payload:
  assumes "map_of payloads c = None" and "plain c" and "length bs = frame_len c" and "\<not> well_framed c bs"
  obtains b where "bs = [b]" "b \<noteq> c" "refusal c bs = HOST_REPLY_BADCHKSUM"
  using assms by (auto simp: plain_def frame_len_def well_framed_def refusal_def length_Suc_conv)

lemma drive_of_frame [simp]:
  "drive_of (s\<lparr>rx := r\<rparr>) = drive_of s" "drive_of (s\<lparr>tx := t\<rparr>) = drive_of s"
  "drive_of (s\<lparr>rxBuf := b\<rparr>) = drive_of s" "drive_of (s\<lparr>t1 := x\<rparr>) = drive_of s"
  "drive_of (setMotorFailsafe s) = drive_of s"
  by (simp_all add: drive_of_def setMotorFailsafe_def)

lemma echo_refuses:
  assumes "map_of payloads c = None" and "plain c"
  shows "refuses c (\<lambda>s. echo E c s k)" "refuses c (\<lambda>s. echoT1 E c s k)"
    "refuses c (simpleCmd E c r i b)"
proof -
  have "finishes (echo E c s k) (\<lambda>_. refused (refusal c bs) evs s)
      \<and> finishes (echoT1 E c s k) (\<lambda>_. refused (refusal c bs) evs s)
      \<and> finishes (simpleCmd E c r i b s) (\<lambda>_. refused (refusal c bs) evs s)"
    if s: "receives s bs evs" and l: "length bs = frame_len c" and w: "\<not> well_framed c bs"
    for s :: "'a master" and bs evs
  proof -
    obtain x where "bs = [x]" "x \<noteq> c" "refusal c bs = HOST_REPLY_BADCHKSUM"
      using no_payload [OF assms l w] by metis
    moreover from this have "uint x \<noteq> uint c" by (simp add: word_uint_eq_iff)
    ultimately show ?thesis
      using s by (simp add: echo_def echoT1_def waitT1_def simpleCmd_def receives_def refused_def sendByte_def
          wf_master_def)
  qed
  then show "refuses c (\<lambda>s. echo E c s k)" "refuses c (\<lambda>s. echoT1 E c s k)"
    "refuses c (simpleCmd E c r i b)"
    by (simp_all add: refuses_def)
qed

text \<open>The other frames end with their checksum.\<close>

lemma chksum_overwrite:
  assumes "length bs = n + 1" and "n < length buf"
  shows "chksum (overwrite 0 bs buf) n c = sum_list (butlast bs) + c"
    "overwrite 0 bs buf ! n = last bs"
  using assms by (simp_all add: chksum_sum take_overwrite nth_overwrite butlast_conv_take last_conv_nth)
    (metis last_conv_nth length_0_conv nat.simps(3) diff_Suc_1 length_Suc_conv list.discI)+

lemma param_refuses:
  assumes "map_of payloads c = Some (1, \<lambda>p. valid (p ! 0))"
    and "plain c"
  shows "refuses c (\<lambda>s. param E c valid s k)"
proof (rule refusesI)
  fix s :: "'a master" and bs evs
  assume s: "receives s bs evs" and l: "length bs = frame_len c" and w: "\<not> well_framed c bs"
  obtain a b where bs: "bs = [a, b]"
    using l assms by (auto simp: plain_def frame_len_def numeral_2_eq_2 length_Suc_conv)
  then have "\<not> (valid a \<and> b = a + c)" "refusal c bs = HOST_REPLY_BADCHKSUM"
    using w assms by (auto simp: plain_def well_framed_def summed_def refusal_def)
  with s bs show "finishes (param E c valid s k) (\<lambda>_. refused (refusal c bs) evs s)"
    by (auto simp: param_def receives_def refused_def sendByte_def wf_master_def chksum_sum take_Suc_conv_app_nth)
qed

lemma no_payload_commands:
  "map_of payloads HOST_CMD_CAM_RELAY_ON = None"
  "map_of payloads HOST_CMD_CAM_RELAY_OFF = None"
  "map_of payloads HOST_CMD_BFRESET = None"
  "map_of payloads HOST_CMD_DVL_ON = None"
  "map_of payloads HOST_CMD_DVL_OFF = None"
  "map_of payloads HOST_CMD_MAG_PWR_ON = None"
  "map_of payloads HOST_CMD_MAG_PWR_OFF = None"
  "map_of payloads HOST_CMD_FIRE_TORP_1 = None"
  "map_of payloads HOST_CMD_FIRE_TORP_2 = None"
  "map_of payloads HOST_CMD_ARM_TORP_1 = None"
  "map_of payloads HOST_CMD_ARM_TORP_2 = None"
  "map_of payloads HOST_CMD_VOID_TORP_1 = None"
  "map_of payloads HOST_CMD_VOID_TORP_2 = None"
  "map_of payloads HOST_CMD_EXT_GRABBER = None"
  "map_of payloads HOST_CMD_RET_GRABBER = None"
  "map_of payloads HOST_CMD_VOID_GRABBER = None"
  "map_of payloads HOST_CMD_VOID_PNEU = None"
  "map_of payloads HOST_CMD_OFF_PNEU = None"
  "map_of payloads HOST_CMD_DERPY_ON = None"
  "map_of payloads HOST_CMD_DERPY_OFF = None"
  "map_of payloads HOST_CMD_STOP_DERPY = None"
  "map_of payloads HOST_CMD_SYSCHECK = None"
  "map_of payloads HOST_CMD_DEPTH = None"
  "map_of payloads HOST_CMD_SONAR = None"
  "map_of payloads HOST_CMD_VLOW = None"
  "map_of payloads HOST_CMD_BATTVOLTAGE = None"
  "map_of payloads HOST_CMD_BATTCURRENT = None"
  "map_of payloads HOST_CMD_READ_OVRLIMIT = None"
  "map_of payloads HOST_CMD_BOARDSTATUS = None"
  "map_of payloads HOST_CMD_TEMPERATURE = None"
  "map_of payloads HOST_CMD_MOTOR_READ = None"
  "map_of payloads HOST_CMD_THRUSTERSTATE = None"
  "map_of payloads HOST_CMD_READ_OVR = None"
  "map_of payloads HOST_CMD_BATTSTATE = None"
  "map_of payloads HOST_CMD_BARSTATE = None"
  "map_of payloads HOST_CMD_PING = None"
  "map_of payloads HOST_CMD_IMOTOR = None"
  "map_of payloads HOST_CMD_SYNC = None"
  "map_of payloads HOST_CMD_HARDKILL = None"
  by (simp_all add: payloads_def codes)

lemma plain_commands:
  "plain HOST_CMD_CAM_RELAY_ON"
  "plain HOST_CMD_CAM_RELAY_OFF"
  "plain HOST_CMD_BFRESET"
  "plain HOST_CMD_DVL_ON"
  "plain HOST_CMD_DVL_OFF"
  "plain HOST_CMD_MAG_PWR_ON"
  "plain HOST_CMD_MAG_PWR_OFF"
  "plain HOST_CMD_FIRE_TORP_1"
  "plain HOST_CMD_FIRE_TORP_2"
  "plain HOST_CMD_ARM_TORP_1"
  "plain HOST_CMD_ARM_TORP_2"
  "plain HOST_CMD_VOID_TORP_1"
  "plain HOST_CMD_VOID_TORP_2"
  "plain HOST_CMD_EXT_GRABBER"
  "plain HOST_CMD_RET_GRABBER"
  "plain HOST_CMD_VOID_GRABBER"
  "plain HOST_CMD_VOID_PNEU"
  "plain HOST_CMD_OFF_PNEU"
  "plain HOST_CMD_DERPY_ON"
  "plain HOST_CMD_DERPY_OFF"
  "plain HOST_CMD_STOP_DERPY"
  "plain HOST_CMD_SYSCHECK"
  "plain HOST_CMD_DEPTH"
  "plain HOST_CMD_SONAR"
  "plain HOST_CMD_VLOW"
  "plain HOST_CMD_BATTVOLTAGE"
  "plain HOST_CMD_BATTCURRENT"
  "plain HOST_CMD_READ_OVRLIMIT"
  "plain HOST_CMD_BOARDSTATUS"
  "plain HOST_CMD_TEMPERATURE"
  "plain HOST_CMD_MOTOR_READ"
  "plain HOST_CMD_THRUSTERSTATE"
  "plain HOST_CMD_READ_OVR"
  "plain HOST_CMD_BATTSTATE"
  "plain HOST_CMD_BARSTATE"
  "plain HOST_CMD_SWITCHPOWER"
  "plain HOST_CMD_MARKER"
  "plain HOST_CMD_BACKLIGHT"
  "plain HOST_CMD_BFIN_STATE"
  "plain HOST_CMD_BARANIMATION"
  "plain HOST_CMD_SET_BARS"
  "plain HOST_CMD_BARS"
  "plain HOST_CMD_RUNTIMEDIAG"
  "plain HOST_CMD_PING"
  "plain HOST_CMD_IMOTOR"
  "plain HOST_CMD_BATTCTL"
  "plain HOST_CMD_SET_OVRLIMIT"
  "plain HOST_CMD_THRUSTERS"
  "plain HOST_CMD_SETSPEED"
  "plain HOST_CMD_PRINTTEXT"
  by (simp_all add: plain_def codes)

lemma echo_commands_refuse:
  "refuses HOST_CMD_CAM_RELAY_ON (host_cam_relay_on E)"
  "refuses HOST_CMD_CAM_RELAY_OFF (host_cam_relay_off E)"
  "refuses HOST_CMD_BFRESET (host_bfreset E)"
  "refuses HOST_CMD_DVL_ON (host_dvl_on E)"
  "refuses HOST_CMD_DVL_OFF (host_dvl_off E)"
  "refuses HOST_CMD_MAG_PWR_ON (host_mag_pwr_on E)"
  "refuses HOST_CMD_MAG_PWR_OFF (host_mag_pwr_off E)"
  "refuses HOST_CMD_FIRE_TORP_1 (host_fire_torp_1 E)"
  "refuses HOST_CMD_FIRE_TORP_2 (host_fire_torp_2 E)"
  "refuses HOST_CMD_ARM_TORP_1 (host_arm_torp_1 E)"
  "refuses HOST_CMD_ARM_TORP_2 (host_arm_torp_2 E)"
  "refuses HOST_CMD_VOID_TORP_1 (host_void_torp_1 E)"
  "refuses HOST_CMD_VOID_TORP_2 (host_void_torp_2 E)"
  "refuses HOST_CMD_EXT_GRABBER (host_ext_grabber E)"
  "refuses HOST_CMD_RET_GRABBER (host_ret_grabber E)"
  "refuses HOST_CMD_VOID_GRABBER (host_void_grabber E)"
  "refuses HOST_CMD_VOID_PNEU (host_void_pneu E)"
  "refuses HOST_CMD_OFF_PNEU (host_off_pneu E)"
  "refuses HOST_CMD_DERPY_ON (host_derpy_on E)"
  "refuses HOST_CMD_DERPY_OFF (host_derpy_off E)"
  "refuses HOST_CMD_STOP_DERPY (host_stop_derpy E)"
  "refuses HOST_CMD_SYSCHECK (host_syscheck E)"
  "refuses HOST_CMD_DEPTH (host_depth E)"
  "refuses HOST_CMD_SONAR (host_sonar E)"
  "refuses HOST_CMD_VLOW (host_vlow E)"
  "refuses HOST_CMD_BATTVOLTAGE (host_battvoltage E)"
  "refuses HOST_CMD_BATTCURRENT (host_battcurrent E)"
  "refuses HOST_CMD_READ_OVRLIMIT (host_read_ovrlimit E)"
  "refuses HOST_CMD_BOARDSTATUS (host_boardstatus E)"
  "refuses HOST_CMD_TEMPERATURE (host_temperature E)"
  "refuses HOST_CMD_MOTOR_READ (host_motor_read E)"
  "refuses HOST_CMD_THRUSTERSTATE (host_thrusterstate E)"
  "refuses HOST_CMD_READ_OVR (host_read_ovr E)"
  "refuses HOST_CMD_BATTSTATE (host_battstate E)"
  "refuses HOST_CMD_BARSTATE (host_barstate E)"
  unfolding host_cam_relay_on_def host_cam_relay_off_def host_bfreset_def host_dvl_on_def host_dvl_off_def host_mag_pwr_on_def host_mag_pwr_off_def host_fire_torp_1_def host_fire_torp_2_def host_arm_torp_1_def host_arm_torp_2_def host_void_torp_1_def host_void_torp_2_def host_ext_grabber_def host_ret_grabber_def host_void_grabber_def host_void_pneu_def host_off_pneu_def host_derpy_on_def host_derpy_off_def host_stop_derpy_def host_syscheck_def host_depth_def host_sonar_def host_vlow_def host_battvoltage_def host_battcurrent_def host_read_ovrlimit_def host_boardstatus_def host_temperature_def host_motor_read_def host_thrusterstate_def host_read_ovr_def host_battstate_def host_barstate_def
  by (simp_all add: echo_refuses no_payload_commands plain_commands)

lemma byte_le_1: "(b :: byte) \<le> 1 \<longleftrightarrow> b = 0 \<or> b = 1"
  by (auto simp: word_le_nat_alt word_unat_eq_iff)

lemma byte_le_2: "(b :: byte) \<le> 2 \<longleftrightarrow> b = 0 \<or> b = 1 \<or> b = 2"
  by (auto simp: word_le_nat_alt word_unat_eq_iff)

lemma param_payloads:
  "map_of payloads HOST_CMD_SWITCHPOWER = Some (1, \<lambda>p. p ! 0 = 0 \<or> p ! 0 = 1)"
  "map_of payloads HOST_CMD_MARKER = Some (1, \<lambda>p. p ! 0 = 0 \<or> p ! 0 = 1)"
  "map_of payloads HOST_CMD_BACKLIGHT = Some (1, \<lambda>p. p ! 0 = 0 \<or> p ! 0 = 1 \<or> p ! 0 = 2)"
  "map_of payloads HOST_CMD_BFIN_STATE = Some (1, \<lambda>p. p ! 0 = 0 \<or> p ! 0 = 1)"
  "map_of payloads HOST_CMD_BARANIMATION = Some (1, \<lambda>p. p ! 0 = 0 \<or> p ! 0 = 1 \<or> p ! 0 = 2)"
  "map_of payloads HOST_CMD_SET_BARS = Some (1, \<lambda>p. True)"
  "map_of payloads HOST_CMD_BARS = Some (1, \<lambda>p. p ! 0 \<le> 15)"
  "map_of payloads HOST_CMD_RUNTIMEDIAG = Some (1, \<lambda>p. p ! 0 = 0 \<or> p ! 0 = 1)"
  by (simp_all add: payloads_def codes byte_le_1 byte_le_2)

lemma param_commands_refuse:
  "refuses HOST_CMD_SWITCHPOWER (host_switchpower E)"
  "refuses HOST_CMD_MARKER (host_marker E)"
  "refuses HOST_CMD_BACKLIGHT (host_backlight E)"
  "refuses HOST_CMD_BFIN_STATE (host_bfin_state E)"
  "refuses HOST_CMD_BARANIMATION (host_baranimation E)"
  "refuses HOST_CMD_SET_BARS (host_set_bars E)"
  "refuses HOST_CMD_BARS (host_bars E)"
  "refuses HOST_CMD_RUNTIMEDIAG (host_runtimediag E)"
  unfolding host_switchpower_def host_marker_def host_backlight_def host_bfin_state_def host_baranimation_def host_set_bars_def host_bars_def host_runtimediag_def
  by (rule param_refuses; simp add: param_payloads plain_commands)+

lemma summed_payloads:
  "map_of payloads HOST_CMD_BATTCTL = Some (1, \<lambda>p. True)"
  "map_of payloads HOST_CMD_SET_OVRLIMIT = Some (2, \<lambda>p. True)"
  "map_of payloads HOST_CMD_THRUSTERS = Some (6, \<lambda>p. take 5 p = tkSafety \<and> p ! 5 \<le> 11)"
  "map_of payloads HOST_CMD_SET_DERPY = Some (6, \<lambda>p. drop 2 p = map of_char ''DERP'')"
  "map_of payloads HOST_CMD_SETSPEED = Some (12, \<lambda>p. True)"
  "map_of payloads HOST_CMD_PRINTTEXT = Some (17, \<lambda>p. p ! 0 \<le> 1)"
  "HOST_CMD_SET_DERPY \<noteq> HOST_CMD_SYNC" "HOST_CMD_SET_DERPY \<noteq> HOST_CMD_HARDKILL"
  by (simp_all add: payloads_def codes)

lemma link_refuses:
  "refuses HOST_CMD_SYNC host_sync"
  "refuses HOST_CMD_PING (host_ping E)"
  "refuses HOST_CMD_IMOTOR (host_imotor E)"
proof -
  show "refuses HOST_CMD_SYNC host_sync"
    by (rule refusesI) (simp add: frame_len_def well_framed_def)
  show "refuses HOST_CMD_PING (host_ping E)"
    by (rule refusesI, erule (1) no_payload [rotated 2])
      (auto simp: no_payload_commands plain_commands host_ping_def waitT1_def receives_def refused_def
        sendByte_def wf_master_def simp flip: word_uint_eq_iff)
  show "refuses HOST_CMD_IMOTOR (host_imotor E)"
    by (rule refusesI, erule (1) no_payload [rotated 2])
      (auto simp: no_payload_commands plain_commands host_imotor_def receives_def refused_def
        sendByte_def wf_master_def)
qed

lemma sum_refusal:
  assumes "map_of payloads c = Some (n, valid)" and "plain c"
    and "length bs = frame_len c" and "\<not> well_framed c bs"
  shows "length bs = n + 1" "\<not> (valid (butlast bs) \<and> summed c bs)" "refusal c bs = HOST_REPLY_BADCHKSUM"
  using assms by (auto simp: plain_def frame_len_def well_framed_def refusal_def)

text \<open>What a handler has to show.\<close>

lemma checked_refuses:
  assumes "map_of payloads c = Some (n, valid)" and "plain c"
    and "\<And>s bs evs. receives s bs evs \<Longrightarrow> length bs = n + 1 \<Longrightarrow> \<not> (valid (butlast bs) \<and> summed c bs)
      \<Longrightarrow> finishes (h s) (\<lambda>_. refused HOST_REPLY_BADCHKSUM evs s)"
  shows "refuses c h"
proof (rule refusesI)
  fix s :: "'a master" and bs evs
  assume s: "receives s bs evs" and b: "length bs = frame_len c" "\<not> well_framed c bs"
  note r = sum_refusal [OF assms(1,2) b]
  then show "finishes (h s) (\<lambda>_. refused (refusal c bs) evs s)"
    using assms(3) [OF s] by simp
qed

lemmas receiving = receives_def recvRange_bytes chksum_overwrite summed_def refused_def sendByte_def wf_master_def

lemma set_ovrlimit_refuses: "refuses HOST_CMD_SET_OVRLIMIT (host_set_ovrlimit E)"
  by (rule checked_refuses [OF summed_payloads(2)])
    (simp_all add: plain_commands host_set_ovrlimit_def receiving)

lemma battctl_refuses: "refuses HOST_CMD_BATTCTL (host_battctl E)"
  by (rule checked_refuses [OF summed_payloads(1)])
    (auto simp: plain_commands host_battctl_def receiving chksum_sum take_Suc_conv_app_nth length_Suc_conv)

lemma setspeed_refuses: "refuses HOST_CMD_SETSPEED (host_setspeed E)"
  by (rule checked_refuses [OF summed_payloads(5)])
    (simp_all add: plain_commands host_setspeed_def receiving setMotorFailsafe_def drive_of_def)

lemma hardkill_refuses: "refuses HOST_CMD_HARDKILL (host_hardkill E)"
proof (rule refusesI)
  fix s :: "'a master" and bs evs
  assume s: "receives s bs evs" and l: "length bs = frame_len HOST_CMD_HARDKILL"
    and w: "\<not> well_framed HOST_CMD_HARDKILL bs"
  have c: "HOST_CMD_HARDKILL \<noteq> HOST_CMD_SYNC" "HOST_CMD_HARDKILL \<noteq> HOST_CMD_SET_DERPY"
    by (simp_all add: codes)
  have "bs \<noteq> hkSafety" "length bs = 5"
    using w l c by (simp_all add: well_framed_def frame_len_def)
  then have "\<exists>i<5. overwrite 0 bs (rxBuf s) ! i \<noteq> hkSafety ! i"
    using s by (auto simp: list_eq_iff_nth_eq hkSafety_def receives_def wf_master_def nth_overwrite)
  then show "finishes (host_hardkill E s) (\<lambda>_. refused (refusal HOST_CMD_HARDKILL bs) evs s)"
    using s \<open>length bs = 5\<close> c by (auto simp: host_hardkill_def receiving refusal_def)
qed

lemma thrusters_frame:
  assumes "receives s (magic @ [b5, b6]) evs" and "length magic = 5"
  shows "host_thrusters E s =
    (let s' = s\<lparr>rxBuf := overwrite 0 magic (rxBuf s), t1 := uint b5, rx := evs\<rparr> in
     if magic = tkSafety \<and> b5 \<le> 11 \<and> b6 = sum_list magic + (b5 + HOST_CMD_THRUSTERS)
     then element tkCommands (uint b5) s' (\<lambda>c. ack E c SLAVE_ID_THRUSTERS)
     else sendByte HOST_REPLY_BADCHKSUM s')"
proof -
  let ?buf = "overwrite 0 magic (rxBuf s)"
  have le: "uint b5 > 11 \<longleftrightarrow> \<not> b5 \<le> 11"
    by (simp add: word_le_def not_le)
  have nth: "?buf ! i = magic ! i" if "i < 5" for i
    using that assms by (simp add: nth_overwrite receives_def wf_master_def)
  then have nths: "map ((!) ?buf) [0..<5] = magic"
    by (intro nth_equalityI) (simp_all add: assms(2))
  have cflag: "(\<exists>i\<in>set [0..<5]. ?buf ! i \<noteq> tkSafety ! i) \<longleftrightarrow> magic \<noteq> tkSafety"
    using nth assms(2) by (auto simp: list_eq_iff_nth_eq [of magic] tkSafety_def simp del: upt_conv_Cons)
  have cs: "word_of_int (uint b5 + uint HOST_CMD_THRUSTERS) = b5 + HOST_CMD_THRUSTERS"
    by (simp add: wi_hom_add [symmetric])
  have r: "recvRange E 0 5 s = Done () (s\<lparr>rx := Byte b5 # Byte b6 # evs, rxBuf := ?buf\<rparr>)"
    by (rule recvRange_bytes) (use assms in \<open>simp_all add: receives_def\<close>)
  have ft: "\<not> failsafeTripped s" using assms(1) by (simp add: receives_def)
  show ?thesis
    unfolding host_thrusters_def r on_Done Let_def
    by (simp add: waitT1_def ft cflag nths cs le word_uint_eq_iff [of b6] del: set_upt bex_simps upt_conv_Cons)
qed

lemma thrusters_refuses: "refuses HOST_CMD_THRUSTERS (host_thrusters E)"
proof (rule checked_refuses [OF summed_payloads(3)])
  fix s :: "'a master" and bs evs
  assume s: "receives s bs evs" and l: "length bs = 6 + 1"
    and w: "\<not> ((take 5 (butlast bs) = tkSafety \<and> butlast bs ! 5 \<le> 11) \<and> summed HOST_CMD_THRUSTERS bs)"
  have "length bs = 7" using l by simp
  then obtain b0 b1 b2 b3 b4 b5 b6 where bs: "bs = [b0, b1, b2, b3, b4] @ [b5, b6]"
    by (auto simp: numeral_eq_Suc length_Suc_conv)
  have "\<not> ([b0, b1, b2, b3, b4] = tkSafety \<and> b5 \<le> 11
      \<and> b6 = sum_list [b0, b1, b2, b3, b4] + (b5 + HOST_CMD_THRUSTERS))"
    using w by (simp add: bs summed_def add_ac numeral_eq_Suc)
  then show "finishes (host_thrusters E s) (\<lambda>_. refused HOST_REPLY_BADCHKSUM evs s)"
    using thrusters_frame [OF s [unfolded bs], of E] s
    by (simp only: if_False Let_def) (simp add: refused_def sendByte_def wf_master_def receives_def)
qed (simp add: plain_commands)

lemma printtext_frame:
  assumes "receives s (line # msg @ [ck]) evs" and "length msg = 16"
  defines "buf \<equiv> (overwrite 0 msg ((rxBuf s)[16 := line]))[17 := ck]"
  shows "host_printtext E s =
    (let s' = s\<lparr>rx := evs, rxBuf := buf\<rparr> in
     if \<not> line \<le> 1 \<or> ck \<noteq> sum_list msg + line + HOST_CMD_PRINTTEXT
     then sendByte HOST_REPLY_BADCHKSUM s'
     else on (printTextLoop E 0 16 0 s') (\<lambda>err s.
       on (busWriteByte E BUS_CMD_LCD_REFRESH SLAVE_ID_LCD s) (\<lambda>r s.
       if err + r \<noteq> 0 then sendByte HOST_REPLY_FAILURE s else sendByte HOST_REPLY_SUCCESS s)))"
    and "buf ! 16 = line" and "i < 16 \<Longrightarrow> buf ! i = msg ! i" and "length buf = 60"
proof -
  have len: "length (rxBuf s) = 60" using assms(1) by (simp add: receives_def wf_master_def)
  show b: "buf ! 16 = line" and "i < 16 \<Longrightarrow> buf ! i = msg ! i" for i
    using len assms(2) by (simp_all add: buf_def nth_overwrite nth_list_update)
  then have nth: "buf ! i = msg ! i" if "i < 16" for i using that by blast
  have ck: "buf ! 17 = ck" using len by (simp add: buf_def)
  show l: "length buf = 60" using len by (simp add: buf_def)
  have "take 17 buf = msg @ [line]"
  proof -
    have "take 16 buf = msg" using nth l assms(2) by (intro nth_equalityI) simp_all
    then show ?thesis using take_Suc_conv_app_nth [of 16 buf] l b by simp
  qed
  then have cs: "chksum buf 17 HOST_CMD_PRINTTEXT = sum_list msg + line + HOST_CMD_PRINTTEXT"
    using l by (simp add: chksum_sum)
  have r: "recvTo E 16 s = Done () (s\<lparr>rx := map Byte msg @ [Byte ck] @ evs, rxBuf := (rxBuf s)[16 := line]\<rparr>)"
    using assms(1) by (simp add: receives_def)
  let ?s1 = "s\<lparr>rx := map Byte msg @ [Byte ck] @ evs, rxBuf := (rxBuf s)[16 := line]\<rparr>"
  let ?s2 = "?s1\<lparr>rx := [Byte ck] @ evs, rxBuf := overwrite 0 msg ((rxBuf s)[16 := line])\<rparr>"
  have ft: "\<not> failsafeTripped s" using assms(1) by (simp add: receives_def)
  have r2: "recvRange E 0 16 ?s1 = Done () ?s2"
    by (rule trans [OF recvRange_bytes [where bs = msg and evs = "[Byte ck] @ evs"]])
      (simp_all add: ft assms(2))
  have "recvTo E 17 ?s2 = Done () (?s2\<lparr>rx := evs, rxBuf := buf\<rparr>)"
    using ft by (simp add: buf_def)
  then show "host_printtext E s =
    (let s' = s\<lparr>rx := evs, rxBuf := buf\<rparr> in
     if \<not> line \<le> 1 \<or> ck \<noteq> sum_list msg + line + HOST_CMD_PRINTTEXT
     then sendByte HOST_REPLY_BADCHKSUM s'
     else on (printTextLoop E 0 16 0 s') (\<lambda>err s.
       on (busWriteByte E BUS_CMD_LCD_REFRESH SLAVE_ID_LCD s) (\<lambda>r s.
       if err + r \<noteq> 0 then sendByte HOST_REPLY_FAILURE s else sendByte HOST_REPLY_SUCCESS s)))"
    using ck b unfolding host_printtext_def r on_Done r2 Let_def
    by (simp add: cs not_le eq_commute [of ck])
qed

lemma printtext_refuses: "refuses HOST_CMD_PRINTTEXT (host_printtext E)"
proof (rule checked_refuses [OF summed_payloads(6)])
  fix s :: "'a master" and bs evs
  assume s: "receives s bs evs" and l: "length bs = 17 + 1"
    and w: "\<not> (butlast bs ! 0 \<le> 1 \<and> summed HOST_CMD_PRINTTEXT bs)"
  define line where "line = hd bs"
  define msg where "msg = butlast (tl bs)"
  define ck where "ck = last bs"
  have bs: "bs = line # msg @ [ck]" "length msg = 16"
    using l by (cases bs; auto simp: line_def msg_def ck_def)+
  have "\<not> line \<le> 1 \<or> ck \<noteq> sum_list msg + line + HOST_CMD_PRINTTEXT"
    using w by (auto simp: bs(1) butlast_append summed_def add_ac)
  then show "finishes (host_printtext E s) (\<lambda>_. refused HOST_REPLY_BADCHKSUM evs s)"
    using printtext_frame(1) [OF s [unfolded bs(1)] bs(2), of E] s
    by (simp only: if_True Let_def) (simp add: refused_def sendByte_def wf_master_def receives_def)
qed (simp add: plain_commands)

lemma set_derpy_refuses: "refuses HOST_CMD_SET_DERPY (host_set_derpy E)"
proof (rule refusesI)
  fix s :: "'a master" and bs evs
  assume s: "receives s bs evs" and l: "length bs = frame_len HOST_CMD_SET_DERPY"
    and w: "\<not> well_framed HOST_CMD_SET_DERPY bs"
  have "length bs = 7"
    using l by (simp add: frame_len_def summed_payloads)
  then obtain b0 b1 b2 b3 b4 b5 b6 where bs: "bs = [b0, b1, b2, b3, b4, b5, b6]"
    by (auto simp: numeral_eq_Suc length_Suc_conv)
  let ?buf = "overwrite 0 bs (rxBuf s)"
  have nth: "?buf ! i = bs ! i" if "i < 7" for i
    using that s bs by (simp add: nth_overwrite receives_def wf_master_def del: overwrite.simps)
  have cs: "chksum ?buf 6 HOST_CMD_SET_DERPY = sum_list (butlast bs) + HOST_CMD_SET_DERPY"
    using chksum_overwrite(1) [of bs 6 "rxBuf s"] s bs by (simp add: receives_def wf_master_def)
  have r: "recvRange E 0 7 s = Done () (s\<lparr>rx := evs, rxBuf := ?buf\<rparr>)"
    by (rule recvRange_bytes) (use s bs in \<open>simp_all add: receives_def\<close>)
  have "summed HOST_CMD_SET_DERPY bs \<longleftrightarrow> chksum ?buf 6 HOST_CMD_SET_DERPY = ?buf ! 6"
    unfolding cs nth [of 6, simplified] by (auto simp: bs summed_def)
  moreover have "drop 2 (butlast bs) = map of_char ''DERP'' \<longleftrightarrow>
      ?buf ! 2 = of_char (CHR ''D'') \<and> ?buf ! 3 = of_char (CHR ''E'') \<and> ?buf ! 4 = of_char (CHR ''R'')
      \<and> ?buf ! 5 = of_char (CHR ''P'')"
    using nth [unfolded bs] by (simp add: bs del: overwrite.simps)
  ultimately show "finishes (host_set_derpy E s) (\<lambda>_. refused (refusal HOST_CMD_SET_DERPY bs) evs s)"
    using w s unfolding host_set_derpy_def r on_Done
    by (auto simp: well_framed_def summed_payloads refusal_def refused_def sendByte_def wf_master_def
        receives_def bs simp del: overwrite.simps)
qed

lemma commands_refuse: "list_all (\<lambda>(c, h). refuses c h) (commands E)"
  unfolding commands_def
  by (simp add: link_refuses echo_commands_refuse param_commands_refuse set_ovrlimit_refuses
      battctl_refuses setspeed_refuses hardkill_refuses thrusters_refuses printtext_refuses set_derpy_refuses)

end
