(* ===== verification/Plans.thy ===== *)
theory Plans
  imports Frames
begin

text \<open>
  What a well-formed frame makes the master do on the bus, for the commands that are a sequence of
  transfers each of which must succeed.
\<close>

section \<open>Sequences of transfers that must succeed\<close>

fun mustAll :: "'e bus_env \<Rightarrow> (byte \<times> byte) list \<Rightarrow> 'e master \<Rightarrow> (unit, 'e) fw \<Rightarrow> (unit, 'e master) outcome" where
  "mustAll E [] s k = k s"
| "mustAll E ((data, req) # ws) s k = must E data req s (\<lambda>s. mustAll E ws s k)"

text \<open>Command, and the transfers as a function of the frame: (byte, slave) pairs.\<close>

definition plans :: "(byte \<times> (byte list \<Rightarrow> (byte \<times> byte) list)) list" where
  "plans =
     [(HOST_CMD_SYNC, \<lambda>p. []),
      (HOST_CMD_PING, \<lambda>p. []),
      (HOST_CMD_CAM_RELAY_ON, \<lambda>p. [(BUS_CMD_CAM_RELAY_ON, SLAVE_ID_DEPTH)]),
      (HOST_CMD_CAM_RELAY_OFF, \<lambda>p. [(BUS_CMD_CAM_RELAY_OFF, SLAVE_ID_DEPTH)]),
      (HOST_CMD_BFRESET, \<lambda>p. [(BUS_CMD_BFRESET, SLAVE_ID_SONAR)]),
      (HOST_CMD_DVL_ON, \<lambda>p. [(BUS_CMD_DVL_ON, SLAVE_ID_DVL)]),
      (HOST_CMD_DVL_OFF, \<lambda>p. [(BUS_CMD_DVL_OFF, SLAVE_ID_DVL)]),
      (HOST_CMD_MAG_PWR_ON, \<lambda>p. [(BUS_CMD_MAG_PWR_ON, SLAVE_ID_MARKERS)]),
      (HOST_CMD_MAG_PWR_OFF, \<lambda>p. [(BUS_CMD_MAG_PWR_OFF, SLAVE_ID_MARKERS)]),
      (HOST_CMD_FIRE_TORP_1, \<lambda>p. [(BUS_CMD_FIRE_TORP_1, SLAVE_ID_TORPEDO)]),
      (HOST_CMD_FIRE_TORP_2, \<lambda>p. [(BUS_CMD_FIRE_TORP_2, SLAVE_ID_TORPEDO)]),
      (HOST_CMD_ARM_TORP_1, \<lambda>p. [(BUS_CMD_ARM_TORP_1, SLAVE_ID_TORPEDO)]),
      (HOST_CMD_ARM_TORP_2, \<lambda>p. [(BUS_CMD_ARM_TORP_2, SLAVE_ID_TORPEDO)]),
      (HOST_CMD_VOID_TORP_1, \<lambda>p. [(BUS_CMD_VOID_TORP_1, SLAVE_ID_TORPEDO)]),
      (HOST_CMD_VOID_TORP_2, \<lambda>p. [(BUS_CMD_VOID_TORP_2, SLAVE_ID_TORPEDO)]),
      (HOST_CMD_EXT_GRABBER, \<lambda>p. [(BUS_CMD_EXT_GRABBER, SLAVE_ID_GRABBER)]),
      (HOST_CMD_RET_GRABBER, \<lambda>p. [(BUS_CMD_RET_GRABBER, SLAVE_ID_GRABBER)]),
      (HOST_CMD_VOID_GRABBER, \<lambda>p. [(BUS_CMD_VOID_GRABBER, SLAVE_ID_GRABBER)]),
      (HOST_CMD_VOID_PNEU, \<lambda>p. [(BUS_CMD_VOID_PNEU, SLAVE_ID_GRABBER)]),
      (HOST_CMD_OFF_PNEU, \<lambda>p. [(BUS_CMD_OFF_PNEU, SLAVE_ID_GRABBER)]),
      (HOST_CMD_DERPY_ON, \<lambda>p. [(BUS_CMD_DERPY_ON, SLAVE_ID_THRUSTERS)]),
      (HOST_CMD_DERPY_OFF, \<lambda>p. [(BUS_CMD_DERPY_OFF, SLAVE_ID_THRUSTERS), (BUS_CMD_STOP_DERPY, SLAVE_ID_MOTOR)]),
      (HOST_CMD_STOP_DERPY, \<lambda>p. [(BUS_CMD_STOP_DERPY, SLAVE_ID_MOTOR)]),
      (HOST_CMD_MARKER, \<lambda>p. [(if p ! 0 = 0 then BUS_CMD_MARKER1 else BUS_CMD_MARKER2, SLAVE_ID_MARKERS)]),
      (HOST_CMD_BACKLIGHT, \<lambda>p. [(blCommands ! unat (p ! 0), SLAVE_ID_LCD)]),
      (HOST_CMD_BFIN_STATE, \<lambda>p. [(bfCommands ! unat (p ! 0), SLAVE_ID_SONAR)]),
      (HOST_CMD_BARANIMATION, \<lambda>p. [(BUS_CMD_SET_BARMODE, SLAVE_ID_BARS), (p ! 0, SLAVE_ID_BARS)]),
      (HOST_CMD_SET_BARS, \<lambda>p. [(BUS_CMD_SET_BARS, SLAVE_ID_BARS), (p ! 0, SLAVE_ID_BARS)]),
      (HOST_CMD_BARS, \<lambda>p. [(barCommands ! unat (p ! 0), SLAVE_ID_BARS)]),
      (HOST_CMD_HARDKILL, \<lambda>p. [(BUS_CMD_HARDKILL, SLAVE_ID_HARDKILL)]),
      (HOST_CMD_SET_OVRLIMIT, \<lambda>p. [(BUS_CMD_WRITE_REG, SLAVE_ID_THRUSTERS), (0, SLAVE_ID_THRUSTERS), (p ! 0, SLAVE_ID_THRUSTERS),
         (BUS_CMD_WRITE_REG, SLAVE_ID_THRUSTERS), (1, SLAVE_ID_THRUSTERS), (p ! 1, SLAVE_ID_THRUSTERS)]),
      (HOST_CMD_THRUSTERS, \<lambda>p. [(tkCommands ! unat (p ! 5), SLAVE_ID_THRUSTERS)]),
      (HOST_CMD_SET_DERPY, \<lambda>p. [(BUS_CMD_SET_DERPY, SLAVE_ID_MOTOR), (convertSpeed (p ! 0) (p ! 1), SLAVE_ID_MOTOR)])]"

text \<open>\<open>prepared s evs s1\<close>: the frame was taken off the link, and nothing else has happened.\<close>

definition prepared :: "'e master \<Rightarrow> uart_event list \<Rightarrow> 'e master \<Rightarrow> bool" where
  "prepared s evs s1 \<longleftrightarrow> env s1 = env s \<and> drive_of s1 = drive_of s \<and> rx s1 = evs \<and> tx s1 = tx s \<and> wf_master s1
     \<and> usb s1 = usb s \<and> failsafeTripped s1 = failsafeTripped s"

definition carries_out :: "'e bus_env \<Rightarrow> byte \<Rightarrow> (byte list \<Rightarrow> (byte \<times> byte) list) \<Rightarrow> (unit, 'e) fw \<Rightarrow> bool" where
  "carries_out E c plan h \<longleftrightarrow> (\<forall>s bs evs. receives s bs evs \<and> well_framed c bs \<longrightarrow>
     (\<exists>s1. prepared s evs s1 \<and> h s = mustAll E (plan bs) s1 (sendByte HOST_REPLY_SUCCESS)))"

lemma carries_outI:
  "(\<And>s bs evs. receives s bs evs \<Longrightarrow> well_framed c bs \<Longrightarrow>
     \<exists>s1. prepared s evs s1 \<and> h s = mustAll E (plan bs) s1 (sendByte HOST_REPLY_SUCCESS)) \<Longrightarrow> carries_out E c plan h"
  by (simp add: carries_out_def)

lemma ack_must: "ack E d r = (\<lambda>s. must E d r s (sendByte HOST_REPLY_SUCCESS))"
  by (rule ext) (simp add: ack_def)

lemma must_cong:
  assumes "\<And>s'. bus_only s s' \<Longrightarrow> k s' = k' s'"
  shows "must E d r s k = must E d r s k'"
  by (rule busWriteByte_cases [of E d r s]) (simp add: must_def assms)

lemma echo_carries_out:
  assumes "map_of payloads c = None" and "plain c"
    and k: "\<And>s. k s = mustAll E (plan [c]) s (sendByte HOST_REPLY_SUCCESS)"
  shows "carries_out E c plan (\<lambda>s. echo E c s k)" "carries_out E c plan (\<lambda>s. echoT1 E c s k)"
proof -
  have "\<exists>s1. prepared s evs s1 \<and> echo E c s k = mustAll E (plan bs) s1 (sendByte HOST_REPLY_SUCCESS)"
    "\<exists>s1. prepared s evs s1 \<and> echoT1 E c s k = mustAll E (plan bs) s1 (sendByte HOST_REPLY_SUCCESS)"
    if s: "receives s bs evs" and w: "well_framed c bs" for s bs evs
  proof -
    have "bs = [c]" using w assms(1,2) by (simp add: well_framed_def plain_def)
    then have "prepared s evs (s\<lparr>rx := evs\<rparr>)" "prepared s evs (s\<lparr>rx := evs, t1 := uint c\<rparr>)"
      "echo E c s k = k (s\<lparr>rx := evs\<rparr>)" "echoT1 E c s k = k (s\<lparr>rx := evs, t1 := uint c\<rparr>)"
      using s by (simp_all add: prepared_def receives_def wf_master_def echo_def echoT1_def waitT1_def)
    then show "\<exists>s1. prepared s evs s1 \<and> echo E c s k = mustAll E (plan bs) s1 (sendByte HOST_REPLY_SUCCESS)"
      "\<exists>s1. prepared s evs s1 \<and> echoT1 E c s k = mustAll E (plan bs) s1 (sendByte HOST_REPLY_SUCCESS)"
      using k \<open>bs = [c]\<close> by metis+
  qed
  then show "carries_out E c plan (\<lambda>s. echo E c s k)" "carries_out E c plan (\<lambda>s. echoT1 E c s k)"
    by (simp_all add: carries_out_def)
qed

lemma acknowledged_carried_out:
  "carries_out E HOST_CMD_CAM_RELAY_ON (\<lambda>p. [(BUS_CMD_CAM_RELAY_ON, SLAVE_ID_DEPTH)]) (host_cam_relay_on E)"
  "carries_out E HOST_CMD_CAM_RELAY_OFF (\<lambda>p. [(BUS_CMD_CAM_RELAY_OFF, SLAVE_ID_DEPTH)]) (host_cam_relay_off E)"
  "carries_out E HOST_CMD_BFRESET (\<lambda>p. [(BUS_CMD_BFRESET, SLAVE_ID_SONAR)]) (host_bfreset E)"
  "carries_out E HOST_CMD_DVL_ON (\<lambda>p. [(BUS_CMD_DVL_ON, SLAVE_ID_DVL)]) (host_dvl_on E)"
  "carries_out E HOST_CMD_DVL_OFF (\<lambda>p. [(BUS_CMD_DVL_OFF, SLAVE_ID_DVL)]) (host_dvl_off E)"
  "carries_out E HOST_CMD_MAG_PWR_ON (\<lambda>p. [(BUS_CMD_MAG_PWR_ON, SLAVE_ID_MARKERS)]) (host_mag_pwr_on E)"
  "carries_out E HOST_CMD_MAG_PWR_OFF (\<lambda>p. [(BUS_CMD_MAG_PWR_OFF, SLAVE_ID_MARKERS)]) (host_mag_pwr_off E)"
  "carries_out E HOST_CMD_FIRE_TORP_1 (\<lambda>p. [(BUS_CMD_FIRE_TORP_1, SLAVE_ID_TORPEDO)]) (host_fire_torp_1 E)"
  "carries_out E HOST_CMD_FIRE_TORP_2 (\<lambda>p. [(BUS_CMD_FIRE_TORP_2, SLAVE_ID_TORPEDO)]) (host_fire_torp_2 E)"
  "carries_out E HOST_CMD_ARM_TORP_1 (\<lambda>p. [(BUS_CMD_ARM_TORP_1, SLAVE_ID_TORPEDO)]) (host_arm_torp_1 E)"
  "carries_out E HOST_CMD_ARM_TORP_2 (\<lambda>p. [(BUS_CMD_ARM_TORP_2, SLAVE_ID_TORPEDO)]) (host_arm_torp_2 E)"
  "carries_out E HOST_CMD_VOID_TORP_1 (\<lambda>p. [(BUS_CMD_VOID_TORP_1, SLAVE_ID_TORPEDO)]) (host_void_torp_1 E)"
  "carries_out E HOST_CMD_VOID_TORP_2 (\<lambda>p. [(BUS_CMD_VOID_TORP_2, SLAVE_ID_TORPEDO)]) (host_void_torp_2 E)"
  "carries_out E HOST_CMD_EXT_GRABBER (\<lambda>p. [(BUS_CMD_EXT_GRABBER, SLAVE_ID_GRABBER)]) (host_ext_grabber E)"
  "carries_out E HOST_CMD_RET_GRABBER (\<lambda>p. [(BUS_CMD_RET_GRABBER, SLAVE_ID_GRABBER)]) (host_ret_grabber E)"
  "carries_out E HOST_CMD_VOID_GRABBER (\<lambda>p. [(BUS_CMD_VOID_GRABBER, SLAVE_ID_GRABBER)]) (host_void_grabber E)"
  "carries_out E HOST_CMD_VOID_PNEU (\<lambda>p. [(BUS_CMD_VOID_PNEU, SLAVE_ID_GRABBER)]) (host_void_pneu E)"
  "carries_out E HOST_CMD_OFF_PNEU (\<lambda>p. [(BUS_CMD_OFF_PNEU, SLAVE_ID_GRABBER)]) (host_off_pneu E)"
  "carries_out E HOST_CMD_DERPY_ON (\<lambda>p. [(BUS_CMD_DERPY_ON, SLAVE_ID_THRUSTERS)]) (host_derpy_on E)"
  "carries_out E HOST_CMD_DERPY_OFF (\<lambda>p. [(BUS_CMD_DERPY_OFF, SLAVE_ID_THRUSTERS), (BUS_CMD_STOP_DERPY, SLAVE_ID_MOTOR)]) (host_derpy_off E)"
  "carries_out E HOST_CMD_STOP_DERPY (\<lambda>p. [(BUS_CMD_STOP_DERPY, SLAVE_ID_MOTOR)]) (host_stop_derpy E)"
  unfolding host_cam_relay_on_def host_cam_relay_off_def host_bfreset_def host_dvl_on_def host_dvl_off_def host_mag_pwr_on_def host_mag_pwr_off_def host_fire_torp_1_def host_fire_torp_2_def host_arm_torp_1_def host_arm_torp_2_def host_void_torp_1_def host_void_torp_2_def host_ext_grabber_def host_ret_grabber_def host_void_grabber_def host_void_pneu_def host_off_pneu_def host_derpy_on_def host_derpy_off_def host_stop_derpy_def
  by (rule echo_carries_out; simp add: no_payload_commands plain_commands ack_must)+

text \<open>One parameter.\<close>

lemma param_carries_out:
  assumes "map_of payloads c = Some (1, \<lambda>p. valid (p ! 0))" and "plain c"
    and k: "\<And>a b s. valid a \<Longrightarrow> wf_master s \<Longrightarrow> rxBuf s ! 0 = a
      \<Longrightarrow> k s = mustAll E (plan [a, b]) s (sendByte HOST_REPLY_SUCCESS)"
  shows "carries_out E c plan (\<lambda>s. param E c valid s k)"
proof -
  have "\<exists>s1. prepared s evs s1 \<and> param E c valid s k = mustAll E (plan bs) s1 (sendByte HOST_REPLY_SUCCESS)"
    if s: "receives s bs evs" and w: "well_framed c bs" for s bs evs
  proof -
    obtain a b where bs: "bs = [a, b]"
      using w assms by (auto simp: plain_def well_framed_def numeral_2_eq_2 length_Suc_conv)
    then have v: "valid a" "b = a + c"
      using w assms by (auto simp: plain_def well_framed_def summed_def)
    let ?s = "s\<lparr>rx := evs, rxBuf := (rxBuf s)[0 := a, 1 := b]\<rparr>"
    have "param E c valid s k = k ?s"
      using s bs v by (simp add: param_def receives_def wf_master_def chksum_sum take_Suc_conv_app_nth)
    also have "\<dots> = mustAll E (plan bs) ?s (sendByte HOST_REPLY_SUCCESS)"
      unfolding bs by (rule k [OF v(1)]) (use s in \<open>simp_all add: receives_def wf_master_def\<close>)
    finally show ?thesis
      using s by (intro exI [of _ ?s]) (simp add: prepared_def receives_def wf_master_def)
  qed
  then show ?thesis by (rule carries_outI)
qed

lemma element_byte:
  "element a (uint (b :: byte)) s k = (if unat b < length a then k (a ! unat b) s else Stop Out_of_bounds)"
proof -
  have "uint b = int (unat b)" by simp
  then show ?thesis by (simp only: element_def nat_int of_nat_0_le_iff of_nat_less_iff simp_thms)
qed

lemma marker_carried_out:
  "carries_out E HOST_CMD_MARKER (\<lambda>p. [(if p ! 0 = 0 then BUS_CMD_MARKER1 else BUS_CMD_MARKER2, SLAVE_ID_MARKERS)]) (host_marker E)"
  unfolding host_marker_def
  by (rule param_carries_out [OF param_payloads(2)])
    (auto simp: plain_commands ack_must element_byte blCommands_def bfCommands_def)

lemma backlight_carried_out:
  "carries_out E HOST_CMD_BACKLIGHT (\<lambda>p. [(blCommands ! unat (p ! 0), SLAVE_ID_LCD)]) (host_backlight E)"
  unfolding host_backlight_def
  by (rule param_carries_out [OF param_payloads(3)])
    (auto simp: plain_commands ack_must element_byte blCommands_def bfCommands_def)

lemma bfin_state_carried_out:
  "carries_out E HOST_CMD_BFIN_STATE (\<lambda>p. [(bfCommands ! unat (p ! 0), SLAVE_ID_SONAR)]) (host_bfin_state E)"
  unfolding host_bfin_state_def
  by (rule param_carries_out [OF param_payloads(4)])
    (auto simp: plain_commands ack_must element_byte blCommands_def bfCommands_def)

lemma baranimation_carried_out:
  "carries_out E HOST_CMD_BARANIMATION (\<lambda>p. [(BUS_CMD_SET_BARMODE, SLAVE_ID_BARS), (p ! 0, SLAVE_ID_BARS)]) (host_baranimation E)"
  unfolding host_baranimation_def
  by (rule param_carries_out [OF param_payloads(5)])
    (auto simp: plain_commands ack_must bus_only_def intro!: must_cong)

lemma set_bars_carried_out:
  "carries_out E HOST_CMD_SET_BARS (\<lambda>p. [(BUS_CMD_SET_BARS, SLAVE_ID_BARS), (p ! 0, SLAVE_ID_BARS)]) (host_set_bars E)"
  unfolding host_set_bars_def
  by (rule param_carries_out [OF param_payloads(6)])
    (auto simp: plain_commands ack_must bus_only_def intro!: must_cong)

lemma bars_carried_out:
  "carries_out E HOST_CMD_BARS (\<lambda>p. [(barCommands ! unat (p ! 0), SLAVE_ID_BARS)]) (host_bars E)"
  unfolding host_bars_def
proof (rule param_carries_out [OF param_payloads(7)])
  fix a b :: byte and s :: "'a master"
  assume "a \<le> 15" "rxBuf s ! 0 = a"
  then have "unat a < 16" by (simp add: word_le_nat_alt)
  then have "unat a < length barCommands" by (simp add: barCommands_def)
  then show "element barCommands (uint (rxBuf s ! 0)) s (\<lambda>c. ack E c SLAVE_ID_BARS) =
      mustAll E [(barCommands ! unat ([a, b] ! 0), SLAVE_ID_BARS)] s (sendByte HOST_REPLY_SUCCESS)"
    using \<open>rxBuf s ! 0 = a\<close> by (simp add: element_byte ack_must)
qed (simp add: plain_commands)

lemma sync_carried_out: "carries_out E HOST_CMD_SYNC (\<lambda>p. []) host_sync"
  by (auto simp: carries_out_def well_framed_def receives_def prepared_def host_sync_def)

lemma ping_carried_out: "carries_out E HOST_CMD_PING (\<lambda>p. []) (host_ping E)"
proof -
  have "\<exists>s1. prepared s evs s1 \<and> host_ping E s = mustAll E [] s1 (sendByte HOST_REPLY_SUCCESS)"
    if s: "receives s bs evs" and w: "well_framed HOST_CMD_PING bs" for s :: "'a master" and bs evs
  proof -
    have "bs = [HOST_CMD_PING]"
      using w plain_commands by (simp add: well_framed_def no_payload_commands plain_def)
    then show ?thesis
      using s by (intro exI [of _ "s\<lparr>rx := evs, t1 := uint HOST_CMD_PING\<rparr>"])
        (simp add: receives_def prepared_def host_ping_def waitT1_def wf_master_def)
  qed
  then show ?thesis by (rule carries_outI)
qed

lemma hardkill_carried_out:
  "carries_out E HOST_CMD_HARDKILL (\<lambda>p. [(BUS_CMD_HARDKILL, SLAVE_ID_HARDKILL)]) (host_hardkill E)"
proof -
  have "\<exists>s1. prepared s evs s1 \<and> host_hardkill E s
      = mustAll E [(BUS_CMD_HARDKILL, SLAVE_ID_HARDKILL)] s1 (sendByte HOST_REPLY_SUCCESS)"
    if s: "receives s bs evs" and w: "well_framed HOST_CMD_HARDKILL bs" for s :: "'a master" and bs evs
  proof -
    have bs: "bs = hkSafety" using w by (simp add: well_framed_def codes split: if_splits)
    let ?s = "s\<lparr>rx := evs, rxBuf := overwrite 0 bs (rxBuf s)\<rparr>"
    have r: "recvRange E 0 5 s = Done () ?s"
      by (rule recvRange_bytes) (use s bs in \<open>simp_all add: receives_def hkSafety_def\<close>)
    have "overwrite 0 bs (rxBuf s) ! i = hkSafety ! i" if "i < 5" for i
      using that s by (subst nth_overwrite) (simp_all add: bs hkSafety_def receives_def wf_master_def)
    then have "\<not> (\<exists>i\<in>set [0..<5]. rxBuf ?s ! i \<noteq> hkSafety ! i)" by simp
    then have "host_hardkill E s = ack E BUS_CMD_HARDKILL SLAVE_ID_HARDKILL ?s"
      unfolding host_hardkill_def r on_Done Let_def by (simp only: if_False)
    then show ?thesis
      using s by (intro exI [of _ ?s]) (simp add: ack_must prepared_def receives_def wf_master_def)
  qed
  then show ?thesis by (rule carries_outI)
qed

lemma thrusters_carried_out:
  "carries_out E HOST_CMD_THRUSTERS (\<lambda>p. [(tkCommands ! unat (p ! 5), SLAVE_ID_THRUSTERS)]) (host_thrusters E)"
proof -
  have "\<exists>s1. prepared s evs s1 \<and> host_thrusters E s
      = mustAll E [(tkCommands ! unat (bs ! 5), SLAVE_ID_THRUSTERS)] s1 (sendByte HOST_REPLY_SUCCESS)"
    if s: "receives s bs evs" and w: "well_framed HOST_CMD_THRUSTERS bs" for s :: "'a master" and bs evs
  proof -
    have w: "length bs = 7" "take 5 (butlast bs) = tkSafety" "butlast bs ! 5 \<le> 11" "summed HOST_CMD_THRUSTERS bs"
      using w plain_commands by (simp_all add: well_framed_def summed_payloads plain_def)
    obtain b0 b1 b2 b3 b4 b5 b6 where bs: "bs = [b0, b1, b2, b3, b4] @ [b5, b6]"
      using w(1) by (auto simp: numeral_eq_Suc length_Suc_conv)
    let ?magic = "[b0, b1, b2, b3, b4]"
    let ?s = "s\<lparr>rxBuf := overwrite 0 ?magic (rxBuf s), t1 := uint b5, rx := evs\<rparr>"
    have "b6 = sum_list ?magic + (b5 + HOST_CMD_THRUSTERS)"
      using w(4) by (simp add: bs summed_def add_ac)
    moreover have "butlast bs = [b0, b1, b2, b3, b4, b5]" by (simp add: bs)
    then have "?magic = tkSafety" "b5 \<le> 11" using w(2,3) by (simp_all add: numeral_eq_Suc)
    ultimately have ok: "?magic = tkSafety \<and> b5 \<le> 11 \<and> b6 = sum_list ?magic + (b5 + HOST_CMD_THRUSTERS)"
      by blast
    have "unat b5 < 12" using ok by (auto simp: word_le_nat_alt)
    then have "unat b5 < length tkCommands" by (simp add: tkCommands_def)
    moreover have "host_thrusters E s = element tkCommands (uint b5) ?s (\<lambda>c. ack E c SLAVE_ID_THRUSTERS)"
      using thrusters_frame [OF s [unfolded bs], of E] ok by (simp only: Let_def if_True) (simp add: tkSafety_def)
    ultimately show ?thesis
      using s by (intro exI [of _ ?s])
        (simp add: bs element_byte ack_must prepared_def receives_def wf_master_def drive_of_def)
  qed
  then show ?thesis by (rule carries_outI)
qed

lemma must_cong2:
  "d = d' \<Longrightarrow> (\<And>s'. bus_only s s' \<Longrightarrow> k s' = k' s') \<Longrightarrow> must E d r s k = must E d' r s k'"
  using must_cong by metis

lemma set_ovrlimit_carried_out:
  "carries_out E HOST_CMD_SET_OVRLIMIT (\<lambda>p. [(BUS_CMD_WRITE_REG, SLAVE_ID_THRUSTERS), (0, SLAVE_ID_THRUSTERS), (p ! 0, SLAVE_ID_THRUSTERS),
     (BUS_CMD_WRITE_REG, SLAVE_ID_THRUSTERS), (1, SLAVE_ID_THRUSTERS), (p ! 1, SLAVE_ID_THRUSTERS)]) (host_set_ovrlimit E)"
proof (rule carries_outI)
  fix s :: "'a master" and bs evs
  assume s: "receives s bs evs" and w: "well_framed HOST_CMD_SET_OVRLIMIT bs"
  then have l: "length bs = 3" "summed HOST_CMD_SET_OVRLIMIT bs" by (simp_all add: well_framed_def payloads_def codes)
  let ?buf = "overwrite 0 bs (rxBuf s)"
  let ?s = "s\<lparr>rx := evs, rxBuf := ?buf\<rparr>"
  have nth: "?buf ! i = bs ! i" if "i < 3" for i using that s l(1) by (simp add: nth_overwrite receives_def wf_master_def)
  have r: "recvRange E 0 3 s = Done () ?s"
    by (rule recvRange_bytes) (use s l in \<open>simp_all add: receives_def\<close>)
  have "chksum ?buf 2 HOST_CMD_SET_OVRLIMIT = ?buf ! 2"
    using chksum_overwrite [of bs 2 "rxBuf s"] s l by (simp add: receives_def wf_master_def summed_def)
  then have "host_set_ovrlimit E s
      = must E BUS_CMD_WRITE_REG SLAVE_ID_THRUSTERS ?s (\<lambda>s.
        must E 0 SLAVE_ID_THRUSTERS s (\<lambda>s.
        must E (rxBuf s ! 0) SLAVE_ID_THRUSTERS s (\<lambda>s.
        must E BUS_CMD_WRITE_REG SLAVE_ID_THRUSTERS s (\<lambda>s.
        must E 1 SLAVE_ID_THRUSTERS s (\<lambda>s.
        must E (rxBuf s ! 1) SLAVE_ID_THRUSTERS s (sendByte HOST_REPLY_SUCCESS))))))"
    unfolding host_set_ovrlimit_def r on_Done by simp
  also have "\<dots> = mustAll E [(BUS_CMD_WRITE_REG, SLAVE_ID_THRUSTERS), (0, SLAVE_ID_THRUSTERS), (bs ! 0, SLAVE_ID_THRUSTERS),
        (BUS_CMD_WRITE_REG, SLAVE_ID_THRUSTERS), (1, SLAVE_ID_THRUSTERS), (bs ! 1, SLAVE_ID_THRUSTERS)] ?s (sendByte HOST_REPLY_SUCCESS)"
    unfolding mustAll.simps
    by (intro must_cong2 refl) (simp_all add: bus_only_def nth [of 0, simplified] nth [of 1, simplified])
  finally show "\<exists>s1. prepared s evs s1 \<and> host_set_ovrlimit E s = mustAll E
      [(BUS_CMD_WRITE_REG, SLAVE_ID_THRUSTERS), (0, SLAVE_ID_THRUSTERS), (bs ! 0, SLAVE_ID_THRUSTERS),
       (BUS_CMD_WRITE_REG, SLAVE_ID_THRUSTERS), (1, SLAVE_ID_THRUSTERS), (bs ! 1, SLAVE_ID_THRUSTERS)] s1 (sendByte HOST_REPLY_SUCCESS)"
    using s by (intro exI [of _ ?s]) (simp add: prepared_def receives_def wf_master_def)
qed

lemma set_derpy_carried_out:
  "carries_out E HOST_CMD_SET_DERPY
     (\<lambda>p. [(BUS_CMD_SET_DERPY, SLAVE_ID_MOTOR), (convertSpeed (p ! 0) (p ! 1), SLAVE_ID_MOTOR)]) (host_set_derpy E)"
proof -
  have "\<exists>s1. prepared s evs s1 \<and> host_set_derpy E s
      = mustAll E [(BUS_CMD_SET_DERPY, SLAVE_ID_MOTOR), (convertSpeed (bs ! 0) (bs ! 1), SLAVE_ID_MOTOR)] s1
          (sendByte HOST_REPLY_SUCCESS)"
    if s: "receives s bs evs" and w: "well_framed HOST_CMD_SET_DERPY bs" for s :: "'a master" and bs evs
  proof -
    have w: "length bs = 7" "drop 2 (butlast bs) = map of_char ''DERP''" "summed HOST_CMD_SET_DERPY bs"
      using w by (simp_all add: well_framed_def summed_payloads)
    let ?buf = "overwrite 0 bs (rxBuf s)"
    let ?s = "s\<lparr>rx := evs, rxBuf := ?buf\<rparr>"
    have nth: "?buf ! i = bs ! i" if "i < 7" for i
      using that s w(1) by (simp add: nth_overwrite receives_def wf_master_def)
    have r: "recvRange E 0 7 s = Done () ?s"
      by (rule recvRange_bytes) (use s w in \<open>simp_all add: receives_def\<close>)
    have "chksum ?buf 6 HOST_CMD_SET_DERPY = ?buf ! 6"
      using chksum_overwrite [of bs 6 "rxBuf s"] s w by (simp add: receives_def wf_master_def summed_def)
    moreover have "bs ! (2 + i) = map of_char ''DERP'' ! i" if "i < 4" for i
      using arg_cong [OF w(2), of "\<lambda>xs. xs ! i"] that w(1) by (simp add: nth_butlast)
    from this [of 0] this [of 1] this [of 2] this [of 3]
    have "?buf ! 2 = of_char (CHR ''D'')" "?buf ! 3 = of_char (CHR ''E'')"
      "?buf ! 4 = of_char (CHR ''R'')" "?buf ! 5 = of_char (CHR ''P'')"
      by (simp_all add: nth)
    ultimately have "host_set_derpy E s = must E BUS_CMD_SET_DERPY SLAVE_ID_MOTOR ?s (\<lambda>s.
          ack E (convertSpeed (rxBuf s ! 0) (rxBuf s ! 1)) SLAVE_ID_MOTOR s)"
      unfolding host_set_derpy_def r on_Done by simp
    also have "\<dots> = must E BUS_CMD_SET_DERPY SLAVE_ID_MOTOR ?s (ack E (convertSpeed (bs ! 0) (bs ! 1)) SLAVE_ID_MOTOR)"
      by (rule must_cong) (simp add: bus_only_def nth [of 0] nth [of 1, simplified])
    finally show ?thesis
      using s by (intro exI [of _ ?s]) (simp add: ack_must prepared_def receives_def wf_master_def)
  qed
  then show ?thesis by (rule carries_outI)
qed

section \<open>The switch\<close>

lemma command_lookup:
  "map_of (commands E) HOST_CMD_SYNC = Some (host_sync)"
  "map_of (commands E) HOST_CMD_PING = Some (host_ping E)"
  "map_of (commands E) HOST_CMD_SYSCHECK = Some (host_syscheck E)"
  "map_of (commands E) HOST_CMD_DEPTH = Some (host_depth E)"
  "map_of (commands E) HOST_CMD_THRUSTERSTATE = Some (host_thrusterstate E)"
  "map_of (commands E) HOST_CMD_READ_OVR = Some (host_read_ovr E)"
  "map_of (commands E) HOST_CMD_CAM_RELAY_ON = Some (host_cam_relay_on E)"
  "map_of (commands E) HOST_CMD_CAM_RELAY_OFF = Some (host_cam_relay_off E)"
  "map_of (commands E) HOST_CMD_BATTSTATE = Some (host_battstate E)"
  "map_of (commands E) HOST_CMD_BARSTATE = Some (host_barstate E)"
  "map_of (commands E) HOST_CMD_READ_OVRLIMIT = Some (host_read_ovrlimit E)"
  "map_of (commands E) HOST_CMD_SET_OVRLIMIT = Some (host_set_ovrlimit E)"
  "map_of (commands E) HOST_CMD_SWITCHPOWER = Some (host_switchpower E)"
  "map_of (commands E) HOST_CMD_BOARDSTATUS = Some (host_boardstatus E)"
  "map_of (commands E) HOST_CMD_HARDKILL = Some (host_hardkill E)"
  "map_of (commands E) HOST_CMD_MARKER = Some (host_marker E)"
  "map_of (commands E) HOST_CMD_BACKLIGHT = Some (host_backlight E)"
  "map_of (commands E) HOST_CMD_BFIN_STATE = Some (host_bfin_state E)"
  "map_of (commands E) HOST_CMD_BARANIMATION = Some (host_baranimation E)"
  "map_of (commands E) HOST_CMD_SET_BARS = Some (host_set_bars E)"
  "map_of (commands E) HOST_CMD_THRUSTERS = Some (host_thrusters E)"
  "map_of (commands E) HOST_CMD_BARS = Some (host_bars E)"
  "map_of (commands E) HOST_CMD_BATTCTL = Some (host_battctl E)"
  "map_of (commands E) HOST_CMD_TEMPERATURE = Some (host_temperature E)"
  "map_of (commands E) HOST_CMD_PRINTTEXT = Some (host_printtext E)"
  "map_of (commands E) HOST_CMD_SONAR = Some (host_sonar E)"
  "map_of (commands E) HOST_CMD_BFRESET = Some (host_bfreset E)"
  "map_of (commands E) HOST_CMD_RUNTIMEDIAG = Some (host_runtimediag E)"
  "map_of (commands E) HOST_CMD_SETSPEED = Some (host_setspeed E)"
  "map_of (commands E) HOST_CMD_MOTOR_READ = Some (host_motor_read E)"
  "map_of (commands E) HOST_CMD_IMOTOR = Some (host_imotor E)"
  "map_of (commands E) HOST_CMD_VLOW = Some (host_vlow E)"
  "map_of (commands E) HOST_CMD_BATTVOLTAGE = Some (host_battvoltage E)"
  "map_of (commands E) HOST_CMD_BATTCURRENT = Some (host_battcurrent E)"
  "map_of (commands E) HOST_CMD_DVL_ON = Some (host_dvl_on E)"
  "map_of (commands E) HOST_CMD_DVL_OFF = Some (host_dvl_off E)"
  "map_of (commands E) HOST_CMD_MAG_PWR_ON = Some (host_mag_pwr_on E)"
  "map_of (commands E) HOST_CMD_MAG_PWR_OFF = Some (host_mag_pwr_off E)"
  "map_of (commands E) HOST_CMD_FIRE_TORP_1 = Some (host_fire_torp_1 E)"
  "map_of (commands E) HOST_CMD_FIRE_TORP_2 = Some (host_fire_torp_2 E)"
  "map_of (commands E) HOST_CMD_ARM_TORP_1 = Some (host_arm_torp_1 E)"
  "map_of (commands E) HOST_CMD_ARM_TORP_2 = Some (host_arm_torp_2 E)"
  "map_of (commands E) HOST_CMD_VOID_TORP_1 = Some (host_void_torp_1 E)"
  "map_of (commands E) HOST_CMD_VOID_TORP_2 = Some (host_void_torp_2 E)"
  "map_of (commands E) HOST_CMD_EXT_GRABBER = Some (host_ext_grabber E)"
  "map_of (commands E) HOST_CMD_RET_GRABBER = Some (host_ret_grabber E)"
  "map_of (commands E) HOST_CMD_VOID_GRABBER = Some (host_void_grabber E)"
  "map_of (commands E) HOST_CMD_VOID_PNEU = Some (host_void_pneu E)"
  "map_of (commands E) HOST_CMD_OFF_PNEU = Some (host_off_pneu E)"
  "map_of (commands E) HOST_CMD_DERPY_ON = Some (host_derpy_on E)"
  "map_of (commands E) HOST_CMD_DERPY_OFF = Some (host_derpy_off E)"
  "map_of (commands E) HOST_CMD_STOP_DERPY = Some (host_stop_derpy E)"
  "map_of (commands E) HOST_CMD_SET_DERPY = Some (host_set_derpy E)"
  by (simp_all add: commands_def codes)

lemma plans_carried_out:
  "list_all (\<lambda>(c, plan). \<exists>h. map_of (commands E) c = Some h \<and> carries_out E c plan h) plans"
  unfolding plans_def
  by (simp add: command_lookup acknowledged_carried_out sync_carried_out ping_carried_out hardkill_carried_out
      thrusters_carried_out set_ovrlimit_carried_out [simplified] set_derpy_carried_out [simplified] marker_carried_out backlight_carried_out
      bfin_state_carried_out baranimation_carried_out set_bars_carried_out bars_carried_out)

end
