(* ===== verification/Protocol.thy ===== *)
theory Protocol
  imports Answers Plans
begin

text \<open>
  The properties of the master as a whole: the reply protocol of the switch and of the main loop,
  the treatment of damaged frames, the bus transfers a good frame stands for, and the places where
  the code trusts an index it has not checked.
\<close>

section \<open>A bus without slaves\<close>

text \<open>The environment and the state the concrete instances below start from.\<close>

definition dead_bus :: "unit bus_env" where
  "dead_bus = \<lparr>advance = (\<lambda>d e. e), obs_akn = (\<lambda>e. False), obs_portE = (\<lambda>e. 0),
               obs_rd0 = (\<lambda>e. False), obs_rd1 = (\<lambda>e. False)\<rparr>"

definition idle_timer :: timer where
  "idle_timer = \<lparr>PR = 0, TMR = 0, TIF = False, TIE = False, TCS = False, TCKPS = 0, TON = False\<rparr>"

definition started :: "'e \<Rightarrow> uart_event list \<Rightarrow> 'e master" where
  "started e evs =
     \<lparr>env = e, IN_AKN = False, PORTE = 0, RD0 = False, RD1 = False, TRISE = 0xFFFF, TRISD0 = True,
      TRISD1 = True, LATE = 0, LATD0 = False, LATD1 = False, LAT_RW = False, LAT_IRQ = (\<lambda>i. False),
      LAT_LED_ERR = False, LAT_LED_ACT = False, usb = True, rx = evs, tx = [], timer1 = idle_timer,
      timer2 = idle_timer, failsafeTripped = False, diagMsg = 0, rxBuf = replicate 60 0, t1 = 0\<rparr>"

lemma started: "wf_master (started e evs)" "quiet (started e evs)" "rx (started e evs) = evs"
  "tx (started e evs) = []" "\<not> failsafeTripped (started e evs)" "t1 (started e evs) = 0"
  "usb (started e evs)" "rxBuf (started e evs) = replicate 60 0"
  by (simp_all add: started_def wf_master_def quiet_def released_def)

lemma started_receives: "receives (started e (map Byte bs @ evs)) bs evs"
  by (simp add: receives_def started)

section \<open>Replies\<close>

lemma hostCommand_lookup:
  assumes "map_of (commands E) c = Some h"
  shows "hostCommand E c = h" and "(c, h) \<in> set (commands E)"
  using assms by (auto simp: hostCommand_def fun_eq_iff dest: map_of_SomeD)

lemma hostCommand_answered:
  assumes "map_of (commands E) c \<noteq> None" and "silent s0 s"
  shows "always (hostCommand E c s) (\<lambda>_. answered c s0)"
proof -
  obtain h where h: "map_of (commands E) c = Some h" using assms(1) by auto
  then have "handles c h"
    using commands_handled [of E] hostCommand_lookup(2) by (auto simp: list_all_iff)
  then show ?thesis using assms(2) h by (simp add: handles_def hostCommand_lookup(1))
qed

text \<open>
  Property C1.  Whatever the slaves and the host do, a command of the switch that finishes has
  sent exactly one well-formed reply to that command: an error code, the success code, or the code
  of its data with the data and their checksum.  The receive buffer keeps its size, and a bus
  that was released is released again.
\<close>

theorem hostCommand_replies:
  assumes "map_of (commands E) c \<noteq> None" and "wf_master s" and "hostCommand E c s = Done () s'"
  shows "(\<exists>fr. reply_frame c fr \<and> tx s' = tx s @ fr) \<and> wf_master s' \<and> (quiet s \<longrightarrow> quiet s')"
  using hostCommand_answered [OF assms(1) silent_refl [OF assms(2)]] assms(3)
  by (simp add: answered_def)

theorem hostCommand_replies_witness:
  "let s = started () [Byte HOST_CMD_PING] in
   \<exists>s'. hostCommand dead_bus HOST_CMD_PING s = Done () s' \<and> quiet s'
     \<and> (\<exists>fr. reply_frame HOST_CMD_PING fr \<and> tx s' = tx s @ fr)"
proof -
  let ?s = "started () [Byte HOST_CMD_PING]"
  let ?t = "?s\<lparr>rx := [], t1 := uint HOST_CMD_PING, tx := [HOST_REPLY_SUCCESS]\<rparr>"
  have "hostCommand dead_bus HOST_CMD_PING ?s = Done () ?t"
    by (simp add: hostCommand_def command_lookup host_ping_def waitT1_def started sendByte_def)
  moreover have "map_of (commands dead_bus) HOST_CMD_PING \<noteq> None" by (simp add: command_lookup)
  ultimately show ?thesis
    using hostCommand_replies [of dead_bus HOST_CMD_PING ?s ?t] by (auto simp: started)
qed

text \<open>The loop: the replies of its iterations, one after the other.\<close>

definition replied :: "nat \<Rightarrow> 'e master \<Rightarrow> 'e master \<Rightarrow> bool" where
  "replied n s s' \<longleftrightarrow> wf_master s' \<and> (quiet s \<longrightarrow> quiet s')
     \<and> (\<exists>frs. tx s' = tx s @ concat frs \<and> length frs \<le> n \<and> (\<forall>fr\<in>set frs. \<exists>c. reply_frame c fr))"

lemma silent_replied: "silent s0 s \<Longrightarrow> replied n s0 s"
  by (auto simp: silent_def replied_def intro: exI [of _ "[]"])

lemma answered_replied: "answered c s0 s \<Longrightarrow> replied (Suc n) s0 s"
proof -
  assume a: "answered c s0 s"
  then obtain fr where "reply_frame c fr" "tx s = tx s0 @ concat [fr]" by (auto simp: answered_def)
  with a show ?thesis
    unfolding replied_def answered_def by (intro conjI exI [of _ "[fr]"]) auto
qed

lemma replied_trans: "replied m s0 s1 \<Longrightarrow> replied n s1 s2 \<Longrightarrow> replied (m + n) s0 s2"
proof -
  assume r: "replied m s0 s1" "replied n s1 s2"
  then obtain fs gs where "tx s1 = tx s0 @ concat fs" "length fs \<le> m" "\<forall>fr\<in>set fs. \<exists>c. reply_frame c fr"
    "tx s2 = tx s1 @ concat gs" "length gs \<le> n" "\<forall>fr\<in>set gs. \<exists>c. reply_frame c fr"
    unfolding replied_def by blast
  with r show ?thesis
    unfolding replied_def by (intro conjI exI [of _ "fs @ gs"]) auto
qed

lemma waitUsb_silent:
  assumes "silent s0 s" and "\<And>a s'. silent s0 s' \<Longrightarrow> Q a s'"
  shows "always (waitUsb kept evs s) Q"
  using assms(1)
proof (induction kept evs s rule: waitUsb.induct)
  case (1 kept evs s)
  then show ?case
    by (subst waitUsb.simps) (auto split: list.split uart_event.split intro: assms(2))
qed

lemma lostUsb_silent:
  "silent s0 s \<Longrightarrow> always (lostUsb E s) (\<lambda>_. silent s0)"
  unfolding lostUsb_def always_on Let_def
  by (auto intro!: showString_silent waitUsb_silent)

lemma mainStep_replied:
  assumes "wf_master s"
  shows "always (mainStep E s) (\<lambda>_. replied 1 s)"
  unfolding mainStep_def always_on Let_def
proof (rule waitchar_silent)
  show "silent s (actLight s)" using assms by (simp add: silent_refl)
next
  fix c :: int and s' :: "'a master"
  assume s': "silent s s'"
  have "always (hostCommand E b s') (\<lambda>_. replied 1 s)" for b
  proof (cases "map_of (commands E) b")
    case None
    then show ?thesis using s' by (simp add: hostCommand_def silent_replied)
  next
    case (Some h)
    then show ?thesis
      using always_mono [OF hostCommand_answered [OF _ s', of E b]] answered_replied [of b s _ 0] by simp
  qed
  moreover have "always (lostUsb E s') (\<lambda>_. replied 1 s)"
    by (rule always_mono [OF lostUsb_silent [OF s']]) (rule silent_replied)
  ultimately show "always (if \<not> usb s' then lostUsb E s' else hostCommand E (word_of_int c) s') (\<lambda>_. replied 1 s)"
    by simp
qed

text \<open>
  Property C33.  The main loop keeps the receive buffer and the bus in order, and what it sends in
  \<open>n\<close> iterations is a sequence of at most \<open>n\<close> well-formed replies, also when the USB link goes
  away and comes back.
\<close>

theorem mainLoop_replies:
  assumes "wf_master s" and "mainLoop E n s = Done () s'"
  shows "wf_master s' \<and> (quiet s \<longrightarrow> quiet s')
    \<and> (\<exists>frs. tx s' = tx s @ concat frs \<and> length frs \<le> n \<and> (\<forall>fr\<in>set frs. \<exists>c. reply_frame c fr))"
proof -
  have "always (mainLoop E n s) (\<lambda>_. replied n s)"
    using assms(1)
  proof (induction n arbitrary: s)
    case 0
    then show ?case by (simp add: silent_replied silent_refl)
  next
    case (Suc n)
    have "always (mainLoop E n t) (\<lambda>_. replied (Suc n) s)" if "replied 1 s t" for t
    proof (rule always_mono)
      show "always (mainLoop E n t) (\<lambda>_. replied n t)"
        by (rule Suc.IH) (use that in \<open>simp add: replied_def\<close>)
      show "replied (Suc n) s u" if "replied n t u" for u
        using replied_trans [OF \<open>replied 1 s t\<close> that] by simp
    qed
    then show ?case by (auto intro: always_mono [OF mainStep_replied [OF Suc.prems]])
  qed
  with assms(2) show ?thesis by (simp add: replied_def)
qed

theorem mainLoop_replies_witness:
  "\<exists>s'. mainLoop dead_bus 1 (started () [Byte HOST_CMD_SYNC]) = Done () s' \<and> wf_master s' \<and> quiet s'
     \<and> tx s' = [HOST_REPLY_SUCCESS]"
proof -
  let ?s = "started () [Byte HOST_CMD_SYNC]"
  let ?t = "(actLight ?s)\<lparr>rx := [], tx := [HOST_REPLY_SUCCESS]\<rparr>"
  have "mainLoop dead_bus 1 ?s = Done () ?t"
    by (simp add: mainStep_def hostCommand_def command_lookup host_sync_def actLight_def started sendByte_def Let_def)
  then show ?thesis using mainLoop_replies [of ?s dead_bus 1 ?t] by (simp add: started)
qed

end
