(* ===== verification/Safety.thy ===== *)
theory Safety
  imports Protocol
begin

text \<open>
  What reaches the bus and what does not: damaged frames are refused before any transfer, good
  ones are carried out as the table of \<^verbatim>\<open>Plans\<close> says, transfers end whatever the slaves do; and
  the places where the code trusts a value it has not checked.
\<close>

section \<open>Damaged frames\<close>

lemma hostCommand_refused:
  assumes "map_of (commands E) c \<noteq> None" and "receives s bs evs"
    and "length bs = frame_len c" and "\<not> well_framed c bs"
  shows "\<exists>s'. hostCommand E c s = Done () s' \<and> refused (refusal c bs) evs s s'"
proof -
  obtain h where h: "map_of (commands E) c = Some h" using assms(1) by auto
  then have "refuses c h"
    using commands_refuse [of E] hostCommand_lookup(2) by (auto simp: list_all_iff)
  then have "finishes (h s) (\<lambda>_. refused (refusal c bs) evs s)"
    using assms(2-4) unfolding refuses_def by blast
  with h show ?thesis by (simp add: finishes_iff hostCommand_lookup(1))
qed

text \<open>
  Property C3.  A byte sequence of the right length that is not a well-formed frame of its command
  (a wrong checksum, a wrong echo, a parameter out of range, a wrong safety sequence) is taken off
  the link and answered with the error code, and nothing else happens: no slave sees a change of
  any line.
\<close>

theorem bad_frame_refused:
  assumes "map_of (commands E) c \<noteq> None" and "receives s bs evs"
    and "length bs = frame_len c" and "\<not> well_framed c bs"
  shows "\<exists>s'. hostCommand E c s = Done () s' \<and> env s' = env s \<and> drive_of s' = drive_of s \<and> rx s' = evs
    \<and> tx s' = tx s @ [if c = HOST_CMD_SET_DERPY \<and> summed c bs then HOST_REPLY_FAILURE else HOST_REPLY_BADCHKSUM]"
  using hostCommand_refused [OF assms] by (auto simp: refused_def refusal_def)

theorem bad_frame_refused_witness:
  "\<exists>s'. hostCommand dead_bus HOST_CMD_MARKER (started () (map Byte [1, 0] @ [])) = Done () s'
     \<and> tx s' = [HOST_REPLY_BADCHKSUM]"
proof -
  let ?s = "started () (map Byte [1, 0] @ [])"
  have "map_of (commands dead_bus) HOST_CMD_MARKER \<noteq> None" by (simp add: command_lookup)
  moreover have "receives ?s [1, 0] []" by (rule started_receives)
  moreover have "length [1, 0 :: byte] = frame_len HOST_CMD_MARKER" "\<not> well_framed HOST_CMD_MARKER [1, 0]"
    by (simp_all add: frame_len_def well_framed_def summed_def payloads_def codes)
  moreover have "HOST_CMD_MARKER \<noteq> HOST_CMD_SET_DERPY" by (simp add: codes)
  ultimately show ?thesis
    using bad_frame_refused [of dead_bus HOST_CMD_MARKER ?s "[1, 0]" "[]"] by (auto simp: started)
qed

lemma summed_update_iff:
  assumes "summed c bs" and "i < length bs"
  shows "summed c (bs[i := b]) \<longleftrightarrow> b = bs ! i"
proof (cases "i = length bs - 1")
  case True
  have "bs \<noteq> []" using assms(2) by auto
  then have "bs = butlast bs @ [last bs]" by simp
  then have "bs = butlast bs @ [last bs]" "bs \<noteq> []" using \<open>bs \<noteq> []\<close> by blast+
  then have "bs[i := b] = butlast bs @ [b]" "bs ! i = last bs"
    using True by (metis length_butlast list_update_length, simp add: last_conv_nth)
  with assms(1) show ?thesis by (auto simp: summed_def)
next
  case False
  then have i: "i < length (butlast bs)" "bs ! i = butlast bs ! i" using assms(2) by (simp_all add: nth_butlast)
  have "bs \<noteq> []" using assms(2) by auto
  then have "butlast (bs[i := b]) = (butlast bs)[i := b]" "last (bs[i := b]) = last bs"
    using False assms(2) by (simp_all add: butlast_list_update last_list_update)
  moreover have "x = x - y + b \<longleftrightarrow> b = y" for x y :: byte by (auto simp: algebra_simps)
  ultimately show ?thesis
    using assms(1) i by (simp add: summed_def sum_list_update_byte algebra_simps)
qed

text \<open>
  Property C4.  One damaged byte anywhere in a good frame, the checksum included, makes the master
  refuse it without touching the bus.
\<close>

theorem damaged_byte_refused:
  assumes "map_of (commands E) c \<noteq> None" and "well_framed c bs" and "i < length bs" and "b \<noteq> bs ! i"
    and "receives s (bs[i := b]) evs"
  shows "\<exists>s'. hostCommand E c s = Done () s' \<and> env s' = env s \<and> drive_of s' = drive_of s \<and> rx s' = evs
    \<and> (tx s' = tx s @ [HOST_REPLY_BADCHKSUM] \<or> tx s' = tx s @ [HOST_REPLY_FAILURE])"
proof -
  have l: "length bs = frame_len c"
    using assms(2) by (auto simp: well_framed_def frame_len_def hkSafety_def split: if_splits option.splits)
  have "bs[i := b] \<noteq> bs" using assms(3,4) by (metis nth_list_update_eq)
  then have "\<not> well_framed c (bs[i := b])"
    using assms(2-4) summed_update_iff [of c bs i b]
    by (auto simp: well_framed_def split: if_splits option.splits)
  then have "\<not> well_framed c (bs[i := b])" "length (bs[i := b]) = frame_len c" using l by simp_all
  then show ?thesis
    using hostCommand_refused [OF assms(1,5)] by (fastforce simp: refused_def refusal_def)
qed

theorem damaged_byte_refused_witness:
  "\<exists>s'. hostCommand dead_bus HOST_CMD_MARKER (started () (map Byte [1, HOST_CMD_MARKER] @ [])) = Done () s'
     \<and> rx s' = []"
proof -
  let ?bs = "[0, HOST_CMD_MARKER]"
  let ?s = "started () (map Byte [1, HOST_CMD_MARKER] @ [])"
  have "map_of (commands dead_bus) HOST_CMD_MARKER \<noteq> None" by (simp add: command_lookup)
  moreover have "receives ?s (?bs[0 := 1]) []" using started_receives [of "()" "[1, HOST_CMD_MARKER]" "[]"] by simp
  moreover have "well_framed HOST_CMD_MARKER ?bs"
    by (simp add: well_framed_def summed_def payloads_def codes)
  ultimately show ?thesis
    using damaged_byte_refused [of dead_bus HOST_CMD_MARKER ?bs 0 1 ?s "[]"] by auto
qed

section \<open>Good frames\<close>

text \<open>A chain of transfers ends with success, or with the first failure.\<close>

lemma mustAll_ends:
  "finishes (mustAll E ws s (sendByte HOST_REPLY_SUCCESS))
     (\<lambda>_ s'. (tx s' = tx s @ [HOST_REPLY_SUCCESS] \<or> tx s' = tx s @ [HOST_REPLY_FAILURE])
       \<and> rx s' = rx s \<and> failsafeTripped s' = failsafeTripped s \<and> usb s' = usb s \<and> wf_master s' = wf_master s)"
proof (induction ws arbitrary: s)
  case Nil
  then show ?case by (simp add: sendByte_def wf_master_def)
next
  case (Cons w ws)
  obtain d r where w: "w = (d, r)" by (cases w)
  obtain a s' where t: "busWriteByte E d r s = Done a s'" "bus_only s s'"
    by (rule busWriteByte_cases [of E d r s])
  then show ?case
    using Cons.IH [of s'] by (auto simp: w must_def sendByte_def bus_only_def wf_master_def)
qed

text \<open>
  Property C2.  A good frame of a command of the table makes the master do the transfers the table
  lists for it, in that order and no others, up to the first that fails; the host gets the success
  code if all went through and the failure code otherwise, and it does get one of the two.
\<close>

theorem good_frame_carried_out:
  assumes "(c, plan) \<in> set plans" and "receives s bs evs" and "well_framed c bs"
  shows "\<exists>s1 s'. env s1 = env s \<and> drive_of s1 = drive_of s \<and> rx s1 = evs \<and> tx s1 = tx s
    \<and> hostCommand E c s = mustAll E (plan bs) s1 (sendByte HOST_REPLY_SUCCESS)
    \<and> hostCommand E c s = Done () s' \<and> rx s' = evs
    \<and> (tx s' = tx s @ [HOST_REPLY_SUCCESS] \<or> tx s' = tx s @ [HOST_REPLY_FAILURE])"
proof -
  obtain h where h: "map_of (commands E) c = Some h" "carries_out E c plan h"
    using plans_carried_out [of E] assms(1) by (auto simp: list_all_iff)
  then obtain s1 where s1: "prepared s evs s1" "h s = mustAll E (plan bs) s1 (sendByte HOST_REPLY_SUCCESS)"
    using assms(2,3) unfolding carries_out_def by blast
  obtain s' where s': "mustAll E (plan bs) s1 (sendByte HOST_REPLY_SUCCESS) = Done () s'" "rx s' = rx s1"
    "tx s' = tx s1 @ [HOST_REPLY_SUCCESS] \<or> tx s' = tx s1 @ [HOST_REPLY_FAILURE]"
    using mustAll_ends [of E "plan bs" s1] by (auto simp: finishes_iff)
  show ?thesis
    using h s1 s' by (intro exI [of _ s1] exI [of _ s']) (auto simp: prepared_def hostCommand_lookup(1))
qed

theorem good_frame_carried_out_witness:
  "\<exists>s'. hostCommand dead_bus HOST_CMD_MARKER (started () (map Byte [1, HOST_CMD_MARKER + 1] @ [])) = Done () s'
     \<and> rx s' = []"
proof -
  let ?bs = "[1, HOST_CMD_MARKER + 1]"
  have "well_framed HOST_CMD_MARKER ?bs"
    by (simp add: well_framed_def summed_def payloads_def codes)
  moreover have "(HOST_CMD_MARKER, \<lambda>p. [(if p ! 0 = 0 then BUS_CMD_MARKER1 else BUS_CMD_MARKER2, SLAVE_ID_MARKERS)])
      \<in> set plans" by (simp add: plans_def)
  ultimately show ?thesis
    using good_frame_carried_out [OF _ started_receives [of "()" ?bs "[]"], of HOST_CMD_MARKER] by blast
qed

section \<open>Transfers end\<close>

text \<open>
  An environment with a counter of the polls, which it cannot see: the master reads \<^verbatim>\<open>IN_AKN\<close> only by \<^term>\<open>sample\<close>,
  and each call lets the environment move once.
\<close>

definition counting :: "'e bus_env \<Rightarrow> ('e \<times> nat) bus_env" where
  "counting E = \<lparr>advance = (\<lambda>d (e, n). (advance E d e, n + 1)), obs_akn = (\<lambda>(e, n). obs_akn E e),
     obs_portE = (\<lambda>(e, n). obs_portE E e), obs_rd0 = (\<lambda>(e, n). obs_rd0 E e), obs_rd1 = (\<lambda>(e, n). obs_rd1 E e)\<rparr>"

abbreviation polls :: "('e \<times> nat) master \<Rightarrow> nat" where
  "polls s \<equiv> snd (env s)"

text \<open>The state without the counter.\<close>

definition uncounted :: "('e \<times> nat) master \<Rightarrow> 'e master" where
  "uncounted s =
     \<lparr>env = fst (env s), IN_AKN = IN_AKN s, PORTE = PORTE s, RD0 = RD0 s, RD1 = RD1 s, TRISE = TRISE s, TRISD0 = TRISD0 s,
      TRISD1 = TRISD1 s, LATE = LATE s, LATD0 = LATD0 s, LATD1 = LATD1 s, LAT_RW = LAT_RW s, LAT_IRQ = LAT_IRQ s,
      LAT_LED_ERR = LAT_LED_ERR s, LAT_LED_ACT = LAT_LED_ACT s, usb = usb s, rx = rx s, tx = tx s, timer1 = timer1 s,
      timer2 = timer2 s, failsafeTripped = failsafeTripped s, diagMsg = diagMsg s, rxBuf = rxBuf s, t1 = t1 s\<rparr>"

lemma uncounted_sample: "uncounted (sample (counting E) s) = sample E (uncounted s)"
  by (cases "env s") (simp add: uncounted_def sample_def counting_def drive_of_def Let_def)

lemma uncounted_waitAkn: "waitAkn (counting E) level n s = (r, s') \<Longrightarrow> waitAkn E level n (uncounted s) = (r, uncounted s')"
proof (induction n arbitrary: s)
  case 0
  then show ?case by (auto simp: uncounted_sample [symmetric] Let_def) (simp_all add: uncounted_def)
next
  case (Suc n)
  have "IN_AKN (uncounted t) = IN_AKN t" for t :: "('a \<times> nat) master" by (simp add: uncounted_def)
  then show ?case using Suc by (auto simp: uncounted_sample [symmetric] Let_def split: if_splits)
qed

lemma uncounted_ops:
  "uncounted (setReq req v s) = setReq req v (uncounted s)" "uncounted (freeBus s) = freeBus (uncounted s)"
  "uncounted (writeBus b s) = writeBus b (uncounted s)" "uncounted (s\<lparr>LAT_RW := v\<rparr>) = (uncounted s)\<lparr>LAT_RW := v\<rparr>"
  "uncounted (s\<lparr>LAT_LED_ERR := v\<rparr>) = (uncounted s)\<lparr>LAT_LED_ERR := v\<rparr>" "readBus (uncounted s) = readBus s"
  by (simp_all add: uncounted_def setReq_def freeBus_def writeBus_def readBus_def)

lemma sample_polls: "polls (sample (counting E) s) = polls s + 1"
  by (cases "env s") (simp add: sample_def counting_def Let_def)

lemma waitAkn_counted:
  "waitAkn (counting E) level n s = (r, s') \<Longrightarrow>
     \<exists>k. polls s' = polls s + k \<and> 1 \<le> k \<and> k \<le> n + 1 \<and> (\<not> r \<longrightarrow> k = n + 1)"
proof (induction n arbitrary: s)
  case 0
  then show ?case using sample_polls [of E s] by (intro exI [of _ 1]) (auto simp: Let_def)
next
  case (Suc n)
  note s = sample_polls [of E]
  show ?case
  proof (cases "IN_AKN (sample (counting E) s) = level")
    case True
    then show ?thesis using Suc.prems s [of s] by (intro exI [of _ 1]) (auto simp: Let_def)
  next
    case False
    then have "waitAkn (counting E) level n (sample (counting E) s) = (r, s')" using Suc.prems by (simp add: Let_def)
    then obtain k where "polls s' = polls s + 1 + k" "1 \<le> k" "k \<le> n + 1" "\<not> r \<longrightarrow> k = n + 1"
      using Suc.IH s [of s] by metis
    then show ?thesis by (intro exI [of _ "k + 1"]) simp
  qed
qed

text \<open>What a transfer that has ended did: its value, the number \<open>n\<close> of polls, and the lines.\<close>

definition ends_after :: "int set \<Rightarrow> int \<Rightarrow> nat \<Rightarrow> bool" where
  "ends_after good a n \<longleftrightarrow>
     a = BUS_ERROR \<and> n = 25001 \<or> a = BUS_FAILURE \<and> 25002 \<le> n \<and> n \<le> 50002 \<or> a \<in> good \<and> 2 \<le> n \<and> n \<le> 50002"

definition only_request_dropped :: "byte \<Rightarrow> 'e master \<Rightarrow> 'e master \<Rightarrow> bool" where
  "only_request_dropped req s s' \<longleftrightarrow> LAT_IRQ s' = (\<lambda>i. LAT_IRQ s i \<and> \<not> (req \<le> 6 \<and> i = unat req))"

lemma request_dropped:
  assumes "LAT_IRQ t = LAT_IRQ (setReq req True s)" and "LAT_IRQ s' = LAT_IRQ (setReq req False t)"
  shows "only_request_dropped req s s'"
  using assms by (simp add: only_request_dropped_def setReq_def fun_eq_iff)

lemma request_lines [simp]:
  "LAT_IRQ (freeBus s) = LAT_IRQ s" "LAT_IRQ (writeBus b s) = LAT_IRQ s"
  "LAT_IRQ (setReq req v (writeBus b (s\<lparr>LAT_RW := w\<rparr>))) = LAT_IRQ (setReq req v s)"
  "LAT_IRQ (setReq req v (s\<lparr>LAT_RW := w\<rparr>)) = LAT_IRQ (setReq req v s)"
  "LAT_IRQ (setReq req v (freeBus s)) = LAT_IRQ (setReq req v s)"
  by (simp_all add: freeBus_def writeBus_def setReq_def)

lemma two_edges:
  assumes "waitAkn (counting E) True BUS_TIMEOUT s1 = (True, s2)" and "waitAkn (counting E) False BUS_TIMEOUT s3 = (low, s4)"
    and "polls s3 = polls s2"
  shows "\<exists>n. polls s4 = polls s1 + n \<and> 2 \<le> n \<and> n \<le> 50002 \<and> (\<not> low \<longrightarrow> 25002 \<le> n)"
proof -
  obtain k1 where k1: "polls s2 = polls s1 + k1" "1 \<le> k1" "k1 \<le> BUS_TIMEOUT + 1" using waitAkn_counted [OF assms(1)] by blast
  obtain k2 where k2: "polls s4 = polls s3 + k2" "1 \<le> k2" "k2 \<le> BUS_TIMEOUT + 1" "\<not> low \<longrightarrow> k2 = BUS_TIMEOUT + 1"
    using waitAkn_counted [OF assms(2)] by blast
  show ?thesis by (rule exI [of _ "k1 + k2"]) (use k1 k2 assms(3) in \<open>auto simp: BUS_TIMEOUT_def\<close>)
qed

lemma write_ends:
  "\<exists>a s' n. busWriteByte (counting E) data req s = Done a s' \<and> busWriteByte E data req (uncounted s) = Done a (uncounted s')
     \<and> polls s' = polls s + n \<and> ends_after {0} a n \<and> released s' \<and> only_request_dropped req s s'"
proof -
  define s1 where "s1 = setReq req True (writeBus data (s\<lparr>LAT_RW := RW_WRITE\<rparr>))"
  obtain high s2 where w1: "waitAkn (counting E) True BUS_TIMEOUT s1 = (high, s2)" by force
  define s3 where "s3 = setReq req False (freeBus s2)"
  obtain low s4 where w2: "waitAkn (counting E) False BUS_TIMEOUT s3 = (low, s4)" by force
  note u = uncounted_waitAkn [OF w1, unfolded s1_def uncounted_ops] uncounted_waitAkn [OF w2, unfolded s3_def uncounted_ops]
  note d = waitAkn_drives [OF w1] waitAkn_drives [OF w2]
  have p: "polls s1 = polls s" "polls s3 = polls s2" by (simp_all add: s1_def s3_def setReq_def writeBus_def freeBus_def)
  show ?thesis
  proof (cases high)
    case False
    let ?t = "(freeBus (setReq req False s2))\<lparr>LAT_LED_ERR := True\<rparr>"
    have "busWriteByte (counting E) data req s = Done BUS_ERROR ?t" using w1 False by (simp add: busWriteByte_def s1_def Let_def)
    moreover have "busWriteByte E data req (uncounted s) = Done BUS_ERROR (uncounted ?t)"
      using u(1) False by (simp add: busWriteByte_def uncounted_ops Let_def)
    moreover have "polls ?t = polls s + 25001"
      using waitAkn_counted [OF w1] False p(1) by (auto simp: BUS_TIMEOUT_def setReq_def freeBus_def)
    moreover have "released ?t" by (simp add: released_def freeBus_def codes)
    moreover have "only_request_dropped req s ?t"
      by (rule request_dropped [of s2]) (use d(1) in \<open>simp_all add: s1_def\<close>)
    ultimately show ?thesis unfolding ends_after_def by blast
  next
    case True
    let ?a = "if low then 0 else BUS_FAILURE" and ?t = "s4\<lparr>LAT_LED_ERR := \<not> low\<rparr>"
    have "busWriteByte (counting E) data req s = Done ?a ?t" using w1 w2 True by (simp add: busWriteByte_def s1_def s3_def Let_def)
    moreover have "busWriteByte E data req (uncounted s) = Done ?a (uncounted ?t)"
      using u True by (simp add: busWriteByte_def uncounted_ops Let_def)
    moreover obtain n where "polls ?t = polls s + n" "ends_after {0} ?a n"
      using two_edges [OF _ w2 p(2), of s1] w1 True p(1) by (auto simp: ends_after_def)
    moreover have "released ?t" using d(2) released_freeBus [of s2] by (simp add: released_def s3_def setReq_def)
    moreover have "only_request_dropped req s ?t"
      by (rule request_dropped [of s2]) (use d in \<open>simp_all add: s1_def s3_def\<close>)
    ultimately show ?thesis by blast
  qed
qed

lemma read_ends:
  "\<exists>a s' n. busReadByte (counting E) req s = Done a s' \<and> busReadByte E req (uncounted s) = Done a (uncounted s')
     \<and> polls s' = polls s + n \<and> ends_after {0..<256} a n \<and> released s' = released s \<and> only_request_dropped req s s'"
proof -
  define s1 where "s1 = setReq req True (s\<lparr>LAT_RW := RW_READ\<rparr>)"
  obtain high s2 where w1: "waitAkn (counting E) True BUS_TIMEOUT s1 = (high, s2)" by force
  define s3 where "s3 = setReq req False s2"
  obtain low s4 where w2: "waitAkn (counting E) False BUS_TIMEOUT s3 = (low, s4)" by force
  note u = uncounted_waitAkn [OF w1, unfolded s1_def uncounted_ops] uncounted_waitAkn [OF w2, unfolded s3_def uncounted_ops]
  note d = waitAkn_drives [OF w1] waitAkn_drives [OF w2]
  have p: "polls s1 = polls s" "polls s3 = polls s2" by (simp_all add: s1_def s3_def setReq_def)
  show ?thesis
  proof (cases high)
    case False
    let ?t = "(setReq req False s2)\<lparr>LAT_LED_ERR := True\<rparr>"
    have "busReadByte (counting E) req s = Done BUS_ERROR ?t" using w1 False by (simp add: busReadByte_def s1_def Let_def)
    moreover have "busReadByte E req (uncounted s) = Done BUS_ERROR (uncounted ?t)"
      using u(1) False by (simp add: busReadByte_def uncounted_ops Let_def)
    moreover have "polls ?t = polls s + 25001"
      using waitAkn_counted [OF w1] False p(1) by (auto simp: BUS_TIMEOUT_def setReq_def)
    moreover have "released ?t = released s" using d(1) by (simp add: released_def s1_def setReq_def)
    moreover have "only_request_dropped req s ?t"
      by (rule request_dropped [of s2]) (use d(1) in \<open>simp_all add: s1_def\<close>)
    ultimately show ?thesis unfolding ends_after_def by blast
  next
    case True
    let ?a = "if low then uint (readBus s2) else BUS_FAILURE" and ?t = "s4\<lparr>LAT_LED_ERR := \<not> low\<rparr>"
    have "busReadByte (counting E) req s = Done ?a ?t" using w1 w2 True by (simp add: busReadByte_def s1_def s3_def Let_def)
    moreover have "busReadByte E req (uncounted s) = Done ?a (uncounted ?t)"
      using u True by (simp add: busReadByte_def uncounted_ops Let_def)
    moreover obtain n where "polls ?t = polls s + n" "ends_after {0..<256} ?a n"
      using two_edges [OF _ w2 p(2), of s1] w1 True p(1) uint_byte_bounds [of "readBus s2"] by (auto simp: ends_after_def)
    moreover have "released ?t = released s" using d by (simp add: released_def s1_def s3_def setReq_def)
    moreover have "only_request_dropped req s ?t"
      by (rule request_dropped [of s2]) (use d in \<open>simp_all add: s1_def s3_def\<close>)
    ultimately show ?thesis by blast
  qed
qed

text \<open>
  Property C32.  A byte transfer ends in every environment, with slaves that never answer, answer out of turn or hold the
  line.  It polls the acknowledge line at most 25001 times for each of the two edges: exactly so often when the line
  never rises (\<^verbatim>\<open>BUS_ERROR\<close>), and more than that and at most twice that when it never falls (\<^verbatim>\<open>BUS_FAILURE\<close>).
  Otherwise its value is 0 or the byte read.  It changes nothing but the bus, and whatever the lines were before, it
  leaves the Req line of the slave down and the others alone; after a write the master drives none of the bus lines,
  and a read does not change what it drives.
\<close>

theorem transfers_end:
  "(\<exists>a s' n. busWriteByte (counting E) data req s = Done a s' \<and> busWriteByte E data req (uncounted s) = Done a (uncounted s')
      \<and> polls s' = polls s + n \<and> ends_after {0} a n \<and> bus_only s s' \<and> released s' \<and> only_request_dropped req s s')
   \<and> (\<exists>a s' n. busReadByte (counting E) req s = Done a s' \<and> busReadByte E req (uncounted s) = Done a (uncounted s')
      \<and> polls s' = polls s + n \<and> ends_after {0..<256} a n \<and> bus_only s s' \<and> released s' = released s \<and> only_request_dropped req s s')"
proof (rule conjI)
  obtain a s' n where "busWriteByte (counting E) data req s = Done a s'" "busWriteByte E data req (uncounted s) = Done a (uncounted s')"
    "polls s' = polls s + n" "ends_after {0} a n" "released s'" "only_request_dropped req s s'"
    using write_ends [of E data req s] by blast
  moreover from this(1) have "bus_only s s'" by (cases rule: busWriteByte_cases [of "counting E" data req s]) simp
  ultimately show "\<exists>a s' n. busWriteByte (counting E) data req s = Done a s' \<and> busWriteByte E data req (uncounted s) = Done a (uncounted s')
      \<and> polls s' = polls s + n \<and> ends_after {0} a n \<and> bus_only s s' \<and> released s' \<and> only_request_dropped req s s'" by blast
next
  obtain a s' n where "busReadByte (counting E) req s = Done a s'" "busReadByte E req (uncounted s) = Done a (uncounted s')"
    "polls s' = polls s + n" "ends_after {0..<256} a n" "released s' = released s" "only_request_dropped req s s'"
    using read_ends [of E req s] by blast
  moreover from this(1) have "bus_only s s'" by (cases rule: busReadByte_cases [of "counting E" req s]) simp
  ultimately show "\<exists>a s' n. busReadByte (counting E) req s = Done a s' \<and> busReadByte E req (uncounted s) = Done a (uncounted s')
      \<and> polls s' = polls s + n \<and> ends_after {0..<256} a n \<and> bus_only s s' \<and> released s' = released s \<and> only_request_dropped req s s'" by blast
qed

text \<open>A bus on which nobody answers: 25001 polls, and the request line is down again.\<close>

theorem transfers_end_witness:
  "\<exists>s'. busWriteByte (counting dead_bus) 7 3 (started ((), 0) []) = Done BUS_ERROR s' \<and> polls s' = 25001 \<and> \<not> LAT_IRQ s' 3"
proof -
  obtain a s' n where s': "busWriteByte (counting dead_bus) 7 3 (started ((), 0) []) = Done a s'" "polls s' = polls (started ((), 0) []) + n"
    "ends_after {0} a n" "only_request_dropped 3 (started ((), 0) []) s'"
    using transfers_end [of dead_bus 7 3 "started ((), 0) []"] by blast
  have silent: "\<not> fst (waitAkn (counting dead_bus) True k t)" for k t
    by (induction k arbitrary: t) (simp_all add: sample_def counting_def dead_bus_def Let_def split: prod.split)
  obtain s2 where "waitAkn (counting dead_bus) True BUS_TIMEOUT (setReq 3 True (writeBus 7 ((started ((), 0) [])\<lparr>LAT_RW := RW_WRITE\<rparr>))) = (False, s2)"
    using silent by (metis (full_types) fst_conv surj_pair)
  then have "a = BUS_ERROR" using s'(1) by (simp add: busWriteByte_def)
  then show ?thesis using s' by (auto simp: ends_after_def only_request_dropped_def started_def BUS_ERROR_def BUS_FAILURE_def)
qed

text \<open>
  What the master puts on the lines is what it reads from them: \<^verbatim>\<open>writeBus\<close> drives all
  eight lines with the bits of its argument, and \<^verbatim>\<open>readBus\<close> puts the byte together again, for any
  levels of the other pins of the port.
\<close>

theorem bus_lines_round_trip:
  assumes "PORTE s AND 0x3F = ucast b AND 0x3F" and "RD0 s = bit b 6" and "RD1 s = bit b 7"
  shows "readBus s = b \<and> d_mask (drive_of (writeBus b t)) = 0xFF \<and> d_data (drive_of (writeBus b t)) = b"
  using readBus_lines [OF assms] writeBus_drives [of b t] by simp

theorem bus_lines_round_trip_witness:
  "readBus ((started () [])\<lparr>PORTE := 0x2A, RD1 := True\<rparr>) = 0xAA"
  using bus_lines_round_trip [of "(started () [])\<lparr>PORTE := 0x2A, RD1 := True\<rparr>" "0xAA" "started () []"]
  by (simp add: started_def)

section \<open>Unchecked indices\<close>

lemma readDataBytes_fits:
  "p + n \<le> length (rxBuf s) \<Longrightarrow> finishes (readDataBytes E req p n s) (\<lambda>a s'. length (rxBuf s') = length (rxBuf s))"
proof (induction n arbitrary: p s)
  case (Suc n)
  obtain a s' where r: "busReadByte E req s = Done a s'" "bus_only s s'"
    by (rule busReadByte_cases [of E req s])
  then have "length (rxBuf s') = length (rxBuf s)" by (simp add: bus_only_def)
  with r Suc.prems Suc.IH [of "Suc p" "s'\<lparr>rxBuf := (rxBuf s')[p := word_of_int a]\<rparr>"] show ?case by simp
qed simp

text \<open>
  \<^verbatim>\<open>readDataBlock\<close> never waits for the host, and the only way it can leave the bounds of
  \<^verbatim>\<open>rxBuf\<close> is a slave that announces 60 bytes or more, which the code does not check.
\<close>

theorem readDataBlock_overrun:
  assumes "wf_master s" and "readDataBlock E req s = Stop e"
  shows "e = Out_of_bounds \<and> (\<exists>n s1. busReadByte E req (s\<lparr>rxBuf := (rxBuf s)[0 := 0]\<rparr>) = Done n s1 \<and> 60 \<le> n)"
proof -
  let ?s0 = "s\<lparr>rxBuf := (rxBuf s)[0 := 0]\<rparr>"
  obtain n s1 where r: "busReadByte E req ?s0 = Done n s1" "bus_only ?s0 s1"
    by (rule busReadByte_cases [of E req ?s0])
  then have l: "length (rxBuf s1) = 60" using assms(1) by (simp add: bus_only_def wf_master_def)
  have "60 \<le> n"
  proof (rule ccontr)
    assume "\<not> 60 \<le> n"
    then have "nat n < 60" by simp
    moreover from this obtain a t where "readDataBytes E req 0 (nat n) s1 = Done a t" "length (rxBuf t) = 60"
      using readDataBytes_fits [of 0 "nat n" s1 E req] l by (auto simp: finishes_iff)
    ultimately have "finishes (readDataBlock E req s) (\<lambda>_ _. True)"
      using r(1) by (simp add: readDataBlock_def)
    with assms(2) show False by simp
  qed
  moreover have "e = Out_of_bounds" if "readDataBytes E req p k t = Stop e" for p k and t :: "'a master"
    using that
  proof (induction k arbitrary: p t)
    case (Suc k)
    obtain a t' where "busReadByte E req t = Done a t'" by (rule busReadByte_cases [of E req t])
    with Suc show ?case by (auto split: if_splits)
  qed simp
  then have "e = Out_of_bounds"
    using assms(2) r(1) by (cases "readDataBytes E req 0 (nat n) s1") (auto simp: readDataBlock_def split: if_splits)
  ultimately show ?thesis using r(1) by blast
qed

text \<open>A slave that acknowledges every request and always presents the same byte.\<close>

definition shouting :: "byte \<Rightarrow> bool bus_env" where
  "shouting b = \<lparr>advance = (\<lambda>d e. \<exists>i<7. d_req d i), obs_akn = (\<lambda>e. e), obs_portE = (\<lambda>e. ucast b),
                 obs_rd0 = (\<lambda>e. bit b 6), obs_rd1 = (\<lambda>e. bit b 7)\<rparr>"

lemma waitAkn_now: "IN_AKN (sample E s) = level \<Longrightarrow> waitAkn E level n s = (True, sample E s)"
  by (cases n) (simp_all add: Let_def)

lemma shouting_read:
  assumes "quiet s" and "req \<le> 6"
  shows "\<exists>s'. busReadByte (shouting b) req s = Done (uint b) s'"
proof -
  let ?s1 = "setReq req True (s\<lparr>LAT_RW := RW_READ\<rparr>)"
  have "unat req < 7" using assms(2) by (simp add: word_le_nat_alt)
  then have "IN_AKN (sample (shouting b) ?s1)"
    using assms(2) by (auto simp: sample_def shouting_def drive_of_def setReq_def Let_def)
  then have "waitAkn (shouting b) True BUS_TIMEOUT ?s1 = (True, sample (shouting b) ?s1)"
    by (intro waitAkn_now) simp
  moreover have "readBus (sample (shouting b) ?s1) = b"
    by (rule readBus_lines) (simp_all add: sample_def shouting_def Let_def)
  moreover have "\<not> IN_AKN (sample (shouting b) (setReq req False (sample (shouting b) ?s1)))"
    using assms by (auto simp: sample_def shouting_def drive_of_def setReq_def Let_def quiet_def)
  then have "waitAkn (shouting b) False BUS_TIMEOUT (setReq req False (sample (shouting b) ?s1))
    = (True, sample (shouting b) (setReq req False (sample (shouting b) ?s1)))"
    by (intro waitAkn_now) simp
  ultimately show ?thesis by (simp add: busReadByte_def Let_def)
qed

lemma shouting_overruns:
  "quiet s \<Longrightarrow> req \<le> 6 \<Longrightarrow> length (rxBuf s) < p + n \<Longrightarrow> p \<le> length (rxBuf s)
     \<Longrightarrow> readDataBytes (shouting b) req p n s = Stop Out_of_bounds"
proof (induction n arbitrary: p s)
  case (Suc n)
  obtain s' where r: "busReadByte (shouting b) req s = Done (uint b) s'"
    using shouting_read [OF Suc.prems(1,2)] by blast
  with busReadByte_transfer [of s "shouting b" req] Suc.prems(1)
  have "quiet s'" "rxBuf s' = rxBuf s" by (auto simp: transfer_def bus_only_def)
  with r Suc show ?case by simp
qed simp

theorem readDataBlock_overrun_witness:
  "readDataBlock (shouting 61) 0 (started False []) = Stop Out_of_bounds
   \<and> (\<exists>n s1. busReadByte (shouting 61) 0 ((started False [])\<lparr>rxBuf := (replicate 60 0)[0 := 0]\<rparr>) = Done n s1 \<and> 60 \<le> n)"
proof -
  let ?s = "started False []"
  let ?init = "?s\<lparr>rxBuf := (rxBuf ?s)[0 := 0]\<rparr>"
  obtain s1 where r: "busReadByte (shouting 61) 0 ?init = Done 61 s1"
    using shouting_read [of ?init 0 61] by (auto simp: started)
  with busReadByte_transfer [of ?init "shouting 61" 0]
  have "quiet s1" "length (rxBuf s1) = 60"
    by (auto simp: transfer_def bus_only_def started)
  then have s: "readDataBlock (shouting 61) 0 ?s = Stop Out_of_bounds"
    using r shouting_overruns [of s1 0 0 61 61] by (simp add: readDataBlock_def)
  then show ?thesis
    using readDataBlock_overrun [OF started(1) s] by (simp add: started)
qed

text \<open>
  \<^verbatim>\<open>HOST_CMD_BATTCTL\<close> tests \<open>t1\<close>, left over from an earlier command, instead of its
  parameter.  With a small leftover, a frame with a good checksum and a parameter above 11 indexes
  past the end of \<^verbatim>\<open>battCommands\<close>; with a leftover above 9 every good frame is refused.
\<close>

theorem battctl_tests_stale_value:
  assumes "receives s [p, p + HOST_CMD_BATTCTL] evs"
  shows "(t1 s \<le> 9 \<and> 12 \<le> p \<longrightarrow> hostCommand E HOST_CMD_BATTCTL s = Stop Out_of_bounds)
    \<and> (9 < t1 s \<longrightarrow> (\<exists>s'. hostCommand E HOST_CMD_BATTCTL s = Done () s' \<and> tx s' = tx s @ [HOST_REPLY_BADCHKSUM]))"
proof -
  let ?s = "s\<lparr>rx := evs, rxBuf := (rxBuf s)[0 := p, 1 := p + HOST_CMD_BATTCTL]\<rparr>"
  have h: "hostCommand E HOST_CMD_BATTCTL s =
      (if t1 s > 9 then sendByte HOST_REPLY_BADCHKSUM ?s
       else element battCommands (uint p) ?s (\<lambda>c. ack E c SLAVE_ID_BATTSTAT))"
    using assms by (simp add: hostCommand_lookup(1) [OF command_lookup(23)] host_battctl_def receives_def wf_master_def
        chksum_sum take_Suc_conv_app_nth)
  have "12 \<le> p \<Longrightarrow> \<not> unat p < length battCommands"
    by (simp add: battCommands_def word_le_nat_alt)
  with h show ?thesis by (auto simp: element_byte sendByte_def)
qed

theorem battctl_tests_stale_value_witness:
  "hostCommand dead_bus HOST_CMD_BATTCTL (started () (map Byte [12, 12 + HOST_CMD_BATTCTL] @ [])) = Stop Out_of_bounds"
  using battctl_tests_stale_value [OF started_receives [of "()" "[12, 12 + HOST_CMD_BATTCTL]" "[]"],
      of dead_bus] by (simp add: started)

text \<open>
  \<^verbatim>\<open>HOST_CMD_THRUSTERS\<close> keeps the thruster number in a signed variable: when the USB link
  is lost while the master waits for it, the number is -1, passes the test against 11, and a
  matching checksum byte makes the code read \<^verbatim>\<open>tkCommands[-1]\<close>.
\<close>

theorem thrusters_lost_link:
  assumes "wf_master s" and "\<not> failsafeTripped s"
    and "rx s = map Byte tkSafety @ [Usb_pin False, No_data, Byte (sum_list tkSafety + HOST_CMD_THRUSTERS - 1)] @ evs"
  shows "hostCommand E HOST_CMD_THRUSTERS s = Stop Out_of_bounds"
proof -
  let ?cs = "sum_list tkSafety + HOST_CMD_THRUSTERS - 1"
  let ?buf = "overwrite 0 tkSafety (rxBuf s)"
  let ?s1 = "s\<lparr>rx := [Usb_pin False, No_data, Byte ?cs] @ evs, rxBuf := ?buf\<rparr>"
  have r: "recvRange E 0 5 s = Done () ?s1"
    by (rule recvRange_bytes) (use assms in \<open>simp_all add: tkSafety_def\<close>)
  have nth: "?buf ! i = tkSafety ! i" if "i < 5" for i
    using that assms(1) by (subst nth_overwrite) (simp_all add: tkSafety_def wf_master_def)
  then have "map ((!) ?buf) [0..<5] = tkSafety"
    by (intro nth_equalityI) (simp_all add: tkSafety_def)
  moreover have "\<not> (\<exists>i\<in>set [0..<5]. ?buf ! i \<noteq> tkSafety ! i)" using nth by simp
  moreover have "word_of_int (- 1 + uint HOST_CMD_THRUSTERS) = HOST_CMD_THRUSTERS - 1"
    by (simp add: codes)
  ultimately show ?thesis
    using assms(2) unfolding hostCommand_lookup(1) [OF command_lookup(21)] host_thrusters_def r on_Done Let_def
    by (simp add: waitT1_def waitchar_def ERR_NOUSB_def element_def add_diff_eq del: set_upt upt_conv_Cons)
qed

theorem thrusters_lost_link_witness:
  "hostCommand dead_bus HOST_CMD_THRUSTERS (started () (map Byte tkSafety
      @ [Usb_pin False, No_data, Byte (sum_list tkSafety + HOST_CMD_THRUSTERS - 1)] @ [])) = Stop Out_of_bounds"
  by (rule thrusters_lost_link) (simp_all add: started)

end
