(* ===== verification/Failsafe.thy ===== *)
theory Failsafe
  imports Safety
begin

text \<open>
  The motor failsafe, the messages on the LCD and the speeds told to the distribution board.
\<close>

section \<open>The motor failsafe\<close>

definition failsafe_stop :: "(byte \<times> byte) list" where
  "failsafe_stop =
     [(BUS_CMD_KILL_MOTORS, SLAVE_ID_MOTOR),
      (BUS_CMD_THRUSTER1_OFF, SLAVE_ID_THRUSTERS), (BUS_CMD_THRUSTER2_OFF, SLAVE_ID_THRUSTERS),
      (BUS_CMD_THRUSTER3_OFF, SLAVE_ID_THRUSTERS), (BUS_CMD_THRUSTER4_OFF, SLAVE_ID_THRUSTERS),
      (BUS_CMD_THRUSTER5_OFF, SLAVE_ID_THRUSTERS), (BUS_CMD_THRUSTER6_OFF, SLAVE_ID_THRUSTERS)]"

lemma waitLoop_idle:
  "usb s \<Longrightarrow> \<not> failsafeTripped s \<Longrightarrow> waitLoop E (replicate k No_data @ evs) s = waitLoop E evs s"
  by (induction k) simp_all

text \<open>
  Property C24.  When the failsafe timer runs out while the master waits for the host, however long
  it has waited, the next thing it does on the bus is to stop the motors and to switch off all six
  thrusters; it tries all seven transfers whatever their results, and the timer stays off.
\<close>

theorem failsafe_stops_motors:
  assumes "usb s" and "\<not> failsafeTripped s" and "TON (timer1 s)" and "TIE (timer1 s)"
    and "rx s = replicate k No_data @ T1_expired # No_data # evs"
  shows "\<exists>s1 s2. env s1 = env s \<and> drive_of s1 = drive_of s
    \<and> busWrites E failsafe_stop s1 = Done () s2 \<and> waitchar E s = waitLoop E evs s2
    \<and> \<not> failsafeTripped s2 \<and> \<not> TON (timer1 s2)"
proof -
  let ?s1 = "(T1Interrupt s)\<lparr>failsafeTripped := False\<rparr>"
  have w: "finishes (busWrites E ws t) (\<lambda>_ t'. failsafeTripped t' = failsafeTripped t \<and> timer1 t' = timer1 t)"
    for ws and t :: "'a master"
  proof (induction ws arbitrary: t)
    case (Cons w ws)
    obtain d r where w: "w = (d, r)" by (cases w)
    obtain a t' where "busWriteByte E d r t = Done a t'" "bus_only t t'"
      by (rule busWriteByte_cases [of E d r t])
    then show ?case using Cons.IH [of t'] by (simp add: w bus_only_def)
  qed simp
  obtain s2 where s2: "busWrites E failsafe_stop ?s1 = Done () s2" "\<not> failsafeTripped s2" "timer1 s2 = timer1 ?s1"
    using w [of failsafe_stop ?s1] by (auto simp: finishes_iff)
  have c: "checkFailsafe E (T1Interrupt s) = busWrites E failsafe_stop ?s1"
    by (simp add: checkFailsafe_def failsafe_stop_def T1Interrupt_def)
  have "waitchar E s = waitLoop E (T1_expired # No_data # evs) s"
    using assms(1,2,5) by (simp only: waitchar_def checkFailsafe_idle on_Done waitLoop_idle if_False simp_thms)
  also have "\<dots> = waitLoop E evs s2"
    using assms(1-4) s2(1) c by (simp add: T1Interrupt_def)
  finally show ?thesis
    using s2 by (intro exI [of _ ?s1] exI [of _ s2]) (simp add: T1Interrupt_def drive_of_def)
qed

theorem failsafe_stops_motors_witness:
  "\<exists>s2. waitchar dead_bus (setMotorFailsafe (started () [No_data, T1_expired, No_data, Byte 7])) = waitLoop dead_bus [Byte 7] s2
     \<and> \<not> TON (timer1 s2)"
  using failsafe_stops_motors [of "setMotorFailsafe (started () [No_data, T1_expired, No_data, Byte 7])" 1 "[Byte 7]" dead_bus]
  by (auto simp: setMotorFailsafe_def started startTimer_def)

text \<open>
  A speed packet restarts the failsafe before its checksum is looked at: a damaged
  one is refused and still keeps the motors running for another period.
\<close>

theorem damaged_speeds_feed_failsafe:
  assumes "receives s bs evs" and "length bs = 13" and "\<not> summed HOST_CMD_SETSPEED bs"
  shows "\<exists>s'. hostCommand E HOST_CMD_SETSPEED s = Done () s' \<and> tx s' = tx s @ [HOST_REPLY_BADCHKSUM]
    \<and> env s' = env s \<and> timer1 s' = startTimer 21972"
proof -
  have r: "recvRange E 0 13 (setMotorFailsafe s)
      = Done () ((setMotorFailsafe s)\<lparr>rx := evs, rxBuf := overwrite 0 bs (rxBuf s)\<rparr>)"
    using recvRange_bytes [of "setMotorFailsafe s" bs evs 13 E 0] assms by (simp add: setMotorFailsafe_def receives_def)
  have "chksum (overwrite 0 bs (rxBuf s)) 12 HOST_CMD_SETSPEED \<noteq> overwrite 0 bs (rxBuf s) ! 12"
    using assms chksum_overwrite [of bs 12 "rxBuf s"] by (simp add: summed_def receives_def wf_master_def eq_commute)
  then show ?thesis
    unfolding hostCommand_lookup(1) [OF command_lookup(29)] host_setspeed_def r on_Done
    by (simp add: sendByte_def setMotorFailsafe_def)
qed

theorem damaged_speeds_feed_failsafe_witness:
  "\<exists>s'. hostCommand dead_bus HOST_CMD_SETSPEED (started () (map Byte [0, 0, 0, 0, 0, 0, 0, 0, 0, 0, 0, 0, 0] @ [])) = Done () s'
     \<and> TON (timer1 s')"
proof -
  let ?bs = "[0, 0, 0, 0, 0, 0, 0, 0, 0, 0, 0, 0, 0]"
  have "\<not> summed HOST_CMD_SETSPEED ?bs" by (simp add: summed_def codes)
  then show ?thesis
    using damaged_speeds_feed_failsafe [OF started_receives [of "()" ?bs "[]"], of dead_bus]
    by (auto simp: startTimer_def)
qed

section \<open>The LCD and the distribution board\<close>

lemma busWrites_Cons: "busWrites E ((d, r) # ws) = (\<lambda>s. on (busWriteByte E d r s) (\<lambda>_. busWrites E ws))"
  by (rule ext) simp

lemma busWrites_Nil: "busWrites E [] = Done ()"
  by (rule ext) simp

lemma busWrites_append: "busWrites E (us @ ws) = (\<lambda>s. on (busWrites E us s) (\<lambda>_. busWrites E ws))"
proof (induction us)
  case Nil
  show ?case by (rule ext) simp
next
  case (Cons u us)
  then show ?case by (cases u) (simp add: busWrites_Cons del: busWrites.simps(2))
qed

lemma showChars_writes:
  assumes "\<And>c. c \<in> set str \<Longrightarrow> i + length str \<le> unat (c :: byte)"
  shows "showChars E line i (str @ [0]) s =
    busWrites E (concat (map (\<lambda>k. [(BUS_CMD_LCD_WRITE, SLAVE_ID_LCD), (of_nat (line * 16 + i + k), SLAVE_ID_LCD),
      (str ! k, SLAVE_ID_LCD)]) [0..<length str])) s"
  using assms
proof (induction str arbitrary: i s)
  case (Cons c str)
  have "i < unat c" using Cons.prems [of c] by simp
  moreover have "map f [0..<Suc n] = f 0 # map (\<lambda>k. f (Suc k)) [0..<n]" for f :: "nat \<Rightarrow> (byte \<times> byte) list" and n
    by (simp add: upt_conv_Cons map_Suc_upt [symmetric] comp_def del: upt_Suc)
  moreover have "showChars E line (Suc i) (str @ [0]) = busWrites E (concat (map (\<lambda>k.
      [(BUS_CMD_LCD_WRITE, SLAVE_ID_LCD), (of_nat (line * 16 + i + Suc k), SLAVE_ID_LCD), (str ! k, SLAVE_ID_LCD)])
      [0..<length str]))"
    using Cons.IH [of "Suc i"] Cons.prems by (intro ext) (simp add: add.assoc)
  ultimately show ?case by (simp add: busWrites_Cons add_ac del: upt_Suc busWrites.simps(2))
qed simp

text \<open>
  The odd loop condition \<^verbatim>\<open>i<str[i]!=0\<close> does no harm to the messages of the code: for a
  text of at most 32 printable characters \<^verbatim>\<open>showString\<close> writes every character to its place in the
  line and refreshes the display, and stops at the terminating zero.
\<close>

theorem showString_shows_all:
  assumes "length str \<le> 32" and "\<forall>c\<in>set str. (32 :: nat) \<le> of_char c"
  shows "showString E (cstr str) line s =
    busWrites E (concat (map (\<lambda>k. [(BUS_CMD_LCD_WRITE, SLAVE_ID_LCD), (of_nat (line * 16 + k), SLAVE_ID_LCD),
        (of_char (str ! k), SLAVE_ID_LCD)]) [0..<length str]) @ [(BUS_CMD_LCD_REFRESH, SLAVE_ID_LCD)]) s"
proof -
  have "unat (of_char c :: byte) = of_char c" if "c \<in> set str" for c
  proof -
    have "of_char c = (of_nat (of_char c) :: byte)" by (simp add: of_nat_of_char)
    moreover have "(of_char c :: nat) < 256" by simp
    ultimately show ?thesis by (simp add: unat_of_nat take_bit_eq_mod)
  qed
  then have "showChars E line 0 (map of_char str @ [0]) s =
    busWrites E (concat (map (\<lambda>k. [(BUS_CMD_LCD_WRITE, SLAVE_ID_LCD), (of_nat (line * 16 + 0 + k), SLAVE_ID_LCD),
      (map of_char str ! k, SLAVE_ID_LCD)]) [0..<length (map of_char str :: byte list)])) s"
    using assms by (intro showChars_writes) (auto intro: order_trans [of _ 32])
  moreover have "map (\<lambda>k. [(BUS_CMD_LCD_WRITE, SLAVE_ID_LCD), (of_nat (line * 16 + 0 + k), SLAVE_ID_LCD),
      (map of_char str ! k, SLAVE_ID_LCD)]) [0..<length (map of_char str :: byte list)]
    = map (\<lambda>k. [(BUS_CMD_LCD_WRITE, SLAVE_ID_LCD), (of_nat (line * 16 + k), SLAVE_ID_LCD),
        (of_char (str ! k), SLAVE_ID_LCD)]) [0..<length str]"
    by (rule map_cong) simp_all
  ultimately show ?thesis
    by (simp only: showString_def cstr_def busWrites_append) (simp add: busWrites_Cons busWrites_Nil del: busWrites.simps(2))
qed

theorem showString_shows_all_witness:
  "showString dead_bus (cstr ''OK'') 1 (started () []) =
     busWrites dead_bus [(BUS_CMD_LCD_WRITE, SLAVE_ID_LCD), (16, SLAVE_ID_LCD), (79, SLAVE_ID_LCD),
       (BUS_CMD_LCD_WRITE, SLAVE_ID_LCD), (17, SLAVE_ID_LCD), (75, SLAVE_ID_LCD),
       (BUS_CMD_LCD_REFRESH, SLAVE_ID_LCD)] (started () [])"
  using showString_shows_all [of "''OK''" dead_bus 1 "started () []"] by (simp add: upt_rec del: busWrites.simps)

text \<open>
  The byte told to the distribution board is half the magnitude of the speed, modulo
  256: right for magnitudes up to 511, and wrapping beyond.
\<close>

theorem distroSpeed_half: "uint (distroSpeed h l) = (\<bar>speed16 h l\<bar> div 2) mod 256"
proof -
  define w where "w = (word_cat h l :: word16)"
  have s: "sint w = speed16 h l" by (simp add: w_def speed16_def)
  define m where "m = (if w <s 0 then - w else w)"
  have "sint m div 2 mod 256 = (\<bar>sint w\<bar> div 2) mod 256"
  proof (cases "sint w = - 32768")
    case True
    moreover have "w = word_of_int (sint w)" by simp
    ultimately have "w = word_of_int (- 32768)" by (simp only:)
    then have "m = word_of_int (- 32768)" by (simp add: m_def)
    with True show ?thesis by simp
  next
    case False
    then have "sint (- w) = - sint w" if "sint w < 0"
      using that speed16_bounds [of h l] by (simp add: s [symmetric] sint_word_ariths signed_take_bit_int_eq_self)
    then show ?thesis by (auto simp: m_def word_sless_alt)
  qed
  moreover have "uint (ucast (signed_drop_bit 1 m) :: byte) = sint m div 2 mod 256"
  proof -
    have "ucast (signed_drop_bit 1 m) = (word_of_int (sint m div 2) :: byte)"
    proof -
      have "signed_drop_bit 1 m = word_of_int (sint (signed_drop_bit 1 m))" by simp
      then have "signed_drop_bit 1 m = word_of_int (sint m div 2)"
        by (simp only: sint_signed_drop_bit_eq drop_bit_eq_div power_one_right)
      then show ?thesis by (simp only:) (rule ucast_down_wi, simp add: is_down)
    qed
    then show ?thesis by (simp add: uint_word_of_int)
  qed
  ultimately show ?thesis
    by (simp add: distroSpeed_def chunk_eq Let_def w_def [symmetric] m_def [symmetric] s)
qed

end
