(* ===== verification/Driver.thy ===== *)
theory Driver
  imports Frames
begin

text \<open>
  The other end of the serial link: the driver \<^verbatim>\<open>sensorapi.c\<close> through which the vehicle's software talks
  to the sensor board.  Each function writes one packet and interprets what \<^verbatim>\<open>poll\<close> and \<^verbatim>\<open>read\<close> then
  deliver.  The operating system and the board behind it are an environment with a state of its own,
  so a \<^verbatim>\<open>read\<close> may time out, fail, or come back with fewer bytes than asked for.
\<close>

section \<open>The serial port\<close>

text \<open>
  \<^verbatim>\<open>write\<close>, \<^verbatim>\<open>poll\<close> for input with a timeout in ms, \<^verbatim>\<open>read\<close> (\<open>None\<close> is the result -1), and \<^verbatim>\<open>usleep\<close> in ms.
  \<open>junk\<close> is what an array holds that the code does not initialise.
\<close>

record 'p port_env =
  port_write :: "byte list \<Rightarrow> 'p \<Rightarrow> 'p"
  port_poll :: "nat \<Rightarrow> 'p \<Rightarrow> bool \<times> 'p"
  port_read :: "nat \<Rightarrow> 'p \<Rightarrow> byte list option \<times> 'p"
  port_sleep :: "nat \<Rightarrow> 'p \<Rightarrow> 'p"
  junk :: "nat \<Rightarrow> byte"

definition IO_TIMEOUT :: nat where "IO_TIMEOUT = 100"
definition MAX_SYNC_ATTEMPTS :: nat where "MAX_SYNC_ATTEMPTS = 20"
definition NUM_TEMP_SENSORS :: nat where "NUM_TEMP_SENSORS = 7"

definition SB_OK :: int where [codes]: "SB_OK = 0"
definition SB_UPDATEDONE :: int where [codes]: "SB_UPDATEDONE = 1"
definition SB_IOERROR :: int where [codes]: "SB_IOERROR = - 4"
definition SB_BADCC :: int where [codes]: "SB_BADCC = - 3"
definition SB_HWFAIL :: int where [codes]: "SB_HWFAIL = - 2"
definition SB_ERROR :: int where [codes]: "SB_ERROR = - 1"

definition hasData :: "'p port_env \<Rightarrow> nat \<Rightarrow> 'p \<Rightarrow> bool \<times> 'p" where
  "hasData P timeout p = port_poll P timeout p"

definition miniSleep :: "'p port_env \<Rightarrow> 'p \<Rightarrow> 'p" where
  "miniSleep P p = port_sleep P 20 p"

definition writeData :: "'p port_env \<Rightarrow> byte list \<Rightarrow> 'p \<Rightarrow> 'p" where
  "writeData P buf p = port_write P buf p"

text \<open>\<^verbatim>\<open>readData(fd, buf + off, n)\<close>.\<close>

definition readData :: "'p port_env \<Rightarrow> nat \<Rightarrow> nat \<Rightarrow> byte list \<Rightarrow> 'p \<Rightarrow> int \<times> byte list \<times> 'p" where
  "readData P off n buf p =
     (case hasData P IO_TIMEOUT p of (h, p) \<Rightarrow>
        if \<not> h then (SB_IOERROR, buf, p)
        else case port_read P n p of (r, p) \<Rightarrow>
          (case r of
             None \<Rightarrow> (-1, buf, p)
           | Some bs \<Rightarrow> (int (length (take n bs)), overwrite off (take n bs) buf, p)))"

text \<open>The packet \<open>buf\<close> is written and the first byte of the answer read over it; nobody looks at the result.\<close>

definition exchange :: "'p port_env \<Rightarrow> nat \<Rightarrow> byte list \<Rightarrow> 'p \<Rightarrow> byte list \<times> 'p" where
  "exchange P n buf p = (case readData P 0 1 buf (writeData P (take n buf) p) of (r, buf, p) \<Rightarrow> (buf, p))"

definition next_bytes :: "'p port_env \<Rightarrow> nat \<Rightarrow> nat \<Rightarrow> byte list \<Rightarrow> 'p \<Rightarrow> byte list \<times> 'p" where
  "next_bytes P off n buf p = (case readData P off n buf p of (r, buf, p) \<Rightarrow> (buf, p))"

definition ackCode :: "byte \<Rightarrow> int" where
  "ackCode b =
     (if b = 0xBC then SB_OK
      else if b = 0xCC then SB_BADCC
      else if b = 0xDF then SB_HWFAIL
      else SB_ERROR)"

text \<open>A packet that is only acknowledged.\<close>

definition acknowledged :: "'p port_env \<Rightarrow> byte list \<Rightarrow> 'p \<Rightarrow> int \<times> 'p" where
  "acknowledged P buf p = (case exchange P (length buf) buf p of (buf, p) \<Rightarrow> (ackCode (buf ! 0), p))"

section \<open>Synchronising\<close>

text \<open>\<^verbatim>\<open>while(hasData(fd, 0)) ...\<close>; \<open>None\<close> if the input never ends, \<open>Some False\<close> when a read fails.\<close>

partial_function (option) drain :: "'p port_env \<Rightarrow> 'p \<Rightarrow> (bool \<times> 'p) option" where
  "drain P p =
     (case hasData P 0 p of (h, p) \<Rightarrow>
        if \<not> h then Some (True, p)
        else case port_read P 1 p of (r, p) \<Rightarrow>
          (case r of
             None \<Rightarrow> Some (False, p)
           | Some bs \<Rightarrow> if length (take 1 bs) \<noteq> 1 then Some (False, p) else drain P p))"

definition syncAttempt :: "'p port_env \<Rightarrow> 'p \<Rightarrow> bool \<times> 'p" where
  "syncAttempt P p =
     (let p = miniSleep P (writeData P [0xFF] p);
          b = [0]
      in case hasData P IO_TIMEOUT p of (h, p) \<Rightarrow>
         (case (if h then next_bytes P 0 1 b p else (b, p)) of (b, p) \<Rightarrow>
          (case hasData P IO_TIMEOUT (miniSleep P p) of (h, p) \<Rightarrow> (\<not> h \<and> b ! 0 = 0xBC, p))))"

fun syncLoop :: "'p port_env \<Rightarrow> nat \<Rightarrow> 'p \<Rightarrow> int \<times> 'p" where
  "syncLoop P 0 p = (SB_ERROR, p)"
| "syncLoop P (Suc n) p =
     (case syncAttempt P p of (ok, p) \<Rightarrow> if ok then (SB_OK, p) else syncLoop P n p)"

definition syncBoard :: "'p port_env \<Rightarrow> 'p \<Rightarrow> (int \<times> 'p) option" where
  "syncBoard P p =
     (case drain P p of
        None \<Rightarrow> None
      | Some (ok, p) \<Rightarrow> Some (if ok then syncLoop P MAX_SYNC_ATTEMPTS p else (SB_ERROR, p)))"

definition pingBoard :: "'p port_env \<Rightarrow> 'p \<Rightarrow> int \<times> 'p" where
  "pingBoard P p =
     (case exchange P 2 [HOST_CMD_PING, HOST_CMD_PING] p of
        (buf, p) \<Rightarrow> (if buf ! 0 = 0xBC then SB_OK else SB_HWFAIL, p))"

definition checkBoard :: "'p port_env \<Rightarrow> 'p \<Rightarrow> int \<times> 'p" where
  "checkBoard P p =
     (case exchange P 2 [HOST_CMD_SYSCHECK, HOST_CMD_SYSCHECK] p of
        (buf, p) \<Rightarrow>
          (if buf ! 0 = 0xBC then SB_OK
           else if buf ! 0 = 0xDF then SB_HWFAIL
           else if buf ! 0 = 0xCC then SB_BADCC
           else SB_ERROR, p))"

section \<open>Reading values\<close>

text \<open>\<^verbatim>\<open>hi << 8 | lo\<close> on two bytes.\<close>

definition word_at :: "byte list \<Rightarrow> nat \<Rightarrow> int" where
  "word_at buf i = push_bit 8 (uint (buf ! i)) OR uint (buf ! Suc i)"

definition readDepth :: "'p port_env \<Rightarrow> 'p \<Rightarrow> int \<times> 'p" where
  "readDepth P p =
     (case exchange P 2 [HOST_CMD_DEPTH, HOST_CMD_DEPTH, 0, 0, 0] p of
        (buf, p) \<Rightarrow>
          if buf ! 0 \<noteq> HOST_REPLY_DEPTH then (SB_ERROR, p)
          else case next_bytes P 0 3 buf p of
                 (buf, p) \<Rightarrow> (if 0x03 + buf ! 0 + buf ! 1 = buf ! 2 then word_at buf 0 else SB_ERROR, p))"

definition simpleRead :: "'p port_env \<Rightarrow> byte \<Rightarrow> byte \<Rightarrow> 'p \<Rightarrow> int \<times> 'p" where
  "simpleRead P cmdCode replyCode p =
     (case exchange P 2 [cmdCode, cmdCode, junk P 2, junk P 3, junk P 4] p of
        (buf, p) \<Rightarrow>
          if buf ! 0 \<noteq> replyCode then (SB_ERROR, p)
          else case next_bytes P 0 2 buf p of
                 (buf, p) \<Rightarrow> (if replyCode + buf ! 0 = buf ! 1 then uint (buf ! 0) else SB_ERROR, p))"

definition readStatus :: "'p port_env \<Rightarrow> 'p \<Rightarrow> int \<times> 'p" where
  "readStatus P p =
     (case exchange P 2 [HOST_CMD_BOARDSTATUS, HOST_CMD_BOARDSTATUS, junk P 2, junk P 3] p of
        (buf, p) \<Rightarrow>
          if buf ! 0 \<noteq> HOST_REPLY_BOARDSTATUS then (SB_ERROR, p)
          else case next_bytes P 0 3 buf p of
                 (buf, p) \<Rightarrow>
                   (if buf ! 2 \<noteq> buf ! 0 + buf ! 1 + HOST_REPLY_BOARDSTATUS then SB_ERROR else word_at buf 0, p))"

definition readThrusterState :: "'p port_env \<Rightarrow> 'p \<Rightarrow> int \<times> 'p" where
  "readThrusterState P = simpleRead P HOST_CMD_THRUSTERSTATE HOST_REPLY_THRUSTERSTATE"

definition readBatteryEnables :: "'p port_env \<Rightarrow> 'p \<Rightarrow> int \<times> 'p" where
  "readBatteryEnables P = simpleRead P HOST_CMD_BATTSTATE HOST_REPLY_BATTSTATE"

definition readBatteryUsage :: "'p port_env \<Rightarrow> 'p \<Rightarrow> int \<times> 'p" where
  "readBatteryUsage P p = (case readStatus P p of (r, p) \<Rightarrow> (r AND 0x3F, p))"

definition readBarState :: "'p port_env \<Rightarrow> 'p \<Rightarrow> int \<times> 'p" where
  "readBarState P = simpleRead P HOST_CMD_BARSTATE HOST_REPLY_BARSTATE"

definition readOvrState :: "'p port_env \<Rightarrow> 'p \<Rightarrow> int \<times> 'p" where
  "readOvrState P = simpleRead P HOST_CMD_READ_OVR HOST_REPLY_OVR"

text \<open>The seven temperatures are an array of the caller.\<close>

definition readTemp :: "'p port_env \<Rightarrow> 'p \<Rightarrow> (int \<times> byte list) \<times> 'p" where
  "readTemp P p =
     (let tempData = replicate NUM_TEMP_SENSORS 0 in
      case exchange P 2 ([HOST_CMD_TEMPERATURE, HOST_CMD_TEMPERATURE] @ replicate 8 0) p of
        (buf, p) \<Rightarrow>
          if buf ! 0 \<noteq> 0x0B then ((SB_ERROR, tempData), p)
          else case next_bytes P 0 NUM_TEMP_SENSORS tempData p of
                 (tempData, p) \<Rightarrow>
                   (case next_bytes P 0 1 buf p of
                      (buf, p) \<Rightarrow>
                        ((if 0x0B + sum_list tempData = buf ! 0 then SB_OK else SB_ERROR, tempData), p)))"

section \<open>Sonar\<close>

record 'f sonarData =
  vectorX :: 'f
  vectorY :: 'f
  vectorZ :: 'f
  sonar_status :: byte
  sonar_range :: word16
  timeStampSec :: "32 word"
  timeStampUSec :: "32 word"
  pingerID :: byte

definition signed_word_at :: "byte list \<Rightarrow> nat \<Rightarrow> int" where
  "signed_word_at buf i = sint (word_of_int (word_at buf i) :: word16)"

definition word32_at :: "byte list \<Rightarrow> nat \<Rightarrow> 32 word" where
  "word32_at buf i = push_bit 24 (ucast (buf ! i)) OR push_bit 16 (ucast (buf ! (i + 1)))
     OR push_bit 8 (ucast (buf ! (i + 2))) OR ucast (buf ! (i + 3))"

text \<open>
  \<open>tenthous\<close> is the division by 10000.0 of the host's floating point.  The checksum inside the packet and
  the bytes that must be zero only lead to messages on the console.  \<open>None\<close> is the null pointer.
\<close>

definition getSonarData :: "'p port_env \<Rightarrow> (int \<Rightarrow> 'f) \<Rightarrow> 'f sonarData option \<Rightarrow> 'p \<Rightarrow> (int \<times> 'f sonarData option) \<times> 'p" where
  "getSonarData P tenthous sd p =
     (case sd of
        None \<Rightarrow> ((-1, None), p)
      | Some d \<Rightarrow>
          (case exchange P 2 ([HOST_CMD_SONAR, HOST_CMD_SONAR] @ replicate 20 0) p of
             (buf, p) \<Rightarrow>
               if buf ! 0 \<noteq> 0x0E then ((SB_ERROR, sd), p)
               else case next_bytes P 0 22 (replicate 22 0) p of
                      (rawSonar, p) \<Rightarrow>
                        (case next_bytes P 0 1 buf p of
                           (buf, p) \<Rightarrow>
                             if 0x0E + sum_list rawSonar \<noteq> buf ! 0 then ((SB_ERROR, sd), p)
                             else ((SB_OK, Some (d\<lparr>
                                 vectorX := tenthous (signed_word_at rawSonar 1),
                                 vectorY := tenthous (signed_word_at rawSonar 3),
                                 sonar_status := rawSonar ! 5,
                                 vectorZ := tenthous (signed_word_at rawSonar 7),
                                 sonar_range := word_of_int (word_at rawSonar 9),
                                 timeStampSec := word32_at rawSonar 12,
                                 timeStampUSec := word32_at rawSonar 17,
                                 pingerID := 0\<rparr>)), p))))"

section \<open>Commands that are only acknowledged\<close>

definition hardKill :: "'p port_env \<Rightarrow> 'p \<Rightarrow> int \<times> 'p" where
  "hardKill P = acknowledged P [0x06, 0xDE, 0xAD, 0xBE, 0xEF, 0x3E]"

text \<open>\<^verbatim>\<open>buf[1] = param\<close> keeps the low byte of the parameter.\<close>

definition simpleWrite :: "'p port_env \<Rightarrow> byte \<Rightarrow> int \<Rightarrow> int \<Rightarrow> 'p \<Rightarrow> int \<times> 'p" where
  "simpleWrite P cmdCode arg limit p =
     (if arg < 0 \<or> arg > limit then (-255, p)
      else acknowledged P [cmdCode, word_of_int arg, word_of_int (uint cmdCode + arg)] p)"

definition resetBlackfin :: "'p port_env \<Rightarrow> 'p \<Rightarrow> int \<times> 'p" where
  "resetBlackfin P = acknowledged P [HOST_CMD_BFRESET, HOST_CMD_BFRESET]"

definition startBlackfin :: "'p port_env \<Rightarrow> 'p \<Rightarrow> int \<times> 'p" where
  "startBlackfin P = simpleWrite P HOST_CMD_BFIN_STATE 1 2"

definition stopBlackfin :: "'p port_env \<Rightarrow> 'p \<Rightarrow> int \<times> 'p" where
  "stopBlackfin P = simpleWrite P HOST_CMD_BFIN_STATE 0 2"

definition switchToExternalPower :: "'p port_env \<Rightarrow> 'p \<Rightarrow> int \<times> 'p" where
  "switchToExternalPower P = simpleWrite P HOST_CMD_SWITCHPOWER 1 2"

definition switchToInternalPower :: "'p port_env \<Rightarrow> 'p \<Rightarrow> int \<times> 'p" where
  "switchToInternalPower P = simpleWrite P HOST_CMD_SWITCHPOWER 0 2"

definition setBatteryState :: "'p port_env \<Rightarrow> int \<Rightarrow> 'p \<Rightarrow> int \<times> 'p" where
  "setBatteryState P state = simpleWrite P HOST_CMD_BATTCTL state 10"

definition api_dropMarker :: "'p port_env \<Rightarrow> int \<Rightarrow> 'p \<Rightarrow> int \<times> 'p" where
  "api_dropMarker P markerNum = simpleWrite P HOST_CMD_MARKER markerNum 2"

definition lcdBacklight :: "'p port_env \<Rightarrow> int \<Rightarrow> 'p \<Rightarrow> int \<times> 'p" where
  "lcdBacklight P state = simpleWrite P HOST_CMD_BACKLIGHT state 3"

definition setThrusterSafety :: "'p port_env \<Rightarrow> int \<Rightarrow> 'p \<Rightarrow> int \<times> 'p" where
  "setThrusterSafety P state p =
     (if state < 0 \<or> state > 11 then (-255, p)
      else let buf = [0x09, 0xB1, 0xD0, 0x23, 0x7A, 0x69, word_of_int state];
               buf = buf @ [sum_list buf]
           in acknowledged P buf (if state > 5 then port_sleep P 300 p else p))"

definition setBarState :: "'p port_env \<Rightarrow> int \<Rightarrow> 'p \<Rightarrow> int \<times> 'p" where
  "setBarState P state = simpleWrite P HOST_CMD_BARS state 16"

definition setAnimation :: "'p port_env \<Rightarrow> int \<Rightarrow> 'p \<Rightarrow> int \<times> 'p" where
  "setAnimation P anim = simpleWrite P HOST_CMD_BARANIMATION anim 3"

definition setBarOutputs :: "'p port_env \<Rightarrow> int \<Rightarrow> 'p \<Rightarrow> int \<times> 'p" where
  "setBarOutputs P bars = simpleWrite P HOST_CMD_SET_BARS bars 256"

text \<open>The text is a C string, \<open>None\<close> the null pointer: 16 characters of it, filled up with blanks.\<close>

definition displayText :: "'p port_env \<Rightarrow> int \<Rightarrow> byte list option \<Rightarrow> 'p \<Rightarrow> int \<times> 'p" where
  "displayText P row text p =
     (if row \<noteq> 0 \<and> row \<noteq> 1 then (-255, p)
      else case text of
             None \<Rightarrow> (0, p)
           | Some str \<Rightarrow>
               let buf = [0x0C, word_of_int row] @ overwrite 0 (take 16 (takeWhile (\<lambda>c. c \<noteq> 0) str)) (replicate 16 32)
               in acknowledged P (buf @ [sum_list buf]) p)"

text \<open>\<^verbatim>\<open>buf[1] = (s1 >> 8); buf[2] = (s1 & 0xFF);\<close>\<close>

definition bigEndian :: "int \<Rightarrow> byte list" where
  "bigEndian s = [word_of_int (drop_bit 8 s), word_of_int (s AND 0xFF)]"

definition setSpeeds :: "'p port_env \<Rightarrow> int \<Rightarrow> int \<Rightarrow> int \<Rightarrow> int \<Rightarrow> int \<Rightarrow> int \<Rightarrow> 'p \<Rightarrow> int \<times> 'p" where
  "setSpeeds P s1 s2 s3 s4 s5 s6 p =
     (let buf = [HOST_CMD_SETSPEED] @ bigEndian s1 @ bigEndian s2 @ bigEndian s3 @ bigEndian s4 @ bigEndian s5 @ bigEndian s6
      in acknowledged P (buf @ [sum_list buf]) p)"

definition readSpeedResponses :: "'p port_env \<Rightarrow> 'p \<Rightarrow> int \<times> 'p" where
  "readSpeedResponses P p =
     (case exchange P 2 ([0x13, 0x13] @ replicate 6 0) p of
        (buf, p) \<Rightarrow>
          if buf ! 0 \<noteq> 0x14 then (SB_ERROR, p)
          else case next_bytes P 1 7 buf p of
                 (buf, p) \<Rightarrow>
                   (if sum_list (take 7 buf) \<noteq> buf ! 7 then SB_ERROR
                    else if list_ex (\<lambda>b. b \<noteq> 0x06) (take 6 (drop 1 buf)) then SB_ERROR
                    else SB_OK, p))"

definition setDiagnostics :: "'p port_env \<Rightarrow> int \<Rightarrow> 'p \<Rightarrow> int \<times> 'p" where
  "setDiagnostics P state = simpleWrite P HOST_CMD_RUNTIMEDIAG state 2"

section \<open>Power\<close>

record 'f powerInfo =
  motorCurrents :: "'f list"
  info_v12VBus :: 'f
  info_v5VBus :: 'f
  info_i12VBus :: 'f
  info_i5VBus :: 'f
  info_iAux :: 'f
  v26VBus :: 'f
  battVoltages :: "'f list"
  battCurrents :: "'f list"

text \<open>
  What the four functions share: the answer has the code \<open>reply\<close>, \<open>n\<close> bytes of data and their
  checksum.  The code keeps the answer in \<open>buf\<close>; \<open>Inl\<close> is the return value of a failure.
\<close>

definition readBlock :: "'p port_env \<Rightarrow> nat \<Rightarrow> byte \<Rightarrow> byte \<Rightarrow> nat \<Rightarrow> 'p \<Rightarrow> (int + byte list) \<times> 'p" where
  "readBlock P len cmd reply n p =
     (case exchange P 2 ([cmd, cmd] @ replicate (len - 2) 0) p of
        (buf, p) \<Rightarrow>
          if buf ! 0 \<noteq> reply
          then (Inl (if buf ! 0 = 0xCC then SB_BADCC else if buf ! 0 = 0xDF then SB_HWFAIL else SB_ERROR), p)
          else case next_bytes P 1 (n + 1) buf p of
                 (buf, p) \<Rightarrow> (if sum_list (take (n + 1) buf) \<noteq> buf ! (n + 1) then Inl SB_BADCC else Inr buf, p))"

text \<open>\<open>thous\<close> is the division by 1000.0.  A null pointer is \<open>None\<close>.\<close>

definition readMotorCurrents :: "'p port_env \<Rightarrow> (int \<Rightarrow> 'f) \<Rightarrow> 'f powerInfo option \<Rightarrow> 'p \<Rightarrow> (int \<times> 'f powerInfo option) \<times> 'p" where
  "readMotorCurrents P thous info p =
     (case info of
        None \<Rightarrow> ((SB_ERROR, None), p)
      | Some w \<Rightarrow>
          (case readBlock P 20 HOST_CMD_IMOTOR HOST_REPLY_IMOTOR 16 p of
             (Inl e, p) \<Rightarrow> ((e, info), p)
           | (Inr buf, p) \<Rightarrow>
               ((SB_OK, Some (w\<lparr>motorCurrents := map (\<lambda>i. thous (word_at buf (i * 2 + 1))) [0..<8]\<rparr>)), p)))"

definition readBoardVoltages :: "'p port_env \<Rightarrow> (int \<Rightarrow> 'f) \<Rightarrow> 'f powerInfo option \<Rightarrow> 'p \<Rightarrow> (int \<times> 'f powerInfo option) \<times> 'p" where
  "readBoardVoltages P thous info p =
     (case info of
        None \<Rightarrow> ((SB_ERROR, None), p)
      | Some w \<Rightarrow>
          (case readBlock P 20 HOST_CMD_VLOW HOST_REPLY_VLOW 10 p of
             (Inl e, p) \<Rightarrow> ((e, info), p)
           | (Inr buf, p) \<Rightarrow>
               ((SB_OK, Some (w\<lparr>info_v5VBus := thous (word_at buf 1),
                   info_i5VBus := thous (word_at buf 3),
                   info_v12VBus := thous (word_at buf 5),
                   info_i12VBus := thous (word_at buf 7),
                   info_iAux := thous (word_at buf 9)\<rparr>)), p)))"

definition readBatteryVoltages :: "'p port_env \<Rightarrow> (int \<Rightarrow> 'f) \<Rightarrow> 'f powerInfo option \<Rightarrow> 'p \<Rightarrow> (int \<times> 'f powerInfo option) \<times> 'p" where
  "readBatteryVoltages P thous info p =
     (case info of
        None \<Rightarrow> ((SB_ERROR, None), p)
      | Some w \<Rightarrow>
          (case readBlock P 18 HOST_CMD_BATTVOLTAGE HOST_REPLY_BATTVOLTAGE 14 p of
             (Inl e, p) \<Rightarrow> ((e, info), p)
           | (Inr buf, p) \<Rightarrow>
               ((SB_OK, Some (w\<lparr>battVoltages := map (\<lambda>i. thous (word_at buf (i * 2 + 1))) [0..<6],
                   v26VBus := thous (word_at buf 13)\<rparr>)), p)))"

definition readBatteryCurrents :: "'p port_env \<Rightarrow> (int \<Rightarrow> 'f) \<Rightarrow> 'f powerInfo option \<Rightarrow> 'p \<Rightarrow> (int \<times> 'f powerInfo option) \<times> 'p" where
  "readBatteryCurrents P thous info p =
     (case info of
        None \<Rightarrow> ((SB_ERROR, None), p)
      | Some w \<Rightarrow>
          (case readBlock P 14 HOST_CMD_BATTCURRENT HOST_REPLY_BATTCURRENT 12 p of
             (Inl e, p) \<Rightarrow> ((e, info), p)
           | (Inr buf, p) \<Rightarrow>
               ((SB_OK, Some (w\<lparr>battCurrents := map (\<lambda>i. thous (word_at buf (i * 2 + 1))) [0..<6]\<rparr>)), p)))"

section \<open>Overcurrent limits\<close>

text \<open>The two results are written through pointers, only on success.\<close>

definition readOvrParams :: "'p port_env \<Rightarrow> 'p \<Rightarrow> (int \<times> (int \<times> int) option) \<times> 'p" where
  "readOvrParams P p =
     (case exchange P 2 [HOST_CMD_READ_OVRLIMIT, HOST_CMD_READ_OVRLIMIT, junk P 2, junk P 3] p of
        (buf, p) \<Rightarrow>
          if buf ! 0 \<noteq> HOST_REPLY_OVRLIMIT then ((SB_ERROR, None), p)
          else case next_bytes P 1 3 buf p of
                 (buf, p) \<Rightarrow>
                   (if buf ! 0 + buf ! 1 + buf ! 2 \<noteq> buf ! 3 then (SB_BADCC, None)
                    else (SB_OK, Some (uint (buf ! 1), uint (buf ! 2))), p))"

definition setOvrParams :: "'p port_env \<Rightarrow> int \<Rightarrow> int \<Rightarrow> 'p \<Rightarrow> int \<times> 'p" where
  "setOvrParams P a b p =
     (if a < 0 \<or> a > 255 \<or> b < 0 \<or> b > 255 then (-255, p)
      else let buf = [HOST_CMD_SET_OVRLIMIT, word_of_int a, word_of_int b]
           in acknowledged P (buf @ [buf ! 0 + buf ! 1 + buf ! 2]) p)"

section \<open>Switches\<close>

text \<open>A command without a parameter: its code twice.\<close>

definition DVLOn :: "'p port_env \<Rightarrow> byte \<Rightarrow> 'p \<Rightarrow> int \<times> 'p" where
  "DVLOn P switch = (let c = (if switch \<noteq> 0 then HOST_CMD_DVL_ON else HOST_CMD_DVL_OFF) in acknowledged P [c, c])"

definition fireTorpedo :: "'p port_env \<Rightarrow> byte \<Rightarrow> 'p \<Rightarrow> int \<times> 'p" where
  "fireTorpedo P torpnum p =
     (if torpnum = 1 then acknowledged P [HOST_CMD_FIRE_TORP_1, HOST_CMD_FIRE_TORP_1] p
      else if torpnum = 2 then acknowledged P [HOST_CMD_FIRE_TORP_2, HOST_CMD_FIRE_TORP_2] p
      else (SB_ERROR, p))"

definition voidTorpedo :: "'p port_env \<Rightarrow> byte \<Rightarrow> 'p \<Rightarrow> int \<times> 'p" where
  "voidTorpedo P torpnum p =
     (if torpnum = 1 then acknowledged P [HOST_CMD_VOID_TORP_1, HOST_CMD_VOID_TORP_1] p
      else if torpnum = 2 then acknowledged P [HOST_CMD_VOID_TORP_2, HOST_CMD_VOID_TORP_2] p
      else (SB_ERROR, p))"

definition armTorpedo :: "'p port_env \<Rightarrow> byte \<Rightarrow> 'p \<Rightarrow> int \<times> 'p" where
  "armTorpedo P torpnum p =
     (if torpnum = 1 then acknowledged P [HOST_CMD_ARM_TORP_1, HOST_CMD_ARM_TORP_1] p
      else if torpnum = 2 then acknowledged P [HOST_CMD_ARM_TORP_2, HOST_CMD_ARM_TORP_2] p
      else (SB_ERROR, p))"

definition extendGrabber :: "'p port_env \<Rightarrow> 'p \<Rightarrow> int \<times> 'p" where
  "extendGrabber P = acknowledged P [HOST_CMD_EXT_GRABBER, HOST_CMD_EXT_GRABBER]"

definition retractGrabber :: "'p port_env \<Rightarrow> 'p \<Rightarrow> int \<times> 'p" where
  "retractGrabber P = acknowledged P [HOST_CMD_RET_GRABBER, HOST_CMD_RET_GRABBER]"

definition voidGrabber :: "'p port_env \<Rightarrow> 'p \<Rightarrow> int \<times> 'p" where
  "voidGrabber P = acknowledged P [HOST_CMD_VOID_GRABBER, HOST_CMD_VOID_GRABBER]"

definition voidSystem :: "'p port_env \<Rightarrow> 'p \<Rightarrow> int \<times> 'p" where
  "voidSystem P = acknowledged P [HOST_CMD_VOID_PNEU, HOST_CMD_VOID_PNEU]"

definition pneumaticsOff :: "'p port_env \<Rightarrow> 'p \<Rightarrow> int \<times> 'p" where
  "pneumaticsOff P = acknowledged P [HOST_CMD_OFF_PNEU, HOST_CMD_OFF_PNEU]"

definition setDerpyPower :: "'p port_env \<Rightarrow> byte \<Rightarrow> 'p \<Rightarrow> int \<times> 'p" where
  "setDerpyPower P switch = (let c = (if switch = 1 then HOST_CMD_DERPY_ON else HOST_CMD_DERPY_OFF) in acknowledged P [c, c])"

definition setDerpySpeed :: "'p port_env \<Rightarrow> int \<Rightarrow> 'p \<Rightarrow> int \<times> 'p" where
  "setDerpySpeed P speed =
     (let buf = [HOST_CMD_SET_DERPY] @ bigEndian speed @ map of_char ''DERP'' in acknowledged P (buf @ [sum_list buf]))"

definition stopDerpy :: "'p port_env \<Rightarrow> 'p \<Rightarrow> int \<times> 'p" where
  "stopDerpy P = acknowledged P [HOST_CMD_STOP_DERPY, HOST_CMD_STOP_DERPY]"

definition camConnect :: "'p port_env \<Rightarrow> 'p \<Rightarrow> int \<times> 'p" where
  "camConnect P = acknowledged P [HOST_CMD_CAM_RELAY_ON, HOST_CMD_CAM_RELAY_ON]"

definition camDisconnect :: "'p port_env \<Rightarrow> 'p \<Rightarrow> int \<times> 'p" where
  "camDisconnect P = acknowledged P [HOST_CMD_CAM_RELAY_OFF, HOST_CMD_CAM_RELAY_OFF]"

text \<open>Commands that were removed.\<close>

definition setServoPower :: "byte \<Rightarrow> int" where "setServoPower switch = SB_ERROR"
definition setMagPower :: "byte \<Rightarrow> int" where "setMagPower switch = SB_ERROR"
definition setServoEnable :: "byte \<Rightarrow> int" where "setServoEnable servoMask = SB_ERROR"
definition setServoPosition :: "byte \<Rightarrow> word16 \<Rightarrow> int" where "setServoPosition servoNumber position = SB_ERROR"

text \<open>\<open>None\<close> is an access beyond the table; \<^verbatim>\<open>sizeof(toText)\<close> is 28 or 56 bytes, not 7 entries.\<close>

definition sbErrorToText :: "int \<Rightarrow> string" where
  "sbErrorToText ret =
     (if -4 \<le> ret \<and> ret \<le> 0 then [''IO error'', ''Bad CRC'', ''Hardware failure'', ''Error'', ''OK''] ! nat (ret + 4)
      else ''Unknown'')"

definition tempSensorIDToText :: "nat \<Rightarrow> int \<Rightarrow> string option" where
  "tempSensorIDToText pointer_size sensor =
     (let toText = [''Sensor Board'', ''Unused'', ''Unused'', ''Unused'', ''Unused'', ''Distro Board'', ''Balancer Board'']
      in if 0 \<le> sensor \<and> sensor \<le> int (length toText * pointer_size)
         then if nat sensor < length toText then Some (toText ! nat sensor) else None
         else Some ''ERROR: Id out of range'')"

section \<open>The update cycle\<close>

record 'f boardInfo =
  updateState :: "32 word"
  info_status :: int
  info_thrusterState :: int
  info_barState :: int
  info_ovrState :: int
  info_battEnabled :: int
  info_battUsed :: int
  info_power :: "'f powerInfo"
  info_temperature :: "byte list"
  info_sonar :: "'f sonarData"

definition END_OF_UPDATES :: "32 word" where [codes]: "END_OF_UPDATES = 13"

text \<open>
  \<^verbatim>\<open>switch(info->updateState)\<close>: the value of \<^verbatim>\<open>retCode\<close> and the structure after one update; \<open>None\<close> is the
  default case.  The functions of the driver write to parts of the structure.
\<close>

definition updateOne :: "'p port_env \<Rightarrow> (int \<Rightarrow> 'f) \<Rightarrow> (int \<Rightarrow> 'f) \<Rightarrow> 'f boardInfo \<Rightarrow> 'p \<Rightarrow> (int \<times> 'f boardInfo) option \<times> 'p" where
  "updateOne P thous tenthous info p =
     (let u = updateState info;
          store = (\<lambda>f (r, p). (Some (r, f r), p));
          measure_into = (\<lambda>f. case f P thous (Some (info_power info)) p of
                         ((r, w), p) \<Rightarrow> (Some (r, info\<lparr>info_power := the w\<rparr>), p))
      in if u = 1 then store (\<lambda>r. info\<lparr>info_status := r\<rparr>) (readStatus P p)
         else if u = 2 then store (\<lambda>r. info\<lparr>info_thrusterState := r\<rparr>) (readThrusterState P p)
         else if u = 3 then store (\<lambda>r. info\<lparr>info_barState := r\<rparr>) (readBarState P p)
         else if u = 4 then store (\<lambda>r. info\<lparr>info_ovrState := r\<rparr>) (readOvrState P p)
         else if u = 5 then store (\<lambda>r. info\<lparr>info_battEnabled := r\<rparr>) (readBatteryEnables P p)
         else if u = 6 then (case readTemp P p of ((r, ts), p) \<Rightarrow> (Some (r, info\<lparr>info_temperature := ts\<rparr>), p))
         else if u = 7 then measure_into readMotorCurrents
         else if u = 8 then measure_into readBoardVoltages
         else if u = 9 then measure_into readBatteryVoltages
         else if u = 10 then measure_into readBatteryCurrents
         else if u = 11 then store (\<lambda>r. info\<lparr>info_battUsed := r\<rparr>) (readBatteryUsage P p)
         else if u = 12 then (case getSonarData P tenthous (Some (info_sonar info)) p of
                                ((r, d), p) \<Rightarrow> (Some (r, info\<lparr>info_sonar := the d\<rparr>), p))
         else (None, p))"

definition partialRead :: "'p port_env \<Rightarrow> (int \<Rightarrow> 'f) \<Rightarrow> (int \<Rightarrow> 'f) \<Rightarrow> 'f boardInfo option \<Rightarrow> 'p \<Rightarrow> (int \<times> 'f boardInfo option) \<times> 'p" where
  "partialRead P thous tenthous info p =
     (case info of
        None \<Rightarrow> ((SB_ERROR, None), p)
      | Some i \<Rightarrow>
          let i = i\<lparr>updateState := updateState i + 1\<rparr>;
              i = (if updateState i = END_OF_UPDATES then i\<lparr>updateState := 1\<rparr> else i)
          in case updateOne P thous tenthous i p of
               (None, p) \<Rightarrow> ((SB_OK, Some (i\<lparr>updateState := 1\<rparr>)), p)
             | (Some (retCode, i), p) \<Rightarrow>
                 ((if updateState i = END_OF_UPDATES - 1
                   then if retCode \<ge> 0 then SB_UPDATEDONE else retCode
                   else if retCode < 0 then retCode else SB_OK, Some i), p))"

end
