(* ===== verification/Slave.thy ===== *)
theory Slave
  imports MasterBus
begin

text \<open>
  The slave side of the bus.  Every slave (\<^verbatim>\<open>ic2.c\<close>, \<^verbatim>\<open>ic3.c\<close>, \<^verbatim>\<open>ic4.c\<close>, \<^verbatim>\<open>distro.c\<close>, \<^verbatim>\<open>balancer.c\<close>,
  \<^verbatim>\<open>motor.c\<close>, ...) holds the same copy of \<^verbatim>\<open>checkBus\<close>; here it is a state machine around a chip, which
  says what \<^verbatim>\<open>processData\<close> and \<^verbatim>\<open>txBuf[txPtr++]\<close> do.  The seven slaves, the lines between them and
  the master, and a schedule that says which of them make progress between two samples of the
  master, form an environment for the master.
\<close>

section \<open>One slave\<close>

text \<open>
  \<open>process\<close> is \<^verbatim>\<open>processData\<close>, \<open>next_tx\<close> is \<^verbatim>\<open>txBuf[txPtr++]\<close>; \<open>None\<close> is an access out of bounds.
\<close>

record 'd chip =
  process :: "byte \<Rightarrow> 'd \<Rightarrow> 'd option"
  next_tx :: "'d \<Rightarrow> (byte \<times> 'd) option"

text \<open>A sequence of bytes from the master.\<close>

fun process_all :: "'d chip \<Rightarrow> byte list \<Rightarrow> 'd \<Rightarrow> 'd option" where
  "process_all ch [] d = Some d"
| "process_all ch (b # bs) d = (case process ch b d of None \<Rightarrow> None | Some d' \<Rightarrow> process_all ch bs d')"

lemma process_all_append:
  "process_all ch (xs @ ys) d = (case process_all ch xs d of None \<Rightarrow> None | Some d' \<Rightarrow> process_all ch ys d')"
  by (induction xs arbitrary: d) (simp_all split: option.split)

text \<open>The next \<open>n\<close> bytes a slave would give.\<close>

fun draw :: "'d chip \<Rightarrow> nat \<Rightarrow> 'd \<Rightarrow> (byte list \<times> 'd) option" where
  "draw ch 0 d = Some ([], d)"
| "draw ch (Suc n) d =
     (case next_tx ch d of
        None \<Rightarrow> None
      | Some (b, d) \<Rightarrow> (case draw ch n d of None \<Rightarrow> None | Some (bs, d) \<Rightarrow> Some (b # bs, d)))"

text \<open>A block: a length byte and as many bytes.\<close>

definition draw_block :: "'d chip \<Rightarrow> 'd \<Rightarrow> (byte list \<times> 'd) option" where
  "draw_block ch d =
     (case next_tx ch d of None \<Rightarrow> None | Some (n, d) \<Rightarrow> draw ch (unat n) d)"

lemma draw_length: "draw ch n d = Some (bs, d') \<Longrightarrow> length bs = n"
  by (induction n arbitrary: d bs) (auto split: option.splits)

text \<open>
  Where the code of \<^verbatim>\<open>checkBus\<close> is: before a request; in \<^verbatim>\<open>while(IN_REQ);\<close> of the branch that takes a
  byte, or of the one that gives a byte; in the call of \<^verbatim>\<open>processData\<close>; or beyond an array.
\<close>

datatype pc = Idle | Acked_write byte | Processing byte | Acked_read | Crashed

text \<open>\<open>bus_out\<close> is what the slave drives on the eight lines, if it has taken them.\<close>

record 'd slave =
  pc :: pc
  LAT_AKN :: bool
  TRIS_AKN :: bool
  bus_out :: "byte option"
  dev :: 'd

definition slave_akn :: "'d slave \<Rightarrow> bool" where
  "slave_akn sl \<longleftrightarrow> TRIS_AKN sl = TRIS_OUT \<and> LAT_AKN sl"

definition checkBus :: "'d chip \<Rightarrow> bool \<Rightarrow> bool \<Rightarrow> byte \<Rightarrow> 'd slave \<Rightarrow> 'd slave" where
  "checkBus ch req rw lines sl =
     (case pc sl of
        Idle \<Rightarrow>
          if \<not> req then sl
          else if rw = RW_WRITE
          then sl\<lparr>LAT_AKN := True, TRIS_AKN := TRIS_OUT, pc := Acked_write lines\<rparr>
          else (case next_tx ch (dev sl) of
                  None \<Rightarrow> sl\<lparr>pc := Crashed\<rparr>
                | Some (b, d) \<Rightarrow> sl\<lparr>dev := d, bus_out := Some b, LAT_AKN := True, TRIS_AKN := TRIS_OUT,
                                   pc := Acked_read\<rparr>)
      | Acked_write b \<Rightarrow> if req then sl else sl\<lparr>TRIS_AKN := TRIS_IN, pc := Processing b\<rparr>
      | Processing b \<Rightarrow>
          (case process ch b (dev sl) of
             None \<Rightarrow> sl\<lparr>pc := Crashed\<rparr>
           | Some d \<Rightarrow> sl\<lparr>dev := d, pc := Idle\<rparr>)
      | Acked_read \<Rightarrow> if req then sl else sl\<lparr>bus_out := None, TRIS_AKN := TRIS_IN, pc := Idle\<rparr>
      | Crashed \<Rightarrow> sl)"

text \<open>\<^verbatim>\<open>initBus\<close>: everything in high impedance, no request pending.\<close>

definition initBus :: "'d \<Rightarrow> 'd slave" where
  "initBus d = \<lparr>pc = Idle, LAT_AKN = False, TRIS_AKN = TRIS_IN, bus_out = None, dev = d\<rparr>"

section \<open>Seven slaves and the lines\<close>

text \<open>
  \<open>lines\<close> are the levels of the eight data lines after the last step; \<open>conflict\<close> remembers whether
  two chips have ever driven them at once.
\<close>

record 'd bus =
  slaves :: "nat \<Rightarrow> 'd slave"
  clock :: nat
  lines :: byte
  conflict :: bool

definition outputs :: "(nat \<Rightarrow> 'd slave) \<Rightarrow> byte list" where
  "outputs sl = List.map_filter (\<lambda>i. bus_out (sl i)) [0..<NUM_SLAVES]"

definition wires :: "drive \<Rightarrow> (nat \<Rightarrow> 'd slave) \<Rightarrow> byte" where
  "wires d sl = foldr (OR) (outputs sl) (d_data d)"

definition contention :: "drive \<Rightarrow> (nat \<Rightarrow> 'd slave) \<Rightarrow> bool" where
  "contention d sl \<longleftrightarrow> (if d_mask d \<noteq> 0 then 1 else 0) + length (outputs sl) > 1"

text \<open>
  One step: the slaves the schedule names run until their next poll; they see what the master
  drives.
\<close>

definition bus_step :: "(nat \<Rightarrow> 'd chip) \<Rightarrow> (nat \<Rightarrow> nat \<Rightarrow> bool) \<Rightarrow> drive \<Rightarrow> 'd bus \<Rightarrow> 'd bus" where
  "bus_step ch sched d e =
     (let before = slaves e;
          after = (\<lambda>i. if i < NUM_SLAVES \<and> sched (clock e) i
                       then checkBus (ch i) (d_req d i) (d_rw d) (wires d before) (before i)
                       else before i)
      in e\<lparr>slaves := after, clock := clock e + 1, lines := wires d after,
           conflict := (conflict e \<or> contention d before \<or> contention d after)\<rparr>)"

definition slave_bus :: "(nat \<Rightarrow> 'd chip) \<Rightarrow> (nat \<Rightarrow> nat \<Rightarrow> bool) \<Rightarrow> 'd bus bus_env" where
  "slave_bus ch sched =
     \<lparr>advance = bus_step ch sched,
      obs_akn = (\<lambda>e. list_ex (\<lambda>i. slave_akn (slaves e i)) [0..<NUM_SLAVES]),
      obs_portE = (\<lambda>e. ucast (lines e)),
      obs_rd0 = (\<lambda>e. bit (lines e) 6),
      obs_rd1 = (\<lambda>e. bit (lines e) 7)\<rparr>"

definition power_up :: "(nat \<Rightarrow> 'd) \<Rightarrow> 'd bus" where
  "power_up ds = \<lparr>slaves = (\<lambda>i. initBus (ds i)), clock = 0, lines = 0, conflict = False\<rparr>"

text \<open>
  A schedule that lets every slave run at least once in any 12000 samples: the two steps a
  request can need then come before the 25001 samples of a \<^verbatim>\<open>BUS_TIMEOUT\<close> loop are over.
\<close>

definition prompt :: "(nat \<Rightarrow> nat \<Rightarrow> bool) \<Rightarrow> bool" where
  "prompt sched \<longleftrightarrow> (\<forall>t i. \<exists>k<12000. sched (t + k) i)"

section \<open>Slaves at rest\<close>

definition calm :: "'d chip \<Rightarrow> 'd slave \<Rightarrow> bool" where
  "calm ch sl \<longleftrightarrow> TRIS_AKN sl = TRIS_IN \<and> bus_out sl = None
     \<and> (pc sl = Idle \<or> (\<exists>b. pc sl = Processing b \<and> process ch b (dev sl) \<noteq> None))"

text \<open>The state of the chip once a pending \<^verbatim>\<open>processData\<close> is done.\<close>

definition soon :: "'d chip \<Rightarrow> 'd slave \<Rightarrow> 'd" where
  "soon ch sl = (case pc sl of Processing b \<Rightarrow> the (process ch b (dev sl)) | _ \<Rightarrow> dev sl)"

lemma calm_step:
  assumes "calm ch sl"
  shows "calm ch (checkBus ch False rw l sl)" and "soon ch (checkBus ch False rw l sl) = soon ch sl"
  using assms by (auto simp: calm_def soon_def checkBus_def)

lemma calm_akn [simp]: "calm ch sl \<Longrightarrow> \<not> slave_akn sl"
  by (simp add: calm_def slave_akn_def codes)

end
