(* ===== verification/SlaveBus.thy ===== *)
theory SlaveBus
  imports Slave
begin

text \<open>
  The handshake of the master with the slaves under a prompt schedule: a request is acknowledged
  before the master gives up, exactly one chip drives the data lines at any time, and what the one
  side sends is what the other side takes.
\<close>

section \<open>The polling loops seen from the environment\<close>

fun polls :: "'e bus_env \<Rightarrow> drive \<Rightarrow> bool \<Rightarrow> nat \<Rightarrow> 'e \<Rightarrow> bool \<times> 'e" where
  "polls E D level n e =
     (let e = advance E D e in
      if obs_akn E e = level then (True, e)
      else case n of 0 \<Rightarrow> (False, e) | Suc m \<Rightarrow> polls E D level m e)"

declare polls.simps [simp del]

definition seen :: "'e bus_env \<Rightarrow> 'e \<Rightarrow> 'e master \<Rightarrow> 'e master" where
  "seen E e s = s\<lparr>env := e, IN_AKN := obs_akn E e, PORTE := obs_portE E e,
                  RD0 := obs_rd0 E e, RD1 := obs_rd1 E e\<rparr>"

lemma drive_of_seen [simp]: "drive_of (seen E e s) = drive_of s"
  by (simp add: drive_of_def seen_def)

lemma sample_seen: "sample E s = seen E (advance E (drive_of s) (env s)) s"
  by (simp add: sample_def seen_def Let_def)

lemma seen_fields [simp]: "env (seen E e s) = e" "IN_AKN (seen E e s) = obs_akn E e"
  "seen E e (seen E e' s) = seen E e s"
  by (simp_all add: seen_def)

lemma waitAkn_polls:
  "waitAkn E level n s =
     (let (r, e) = polls E (drive_of s) level n (env s) in (r, seen E e s))"
proof (induction n arbitrary: s)
  case 0
  then show ?case by (simp add: sample_seen polls.simps [where n = 0] Let_def)
next
  case (Suc n)
  then show ?case by (simp add: sample_seen polls.simps [where n = "Suc n"] Let_def split: prod.split)
qed

section \<open>Who drives the lines\<close>

text \<open>
  All slaves but \<open>r\<close> are at rest and will be in the states \<open>ds\<close>; the slave \<open>r\<close> satisfies \<open>P\<close>.
\<close>

definition phase :: "(nat \<Rightarrow> 'd chip) \<Rightarrow> (nat \<Rightarrow> 'd) \<Rightarrow> nat \<Rightarrow> ('d slave \<Rightarrow> bool) \<Rightarrow> 'd bus \<Rightarrow> bool" where
  "phase ch ds r P e \<longleftrightarrow> \<not> conflict e \<and> P (slaves e r)
     \<and> (\<forall>i<NUM_SLAVES. i \<noteq> r \<longrightarrow> calm (ch i) (slaves e i) \<and> soon (ch i) (slaves e i) = ds i)"

lemma outputs_one:
  assumes "r < NUM_SLAVES" and "\<And>i. i < NUM_SLAVES \<Longrightarrow> i \<noteq> r \<Longrightarrow> bus_out (sl i) = None"
  shows "outputs sl = (case bus_out (sl r) of None \<Rightarrow> [] | Some b \<Rightarrow> [b])"
proof -
  have none: "List.map_filter (\<lambda>i. bus_out (sl i)) xs = []" if "\<forall>i\<in>set xs. bus_out (sl i) = None" for xs
    using that by (induction xs) (simp_all add: map_filter_simps)
  have app: "List.map_filter f (xs @ ys) = List.map_filter f xs @ List.map_filter f ys" for f :: "nat \<Rightarrow> byte option" and xs ys
    by (simp add: map_filter_def)
  have "[0..<NUM_SLAVES] = [0..<r] @ r # [Suc r..<NUM_SLAVES]"
    using assms(1) by (metis le0 le_add_diff_inverse less_imp_le upt_add_eq_append upt_conv_Cons)
  then show ?thesis
    using assms none [of "[0..<r]"] none [of "[Suc r..<NUM_SLAVES]"]
    by (simp add: outputs_def app map_filter_simps split: option.split)
qed

lemma akn_one:
  assumes "r < NUM_SLAVES" and "phase ch ds r P e"
  shows "obs_akn (slave_bus ch sched) e \<longleftrightarrow> slave_akn (slaves e r)"
  using assms by (auto simp: slave_bus_def phase_def list_ex_iff dest: calm_akn)

lemma phase_outputs:
  assumes "r < NUM_SLAVES" and "phase ch ds r P e"
  shows "outputs (slaves e) = (case bus_out (slaves e r) of None \<Rightarrow> [] | Some b \<Rightarrow> [b])"
  by (rule outputs_one [OF assms(1)]) (use assms(2) in \<open>auto simp: phase_def calm_def\<close>)

text \<open>One step: the slave \<open>r\<close> moves or not, the others stay at rest.\<close>

lemma phase_step:
  fixes e :: "'d bus" and sched :: "nat \<Rightarrow> nat \<Rightarrow> bool"
  assumes r: "r < NUM_SLAVES" and e: "phase ch ds r P e" and D: "\<forall>i. i \<noteq> r \<longrightarrow> \<not> d_req D i"
  defines "sl' \<equiv> (if sched (clock e) r then checkBus (ch r) (d_req D r) (d_rw D) (wires D (slaves e)) (slaves e r)
                  else slaves e r)"
  assumes Q: "Q sl'" and mask: "d_mask D = 0 \<or> bus_out (slaves e r) = None \<and> bus_out sl' = None"
  shows "phase ch ds r Q (bus_step ch sched D e)" and "clock (bus_step ch sched D e) = clock e + 1"
    and "slaves (bus_step ch sched D e) r = sl'"
    and "lines (bus_step ch sched D e) = wires D (slaves (bus_step ch sched D e))"
proof -
  let ?e = "bus_step ch sched D e"
  show sl': "slaves ?e r = sl'" using r by (simp add: bus_step_def sl'_def Let_def)
  show "clock ?e = clock e + 1" "lines ?e = wires D (slaves ?e)" by (simp_all add: bus_step_def Let_def)
  have others: "calm (ch i) (slaves ?e i) \<and> soon (ch i) (slaves ?e i) = ds i" if "i < NUM_SLAVES" "i \<noteq> r" for i
    using that e D calm_step [of "ch i" "slaves e i"]
    by (simp add: phase_def bus_step_def Let_def)
  have "outputs (slaves ?e) = (case bus_out sl' of None \<Rightarrow> [] | Some b \<Rightarrow> [b])"
    using outputs_one [of r "slaves ?e"] r others sl' by (simp add: calm_def)
  moreover have "outputs (slaves e) = (case bus_out (slaves e r) of None \<Rightarrow> [] | Some b \<Rightarrow> [b])"
    by (rule phase_outputs [OF r e])
  ultimately have "\<not> contention D (slaves e)" "\<not> contention D (slaves ?e)"
    using mask by (auto simp: contention_def split: option.splits)
  moreover have "conflict ?e = (conflict e \<or> contention D (slaves e) \<or> contention D (slaves ?e))"
    by (simp add: bus_step_def Let_def)
  ultimately have "\<not> conflict ?e" using e by (simp add: phase_def)
  with others sl' Q show "phase ch ds r Q ?e" by (simp add: phase_def)
qed

section \<open>Ticks of the schedule\<close>

definition ticks :: "(nat \<Rightarrow> nat \<Rightarrow> bool) \<Rightarrow> nat \<Rightarrow> nat \<Rightarrow> nat \<Rightarrow> nat" where
  "ticks sched r t n = length (filter (\<lambda>k. sched k r) [t..<t + n])"

lemma ticks_Suc: "ticks sched r t (Suc n) = of_bool (sched t r) + ticks sched r (Suc t) n"
  by (simp add: ticks_def upt_conv_Cons del: upt_Suc)

lemma ticks_0 [simp]: "ticks sched r t 0 = 0"
  by (simp add: ticks_def)

lemma ticks_add: "ticks sched r t (m + n) = ticks sched r t m + ticks sched r (t + m) n"
proof -
  have "[t..<t + (m + n)] = [t..<t + m] @ [t + m..<t + m + n]"
    using upt_add_eq_append [of t "t + m" n] by (simp add: add.assoc)
  then show ?thesis by (simp only: ticks_def filter_append length_append)
qed

lemma prompt_ticks:
  assumes "prompt sched"
  shows "1 \<le> ticks sched r t 12000"
proof -
  obtain k where "k < 12000" "sched (t + k) r" using assms by (auto simp: prompt_def)
  then have "t + k \<in> set (filter (\<lambda>k. sched k r) [t..<t + 12000])" by simp
  then show ?thesis by (metis One_nat_def Suc_leI length_pos_if_in_set ticks_def)
qed

lemma prompt_two_ticks: "prompt sched \<Longrightarrow> 2 \<le> ticks sched r t (Suc BUS_TIMEOUT)"
proof -
  assume p: "prompt sched"
  have "Suc BUS_TIMEOUT = 12000 + (12000 + 1001)" by (simp add: BUS_TIMEOUT_def)
  then have "ticks sched r t (Suc BUS_TIMEOUT)
      = ticks sched r t 12000 + (ticks sched r (t + 12000) 12000 + ticks sched r (t + 12000 + 12000) 1001)"
    by (simp only: ticks_add)
  then show ?thesis using prompt_ticks [OF p, of r t] prompt_ticks [OF p, of r "t + 12000"] by linarith
qed

section \<open>Waiting\<close>

text \<open>The edges of the Akn line, for a slave that needs one step, or two when it is still processing.\<close>

definition need :: "'d slave \<Rightarrow> nat" where
  "need sl = (if pc sl = Idle then 1 else 2)"

lemma await_step:
  fixes sched :: "nat \<Rightarrow> nat \<Rightarrow> bool"
  assumes r: "r < NUM_SLAVES" and D: "d_req D = (\<lambda>i. i = r)"
    and P: "phase ch ds r (\<lambda>sl. calm (ch r) sl \<and> soon (ch r) sl = ds r) e"
    and Q: "\<forall>sl. calm (ch r) sl \<and> pc sl = Idle \<and> dev sl = ds r \<longrightarrow> Q (checkBus (ch r) True (d_rw D) (d_data D) sl)"
    and akn: "\<forall>sl. Q sl \<longrightarrow> slave_akn sl \<and> (d_mask D = 0 \<or> bus_out sl = None)"
  defines "e' \<equiv> bus_step ch sched D e"
  shows "if sched (clock e) r \<and> pc (slaves e r) = Idle
    then phase ch ds r Q e' \<and> lines e' = wires D (slaves e') \<and> obs_akn (slave_bus ch sched) e'
    else phase ch ds r (\<lambda>sl. calm (ch r) sl \<and> soon (ch r) sl = ds r) e' \<and> \<not> obs_akn (slave_bus ch sched) e'
      \<and> need (slaves e' r) = need (slaves e r) - of_bool (sched (clock e) r) \<and> clock e' = clock e + 1"
proof -
  let ?sl = "slaves e r"
  let ?new = "if sched (clock e) r then checkBus (ch r) (d_req D r) (d_rw D) (wires D (slaves e)) ?sl else ?sl"
  have calm: "calm (ch r) ?sl" "soon (ch r) ?sl = ds r" using P by (simp_all add: phase_def)
  then have out: "bus_out ?sl = None" by (simp add: calm_def)
  have wires: "wires D (slaves e) = d_data D"
    using phase_outputs [OF r P] out by (simp add: wires_def)
  have D': "\<forall>i. i \<noteq> r \<longrightarrow> \<not> d_req D i" "d_req D r" by (simp_all add: D)
  show ?thesis
  proof (cases "sched (clock e) r \<and> pc ?sl = Idle")
    case True
    then have "dev ?sl = ds r" using calm by (simp add: soon_def)
    then have q: "Q ?new" using Q calm(1) wires True D'(2) by simp
    note step = phase_step [where Q = Q and sched = sched and D = D, OF r P D'(1) q]
    have m: "d_mask D = 0 \<or> bus_out ?sl = None \<and> bus_out ?new = None" using akn q out by blast
    have "slave_akn (slaves e' r)" using step(3) [OF m] akn q by (simp add: e'_def)
    then show ?thesis
      using True step(1,4) [OF m] akn_one [OF r step(1) [OF m]] by (simp add: e'_def)
  next
    case False
    have new: "calm (ch r) ?new \<and> soon (ch r) ?new = ds r" "need ?new = need ?sl - of_bool (sched (clock e) r)"
      using calm False by (auto simp: calm_def soon_def checkBus_def need_def)
    note step = phase_step [where Q = "\<lambda>sl. calm (ch r) sl \<and> soon (ch r) sl = ds r" and sched = sched and D = D,
        OF r P D'(1) new(1)]
    have m: "d_mask D = 0 \<or> bus_out ?sl = None \<and> bus_out ?new = None"
      using new(1) out by (simp add: calm_def)
    have "\<not> slave_akn ?new" by (rule calm_akn [OF conjunct1 [OF new(1)]])
    then have "\<not> obs_akn (slave_bus ch sched) e'"
      unfolding e'_def akn_one [OF r step(1) [OF m]] step(3) [OF m] .
    moreover have "need (slaves e' r) = need ?sl - of_bool (sched (clock e) r)"
      unfolding e'_def step(3) [OF m] by (rule new(2))
    ultimately show ?thesis
      using False step(1,2) [OF m] by (simp only: e'_def if_False simp_thms)
  qed
qed

lemma await_ack:
  assumes r: "r < NUM_SLAVES" and D: "d_req D = (\<lambda>i. i = r)"
    and P: "phase ch ds r (\<lambda>sl. calm (ch r) sl \<and> soon (ch r) sl = ds r) e"
    and need: "need (slaves e r) \<le> ticks sched r (clock e) (Suc n)"
    and Q: "\<forall>sl. calm (ch r) sl \<and> pc sl = Idle \<and> dev sl = ds r \<longrightarrow> Q (checkBus (ch r) True (d_rw D) (d_data D) sl)"
    and akn: "\<forall>sl. Q sl \<longrightarrow> slave_akn sl \<and> (d_mask D = 0 \<or> bus_out sl = None)"
  shows "\<exists>e'. polls (slave_bus ch sched) D True n e = (True, e') \<and> phase ch ds r Q e'
    \<and> lines e' = wires D (slaves e')"
  using P need
proof (induction n arbitrary: e)
  case (0 e)
  have "need (slaves e r) \<le> of_bool (sched (clock e) r)" using 0(2) by (simp add: ticks_Suc)
  then have "sched (clock e) r \<and> pc (slaves e r) = Idle" by (cases "sched (clock e) r") (auto simp: need_def split: if_splits)
  then show ?case
    using await_step [where Q = Q and sched = sched, OF r D 0(1) Q akn] by (subst polls.simps) (simp add: slave_bus_def Let_def)
next
  case (Suc n e)
  let ?e = "bus_step ch sched D e"
  consider (ack) "phase ch ds r Q ?e" "lines ?e = wires D (slaves ?e)" "obs_akn (slave_bus ch sched) ?e"
    | (wait) "phase ch ds r (\<lambda>sl. calm (ch r) sl \<and> soon (ch r) sl = ds r) ?e" "\<not> obs_akn (slave_bus ch sched) ?e"
      "need (slaves ?e r) \<le> ticks sched r (clock ?e) (Suc n)"
    using await_step [where Q = Q and sched = sched, OF r D Suc.prems(1) Q akn] Suc.prems(2)
    by (fastforce simp: ticks_Suc [of sched r _ "Suc n"] need_def split: if_splits)
  then show ?case
  proof cases
    case ack
    then show ?thesis by (subst polls.simps) (simp add: slave_bus_def Let_def)
  next
    case wait
    then show ?thesis using Suc.IH [OF wait(1,3)] by (subst polls.simps) (simp add: slave_bus_def Let_def)
  qed
qed

lemma await_release:
  assumes r: "r < NUM_SLAVES" and D: "d_req D = (\<lambda>i. False)" "d_mask D = 0"
    and Q: "phase ch ds r Q e" and tick: "1 \<le> ticks sched r (clock e) (Suc n)"
    and akn: "\<forall>sl. Q sl \<longrightarrow> slave_akn sl"
    and R: "\<forall>sl l. Q sl \<longrightarrow> R (checkBus (ch r) False (d_rw D) l sl)" "\<forall>sl. R sl \<longrightarrow> \<not> slave_akn sl"
  shows "\<exists>e'. polls (slave_bus ch sched) D False n e = (True, e') \<and> phase ch ds r R e'"
  using Q tick
proof (induction n arbitrary: e)
  case (0 e)
  have D': "\<forall>i. i \<noteq> r \<longrightarrow> \<not> d_req D i" by (simp add: D)
  let ?e = "bus_step ch sched D e"
  have "sched (clock e) r" using 0(2) by (cases "sched (clock e) r") (simp_all add: ticks_Suc)
  then have "phase ch ds r R ?e"
    by (intro phase_step(1) [OF r 0(1) D']) (use 0(1) R D in \<open>auto simp: phase_def\<close>)
  moreover from this have "\<not> obs_akn (slave_bus ch sched) ?e"
    using R(2) by (simp add: akn_one [OF r]) (simp add: phase_def)
  ultimately show ?case by (subst polls.simps) (simp add: slave_bus_def Let_def)
next
  case (Suc n e)
  have D': "\<forall>i. i \<noteq> r \<longrightarrow> \<not> d_req D i" by (simp add: D)
  let ?e = "bus_step ch sched D e"
  show ?case
  proof (cases "sched (clock e) r")
    case True
    then have "phase ch ds r R ?e"
      by (intro phase_step(1) [OF r Suc.prems(1) D']) (use Suc.prems(1) R D in \<open>auto simp: phase_def\<close>)
    moreover from this have "\<not> obs_akn (slave_bus ch sched) ?e"
      using R(2) by (simp add: akn_one [OF r]) (simp add: phase_def)
    ultimately show ?thesis by (subst polls.simps) (simp add: slave_bus_def Let_def)
  next
    case False
    then have q: "phase ch ds r Q ?e"
      by (intro phase_step(1) [OF r Suc.prems(1) D']) (use Suc.prems(1) D in \<open>auto simp: phase_def\<close>)
    moreover from this have "obs_akn (slave_bus ch sched) ?e"
      using akn by (simp add: akn_one [OF r]) (simp add: phase_def)
    moreover have "1 \<le> ticks sched r (clock ?e) (Suc n)"
      using Suc.prems(2) False by (simp add: ticks_Suc [of sched r _ "Suc n"] bus_step_def Let_def)
    ultimately show ?thesis
      using Suc.IH [OF q] by (subst polls.simps) (simp add: slave_bus_def Let_def)
  qed
qed

section \<open>The transfers of the master\<close>

text \<open>The bus between two transfers: no chip drives a line, and no slave has crashed.\<close>

definition at_rest :: "(nat \<Rightarrow> 'd chip) \<Rightarrow> 'd bus \<Rightarrow> bool" where
  "at_rest ch e \<longleftrightarrow> \<not> conflict e \<and> (\<forall>i<NUM_SLAVES. calm (ch i) (slaves e i))"

definition devices :: "(nat \<Rightarrow> 'd chip) \<Rightarrow> 'd bus \<Rightarrow> 'd list" where
  "devices ch e = map (\<lambda>i. soon (ch i) (slaves e i)) [0..<NUM_SLAVES]"

lemma at_rest_phase:
  assumes "at_rest ch e" and "r < NUM_SLAVES"
  shows "phase ch ((!) (devices ch e)) r (\<lambda>sl. calm (ch r) sl \<and> soon (ch r) sl = devices ch e ! r) e"
  using assms by (simp add: at_rest_def phase_def devices_def)

lemma phase_at_rest:
  assumes "phase ch ((!) ds) r (\<lambda>sl. calm (ch r) sl \<and> soon (ch r) sl = d) e" and "r < NUM_SLAVES"
    and "length ds = NUM_SLAVES"
  shows "at_rest ch e" and "devices ch e = ds[r := d]"
  using assms by (auto simp: at_rest_def phase_def devices_def nth_list_update intro!: nth_equalityI)

lemma released_mask: "released s \<Longrightarrow> d_mask (drive_of s) = 0" "released s \<Longrightarrow> d_data (drive_of s) = 0"
proof -
  assume r: "released s"
  then have "NOT (TRISE s) AND 63 = NOT (TRISE s) AND (TRISE s AND 63)" by (simp add: released_def)
  also have "\<dots> = 0" by (simp add: and.assoc [symmetric])
  finally show m: "d_mask (drive_of s) = 0" using r by (simp add: drive_of_def released_def Let_def)
  then show "d_data (drive_of s) = 0" by (simp add: d_data_latch)
qed

lemma drive_of_setReq [simp]:
  "d_rw (drive_of (setReq req v s)) = LAT_RW s" "d_data (drive_of (setReq req v s)) = d_data (drive_of s)"
  "d_mask (drive_of (setReq req v s)) = d_mask (drive_of s)" "env (setReq req v s) = env s"
  "released (setReq req v s) = released s" "LAT_RW (setReq req v s) = LAT_RW s"
  by (simp_all add: setReq_def drive_of_def Let_def released_def)

lemma drive_of_fields [simp]:
  "d_req (drive_of s) = LAT_IRQ s" "env (freeBus s) = env s" "env (writeBus b s) = env s"
  "LAT_RW (freeBus s) = LAT_RW s" "LAT_RW (writeBus b s) = LAT_RW s"
  "LAT_IRQ (freeBus s) = LAT_IRQ s" "LAT_IRQ (writeBus b s) = LAT_IRQ s"
  by (simp_all add: drive_of_def freeBus_def writeBus_def Let_def)

lemma quiet_request:
  assumes "quiet s" and "req \<le> 6" and "LAT_IRQ t = LAT_IRQ s"
  shows "LAT_IRQ (setReq req True t) = (\<lambda>i. i = unat req)"
  using assms by (auto simp: setReq_def quiet_def fun_eq_iff)

lemma request_over:
  assumes "LAT_IRQ t = (\<lambda>i. i = unat req)" and "req \<le> 6"
  shows "LAT_IRQ (setReq req False t) = (\<lambda>i. False)"
  using assms by (auto simp: setReq_def fun_eq_iff)

lemma slave_bus_write:
  assumes sched: "prompt sched" and rest: "at_rest ch (env s)" and q: "quiet s" and req: "unat req < NUM_SLAVES"
    and d: "process (ch (unat req)) b (devices ch (env s) ! unat req) = Some d"
  shows "\<exists>s'. busWriteByte (slave_bus ch sched) b req s = Done 0 s' \<and> bus_only s s' \<and> quiet s'
    \<and> at_rest ch (env s') \<and> devices ch (env s') = (devices ch (env s))[unat req := d]"
proof -
  let ?E = "slave_bus ch sched" and ?r = "unat req" and ?ds = "devices ch (env s)"
  let ?s1 = "setReq req True (writeBus b (s\<lparr>LAT_RW := RW_WRITE\<rparr>))"
  have req6: "req \<le> 6" using req by (simp add: word_le_nat_alt NUM_SLAVES_val)
  let ?D = "drive_of ?s1"
  have D1: "d_req ?D = (\<lambda>i. i = ?r)" "d_rw ?D = RW_WRITE" "d_data ?D = b" "env ?s1 = env s"
    by (simp_all add: quiet_request [OF q req6] writeBus_drives)
  let ?Q = "\<lambda>sl. pc sl = Acked_write b \<and> slave_akn sl \<and> bus_out sl = None \<and> dev sl = ?ds ! ?r"
  have Q: "\<forall>sl. calm (ch ?r) sl \<and> pc sl = Idle \<and> dev sl = ?ds ! ?r \<longrightarrow> ?Q (checkBus (ch ?r) True (d_rw ?D) (d_data ?D) sl)"
    unfolding D1 by (simp add: checkBus_def calm_def slave_akn_def)
  have A: "\<forall>sl. ?Q sl \<longrightarrow> slave_akn sl \<and> (d_mask ?D = 0 \<or> bus_out sl = None)" using D1(4) by simp
  have need: "need (slaves (env s) ?r) \<le> ticks sched ?r (clock (env s)) (Suc BUS_TIMEOUT)"
    using prompt_two_ticks [OF sched, of ?r "clock (env s)"] by (simp add: need_def)
  obtain e1 where p1: "polls ?E ?D True BUS_TIMEOUT (env s) = (True, e1)" and e1: "phase ch ((!) ?ds) ?r ?Q e1"
    using await_ack [OF req D1(1) at_rest_phase [OF rest req] need Q A] by blast
  let ?s2 = "seen ?E e1 ?s1"
  let ?s3 = "setReq req False (freeBus ?s2)"
  let ?D3 = "drive_of ?s3"
  have D3: "d_req ?D3 = (\<lambda>i. False)" "d_mask ?D3 = 0" "env ?s3 = e1"
    using D1(1) by (simp_all add: request_over [OF _ req6] released_mask seen_def)
  let ?R = "\<lambda>sl. calm (ch ?r) sl \<and> soon (ch ?r) sl = d"
  have R: "\<forall>sl l. ?Q sl \<longrightarrow> ?R (checkBus (ch ?r) False (d_rw ?D3) l sl)"
    using d by (auto simp: checkBus_def calm_def soon_def)
  have tick: "1 \<le> ticks sched ?r (clock e1) (Suc BUS_TIMEOUT)"
    using prompt_two_ticks [OF sched, of ?r "clock e1"] by simp
  have up: "\<forall>sl. ?Q sl \<longrightarrow> slave_akn sl" and down: "\<forall>sl. ?R sl \<longrightarrow> \<not> slave_akn sl" by (simp_all add: calm_akn [of "ch ?r"])
  obtain e2 where p2: "polls ?E ?D3 False BUS_TIMEOUT e1 = (True, e2)" and e2: "phase ch ((!) ?ds) ?r ?R e2"
    using await_release [OF req D3(1,2) e1 tick up R down] by blast
  let ?s4 = "seen ?E e2 ?s3"
  have "waitAkn ?E True BUS_TIMEOUT ?s1 = (True, ?s2)" "waitAkn ?E False BUS_TIMEOUT ?s3 = (True, ?s4)"
    using p1 p2 D1(4) D3(3) by (simp_all add: waitAkn_polls)
  then have "busWriteByte ?E b req s = Done 0 (?s4\<lparr>LAT_LED_ERR := False\<rparr>)"
    by (simp add: busWriteByte_def Let_def)
  moreover have "at_rest ch e2" "devices ch e2 = ?ds[?r := d]"
    using phase_at_rest [OF e2 req] by (simp_all add: devices_def)
  ultimately show ?thesis
    using busWriteByte_transfer [of s ?E b req] q by (simp add: transfer_def)
qed

lemma slave_bus_read:
  assumes sched: "prompt sched" and rest: "at_rest ch (env s)" and q: "quiet s" and req: "unat req < NUM_SLAVES"
    and d: "next_tx (ch (unat req)) (devices ch (env s) ! unat req) = Some (b, d)"
  shows "\<exists>s'. busReadByte (slave_bus ch sched) req s = Done (uint b) s' \<and> bus_only s s' \<and> quiet s'
    \<and> at_rest ch (env s') \<and> devices ch (env s') = (devices ch (env s))[unat req := d]"
proof -
  let ?E = "slave_bus ch sched" and ?r = "unat req" and ?ds = "devices ch (env s)"
  let ?s1 = "setReq req True (s\<lparr>LAT_RW := RW_READ\<rparr>)"
  have req6: "req \<le> 6" using req by (simp add: word_le_nat_alt NUM_SLAVES_val)
  let ?D = "drive_of ?s1"
  have rel: "released (s\<lparr>LAT_RW := RW_READ\<rparr>)" using q by (simp add: quiet_def released_def)
  have D1: "d_req ?D = (\<lambda>i. i = ?r)" "d_rw ?D = RW_READ" "d_data ?D = 0" "d_mask ?D = 0" "env ?s1 = env s"
    using released_mask [OF rel] by (simp_all add: quiet_request [OF q req6])
  let ?Q = "\<lambda>sl. pc sl = Acked_read \<and> slave_akn sl \<and> bus_out sl = Some b \<and> dev sl = d"
  have Q: "\<forall>sl. calm (ch ?r) sl \<and> pc sl = Idle \<and> dev sl = ?ds ! ?r \<longrightarrow> ?Q (checkBus (ch ?r) True (d_rw ?D) (d_data ?D) sl)"
    unfolding D1 using d by (simp add: checkBus_def calm_def slave_akn_def codes)
  have A: "\<forall>sl. ?Q sl \<longrightarrow> slave_akn sl \<and> (d_mask ?D = 0 \<or> bus_out sl = None)" using D1(4) by simp
  have need: "need (slaves (env s) ?r) \<le> ticks sched ?r (clock (env s)) (Suc BUS_TIMEOUT)"
    using prompt_two_ticks [OF sched, of ?r "clock (env s)"] by (simp add: need_def)
  obtain e1 where p1: "polls ?E ?D True BUS_TIMEOUT (env s) = (True, e1)" and e1: "phase ch ((!) ?ds) ?r ?Q e1"
    and l1: "lines e1 = wires ?D (slaves e1)"
    using await_ack [OF req D1(1) at_rest_phase [OF rest req] need Q A] by blast
  have "lines e1 = b"
    using l1 phase_outputs [OF req e1] e1 D1(3) by (simp add: phase_def wires_def)
  let ?s2 = "seen ?E e1 ?s1"
  have data: "readBus ?s2 = b"
    by (rule readBus_lines) (simp_all add: seen_def slave_bus_def \<open>lines e1 = b\<close>)
  let ?s3 = "setReq req False ?s2"
  let ?D3 = "drive_of ?s3"
  have D3: "d_req ?D3 = (\<lambda>i. False)" "d_mask ?D3 = 0" "env ?s3 = e1"
    using D1 by (simp_all add: request_over [OF _ req6] seen_def drive_of_seen [unfolded seen_def])
  let ?R = "\<lambda>sl. calm (ch ?r) sl \<and> soon (ch ?r) sl = d"
  have R: "\<forall>sl l. ?Q sl \<longrightarrow> ?R (checkBus (ch ?r) False (d_rw ?D3) l sl)"
    by (auto simp: checkBus_def calm_def soon_def)
  have tick: "1 \<le> ticks sched ?r (clock e1) (Suc BUS_TIMEOUT)"
    using prompt_two_ticks [OF sched, of ?r "clock e1"] by simp
  have up: "\<forall>sl. ?Q sl \<longrightarrow> slave_akn sl" and down: "\<forall>sl. ?R sl \<longrightarrow> \<not> slave_akn sl" by (simp_all add: calm_akn [of "ch ?r"])
  obtain e2 where p2: "polls ?E ?D3 False BUS_TIMEOUT e1 = (True, e2)" and e2: "phase ch ((!) ?ds) ?r ?R e2"
    using await_release [OF req D3(1,2) e1 tick up R down] by blast
  let ?s4 = "seen ?E e2 ?s3"
  have "waitAkn ?E True BUS_TIMEOUT ?s1 = (True, ?s2)" "waitAkn ?E False BUS_TIMEOUT ?s3 = (True, ?s4)"
    using p1 p2 D1(5) D3(3) by (simp_all add: waitAkn_polls)
  then have "busReadByte ?E req s = Done (uint b) (?s4\<lparr>LAT_LED_ERR := False\<rparr>)"
    by (simp add: busReadByte_def Let_def data)
  moreover have "at_rest ch e2" "devices ch e2 = ?ds[?r := d]"
    using phase_at_rest [OF e2 req] by (simp_all add: devices_def)
  ultimately show ?thesis
    using busReadByte_transfer [of s ?E req] q by (simp add: transfer_def)
qed

end
