(* ===== verification/Contract.thy ===== *)
theory Contract
  imports SlaveBus Answers Plans
begin

text \<open>
  What the commands of the master rely on: a bus over which each byte transfer succeeds and is
  exactly one call of \<^verbatim>\<open>processData\<close> or one \<^verbatim>\<open>txBuf[txPtr++]\<close> of the slave addressed.  The lemmas
  about blocks and sequences of transfers are proved once under this contract; the system of
  \<^verbatim>\<open>Slave\<close>, which models the wires and the polling loops of both sides, provides it.
\<close>

section \<open>Sequences of transfers, seen from the slaves\<close>

text \<open>Hand the bytes to the slaves; \<open>None\<close> if there is no such slave or it would crash.\<close>

fun feed :: "(nat \<Rightarrow> 'd chip) \<Rightarrow> (byte \<times> byte) list \<Rightarrow> 'd list \<Rightarrow> 'd list option" where
  "feed ch [] ds = Some ds"
| "feed ch ((b, req) # ws) ds =
     (if unat req < NUM_SLAVES
      then (case process (ch (unat req)) b (ds ! unat req) of
              None \<Rightarrow> None
            | Some d \<Rightarrow> feed ch ws (ds[unat req := d]))
      else None)"

lemma feed_append:
  "feed ch (us @ ws) ds = (case feed ch us ds of None \<Rightarrow> None | Some ds \<Rightarrow> feed ch ws ds)"
  by (induction ch us ds rule: feed.induct) (auto split: option.split)

lemma feed_length: "feed ch ws ds = Some ds' \<Longrightarrow> length ds' = length ds"
  by (induction ch ws ds rule: feed.induct) (auto split: option.splits if_splits)

text \<open>The writes of one line of text, from position \<open>i\<close>.\<close>

fun text_writes :: "byte \<Rightarrow> byte list \<Rightarrow> nat \<Rightarrow> (byte \<times> byte) list" where
  "text_writes line [] i = []"
| "text_writes line (c # cs) i =
     (BUS_CMD_LCD_WRITE, SLAVE_ID_LCD) # (line * 16 + of_nat i, SLAVE_ID_LCD) # (c, SLAVE_ID_LCD)
       # text_writes line cs (Suc i)"

text \<open>A bus on which the master drives nothing is released.\<close>

lemma released_iff: "released s \<longleftrightarrow> d_mask (drive_of s) = 0"
proof
  assume m: "d_mask (drive_of s) = 0"
  have b: "\<not> bit (d_mask (drive_of s)) n" for n using m by simp
  have "TRISD0 s" using b [of 6] by (simp add: drive_of_def Let_def bit_simps)
  moreover have "TRISD1 s" using b [of 7] by (simp add: drive_of_def Let_def bit_simps)
  moreover have "TRISE s AND 63 = 63"
  proof (rule bit_word_eqI)
    fix n assume n: "n < LENGTH(16)"
    have "bit (d_mask (drive_of s)) k \<longleftrightarrow> \<not> bit (TRISE s) k" if "k \<in> {0, 1, 2, 3, 4, 5}" for k
      using that by (auto simp: drive_of_def Let_def bit_simps)
    then have k: "bit (TRISE s) k" if "k \<in> {0, 1, 2, 3, 4, 5}" for k using that b [of k] by blast
    show "bit (TRISE s AND 63) n = bit (63 :: word16) n"
    proof (cases "n \<in> {0, 1, 2, 3, 4, 5}")
      case True
      then show ?thesis using k by (auto simp: bit_simps)
    next
      case False
      then have "n \<in> {6, 7, 8, 9, 10, 11, 12, 13, 14, 15}" using n by (auto simp: numeral_eq_Suc less_Suc_eq)
      then show ?thesis by (auto simp: bit_simps)
    qed
  qed
  ultimately show "released s" by (simp add: released_def)
qed (rule released_mask)

lemma quiet_drive: "quiet s \<Longrightarrow> drive_of t = drive_of s \<Longrightarrow> quiet t"
  unfolding quiet_def released_iff by (metis drive_of_fields(1))

section \<open>The contract\<close>

locale bus_contract =
  fixes E :: "'e bus_env"
    and rest :: "'e \<Rightarrow> bool"
    and devs :: "'e \<Rightarrow> 'd list"
    and ch :: "nat \<Rightarrow> 'd chip"
  assumes devs_length: "length (devs e) = NUM_SLAVES"
    and bus_write: "rest (env s) \<Longrightarrow> quiet s \<Longrightarrow> unat req < NUM_SLAVES
      \<Longrightarrow> process (ch (unat req)) b (devs (env s) ! unat req) = Some d
      \<Longrightarrow> \<exists>s'. busWriteByte E b req s = Done 0 s' \<and> bus_only s s' \<and> quiet s'
            \<and> rest (env s') \<and> devs (env s') = (devs (env s))[unat req := d]"
    and bus_read: "rest (env s) \<Longrightarrow> quiet s \<Longrightarrow> unat req < NUM_SLAVES
      \<Longrightarrow> next_tx (ch (unat req)) (devs (env s) ! unat req) = Some (b, d)
      \<Longrightarrow> \<exists>s'. busReadByte E req s = Done (uint b) s' \<and> bus_only s s' \<and> quiet s'
            \<and> rest (env s') \<and> devs (env s') = (devs (env s))[unat req := d]"
begin

definition idle :: "'e master \<Rightarrow> bool" where
  "idle s \<longleftrightarrow> rest (env s) \<and> quiet s"

lemma busWrites_feed:
  assumes "idle s" and "feed ch ws (devs (env s)) = Some ds"
  shows "\<exists>s'. busWrites E ws s = Done () s' \<and> bus_only s s' \<and> idle s' \<and> devs (env s') = ds"
  using assms
proof (induction ws arbitrary: s)
  case (Cons w ws)
  obtain b req where w: "w = (b, req)" by (cases w)
  then obtain d where d: "unat req < NUM_SLAVES" "process (ch (unat req)) b (devs (env s) ! unat req) = Some d"
    "feed ch ws ((devs (env s))[unat req := d]) = Some ds"
    using Cons.prems(2) by (auto split: if_splits option.splits)
  obtain t where t: "busWriteByte E b req s = Done 0 t" "bus_only s t" "idle t"
    "devs (env t) = (devs (env s))[unat req := d]"
    using bus_write [OF _ _ d(1,2)] Cons.prems(1) by (auto simp: idle_def)
  show ?case
    using Cons.IH [of t] t d(3) w by (auto intro: bus_only_trans)
qed simp

lemma mustAll_feed:
  assumes "idle s" and "feed ch ws (devs (env s)) = Some ds"
  shows "\<exists>s'. mustAll E ws s k = k s' \<and> bus_only s s' \<and> idle s' \<and> devs (env s') = ds"
  using assms
proof (induction ws arbitrary: s)
  case Nil
  then show ?case by (auto intro: exI [of _ s])
next
  case (Cons w ws)
  obtain b req where w: "w = (b, req)" by (cases w)
  then obtain d where d: "unat req < NUM_SLAVES" "process (ch (unat req)) b (devs (env s) ! unat req) = Some d"
    "feed ch ws ((devs (env s))[unat req := d]) = Some ds"
    using Cons.prems(2) by (auto split: if_splits option.splits)
  obtain t where t: "busWriteByte E b req s = Done 0 t" "bus_only s t" "idle t"
    "devs (env t) = (devs (env s))[unat req := d]"
    using bus_write [OF _ _ d(1,2)] Cons.prems(1) by (auto simp: idle_def)
  then obtain s' where "mustAll E ws t k = k s'" "bus_only t s'" "idle s'" "devs (env s') = ds"
    using Cons.IH [of t] d(3) by auto
  moreover have "mustAll E (w # ws) s k = mustAll E ws t k" using t w by (simp add: must_def)
  ultimately show ?case using t(2) by (auto intro: bus_only_trans)
qed

lemma readDataBytes_draw:
  assumes "idle s" and "unat req < NUM_SLAVES" and "draw (ch (unat req)) n (devs (env s) ! unat req) = Some (bs, d)"
    and "p + n \<le> length (rxBuf s)"
  shows "\<exists>s'. readDataBytes E req p n s = Done 0 s' \<and> bus_only s (s'\<lparr>rxBuf := rxBuf s\<rparr>) \<and> idle s'
    \<and> devs (env s') = (devs (env s))[unat req := d] \<and> rxBuf s' = overwrite p bs (rxBuf s)"
  using assms
proof (induction n arbitrary: p s bs)
  case 0
  then show ?case by (intro exI [of _ s]) auto
next
  case (Suc n)
  obtain b d1 bs' where n: "next_tx (ch (unat req)) (devs (env s) ! unat req) = Some (b, d1)"
    "draw (ch (unat req)) n d1 = Some (bs', d)" "bs = b # bs'"
    using Suc.prems(3) by (auto split: option.splits prod.splits)
  obtain t where t: "busReadByte E req s = Done (uint b) t" "bus_only s t" "idle t"
    "devs (env t) = (devs (env s))[unat req := d1]"
    using bus_read [OF _ _ Suc.prems(2) n(1)] Suc.prems(1) by (auto simp: idle_def)
  let ?t = "t\<lparr>rxBuf := (rxBuf t)[p := b]\<rparr>"
  have len: "length (rxBuf t) = length (rxBuf s)" using t(2) by (simp add: bus_only_def)
  have r: "unat req < length (devs (env s))" using Suc.prems(2) by (simp add: devs_length)
  have i: "idle ?t" using t(3) by (simp add: idle_def)
  have dr: "draw (ch (unat req)) n (devs (env ?t) ! unat req) = Some (bs', d)" using n(2) t(4) r by simp
  obtain s' where s': "readDataBytes E req (Suc p) n ?t = Done 0 s'" "bus_only ?t (s'\<lparr>rxBuf := rxBuf ?t\<rparr>)"
    "idle s'" "devs (env s') = (devs (env ?t))[unat req := d]" "rxBuf s' = overwrite (Suc p) bs' (rxBuf ?t)"
    using Suc.IH [OF i Suc.prems(2) dr, of "Suc p"] Suc.prems(4) len by auto
  have "bus_only s (s'\<lparr>rxBuf := rxBuf s\<rparr>)"
    using t(2) s'(2) by (simp add: bus_only_def)
  then show ?case
    using t s' n(3) len Suc.prems(4) uint_byte_bounds [of b] by (auto simp: bus_only_def)
qed

lemma readDataBlock_draw:
  assumes "idle s" and "unat req < NUM_SLAVES" and "draw_block (ch (unat req)) (devs (env s) ! unat req) = Some (bs, d)"
    and "wf_master s" and "length bs < 60"
  shows "\<exists>s'. readDataBlock E req s = Done (int (length bs)) s' \<and> block_only s s' \<and> idle s'
    \<and> devs (env s') = (devs (env s))[unat req := d] \<and> take (length bs) (rxBuf s') = bs"
proof -
  obtain n d1 where n: "next_tx (ch (unat req)) (devs (env s) ! unat req) = Some (n, d1)"
    "draw (ch (unat req)) (unat n) d1 = Some (bs, d)"
    using assms(3) by (auto simp: draw_block_def split: option.splits)
  then have len: "unat n = length bs" using draw_length by fastforce
  let ?i = "s\<lparr>rxBuf := (rxBuf s)[0 := 0]\<rparr>"
  obtain t where t: "busReadByte E req ?i = Done (uint n) t" "bus_only ?i t" "idle t"
    "devs (env t) = (devs (env s))[unat req := d1]"
    using bus_read [of ?i, OF _ _ assms(2)] n(1) assms(1) by (auto simp: idle_def)
  have l: "length (rxBuf t) = 60" using t(2) assms(4) by (simp add: bus_only_def wf_master_def)
  have r: "unat req < length (devs (env s))" using assms(2) by (simp add: devs_length)
  have dr: "draw (ch (unat req)) (unat n) (devs (env t) ! unat req) = Some (bs, d)" using n(2) t(4) r by simp
  obtain s' where s': "readDataBytes E req 0 (unat n) t = Done 0 s'" "bus_only t (s'\<lparr>rxBuf := rxBuf t\<rparr>)"
    "idle s'" "devs (env s') = (devs (env t))[unat req := d]" "rxBuf s' = overwrite 0 bs (rxBuf t)"
    using readDataBytes_draw [OF t(3) assms(2) dr, of 0] assms(5) len l by auto
  let ?s = "s'\<lparr>rxBuf := (rxBuf s')[unat n := 0]\<rparr>"
  have "readDataBlock E req s = Done (int (length bs)) ?s"
  proof -
    have n': "nat (uint n) = unat n" "\<not> uint n < 0" "uint n = int (length bs)"
      by (simp_all only: unat_eq_nat_uint uint_byte_bounds not_less flip: len) simp
    have "unat n < length (rxBuf s')" using s'(5) l len assms(5) by simp
    then show ?thesis
      unfolding readDataBlock_def t(1) on_Done n'(1) s'(1) using n'(2,3) by (simp only: if_False if_True less_irrefl)
  qed
  moreover have "block_only s ?s"
    using t(2) s'(2,5) l assms(4) by (simp add: block_only_def bus_only_def wf_master_def)
  moreover have "take (length bs) (rxBuf ?s) = bs"
    using s'(5) l assms(5) len by (simp add: take_overwrite)
  ultimately show ?thesis
    using s' t(4) by (intro exI [of _ ?s]) (auto simp: idle_def)
qed

text \<open>The two statements of the commands that test a transfer.\<close>

lemma busWriteByte_feed:
  assumes "idle s" and "feed ch [(b, req)] (devs (env s)) = Some ds"
  shows "\<exists>s'. busWriteByte E b req s = Done 0 s' \<and> bus_only s s' \<and> idle s' \<and> devs (env s') = ds"
  using bus_write [of s req b] assms by (auto simp: idle_def split: option.splits if_splits)

lemma must_feed:
  assumes "idle s" and "feed ch [(b, req)] (devs (env s)) = Some ds"
  obtains s' where "\<And>k. must E b req s k = k s'" "bus_only s s'" "idle s'" "devs (env s') = ds"
  using busWriteByte_feed [OF assms] that by (auto simp: must_def)

lemma mustRead_draw:
  assumes "idle s" and "wf_master s" and "unat req < NUM_SLAVES"
    and "draw_block (ch (unat req)) (devs (env s) ! unat req) = Some (bs, d)" and "length bs = n" and "n < 60"
  obtains s' where "\<And>k. mustRead E req n s k = k s'" "block_only s s'" "idle s'"
    "devs (env s') = (devs (env s))[unat req := d]" "take n (rxBuf s') = bs"
  using readDataBlock_draw [OF assms(1,3,4,2)] assms(5,6) that by (auto simp: mustRead_def)

text \<open>A query of the host.\<close>

lemma query_draw:
  assumes "idle s" and "wf_master s" and "feed ch [(cmd, req)] (devs (env s)) = Some ds"
    and "draw_block (ch (unat req)) (ds ! unat req) = Some (bs, d)" and "length bs = n" and "n < 60"
  shows "\<exists>s'. query E cmd req n reply s = Done () s' \<and> tx s' = tx s @ reply # bs @ [sum_list bs + reply]
    \<and> rx s' = rx s \<and> idle s' \<and> wf_master s' \<and> devs (env s') = ds[unat req := d]
    \<and> usb s' = usb s \<and> failsafeTripped s' = failsafeTripped s"
proof -
  have r: "unat req < NUM_SLAVES" using assms(3) by (auto split: if_splits)
  obtain t where t: "\<And>k. must E cmd req s k = k t" "bus_only s t" "idle t" "devs (env t) = ds"
    using must_feed [OF assms(1,3)] by blast
  have wf: "wf_master t" using t(2) assms(2) by (simp add: wf_master_def bus_only_def)
  obtain u where u: "readDataBlock E req t = Done (int n) u" "block_only t u" "idle u"
    "devs (env u) = ds[unat req := d]" "take n (rxBuf u) = bs"
    using readDataBlock_draw [OF t(3) r, of bs d] assms(4-6) t(4) wf by auto
  have l: "length (rxBuf u) = 60" "tx u = tx s" "rx u = rx s" "usb u = usb s" "failsafeTripped u = failsafeTripped s"
    using u(2) t(2) wf by (simp_all add: block_only_def bus_only_def wf_master_def)
  let ?u = "u\<lparr>tx := tx s @ reply # bs @ [sum_list bs + reply]\<rparr>"
  have "query E cmd req n reply s = Done () ?u"
    using u(1,5) l assms(6)
    by (simp add: query_def t(1) mustRead_def sendRx_def sendByte_def map_nth_upt chksum_sum min_absorb2)
  then show ?thesis
    using u(3,4) l by (intro exI [of _ ?u]) (simp add: idle_def wf_master_def quiet_def released_def)
qed

text \<open>A line of text.\<close>

lemma printTextLoop_feed:
  assumes "idle s" and "rxBuf s ! 16 = line" and "\<And>k. k < length cs \<Longrightarrow> rxBuf s ! (i + k) = cs ! k"
    and "feed ch (text_writes line cs i) (devs (env s)) = Some ds"
  shows "\<exists>s'. printTextLoop E i (length cs) 0 s = Done 0 s' \<and> bus_only s s' \<and> idle s' \<and> devs (env s') = ds"
  using assms
proof (induction cs arbitrary: i s)
  case (Cons c cs)
  let ?ws = "[(BUS_CMD_LCD_WRITE, SLAVE_ID_LCD), (line * 16 + of_nat i, SLAVE_ID_LCD), (c, SLAVE_ID_LCD)]"
  have "text_writes line (c # cs) i = ?ws @ text_writes line cs (Suc i)" by simp
  then obtain ds1 where ds1: "feed ch ?ws (devs (env s)) = Some ds1" "feed ch (text_writes line cs (Suc i)) ds1 = Some ds"
    using Cons.prems(4) by (auto simp only: feed_append split: option.splits)
  have "feed ch ?ws (devs (env s)) = feed ch ([hd ?ws] @ [hd (tl ?ws)] @ [hd (tl (tl ?ws))]) (devs (env s))" by simp
  then obtain da db where dab: "feed ch [(BUS_CMD_LCD_WRITE, SLAVE_ID_LCD)] (devs (env s)) = Some da"
    "feed ch [(line * 16 + of_nat i, SLAVE_ID_LCD)] da = Some db" "feed ch [(c, SLAVE_ID_LCD)] db = Some ds1"
    using ds1(1) by (simp only: feed_append list.sel) (auto simp del: feed.simps split: option.splits)
  obtain t1 where t1: "busWriteByte E BUS_CMD_LCD_WRITE SLAVE_ID_LCD s = Done 0 t1" "bus_only s t1" "idle t1" "devs (env t1) = da"
    using busWriteByte_feed [OF Cons.prems(1) dab(1)] by blast
  obtain t2 where t2: "busWriteByte E (line * 16 + of_nat i) SLAVE_ID_LCD t1 = Done 0 t2" "bus_only t1 t2" "idle t2" "devs (env t2) = db"
    using busWriteByte_feed [OF t1(3), where ds = db] dab(2) t1(4) by blast
  obtain t3 where t3: "busWriteByte E c SLAVE_ID_LCD t2 = Done 0 t3" "bus_only t2 t3" "idle t3" "devs (env t3) = ds1"
    using busWriteByte_feed [OF t2(3), where ds = ds1] dab(3) t2(4) by blast
  have b: "bus_only s t3" "rxBuf t1 = rxBuf s" "rxBuf t2 = rxBuf s" "rxBuf t3 = rxBuf s"
    using t1(2) t2(2) t3(2) by (auto simp: bus_only_def)
  have loop: "printTextLoop E i (length (c # cs)) 0 s = printTextLoop E (Suc i) (length cs) 0 t3"
    using t1(1) t2(1) t3(1) b Cons.prems(2) Cons.prems(3) [of 0] by simp
  obtain s' where "printTextLoop E (Suc i) (length cs) 0 t3 = Done 0 s'" "bus_only t3 s'" "idle s'" "devs (env s') = ds"
    using Cons.IH [of t3 "Suc i"] t3(3,4) b Cons.prems(2) Cons.prems(3) [of "Suc _"] ds1(2) by auto
  then show ?case using loop b(1) by (auto intro: bus_only_trans)
qed (auto intro: exI [of _ _])

text \<open>A good frame of a command of the table.\<close>

lemma plan_fed:
  assumes "(c, plan) \<in> set plans" and "receives s bs evs" and "well_framed c bs" and "idle s"
    and "feed ch (plan bs) (devs (env s)) = Some ds"
  shows "\<exists>s'. hostCommand E c s = Done () s' \<and> tx s' = tx s @ [HOST_REPLY_SUCCESS] \<and> rx s' = evs
    \<and> idle s' \<and> devs (env s') = ds \<and> wf_master s' \<and> usb s' = usb s \<and> failsafeTripped s' = failsafeTripped s"
proof -
  obtain h s1 where h: "map_of (commands E) c = Some h" "prepared s evs s1"
    "h s = mustAll E (plan bs) s1 (sendByte HOST_REPLY_SUCCESS)"
    using plans_carried_out [of E] assms(1-3) by (fastforce simp: list_all_iff carries_out_def)
  have "idle s1" using assms(4) h(2) quiet_drive [of s s1] by (simp add: idle_def prepared_def)
  then obtain s' where s': "mustAll E (plan bs) s1 (sendByte HOST_REPLY_SUCCESS) = sendByte HOST_REPLY_SUCCESS s'"
    "bus_only s1 s'" "idle s'" "devs (env s') = ds"
    using mustAll_feed [of s1 "plan bs" ds] assms(5) h(2) by (auto simp: prepared_def)
  let ?s = "s'\<lparr>tx := tx s' @ [HOST_REPLY_SUCCESS]\<rparr>"
  have "hostCommand E c s = Done () ?s"
    using h(1,3) s'(1) by (simp add: hostCommand_def sendByte_def)
  then show ?thesis
    using s' h(2) by (intro exI [of _ ?s]) (auto simp: idle_def bus_only_def prepared_def quiet_def released_def wf_master_def)
qed

end

section \<open>The slaves provide it\<close>

interpretation slave_system: bus_contract "slave_bus ch sched" "\<lambda>e. prompt sched \<and> at_rest ch e" "devices ch" ch
  for ch :: "nat \<Rightarrow> 'd chip" and sched
proof unfold_locales
  show "length (devices ch e) = NUM_SLAVES" for e by (simp add: devices_def)
next
  fix s :: "'d bus master" and req b :: byte and d
  assume "prompt sched \<and> at_rest ch (env s)" "quiet s" "unat req < NUM_SLAVES"
    "process (ch (unat req)) b (devices ch (env s) ! unat req) = Some d"
  then show "\<exists>s'. busWriteByte (slave_bus ch sched) b req s = Done 0 s' \<and> bus_only s s' \<and> quiet s'
      \<and> (prompt sched \<and> at_rest ch (env s')) \<and> devices ch (env s') = (devices ch (env s))[unat req := d]"
    using slave_bus_write [of sched ch s req b d] by blast
next
  fix s :: "'d bus master" and req b :: byte and d
  assume "prompt sched \<and> at_rest ch (env s)" "quiet s" "unat req < NUM_SLAVES"
    "next_tx (ch (unat req)) (devices ch (env s) ! unat req) = Some (b, d)"
  then show "\<exists>s'. busReadByte (slave_bus ch sched) req s = Done (uint b) s' \<and> bus_only s s' \<and> quiet s'
      \<and> (prompt sched \<and> at_rest ch (env s')) \<and> devices ch (env s') = (devices ch (env s))[unat req := d]"
    using slave_bus_read [of sched ch s req b d] by blast
qed

end
