(* ===== verification/Link.thy ===== *)
theory Link
  imports Driver Contract Safety
begin

text \<open>
  What the driver makes of an answer.  The contract of a serial line that delivers bytes in order is
  a locale; the driver's functions are taken through it once.  The master of the sensor board at the
  other end of the line provides it, so the lemmas then speak of driver and firmware together.
\<close>

section \<open>A line that delivers what is waiting\<close>

text \<open>\<open>waiting\<close> are the bytes not yet read, \<open>peer\<close> whatever is behind the line.\<close>

locale serial_line =
  fixes P :: "'p port_env"
    and waiting :: "'p \<Rightarrow> byte list"
    and peer :: "'p \<Rightarrow> 'b"
  assumes poll_waiting: "waiting p \<noteq> [] \<Longrightarrow>
      \<exists>p'. port_poll P t p = (True, p') \<and> waiting p' = waiting p \<and> peer p' = peer p"
    and poll_quiet: "waiting p = [] \<Longrightarrow>
      \<exists>p'. port_poll P t p = (False, p') \<and> waiting p' = waiting p \<and> peer p' = peer p"
    and read_waiting: "waiting p \<noteq> [] \<Longrightarrow>
      \<exists>p'. port_read P n p = (Some (take n (waiting p)), p') \<and> waiting p' = drop n (waiting p) \<and> peer p' = peer p"
    and sleep_waiting: "waiting (port_sleep P t p) = waiting p \<and> peer (port_sleep P t p) = peer p"
begin

lemma next_bytes_waiting:
  assumes "waiting p = bs @ rest" and "length bs = n" and "0 < n"
  obtains p' where "next_bytes P off n buf p = (overwrite off bs buf, p')" "waiting p' = rest" "peer p' = peer p"
proof -
  have ne: "waiting p \<noteq> []" using assms by auto
  obtain q where q: "port_poll P IO_TIMEOUT p = (True, q)" "waiting q = waiting p" "peer q = peer p"
    using poll_waiting [OF ne] by blast
  obtain p' where p': "port_read P n q = (Some (take n (waiting q)), p')" "waiting p' = drop n (waiting q)" "peer p' = peer q"
    using read_waiting [of q n] q(2) ne by metis
  show thesis
    using that [of p'] q p' assms by (simp add: next_bytes_def readData_def hasData_def)
qed

lemma next_bytes_quiet:
  assumes "waiting p = []"
  obtains p' where "next_bytes P off n buf p = (buf, p')" "waiting p' = []" "peer p' = peer p"
  using poll_quiet [OF assms, of IO_TIMEOUT] that assms by (auto simp: next_bytes_def readData_def hasData_def)

lemma exchange_waiting:
  assumes "waiting (port_write P (take n buf) p) = b # rest"
  obtains p' where "exchange P n buf p = (buf[0 := b], p')" "waiting p' = rest"
    "peer p' = peer (port_write P (take n buf) p)"
proof -
  have "waiting (port_write P (take n buf) p) = [b] @ rest" using assms by simp
  then obtain p' where "next_bytes P 0 1 buf (port_write P (take n buf) p) = (overwrite 0 [b] buf, p')" "waiting p' = rest"
    "peer p' = peer (port_write P (take n buf) p)"
    by (rule next_bytes_waiting [where n = 1]) simp_all
  then show thesis
    using that [of p'] by (simp add: exchange_def next_bytes_def writeData_def split: prod.splits)
qed

lemma exchange_quiet:
  assumes "waiting (port_write P (take n buf) p) = []"
  obtains p' where "exchange P n buf p = (buf, p')" "waiting p' = []" "peer p' = peer (port_write P (take n buf) p)"
proof -
  obtain p' where "next_bytes P 0 1 buf (port_write P (take n buf) p) = (buf, p')" "waiting p' = []"
    "peer p' = peer (port_write P (take n buf) p)"
    by (rule next_bytes_quiet [OF assms])
  then show thesis
    using that [of p'] by (simp add: exchange_def next_bytes_def writeData_def split: prod.splits)
qed

lemma acknowledged_waiting:
  assumes "waiting (port_write P buf p) = b # rest" and "buf \<noteq> []"
  obtains p' where "acknowledged P buf p = (ackCode b, p')" "waiting p' = rest" "peer p' = peer (port_write P buf p)"
proof -
  have "waiting (port_write P (take (length buf) buf) p) = b # rest" using assms(1) by simp
  then obtain p' where "exchange P (length buf) buf p = (buf[0 := b], p')" "waiting p' = rest"
    "peer p' = peer (port_write P (take (length buf) buf) p)"
    by (rule exchange_waiting)
  then show thesis using that [of p'] assms(2) by (simp add: acknowledged_def)
qed

end

section \<open>Driver and firmware\<close>

text \<open>
  The master at the other end: a write makes the loop of the firmware take the bytes of one command;
  what it sends is added to the bytes that are waiting.  A command that needs more bytes than have
  come leaves them in the receiver.
\<close>

definition board_port :: "'e bus_env \<Rightarrow> ('e master \<times> byte list) port_env" where
  "board_port E =
     \<lparr>port_write = (\<lambda>bs (s, q).
        let s = s\<lparr>rx := rx s @ map Byte bs\<rparr>
        in case mainStep E s of Done u s' \<Rightarrow> (s', q @ drop (length (tx s)) (tx s')) | Stop e \<Rightarrow> (s, q)),
      port_poll = (\<lambda>t (s, q). (q \<noteq> [], (s, q))),
      port_read = (\<lambda>n (s, q). if q \<noteq> [] then (Some (take n q), (s, drop n q)) else (None, (s, q))),
      port_sleep = (\<lambda>t p. p),
      junk = (\<lambda>i. 0)\<rparr>"

interpretation board: serial_line "board_port E" snd fst
  by unfold_locales (auto simp: board_port_def)

text \<open>Between two calls of the driver: the master waits for a command and nothing is left on the line.\<close>

definition attentive :: "'e master \<Rightarrow> bool" where
  "attentive s \<longleftrightarrow> wf_master s \<and> usb s \<and> \<not> failsafeTripped s \<and> rx s = []"

definition settled :: "'e master \<times> byte list \<Rightarrow> bool" where
  "settled p \<longleftrightarrow> attentive (fst p) \<and> snd p = []"

text \<open>The master when it has taken the command byte: its light is on and the rest of the packet is waiting.\<close>

definition addressed :: "byte list \<Rightarrow> 'e master \<Rightarrow> 'e master" where
  "addressed bs s = (actLight s)\<lparr>rx := map Byte bs\<rparr>"

lemma addressed_simps [simp]:
  "rx (addressed bs s) = map Byte bs" "tx (addressed bs s) = tx s" "usb (addressed bs s) = usb s"
  "failsafeTripped (addressed bs s) = failsafeTripped s" "wf_master (addressed bs s) = wf_master s"
  "env (addressed bs s) = env s" "drive_of (addressed bs s) = drive_of s" "quiet (addressed bs s) = quiet s"
  by (simp_all add: addressed_def actLight_def wf_master_def drive_of_def quiet_def released_def)

lemma attentive_receives: "attentive s \<Longrightarrow> receives (addressed bs s) bs []"
  by (simp add: attentive_def receives_def)

text \<open>What the line delivers after a packet.\<close>

lemma board_reply:
  assumes "settled p" and "hostCommand E c (addressed bs (fst p)) = Done () s'" and "tx s' = tx (fst p) @ fr"
  shows "port_write (board_port E) (c # bs) p = (s', fr)"
proof -
  obtain s where p: "p = (s, [])" "attentive s" using assms(1) by (cases p) (auto simp: settled_def)
  then have "mainStep E (s\<lparr>rx := map Byte (c # bs)\<rparr>) = hostCommand E c (addressed bs s)"
    by (simp add: mainStep_def attentive_def addressed_def actLight_def)
  then show ?thesis using assms(2,3) p by (simp add: board_port_def attentive_def)
qed

section \<open>Packets that are only acknowledged\<close>

text \<open>The master takes a good frame of a command of the table, and the driver hears whether it could carry it out.\<close>

definition heard :: "int \<times> 'e master \<times> byte list \<Rightarrow> bool" where
  "heard r \<longleftrightarrow> fst r \<in> {SB_OK, SB_HWFAIL} \<and> settled (snd r)"

lemma acknowledged_plan:
  assumes "settled p" and "(c, plan) \<in> set plans" and "well_framed c bs"
  shows "heard (acknowledged (board_port E) (c # bs) p)"
proof -
  let ?s = "addressed bs (fst p)"
  have at: "attentive (fst p)" using assms(1) by (simp add: settled_def)
  obtain h s1 where h: "map_of (commands E) c = Some h" "prepared ?s [] s1"
    "h ?s = mustAll E (plan bs) s1 (sendByte HOST_REPLY_SUCCESS)"
    using plans_carried_out [of E] assms(2,3) attentive_receives [OF at, of bs]
    by (fastforce simp: list_all_iff carries_out_def)
  obtain s' where s': "hostCommand E c ?s = Done () s'"
    "tx s' = tx s1 @ [HOST_REPLY_SUCCESS] \<or> tx s' = tx s1 @ [HOST_REPLY_FAILURE]"
    "rx s' = rx s1" "failsafeTripped s' = failsafeTripped s1" "usb s' = usb s1" "wf_master s' = wf_master s1"
    using mustAll_ends [of E "plan bs" s1] h(3) by (auto simp: finishes_iff hostCommand_lookup(1) [OF h(1)])
  then obtain r where r: "tx s' = tx (fst p) @ [r]" "r = HOST_REPLY_SUCCESS \<or> r = HOST_REPLY_FAILURE"
    using h(2) by (auto simp: prepared_def)
  have "snd (port_write (board_port E) (c # bs) p) = r # []"
    by (simp add: board_reply [OF assms(1) s'(1) r(1)])
  then obtain p' where "acknowledged (board_port E) (c # bs) p = (ackCode r, p')" "snd p' = []"
    "fst p' = fst (port_write (board_port E) (c # bs) p)"
    by (rule board.acknowledged_waiting) simp_all
  moreover have "attentive s'" using s'(3-6) h(2) at by (simp add: attentive_def prepared_def)
  ultimately show ?thesis
    using r(2) by (auto simp: heard_def settled_def ackCode_def codes board_reply [OF assms(1) s'(1) r(1)])
qed

text \<open>A packet the master refuses.\<close>

lemma acknowledged_refused:
  assumes "settled p" and "map_of (commands E) c \<noteq> None" and "length bs = frame_len c" and "\<not> well_framed c bs"
  shows "fst (acknowledged (board_port E) (c # bs) p) = ackCode (refusal c bs)"
proof -
  have "attentive (fst p)" using assms(1) by (simp add: settled_def)
  then obtain s' where "hostCommand E c (addressed bs (fst p)) = Done () s'" "refused (refusal c bs) [] (addressed bs (fst p)) s'"
    using hostCommand_refused [OF assms(2) attentive_receives assms(3,4)] by blast
  then have "snd (port_write (board_port E) (c # bs) p) = refusal c bs # []"
    using board_reply [OF assms(1)] by (simp add: refused_def)
  then obtain p' where "acknowledged (board_port E) (c # bs) p = (ackCode (refusal c bs), p')"
    by (rule board.acknowledged_waiting) simp_all
  then show ?thesis by simp
qed

lemma acknowledged_code:
  assumes "settled p" and "c \<in> fst ` set plans" and "well_framed c [c]"
  shows "heard (acknowledged (board_port E) [c, c] p)"
  using acknowledged_plan [OF assms(1), of c _ "[c]"] assms(2,3) by auto

lemma plan_codes: "list_all (\<lambda>c. c \<in> fst ` set plans) [HOST_CMD_BFRESET, HOST_CMD_DVL_ON, HOST_CMD_DVL_OFF,
    HOST_CMD_FIRE_TORP_1, HOST_CMD_FIRE_TORP_2, HOST_CMD_VOID_TORP_1, HOST_CMD_VOID_TORP_2, HOST_CMD_ARM_TORP_1,
    HOST_CMD_ARM_TORP_2, HOST_CMD_EXT_GRABBER, HOST_CMD_RET_GRABBER, HOST_CMD_VOID_GRABBER, HOST_CMD_VOID_PNEU,
    HOST_CMD_OFF_PNEU, HOST_CMD_DERPY_ON, HOST_CMD_DERPY_OFF, HOST_CMD_STOP_DERPY, HOST_CMD_CAM_RELAY_ON, HOST_CMD_CAM_RELAY_OFF]"
  by (simp add: plans_def)

lemma in_plans:
  "HOST_CMD_MARKER \<in> fst ` set plans" "HOST_CMD_BACKLIGHT \<in> fst ` set plans" "HOST_CMD_BFIN_STATE \<in> fst ` set plans"
  "HOST_CMD_BARANIMATION \<in> fst ` set plans" "HOST_CMD_SET_BARS \<in> fst ` set plans" "HOST_CMD_BARS \<in> fst ` set plans"
  "HOST_CMD_HARDKILL \<in> fst ` set plans" "HOST_CMD_SET_OVRLIMIT \<in> fst ` set plans" "HOST_CMD_THRUSTERS \<in> fst ` set plans"
  "HOST_CMD_SET_DERPY \<in> fst ` set plans"
  by (simp_all add: plans_def)

lemma code_frames: "list_all (\<lambda>c. well_framed c [c]) [HOST_CMD_BFRESET, HOST_CMD_DVL_ON, HOST_CMD_DVL_OFF,
    HOST_CMD_FIRE_TORP_1, HOST_CMD_FIRE_TORP_2, HOST_CMD_VOID_TORP_1, HOST_CMD_VOID_TORP_2, HOST_CMD_ARM_TORP_1,
    HOST_CMD_ARM_TORP_2, HOST_CMD_EXT_GRABBER, HOST_CMD_RET_GRABBER, HOST_CMD_VOID_GRABBER, HOST_CMD_VOID_PNEU,
    HOST_CMD_OFF_PNEU, HOST_CMD_DERPY_ON, HOST_CMD_DERPY_OFF, HOST_CMD_STOP_DERPY, HOST_CMD_CAM_RELAY_ON, HOST_CMD_CAM_RELAY_OFF]"
  by (simp add: well_framed_def payloads_def codes)

text \<open>\<open>simpleWrite\<close> with an argument the master accepts.\<close>

lemma simpleWrite_heard:
  assumes "settled p" and "0 \<le> x" and "x \<le> limit" and "c \<in> fst ` set plans"
    and "map_of payloads c = Some (1, valid)" and "valid [word_of_int x]" and "c \<noteq> HOST_CMD_SYNC" and "c \<noteq> HOST_CMD_HARDKILL"
  shows "heard (simpleWrite (board_port E) c x limit p)"
proof -
  have "well_framed c [word_of_int x, word_of_int (uint c + x)]"
    using assms(5-8) by (simp add: well_framed_def summed_def)
  then show ?thesis
    using acknowledged_plan [OF assms(1)] assms(2-4) by (fastforce simp: simpleWrite_def)
qed

lemma small_words:
  "0 \<le> x \<Longrightarrow> x \<le> int n \<Longrightarrow> n < 256 \<Longrightarrow> (word_of_int x :: byte) \<le> of_nat n"
  using word_le_nat_alt [of "word_of_int x :: byte" "of_nat n"]
  by (cases x rule: int_cases2) (simp_all add: unat_of_nat take_bit_nat_def)

lemma payload_codes:
  "map_of payloads HOST_CMD_MARKER = Some (1, \<lambda>p. p ! 0 \<le> 1)"
  "map_of payloads HOST_CMD_BACKLIGHT = Some (1, \<lambda>p. p ! 0 \<le> 2)"
  "map_of payloads HOST_CMD_BFIN_STATE = Some (1, \<lambda>p. p ! 0 \<le> 1)"
  "map_of payloads HOST_CMD_BARANIMATION = Some (1, \<lambda>p. p ! 0 \<le> 2)"
  "map_of payloads HOST_CMD_SET_BARS = Some (1, \<lambda>p. True)"
  "map_of payloads HOST_CMD_BARS = Some (1, \<lambda>p. p ! 0 \<le> 15)"
  by (simp_all add: payloads_def codes)

lemma packet_frames:
  "well_framed HOST_CMD_HARDKILL hkSafety"
  "0 \<le> n \<Longrightarrow> n \<le> 11 \<Longrightarrow> well_framed HOST_CMD_THRUSTERS (tkSafety @ [word_of_int n, sum_list tkSafety + word_of_int n + HOST_CMD_THRUSTERS])"
  "well_framed HOST_CMD_SET_OVRLIMIT [a, b, HOST_CMD_SET_OVRLIMIT + a + b]"
  "length bs = 2 \<Longrightarrow> well_framed HOST_CMD_SET_DERPY (bs @ map of_char ''DERP'' @ [sum_list bs + sum_list (map of_char ''DERP'') + HOST_CMD_SET_DERPY])"
proof -
  have apart: "HOST_CMD_SET_OVRLIMIT \<noteq> HOST_CMD_SYNC" "HOST_CMD_SET_OVRLIMIT \<noteq> HOST_CMD_HARDKILL"
    "HOST_CMD_THRUSTERS \<noteq> HOST_CMD_SYNC" "HOST_CMD_THRUSTERS \<noteq> HOST_CMD_HARDKILL" by (simp_all add: codes)
  show "well_framed HOST_CMD_HARDKILL hkSafety" by (simp add: well_framed_def codes)
  show "well_framed HOST_CMD_SET_OVRLIMIT [a, b, HOST_CMD_SET_OVRLIMIT + a + b]"
    by (simp add: well_framed_def apart summed_payloads summed_def algebra_simps)
  show "well_framed HOST_CMD_THRUSTERS (tkSafety @ [word_of_int n, sum_list tkSafety + word_of_int n + HOST_CMD_THRUSTERS])"
    if "0 \<le> n" "n \<le> 11"
  proof -
    have "(word_of_int n :: byte) \<le> 11" using small_words [of n 11] that by simp
    then show ?thesis
      by (simp add: well_framed_def apart summed_payloads summed_def tkSafety_def)
  qed
next
  assume "length bs = 2"
  then obtain a b where "bs = [a, b]" by (auto simp: length_Suc_conv numeral_2_eq_2)
  then show "well_framed HOST_CMD_SET_DERPY (bs @ map of_char ''DERP'' @ [sum_list bs + sum_list (map of_char ''DERP'') + HOST_CMD_SET_DERPY])"
    by (simp add: well_framed_def summed_payloads summed_def)
qed

lemma simpleWrites_heard:
  assumes "settled p"
  shows "0 \<le> x \<Longrightarrow> x \<le> 1 \<Longrightarrow> heard (api_dropMarker (board_port E) x p)"
    and "0 \<le> x \<Longrightarrow> x \<le> 2 \<Longrightarrow> heard (lcdBacklight (board_port E) x p)"
    and "0 \<le> x \<Longrightarrow> x \<le> 2 \<Longrightarrow> heard (setAnimation (board_port E) x p)"
    and "0 \<le> x \<Longrightarrow> x \<le> 15 \<Longrightarrow> heard (setBarState (board_port E) x p)"
    and "0 \<le> x \<Longrightarrow> x \<le> 256 \<Longrightarrow> heard (setBarOutputs (board_port E) x p)"
    and "x \<in> {0, 1} \<Longrightarrow> heard (simpleWrite (board_port E) HOST_CMD_BFIN_STATE x 2 p)"
proof -
  note sw = simpleWrite_heard [OF assms _ _ in_plans(1) payload_codes(1)] simpleWrite_heard [OF assms _ _ in_plans(2) payload_codes(2)]
    simpleWrite_heard [OF assms _ _ in_plans(3) payload_codes(3)] simpleWrite_heard [OF assms _ _ in_plans(4) payload_codes(4)]
    simpleWrite_heard [OF assms _ _ in_plans(5) payload_codes(5)] simpleWrite_heard [OF assms _ _ in_plans(6) payload_codes(6)]
  note small = small_words [of x 1] small_words [of x 2] small_words [of x 15]
  show "0 \<le> x \<Longrightarrow> x \<le> 1 \<Longrightarrow> heard (api_dropMarker (board_port E) x p)"
    unfolding api_dropMarker_def by (rule sw(1)) (use small in \<open>simp_all add: codes\<close>)
  show "0 \<le> x \<Longrightarrow> x \<le> 2 \<Longrightarrow> heard (lcdBacklight (board_port E) x p)"
    unfolding lcdBacklight_def by (rule sw(2)) (use small in \<open>simp_all add: codes\<close>)
  show "0 \<le> x \<Longrightarrow> x \<le> 2 \<Longrightarrow> heard (setAnimation (board_port E) x p)"
    unfolding setAnimation_def by (rule sw(4)) (use small in \<open>simp_all add: codes\<close>)
  show "0 \<le> x \<Longrightarrow> x \<le> 15 \<Longrightarrow> heard (setBarState (board_port E) x p)"
    unfolding setBarState_def by (rule sw(6)) (use small in \<open>simp_all add: codes\<close>)
  show "0 \<le> x \<Longrightarrow> x \<le> 256 \<Longrightarrow> heard (setBarOutputs (board_port E) x p)"
    unfolding setBarOutputs_def by (rule sw(5)) (simp_all add: codes)
  show "x \<in> {0, 1} \<Longrightarrow> heard (simpleWrite (board_port E) HOST_CMD_BFIN_STATE x 2 p)"
    by (rule sw(3)) (auto simp: codes)
qed

lemma packet_heard:
  assumes "settled p" and "c \<in> fst ` set plans" and "well_framed c bs" and "c # bs = buf"
  shows "heard (acknowledged (board_port E) buf p)"
  using acknowledged_plan [OF assms(1) _ assms(3)] assms(2,4) by auto

lemma packets_heard:
  assumes "settled p"
  shows "heard (hardKill (board_port E) p)"
    and "0 \<le> x \<Longrightarrow> x \<le> 11 \<Longrightarrow> heard (setThrusterSafety (board_port E) x p)"
    and "0 \<le> x \<Longrightarrow> x \<le> 255 \<Longrightarrow> 0 \<le> y \<Longrightarrow> y \<le> 255 \<Longrightarrow> heard (setOvrParams (board_port E) x y p)"
    and "heard (setDerpySpeed (board_port E) x p)"
proof -
  have sl: "port_sleep (board_port E) n p = p" for n by (simp add: board_port_def)
  show "heard (hardKill (board_port E) p)"
    unfolding hardKill_def
    by (rule packet_heard [OF assms in_plans(7) packet_frames(1)]) (simp add: hkSafety_def codes)
  show "heard (setThrusterSafety (board_port E) x p)" if "0 \<le> x" "x \<le> 11"
    unfolding setThrusterSafety_def Let_def sl if_cancel using that
    by (simp add: packet_heard [OF assms in_plans(9) packet_frames(2) [OF that]] tkSafety_def codes)
  show "heard (setOvrParams (board_port E) x y p)" if "0 \<le> x" "x \<le> 255" "0 \<le> y" "y \<le> 255"
    unfolding setOvrParams_def Let_def using that
    by (simp add: packet_heard [OF assms in_plans(8) packet_frames(3) [of "word_of_int x" "word_of_int y"]])
  show "heard (setDerpySpeed (board_port E) x p)"
    unfolding setDerpySpeed_def Let_def
    by (rule packet_heard [OF assms in_plans(10) packet_frames(4) [of "bigEndian x"]]) (simp_all add: bigEndian_def add_ac)
qed

lemma codes_heard:
  assumes "settled p"
  shows "list_all (\<lambda>c. heard (acknowledged (board_port E) [c, c] p)) [HOST_CMD_BFRESET, HOST_CMD_DVL_ON, HOST_CMD_DVL_OFF,
    HOST_CMD_FIRE_TORP_1, HOST_CMD_FIRE_TORP_2, HOST_CMD_VOID_TORP_1, HOST_CMD_VOID_TORP_2, HOST_CMD_ARM_TORP_1,
    HOST_CMD_ARM_TORP_2, HOST_CMD_EXT_GRABBER, HOST_CMD_RET_GRABBER, HOST_CMD_VOID_GRABBER, HOST_CMD_VOID_PNEU,
    HOST_CMD_OFF_PNEU, HOST_CMD_DERPY_ON, HOST_CMD_DERPY_OFF, HOST_CMD_STOP_DERPY, HOST_CMD_CAM_RELAY_ON, HOST_CMD_CAM_RELAY_OFF]"
  using plan_codes(1) code_frames unfolding list_all_iff by (blast intro: acknowledged_code [OF assms])

text \<open>
  Property C13.  Driver and firmware understand each other: on a line that loses nothing, whatever
  the slaves and the bus do, each of these commands of the driver is taken by the master as a good
  packet and its answer is read as success or hardware failure, never as a bad checksum or an
  unknown byte; afterwards the master waits for the next command and nothing is left on the line.
\<close>

theorem driver_commands_heard:
  assumes "settled p" and "m \<in> {0, 1}" and "bl \<in> {0..2}" and "st \<in> {0..11}" and "bar \<in> {0..15}" and "an \<in> {0..2}"
    and "out \<in> {0..255}" and "a \<in> {0..255}" and "b \<in> {0..255}" and "n \<in> {1, 2}"
  shows "list_all (\<lambda>call. heard (call p))
    [hardKill (board_port E), resetBlackfin (board_port E), startBlackfin (board_port E), stopBlackfin (board_port E),
     api_dropMarker (board_port E) m, lcdBacklight (board_port E) bl, setThrusterSafety (board_port E) st,
     setBarState (board_port E) bar, setAnimation (board_port E) an, setBarOutputs (board_port E) out,
     setOvrParams (board_port E) a b, DVLOn (board_port E) switch, fireTorpedo (board_port E) n, voidTorpedo (board_port E) n,
     armTorpedo (board_port E) n, extendGrabber (board_port E), retractGrabber (board_port E), voidGrabber (board_port E),
     voidSystem (board_port E), pneumaticsOff (board_port E), setDerpyPower (board_port E) switch,
     setDerpySpeed (board_port E) speed, stopDerpy (board_port E), camConnect (board_port E), camDisconnect (board_port E)]"
  using codes_heard [OF assms(1)] packets_heard [OF assms(1)] simpleWrites_heard [OF assms(1)] assms(2-10)
  by (auto simp: resetBlackfin_def startBlackfin_def stopBlackfin_def DVLOn_def fireTorpedo_def voidTorpedo_def armTorpedo_def extendGrabber_def
      retractGrabber_def voidGrabber_def voidSystem_def pneumaticsOff_def setDerpyPower_def stopDerpy_def camConnect_def
      camDisconnect_def Let_def)

theorem driver_commands_heard_witness:
  "heard (setThrusterSafety (board_port dead_bus) 3 (started () [], [])) \<and> heard (fireTorpedo (board_port dead_bus) 2 (started () [], []))"
proof -
  have s: "settled (started () [], [])" by (simp add: settled_def attentive_def started)
  have r: "0 \<in> {0, 1 :: int}" "0 \<in> {0..2 :: int}" "3 \<in> {0..11 :: int}" "0 \<in> {0..15 :: int}" "0 \<in> {0..255 :: int}"
    "2 \<in> {1, 2 :: byte}" by simp_all
  show ?thesis
    using driver_commands_heard [OF s r(1,2,3,4,2,5,5,5,6), of dead_bus] by simp
qed

end
