(* ===== verification/DriverFaults.thy ===== *)
theory DriverFaults
  imports Link
begin

text \<open>
  What the driver makes of lines that are cut, of arguments at the edge of their range, and of
  failures in the middle of its update cycle.
\<close>

section \<open>A line with a peer that answers by a table\<close>

definition line_port :: "(byte list \<Rightarrow> byte list) \<Rightarrow> (nat \<Rightarrow> byte) \<Rightarrow> byte list port_env" where
  "line_port answer j =
     \<lparr>port_write = (\<lambda>bs q. q @ answer bs),
      port_poll = (\<lambda>t q. (q \<noteq> [], q)),
      port_read = (\<lambda>n q. if q \<noteq> [] then (Some (take n q), drop n q) else (None, q)),
      port_sleep = (\<lambda>t q. q),
      junk = j\<rparr>"

interpretation line_port: serial_line "line_port answer j" "\<lambda>q. q" "\<lambda>q. ()"
  by unfold_locales (auto simp: line_port_def)

lemma line_port_simps [simp]:
  "port_write (line_port answer j) bs q = q @ answer bs" "port_sleep (line_port answer j) t q = q"
  by (simp_all add: line_port_def)

lemma line_exchange:
  "exchange (line_port answer j) n buf [] = (case answer (take n buf) of [] \<Rightarrow> (buf, []) | b # rest \<Rightarrow> (buf[0 := b], rest))"
  by (simp add: exchange_def readData_def hasData_def writeData_def line_port_def split: list.split)

lemma line_next:
  "next_bytes (line_port answer j) off n buf q = (if q = [] then (buf, []) else (overwrite off (take n q) buf, drop n q))"
  by (simp add: next_bytes_def readData_def hasData_def line_port_def)

lemmas line_defs = line_exchange line_next acknowledged_def

section \<open>Nothing comes back\<close>

abbreviation dead_line :: "(nat \<Rightarrow> byte) \<Rightarrow> byte list port_env" where
  "dead_line j \<equiv> line_port (\<lambda>bs. []) j"

definition complains :: "int \<times> 'p \<Rightarrow> bool" where
  "complains r \<longleftrightarrow> fst r \<in> {SB_ERROR, SB_HWFAIL, -255}"

lemma dead_acknowledged: "buf ! 0 \<notin> {0xBC, 0xCC, 0xDF} \<Longrightarrow> complains (acknowledged (dead_line j) buf [])"
  by (simp add: line_defs ackCode_def complains_def)

lemma dead_simpleWrite: "c \<notin> {0xBC, 0xCC, 0xDF} \<Longrightarrow> complains (simpleWrite (dead_line j) c x limit [])"
  using dead_acknowledged [of "[c, word_of_int x, word_of_int (uint c + x)]" j] by (simp add: simpleWrite_def complains_def)

lemma dead_switch: "c \<notin> {0xBC, 0xCC, 0xDF} \<Longrightarrow> complains (acknowledged (dead_line j) [c, c] [])"
  using dead_acknowledged [of "[c, c]" j] by simp

lemma complains_early: "complains (-255, p)" "complains (SB_ERROR, p)" "complains (-1, p)"
  by (simp_all add: complains_def codes)

lemmas driver_writes = resetBlackfin_def startBlackfin_def stopBlackfin_def switchToExternalPower_def
  switchToInternalPower_def setBatteryState_def api_dropMarker_def lcdBacklight_def setBarState_def setAnimation_def
  setBarOutputs_def setDiagnostics_def

lemmas driver_packets = hardKill_def setThrusterSafety_def displayText_def setSpeeds_def setOvrParams_def DVLOn_def
  fireTorpedo_def voidTorpedo_def armTorpedo_def extendGrabber_def retractGrabber_def voidGrabber_def voidSystem_def
  pneumaticsOff_def setDerpyPower_def setDerpySpeed_def stopDerpy_def camConnect_def camDisconnect_def

lemma dead_reads:
  "fst (pingBoard (dead_line j) []) = SB_HWFAIL" "fst (checkBoard (dead_line j) []) = SB_ERROR"
  "fst (readDepth (dead_line j) []) = SB_ERROR" "fst (readStatus (dead_line j) []) = SB_ERROR"
  "fst (readThrusterState (dead_line j) []) = SB_ERROR" "fst (readBatteryEnables (dead_line j) []) = SB_ERROR"
  "fst (readBarState (dead_line j) []) = SB_ERROR" "fst (readOvrState (dead_line j) []) = SB_ERROR"
  "fst (readSpeedResponses (dead_line j) []) = SB_ERROR"
  "fst (readBatteryUsage (dead_line j) []) = 63"
  by (simp_all add: pingBoard_def checkBoard_def readDepth_def readStatus_def readThrusterState_def readBatteryEnables_def
      readBarState_def readOvrState_def readSpeedResponses_def readBatteryUsage_def simpleRead_def line_defs codes)

lemma dead_writes:
  "list_all (\<lambda>call. complains (call []))
     [startBlackfin (dead_line j), stopBlackfin (dead_line j), switchToExternalPower (dead_line j),
      switchToInternalPower (dead_line j), setBatteryState (dead_line j) x, api_dropMarker (dead_line j) x,
      lcdBacklight (dead_line j) x, setBarState (dead_line j) x, setAnimation (dead_line j) x,
      setBarOutputs (dead_line j) x, setDiagnostics (dead_line j) x]"
  by (simp add: driver_writes dead_simpleWrite codes)

lemma dead_blocks:
  "fst (fst (readTemp (dead_line j) [])) = SB_ERROR" "fst (fst (readOvrParams (dead_line j) [])) = SB_ERROR"
  "fst (fst (getSonarData (dead_line j) f (Some d) [])) = SB_ERROR"
  "fst (fst (readMotorCurrents (dead_line j) g (Some w) [])) = SB_ERROR"
  "fst (fst (readBoardVoltages (dead_line j) g (Some w) [])) = SB_ERROR"
  "fst (fst (readBatteryVoltages (dead_line j) g (Some w) [])) = SB_ERROR"
  "fst (fst (readBatteryCurrents (dead_line j) g (Some w) [])) = SB_ERROR"
  by (simp_all add: readTemp_def readOvrParams_def getSonarData_def readMotorCurrents_def readBoardVoltages_def
      readBatteryVoltages_def readBatteryCurrents_def readBlock_def line_defs codes)

lemma dead_packets:
  "list_all (\<lambda>call. complains (call []))
     [hardKill (dead_line j), setThrusterSafety (dead_line j) x, displayText (dead_line j) x (Some str),
      setSpeeds (dead_line j) s1 s2 s3 s4 s5 s6, setOvrParams (dead_line j) x y, DVLOn (dead_line j) b,
      fireTorpedo (dead_line j) b, voidTorpedo (dead_line j) b, armTorpedo (dead_line j) b, extendGrabber (dead_line j),
      retractGrabber (dead_line j), voidGrabber (dead_line j), voidSystem (dead_line j), pneumaticsOff (dead_line j),
      setDerpyPower (dead_line j) b, setDerpySpeed (dead_line j) x, stopDerpy (dead_line j), camConnect (dead_line j),
      camDisconnect (dead_line j), resetBlackfin (dead_line j)]"
  by (simp add: driver_packets resetBlackfin_def dead_acknowledged dead_switch complains_early Let_def codes)

lemma dead_line_silent:
  "hasData (dead_line j) t [] = (False, [])" "miniSleep (dead_line j) [] = []" "writeData (dead_line j) bs [] = []"
  by (simp_all add: hasData_def miniSleep_def writeData_def line_port_def)

lemma dead_sync: "syncBoard (dead_line j) [] = Some (SB_ERROR, [])"
proof -
  have d: "drain (dead_line j) [] = Some (True, [])" by (subst drain.simps) (simp add: dead_line_silent)
  have a: "syncAttempt (dead_line j) [] = (False, [])" by (simp add: syncAttempt_def dead_line_silent Let_def)
  have "syncLoop (dead_line j) n [] = (SB_ERROR, [])" for n by (induction n) (simp_all add: a)
  then show ?thesis by (simp add: syncBoard_def d)
qed

text \<open>The part of the update cycle that comes after \<open>u\<close>.\<close>

definition next_part :: "32 word \<Rightarrow> 32 word" where
  "next_part u = (if u + 1 = END_OF_UPDATES then 1 else u + 1)"

lemma dead_update:
  assumes "1 \<le> updateState i" and "updateState i \<le> 12"
  obtains r i' p where "updateOne (dead_line j) g f i [] = (Some (r, i'), p)" "updateState i' = updateState i"
    "r = (if updateState i = 11 then 63 else SB_ERROR)"
proof -
  have "unat (updateState i) \<in> {1..12}" using assms by (simp add: word_le_nat_alt)
  then have u: "unat (updateState i) \<in> {1, 2, 3, 4, 5, 6, 7, 8, 9, 10, 11, 12}" by (auto simp: numeral_eq_Suc le_Suc_eq)
  then have "updateState i \<in> {1, 2, 3, 4, 5, 6, 7, 8, 9, 10, 11, 12}" by (simp add: word_eq_iff_unsigned [where 'a = nat])
  then have "\<exists>r i' p. updateOne (dead_line j) g f i [] = (Some (r, i'), p) \<and> updateState i' = updateState i
      \<and> r = (if updateState i = 11 then 63 else SB_ERROR)"
    using dead_reads(4-8,10) [of j] dead_blocks(1) [of j] dead_blocks(3) [of j f "info_sonar i"] dead_blocks(4-7) [of j g "info_power i"]
    by (auto simp: updateOne_def Let_def split: prod.split)
  then show thesis using that by blast
qed

lemma dead_partialRead:
  "fst (fst (partialRead (dead_line j) g f (Some i) [])) =
     (if next_part (updateState i) = 11 then SB_OK
      else if 1 \<le> next_part (updateState i) \<and> next_part (updateState i) \<le> 12 then SB_ERROR else SB_OK)"
proof -
  let ?i = "i\<lparr>updateState := next_part (updateState i)\<rparr>"
  have q: "(if updateState (i\<lparr>updateState := updateState i + 1\<rparr>) = END_OF_UPDATES
      then i\<lparr>updateState := updateState i + 1, updateState := 1\<rparr> else i\<lparr>updateState := updateState i + 1\<rparr>) = ?i"
    by (simp add: next_part_def)
  note r = partialRead_def [of "dead_line j" g f "Some i" "[]", unfolded option.case Let_def q]
  show ?thesis
  proof (cases "1 \<le> next_part (updateState i) \<and> next_part (updateState i) \<le> 12")
    case True
    obtain r i' p where "updateOne (dead_line j) g f ?i [] = (Some (r, i'), p)" "updateState i' = updateState ?i"
      "r = (if updateState ?i = 11 then 63 else SB_ERROR)"
      by (rule dead_update [of ?i j g f]) (use True in simp_all)
    then show ?thesis using True unfolding r by (simp add: codes)
  next
    case False
    then have n: "next_part (updateState i) \<notin> {1, 2, 3, 4, 5, 6, 7, 8, 9, 10, 11, 12}" by auto
    then have "fst (updateOne (dead_line j) g f ?i []) = None" by (simp add: updateOne_def Let_def)
    then show ?thesis using n False unfolding r by (auto split: prod.splits)
  qed
qed

text \<open>
  Property C36.  When the board does not answer at all, every call of the driver that talks to it returns a negative code,
  and never the code for an I/O error, which the functions drop; synchronising fails after all its attempts.  There are
  two exceptions, and they belong together: the battery usage comes out as 63, all six batteries in use, and so
  the step of the update cycle that asks for it, the eleventh of the twelve, is the one that reports success.  (A counter
  of the cycle that stands beyond its twelve parts is set back with success, without asking.)
\<close>

theorem silent_board_reported:
  "list_all (\<lambda>call. complains (call []))
     [pingBoard (dead_line j), checkBoard (dead_line j), readDepth (dead_line j), readStatus (dead_line j),
      readThrusterState (dead_line j), readBatteryEnables (dead_line j), readBarState (dead_line j), readOvrState (dead_line j),
      hardKill (dead_line j), resetBlackfin (dead_line j), startBlackfin (dead_line j), stopBlackfin (dead_line j),
      switchToExternalPower (dead_line j), switchToInternalPower (dead_line j), setBatteryState (dead_line j) x,
      api_dropMarker (dead_line j) x, lcdBacklight (dead_line j) x, setThrusterSafety (dead_line j) x, setBarState (dead_line j) x,
      setAnimation (dead_line j) x, setBarOutputs (dead_line j) x, displayText (dead_line j) x (Some str),
      setSpeeds (dead_line j) s1 s2 s3 s4 s5 s6, readSpeedResponses (dead_line j), setDiagnostics (dead_line j) x,
      setOvrParams (dead_line j) x y, DVLOn (dead_line j) b, fireTorpedo (dead_line j) b, voidTorpedo (dead_line j) b,
      armTorpedo (dead_line j) b, extendGrabber (dead_line j), retractGrabber (dead_line j), voidGrabber (dead_line j),
      voidSystem (dead_line j), pneumaticsOff (dead_line j), setDerpyPower (dead_line j) b, setDerpySpeed (dead_line j) x,
      stopDerpy (dead_line j), camConnect (dead_line j), camDisconnect (dead_line j)]
   \<and> fst (fst (readTemp (dead_line j) [])) = SB_ERROR \<and> fst (fst (readOvrParams (dead_line j) [])) = SB_ERROR
   \<and> fst (fst (getSonarData (dead_line j) f (Some d) [])) = SB_ERROR
   \<and> fst (fst (readMotorCurrents (dead_line j) g (Some w) [])) = SB_ERROR
   \<and> fst (fst (readBoardVoltages (dead_line j) g (Some w) [])) = SB_ERROR
   \<and> fst (fst (readBatteryVoltages (dead_line j) g (Some w) [])) = SB_ERROR
   \<and> fst (fst (readBatteryCurrents (dead_line j) g (Some w) [])) = SB_ERROR
   \<and> syncBoard (dead_line j) [] = Some (SB_ERROR, [])
   \<and> fst (readBatteryUsage (dead_line j) []) = 63
   \<and> fst (fst (partialRead (dead_line j) g f (Some i) [])) =
       (if next_part (updateState i) = 11 then SB_OK
        else if 1 \<le> next_part (updateState i) \<and> next_part (updateState i) \<le> 12 then SB_ERROR else SB_OK)"
  using dead_writes [of j x] dead_packets [of j x str s1 s2 s3 s4 s5 s6 y b] dead_reads [of j]
  by (simp add: dead_blocks dead_sync dead_partialRead complains_def [of "pingBoard _ _"] complains_def [of "checkBoard _ _"]
      complains_def [of "readDepth _ _"] complains_def [of "readStatus _ _"] complains_def [of "readThrusterState _ _"]
      complains_def [of "readBatteryEnables _ _"] complains_def [of "readBarState _ _"] complains_def [of "readOvrState _ _"]
      complains_def [of "readSpeedResponses _ _"])

section \<open>Answers that break off\<close>

text \<open>
  If nothing but the first byte of the answer arrives, the driver reports success for
  temperatures and for the sonar: seven temperatures of zero, and a sonar packet of zeros.  The
  arrays are cleared beforehand, the code of the answer is still in the place of the checksum, and
  the two agree.
\<close>

theorem broken_off_answers_accepted:
  assumes "answer [HOST_CMD_TEMPERATURE, HOST_CMD_TEMPERATURE] = [HOST_REPLY_TEMPERATURE]"
    and "answer [HOST_CMD_SONAR, HOST_CMD_SONAR] = [HOST_REPLY_SONAR]"
  shows "readTemp (line_port answer j) [] = ((SB_OK, replicate 7 0), [])
    \<and> getSonarData (line_port answer j) f (Some d) [] = ((SB_OK, Some (d\<lparr>vectorX := f 0, vectorY := f 0, sonar_status := 0,
        vectorZ := f 0, sonar_range := 0, timeStampSec := 0, timeStampUSec := 0, pingerID := 0\<rparr>)), [])"
proof
  show "readTemp (line_port answer j) [] = ((SB_OK, replicate 7 0), [])"
    using assms(1) by (simp add: readTemp_def Let_def line_defs sum_list_replicate NUM_TEMP_SENSORS_def codes)
  show "getSonarData (line_port answer j) f (Some d) [] = ((SB_OK, Some (d\<lparr>vectorX := f 0, vectorY := f 0, sonar_status := 0,
        vectorZ := f 0, sonar_range := 0, timeStampSec := 0, timeStampUSec := 0, pingerID := 0\<rparr>)), [])"
    using assms(2) by (simp add: getSonarData_def line_defs sum_list_replicate signed_word_at_def word_at_def word32_at_def codes)
qed

theorem broken_off_answers_accepted_witness:
  "fst (readTemp (line_port (\<lambda>bs. [hd bs + 1]) (\<lambda>i. 0)) []) = (SB_OK, [0, 0, 0, 0, 0, 0, 0])"
  using broken_off_answers_accepted [of "\<lambda>bs. [hd bs + 1]" "\<lambda>i. 0" id undefined] by (simp add: numeral_eq_Suc codes)

section \<open>Arguments at the edge\<close>

text \<open>
  The range check of the driver lets the first value above the range through: as an
  output of the LED bars 256 does what 0 does, and a third marker is refused by the master with a bad
  checksum.  The battery command is cut the other way: switching on the sixth battery, number 11, is
  refused before anything is sent.
\<close>

theorem arguments_at_the_edge:
  assumes "settled p"
  shows "setBarOutputs P 256 q = setBarOutputs P 0 q \<and> setBatteryState P 11 q = (-255, q)
    \<and> fst (api_dropMarker (board_port E) 2 p) = SB_BADCC"
proof (intro conjI)
  show "setBarOutputs P 256 q = setBarOutputs P 0 q"
  proof -
    have e: "[43, 256, 299] = ([43, 0, 43] :: byte list)" by simp
    show ?thesis by (simp add: setBarOutputs_def simpleWrite_def codes) (simp only: e)
  qed
  show "setBatteryState P 11 q = (-255, q)" by (simp add: setBatteryState_def simpleWrite_def)
  have w: "\<not> well_framed HOST_CMD_MARKER [2, HOST_CMD_MARKER + 2]" "length [2, HOST_CMD_MARKER + 2] = frame_len HOST_CMD_MARKER"
    by (simp_all add: well_framed_def frame_len_def payloads_def word_le_nat_alt codes)
  have c: "map_of (commands E) HOST_CMD_MARKER \<noteq> None" by (simp add: command_lookup)
  have "ackCode (refusal HOST_CMD_MARKER [2, HOST_CMD_MARKER + 2]) = SB_BADCC"
    by (simp add: refusal_def ackCode_def codes)
  then show "fst (api_dropMarker (board_port E) 2 p) = SB_BADCC"
    using acknowledged_refused [OF assms c w(2,1)] by (simp add: api_dropMarker_def simpleWrite_def codes)
qed

theorem arguments_at_the_edge_witness:
  "fst (api_dropMarker (board_port dead_bus) 2 (started () [], [])) = SB_BADCC"
  using arguments_at_the_edge [of "(started () [], [])" "board_port dead_bus" "(started () [], [])" dead_bus]
  by (simp add: settled_def attentive_def started)

section \<open>The update cycle\<close>

text \<open>The results of \<open>n\<close> calls in a row, each with the part of the board it asked for.\<close>

fun updates :: "'p port_env \<Rightarrow> (int \<Rightarrow> 'f) \<Rightarrow> (int \<Rightarrow> 'f) \<Rightarrow> nat \<Rightarrow> 'f boardInfo \<Rightarrow> 'p \<Rightarrow> (int \<times> nat) list" where
  "updates P g f 0 info p = []"
| "updates P g f (Suc n) info p =
     (case partialRead P g f (Some info) p of ((r, i), p) \<Rightarrow>
        (r, unat (updateState (the i))) # updates P g f n (the i) p)"

lemma updateOne_state:
  assumes "unat (updateState info) \<in> {1..12}"
  obtains r i p' where "updateOne P g f info p = (Some (r, i), p')" "updateState i = updateState info"
proof -
  have "unat (updateState info) \<in> {1, 2, 3, 4, 5, 6, 7, 8, 9, 10, 11, 12}" using assms by (auto simp: numeral_eq_Suc le_Suc_eq)
  then have "updateState info \<in> {1, 2, 3, 4, 5, 6, 7, 8, 9, 10, 11, 12}"
    by (simp add: word_eq_iff_unsigned [where 'a = nat])
  then have "\<exists>r i p'. updateOne P g f info p = (Some (r, i), p') \<and> updateState i = updateState info"
    by (auto simp: updateOne_def Let_def split: prod.split)
  then show thesis using that by blast
qed

lemma partialRead_step:
  assumes "unat (updateState info) \<le> 12"
  obtains r i p' where "partialRead P g f (Some info) p = ((r, Some i), p')"
    "unat (updateState i) = unat (updateState info) mod 12 + 1"
    "r = SB_UPDATEDONE \<longrightarrow> unat (updateState i) = 12" "r \<le> SB_UPDATEDONE"
proof -
  let ?n = "if updateState info + 1 = END_OF_UPDATES then 1 else updateState info + 1"
  let ?i = "info\<lparr>updateState := ?n\<rparr>"
  have "unat (updateState info + 1) = unat (updateState info) + 1" using assms by (simp add: unat_word_ariths)
  then have n: "unat ?n = unat (updateState info) mod 12 + 1"
    using assms by (auto simp: END_OF_UPDATES_def word_eq_iff_unsigned [where 'a = nat] mod_less)
  have "unat ?n \<in> {1..12}" unfolding n by (simp add: Suc_leI)
  then have "unat (updateState ?i) \<in> {1..12}" by simp
  have q: "(if updateState (info\<lparr>updateState := updateState info + 1\<rparr>) = END_OF_UPDATES
      then info\<lparr>updateState := updateState info + 1, updateState := 1\<rparr> else info\<lparr>updateState := updateState info + 1\<rparr>) = ?i"
    by simp
  from \<open>unat (updateState ?i) \<in> {1..12}\<close> obtain r i p' where u: "updateOne P g f ?i p = (Some (r, i), p')" "updateState i = updateState ?i"
    by (rule updateOne_state)
  have d: "updateState i = END_OF_UPDATES - 1 \<longleftrightarrow> unat (updateState i) = 12"
    by (simp add: END_OF_UPDATES_def word_eq_iff_unsigned [where 'a = nat])
  have "partialRead P g f (Some info) p = ((if updateState i = END_OF_UPDATES - 1 then if r \<ge> 0 then SB_UPDATEDONE else r
      else if r < 0 then r else SB_OK, Some i), p')"
    by (simp only: partialRead_def option.case Let_def q u(1) prod.case)
  then show thesis
    by (rule that) (use u(2) n d in \<open>auto simp: SB_UPDATEDONE_def SB_OK_def\<close>)
qed

text \<open>
  Property C35.  The update cycle makes progress whatever the board answers: call after call goes to
  the next of the twelve parts and from the last to the first, failures included, so that any twelve
  calls in a row ask for every part once; success of a whole cycle is reported only by the call that
  asked for the last part, and every other result is success of one part or a negative code.
\<close>

theorem update_cycle_goes_on:
  assumes "unat (updateState info) \<le> 12"
  shows "map snd (updates P g f n info p) = map (\<lambda>k. (unat (updateState info) + k) mod 12 + 1) [0..<n]
    \<and> list_all (\<lambda>(r, u). r \<le> SB_UPDATEDONE \<and> (r = SB_UPDATEDONE \<longrightarrow> u = 12)) (updates P g f n info p)"
  using assms
proof (induction n arbitrary: info p)
  case 0
  then show ?case by simp
next
  case (Suc n)
  obtain r i p' where i: "partialRead P g f (Some info) p = ((r, Some i), p')"
    "unat (updateState i) = unat (updateState info) mod 12 + 1" "r = SB_UPDATEDONE \<longrightarrow> unat (updateState i) = 12" "r \<le> SB_UPDATEDONE"
    by (rule partialRead_step [OF Suc.prems])
  have "unat (updateState i) \<le> 12" using i(2) by (simp add: Suc_leI)
  note IH = Suc.IH [OF this, of p']
  have "(unat (updateState i) + k) mod 12 = (unat (updateState info) + Suc k) mod 12" for k
    unfolding i(2) using mod_add_left_eq [of "unat (updateState info)" 12 "Suc k"] by simp
  then have "map (\<lambda>k. (unat (updateState info) + k) mod 12 + 1) [0..<Suc n]
      = unat (updateState i) # map (\<lambda>k. (unat (updateState i) + k) mod 12 + 1) [0..<n]"
    by (simp add: i(2) upt_conv_Cons map_Suc_upt [symmetric] del: upt_Suc)
  then show ?case using IH i by simp
qed

theorem update_cycle_goes_on_witness:
  "map snd (updates (dead_line (\<lambda>i. 0)) id id 3 \<lparr>updateState = 10, info_status = 0, info_thrusterState = 0,
      info_barState = 0, info_ovrState = 0, info_battEnabled = 0, info_battUsed = 0, info_power = undefined,
      info_temperature = [], info_sonar = undefined\<rparr> []) = [11, 12, 1]"
proof -
  let ?i = "\<lparr>updateState = 10, info_status = 0, info_thrusterState = 0,
      info_barState = 0, info_ovrState = 0, info_battEnabled = 0, info_battUsed = 0, info_power = undefined,
      info_temperature = [], info_sonar = undefined\<rparr> :: int boardInfo"
  have "unat (updateState ?i) \<le> 12" by simp
  then show ?thesis
    using update_cycle_goes_on [of ?i "dead_line (\<lambda>i. 0)" id id 3 "[]"] by (simp add: numeral_3_eq_3)
qed

end
