(* ===== verification/Uart.thy ===== *)
theory Uart
  imports Common
begin

text \<open>
  The interrupt-driven serial ports of the slaves (\<^verbatim>\<open>sbr9/uart.c\<close>): two ring buffers of 32 bytes per
  port, filled and emptied by the interrupt handlers.  The file holds the code twice, for U1 and
  for U2; a \<open>port\<close> is the state of either.
\<close>

section \<open>The state of a port\<close>

record ring =
  cells :: "byte list"
  ReadPtr :: byte
  WritePtr :: byte
  Size :: byte

text \<open>\<open>wire\<close> are the bytes handed to the transmit register so far.\<close>

record port =
  TX :: ring
  RX :: ring
  wire :: "byte list"

definition TXBUF_SIZE :: byte where "TXBUF_SIZE = 32"
definition RXBUF_SIZE :: byte where "RXBUF_SIZE = 32"

section \<open>The operations\<close>

text \<open>\<open>p\<close> is the port's state before; its buffers keep their contents.\<close>

definition U1Init :: "port \<Rightarrow> port" where
  "U1Init p = p\<lparr>TX := (TX p)\<lparr>ReadPtr := 0, WritePtr := 0, Size := 0\<rparr>,
                RX := (RX p)\<lparr>ReadPtr := 0, WritePtr := 0, Size := 0\<rparr>\<rparr>"

text \<open>One round of the receive interrupt's loop.\<close>

definition U1RXStore :: "byte \<Rightarrow> port \<Rightarrow> port" where
  "U1RXStore b p =
     (let r = RX p;
          r = r\<lparr>cells := (cells r)[unat (WritePtr r) := b]\<rparr>;
          r = r\<lparr>WritePtr := (WritePtr r + 1) AND (RXBUF_SIZE - 1)\<rparr>;
          r = (if Size r < RXBUF_SIZE - 1 then r\<lparr>Size := Size r + 1\<rparr> else r)
      in p\<lparr>RX := r\<rparr>)"

text \<open>The argument holds the bytes the receiver has when the interrupt is taken.\<close>

fun U1RXInterrupt :: "byte list \<Rightarrow> port \<Rightarrow> port" where
  "U1RXInterrupt [] p = p"
| "U1RXInterrupt (b # bs) p = U1RXInterrupt bs (U1RXStore b p)"

text \<open>The first argument counts the bytes the transmitter takes before \<^verbatim>\<open>UTXBF\<close> is set.\<close>

fun U1TXInterrupt :: "nat \<Rightarrow> port \<Rightarrow> port" where
  "U1TXInterrupt 0 p = p"
| "U1TXInterrupt (Suc room) p =
     (let r = TX p in
      if Size r > 0
      then U1TXInterrupt room
             (p\<lparr>wire := wire p @ [cells r ! unat (ReadPtr r)],
               TX := r\<lparr>ReadPtr := (ReadPtr r + 1) AND (TXBUF_SIZE - 1), Size := Size r - 1\<rparr>\<rparr>)
      else p)"

definition U1CanWrite :: "port \<Rightarrow> bool" where
  "U1CanWrite p \<longleftrightarrow> Size (TX p) < TXBUF_SIZE - 1"

definition U1CanRead :: "port \<Rightarrow> byte" where
  "U1CanRead p = Size (RX p)"

definition U1WriteByte :: "byte \<Rightarrow> port \<Rightarrow> port" where
  "U1WriteByte b p =
     (let r = TX p;
          r = r\<lparr>cells := (cells r)[unat (WritePtr r) := b]\<rparr>;
          r = r\<lparr>WritePtr := (WritePtr r + 1) AND (TXBUF_SIZE - 1)\<rparr>;
          r = r\<lparr>Size := Size r + 1\<rparr>
      in p\<lparr>TX := r\<rparr>)"

definition U1ReadByte :: "port \<Rightarrow> byte \<times> port" where
  "U1ReadByte p =
     (let r = RX p;
          r = r\<lparr>Size := Size r - 1\<rparr>;
          b = cells r ! unat (ReadPtr r);
          r = r\<lparr>ReadPtr := (ReadPtr r + 1) AND (RXBUF_SIZE - 1)\<rparr>
      in (b, p\<lparr>RX := r\<rparr>))"

definition U1ClearRXBuffer :: "port \<Rightarrow> port" where
  "U1ClearRXBuffer p = p\<lparr>RX := (RX p)\<lparr>Size := 0, ReadPtr := WritePtr (RX p)\<rparr>\<rparr>"

text \<open>
  The two ports of a chip.  \<^verbatim>\<open>UARTSendSpeed\<close> queues five bytes without asking \<^verbatim>\<open>UxCanWrite\<close>.
\<close>

record uarts =
  u1 :: port
  u2 :: port

definition UARTWriteByte :: "byte \<Rightarrow> byte \<Rightarrow> uarts \<Rightarrow> uarts" where
  "UARTWriteByte b destUart u =
     (if destUart = 0 then u\<lparr>u1 := U1WriteByte b (u1 u)\<rparr> else u\<lparr>u2 := U1WriteByte b (u2 u)\<rparr>)"

definition UARTSendSpeed :: "byte \<Rightarrow> byte \<Rightarrow> byte \<Rightarrow> byte \<Rightarrow> uarts \<Rightarrow> uarts" where
  "UARTSendSpeed addr msb lsb destUart u =
     (let u = (if destUart = 0 then u\<lparr>u1 := U1ClearRXBuffer (u1 u)\<rparr>
               else u\<lparr>u2 := U1ClearRXBuffer (u2 u)\<rparr>);
          u = UARTWriteByte 0x14 destUart u;
          u = UARTWriteByte addr destUart u;
          u = UARTWriteByte lsb destUart u;
          u = UARTWriteByte msb destUart u
      in UARTWriteByte ((0x14 + addr + msb + lsb) AND 0xFF) destUart u)"

section \<open>The queue a ring holds\<close>

definition ring_inv :: "ring \<Rightarrow> bool" where
  "ring_inv r \<longleftrightarrow> length (cells r) = 32 \<and> unat (ReadPtr r) < 32 \<and> unat (Size r) \<le> 32
     \<and> unat (WritePtr r) = (unat (ReadPtr r) + unat (Size r)) mod 32"

definition queue :: "ring \<Rightarrow> byte list" where
  "queue r = map (\<lambda>i. cells r ! ((unat (ReadPtr r) + i) mod 32)) [0..<unat (Size r)]"

lemma length_queue [simp]: "length (queue r) = unat (Size r)"
  by (simp add: queue_def)

lemma unat_wrap32: "unat (((b :: byte) + 1) AND 31) = (unat b + 1) mod 32"
proof -
  have "(b + 1) AND 31 = take_bit 5 (b + 1)"
    by (simp add: take_bit_eq_mask mask_eq_exp_minus_1)
  moreover have "unat (take_bit 5 (b + 1)) = unat (b + 1) mod 32"
    by (subst unsigned_take_bit_eq) (simp add: take_bit_eq_mod)
  ultimately have "unat ((b + 1) AND 31) = unat (b + 1) mod 32"
    by (simp only:)
  also have "\<dots> = (unat b + 1) mod 256 mod 32"
    by (simp add: unat_word_ariths)
  finally show ?thesis by (simp add: mod_mod_cancel)
qed

lemma unat_Suc_Size: "unat (n :: byte) < 255 \<Longrightarrow> unat (n + 1) = Suc (unat n)"
  by (simp add: unat_word_ariths)

lemma unat_pred_Size: "n \<noteq> 0 \<Longrightarrow> unat ((n :: byte) - 1) = unat n - 1"
  by (simp add: unat_minus_one)

definition ring_put :: "byte \<Rightarrow> ring \<Rightarrow> ring" where
  "ring_put b r = r\<lparr>cells := (cells r)[unat (WritePtr r) := b],
                    WritePtr := (WritePtr r + 1) AND 31, Size := Size r + 1\<rparr>"

definition ring_drop :: "ring \<Rightarrow> ring" where
  "ring_drop r = r\<lparr>ReadPtr := (ReadPtr r + 1) AND 31, Size := Size r - 1\<rparr>"

lemma ring_put_inv: "ring_inv r \<Longrightarrow> unat (Size r) < 32 \<Longrightarrow> ring_inv (ring_put b r)"
  by (simp add: ring_inv_def ring_put_def unat_wrap32 unat_Suc_Size mod_simps)

lemma ring_put_queue:
  assumes "ring_inv r" and "unat (Size r) < 32"
  shows "queue (ring_put b r) = queue r @ [b]"
proof -
  let ?w = "(unat (ReadPtr r) + unat (Size r)) mod 32"
  have "?w \<noteq> (unat (ReadPtr r) + i) mod 32" if "i < unat (Size r)" for i
  proof
    assume "?w = (unat (ReadPtr r) + i) mod 32"
    then have "unat (Size r) mod 32 = i mod 32"
      by (simp add: nat_mod_eq_iff)
    with that assms(2) show False by simp
  qed
  with assms show ?thesis
    by (auto simp: queue_def ring_put_def ring_inv_def unat_Suc_Size)
qed

lemma ring_drop_inv: "ring_inv r \<Longrightarrow> Size r \<noteq> 0 \<Longrightarrow> ring_inv (ring_drop r)"
proof -
  assume r: "ring_inv r" "Size r \<noteq> 0"
  then have "unat (Size r) \<noteq> 0" by (simp add: unat_eq_0)
  then have "((unat (ReadPtr r) + 1) mod 32 + (unat (Size r) - 1)) mod 32
      = (unat (ReadPtr r) + unat (Size r)) mod 32"
    by (simp only: mod_add_left_eq) simp
  then show ?thesis
    using r by (auto simp: ring_inv_def ring_drop_def unat_wrap32 unat_pred_Size)
qed

lemma ring_drop_queue:
  assumes "ring_inv r" and "Size r \<noteq> 0"
  shows "queue r = cells r ! unat (ReadPtr r) # queue (ring_drop r)"
proof -
  have n: "unat (Size r) = Suc (unat (Size r) - 1)"
    using assms(2) by (simp add: unat_eq_0 [symmetric] del: unat_eq_0)
  have "queue r = map (\<lambda>i. cells r ! ((unat (ReadPtr r) + i) mod 32)) (0 # map Suc [0..<unat (Size r) - 1])"
    unfolding queue_def by (subst n) (simp only: upt_conv_Cons map_Suc_upt zero_less_Suc)
  also have "\<dots> = cells r ! unat (ReadPtr r) # queue (ring_drop r)"
    using assms by (simp add: queue_def ring_drop_def ring_inv_def unat_wrap32 unat_pred_Size mod_simps)
  finally show ?thesis .
qed

section \<open>The contract of a byte queue\<close>

text \<open>
  What the bus code of the slaves relies on: a queue that takes \<open>room\<close> bytes and gives them back
  in order.
\<close>

locale fifo =
  fixes inv :: "'q \<Rightarrow> bool"
    and contents :: "'q \<Rightarrow> byte list"
    and put :: "byte \<Rightarrow> 'q \<Rightarrow> 'q"
    and get :: "'q \<Rightarrow> byte \<times> 'q"
    and room :: nat
  assumes put_inv: "inv q \<Longrightarrow> length (contents q) < room \<Longrightarrow> inv (put b q)"
    and put_contents: "inv q \<Longrightarrow> length (contents q) < room \<Longrightarrow> contents (put b q) = contents q @ [b]"
    and get_inv: "inv q \<Longrightarrow> contents q \<noteq> [] \<Longrightarrow> inv (snd (get q))"
    and get_contents: "inv q \<Longrightarrow> contents q \<noteq> [] \<Longrightarrow> contents q = fst (get q) # contents (snd (get q))"
begin

lemma put_all:
  assumes "inv q" and "length (contents q) + length bs \<le> room"
  shows "inv (fold put bs q) \<and> contents (fold put bs q) = contents q @ bs"
  using assms
proof (induction bs arbitrary: q)
  case (Cons b bs)
  then have "inv (put b q)" "contents (put b q) = contents q @ [b]"
    by (simp_all add: put_inv put_contents)
  with Cons show ?case by simp
qed simp

lemma get_all:
  assumes "inv q" and "n \<le> length (contents q)"
  shows "inv (((\<lambda>a. snd (get a)) ^^ n) q) \<and> contents (((\<lambda>a. snd (get a)) ^^ n) q) = drop n (contents q)"
  using assms
proof (induction n)
  case (Suc n)
  let ?q = "((\<lambda>a. snd (get a)) ^^ n) q"
  have q: "inv ?q" "contents ?q = drop n (contents q)" using Suc by simp_all
  then have "contents ?q \<noteq> []" using Suc.prems by simp
  then have "inv (snd (get ?q))" "contents (snd (get ?q)) = tl (contents ?q)"
    using q get_inv get_contents [of ?q] by (simp, metis list.sel(3))
  with q show ?case by (simp add: drop_Suc tl_drop)
qed simp

lemma nth_get:
  assumes "inv q" and "n < length (contents q)"
  shows "fst (get (((\<lambda>a. snd (get a)) ^^ n) q)) = contents q ! n"
proof -
  let ?q = "((\<lambda>a. snd (get a)) ^^ n) q"
  have "inv ?q" "contents ?q = drop n (contents q)" using get_all [of q n] assms by simp_all
  moreover have "drop n (contents q) = contents q ! n # drop (Suc n) (contents q)"
    using assms(2) by (simp add: Cons_nth_drop_Suc)
  ultimately show ?thesis using get_contents [of ?q] by simp
qed

end

section \<open>Both directions of a port are such queues\<close>

definition port_inv :: "port \<Rightarrow> bool" where
  "port_inv p \<longleftrightarrow> ring_inv (TX p) \<and> ring_inv (RX p)"

lemma U1WriteByte_put: "U1WriteByte b p = p\<lparr>TX := ring_put b (TX p)\<rparr>"
  by (simp add: U1WriteByte_def ring_put_def Let_def TXBUF_SIZE_def)

lemma U1RXStore_put: "Size (RX p) < 31 \<Longrightarrow> U1RXStore b p = p\<lparr>RX := ring_put b (RX p)\<rparr>"
  by (simp add: U1RXStore_def ring_put_def Let_def RXBUF_SIZE_def)

lemma U1ReadByte_drop:
  "U1ReadByte p = (cells (RX p) ! unat (ReadPtr (RX p)), p\<lparr>RX := ring_drop (RX p)\<rparr>)"
  by (simp add: U1ReadByte_def ring_drop_def Let_def RXBUF_SIZE_def)

lemma U1TXInterrupt_1:
  "U1TXInterrupt (Suc 0) p =
     (if Size (TX p) = 0 then p
      else p\<lparr>wire := wire p @ [cells (TX p) ! unat (ReadPtr (TX p))], TX := ring_drop (TX p)\<rparr>)"
  by (simp add: ring_drop_def Let_def TXBUF_SIZE_def word_gt_0)

lemma U1TXInterrupt_Suc:
  "U1TXInterrupt (Suc n) p = (if Size (TX p) = 0 then p else U1TXInterrupt n (U1TXInterrupt (Suc 0) p))"
  by (simp add: Let_def word_gt_0)

declare U1TXInterrupt.simps(2) [simp del]

lemma queue_eq_Nil [simp]: "queue r = [] \<longleftrightarrow> Size r = 0"
  by (simp add: queue_def unat_eq_0)

lemma Size_less_31: "Size r < 31 \<longleftrightarrow> unat (Size r) < 31"
  by (simp add: word_less_nat_alt)

definition transmit1 :: "port \<Rightarrow> byte \<times> port" where
  "transmit1 p = (let p' = U1TXInterrupt 1 p in (last (wire p'), p'))"

interpretation tx_fifo: fifo port_inv "\<lambda>p. queue (TX p)" U1WriteByte transmit1 32
proof unfold_locales
  fix p b
  assume p: "port_inv p" "length (queue (TX p)) < 32"
  show "port_inv (U1WriteByte b p)"
    using p by (simp add: port_inv_def U1WriteByte_put ring_put_inv)
  show "queue (TX (U1WriteByte b p)) = queue (TX p) @ [b]"
    using p by (simp add: port_inv_def U1WriteByte_put ring_put_queue)
next
  fix p
  assume p: "port_inv p" "queue (TX p) \<noteq> []"
  show "port_inv (snd (transmit1 p))"
    using p by (simp add: port_inv_def transmit1_def U1TXInterrupt_1 ring_drop_inv)
  show "queue (TX p) = fst (transmit1 p) # queue (TX (snd (transmit1 p)))"
    using p ring_drop_queue [of "TX p"] by (simp add: port_inv_def transmit1_def U1TXInterrupt_1)
qed

interpretation rx_fifo: fifo port_inv "\<lambda>p. queue (RX p)" U1RXStore U1ReadByte 31
proof unfold_locales
  fix p b
  assume p: "port_inv p" "length (queue (RX p)) < 31"
  show "port_inv (U1RXStore b p)"
    using p by (simp add: port_inv_def U1RXStore_put Size_less_31 ring_put_inv)
  show "queue (RX (U1RXStore b p)) = queue (RX p) @ [b]"
    using p by (simp add: port_inv_def U1RXStore_put Size_less_31 ring_put_queue)
next
  fix p
  assume p: "port_inv p" "queue (RX p) \<noteq> []"
  show "port_inv (snd (U1ReadByte p))"
    using p by (simp add: port_inv_def U1ReadByte_drop ring_drop_inv)
  show "queue (RX p) = fst (U1ReadByte p) # queue (RX (snd (U1ReadByte p)))"
    using p ring_drop_queue [of "RX p"] by (simp add: port_inv_def U1ReadByte_drop)
qed

lemma U1RXInterrupt_fold: "U1RXInterrupt bs p = fold U1RXStore bs p"
  by (induction bs arbitrary: p) simp_all

lemma U1TXInterrupt_wire:
  assumes "port_inv p"
  shows "wire (U1TXInterrupt n p) = wire p @ take n (queue (TX p))
    \<and> queue (TX (U1TXInterrupt n p)) = drop n (queue (TX p)) \<and> port_inv (U1TXInterrupt n p)"
  using assms
proof (induction n arbitrary: p)
  case (Suc n)
  show ?case
  proof (cases "Size (TX p) = 0")
    case True
    with Suc.prems show ?thesis by (simp add: U1TXInterrupt_Suc [of n p])
  next
    case False
    let ?p = "U1TXInterrupt (Suc 0) p"
    have "U1TXInterrupt (Suc n) p = U1TXInterrupt n ?p"
      using False U1TXInterrupt_Suc [of n p] by simp
    moreover have "queue (TX p) = cells (TX p) ! unat (ReadPtr (TX p)) # queue (TX ?p)"
      "wire ?p = wire p @ [cells (TX p) ! unat (ReadPtr (TX p))]"
      using False Suc.prems ring_drop_queue [of "TX p"] by (simp_all add: port_inv_def U1TXInterrupt_1)
    moreover have "port_inv ?p"
      using tx_fifo.get_inv [of p] Suc.prems False by (simp add: transmit1_def Let_def)
    ultimately show ?thesis using Suc.IH [of ?p] by simp
  qed
qed simp

section \<open>What the ports promise\<close>

definition fresh_port :: port where
  "fresh_port = (let r = \<lparr>cells = replicate 32 0, ReadPtr = 0, WritePtr = 0, Size = 0\<rparr>
                 in U1Init \<lparr>TX = r, RX = r, wire = []\<rparr>)"

lemma fresh_port: "port_inv fresh_port" "queue (TX fresh_port) = []" "queue (RX fresh_port) = []"
  "wire fresh_port = []" "Size (TX fresh_port) = 0" "Size (RX fresh_port) = 0"
  by (simp_all add: fresh_port_def U1Init_def port_inv_def ring_inv_def queue_def Let_def)

text \<open>
  Property C34.  Bytes written to a port leave it in the order they were written, after those
  already queued, whenever the transmitter takes enough of them, provided the ring has room.
\<close>

theorem uart_transmits_in_order:
  assumes "port_inv p" and "length (queue (TX p)) + length bs \<le> 32"
    and "length (queue (TX p)) + length bs \<le> n"
  shows "wire (U1TXInterrupt n (fold U1WriteByte bs p)) = wire p @ queue (TX p) @ bs"
proof -
  have "wire (fold U1WriteByte bs p) = wire p"
    by (induction bs arbitrary: p) (simp_all add: U1WriteByte_put)
  then show ?thesis
    using tx_fifo.put_all [of p bs] U1TXInterrupt_wire [of "fold U1WriteByte bs p" n] assms by simp
qed

theorem uart_transmits_in_order_witness:
  "wire (U1TXInterrupt 3 (fold U1WriteByte [7, 8, 9] fresh_port)) = [7, 8, 9]"
  using uart_transmits_in_order [of fresh_port "[7, 8, 9]" 3] by (simp add: fresh_port)

text \<open>
  What the receive interrupt stores is read back in order by \<^verbatim>\<open>U1ReadByte\<close>, after
  what was there, as long as at most 31 bytes are waiting.
\<close>

theorem uart_receives_in_order:
  assumes "port_inv p" and "length (queue (RX p)) + length bs \<le> 31"
    and "i < length (queue (RX p)) + length bs"
  shows "fst (U1ReadByte (((\<lambda>q. snd (U1ReadByte q)) ^^ i) (U1RXInterrupt bs p))) = (queue (RX p) @ bs) ! i"
proof -
  have "port_inv (U1RXInterrupt bs p) \<and> queue (RX (U1RXInterrupt bs p)) = queue (RX p) @ bs"
    using rx_fifo.put_all [OF assms(1,2)] by (simp add: U1RXInterrupt_fold)
  moreover from this have "i < length (queue (RX (U1RXInterrupt bs p)))"
    using assms(3) by (simp del: length_queue)
  ultimately show ?thesis using rx_fifo.nth_get [of "U1RXInterrupt bs p" i] by metis
qed

theorem uart_receives_in_order_witness:
  "fst (U1ReadByte (((\<lambda>q. snd (U1ReadByte q)) ^^ 1) (U1RXInterrupt [5, 6] fresh_port))) = 6"
  using uart_receives_in_order [of fresh_port "[5, 6]" 1] by (simp add: fresh_port)

lemma reads_ring:
  assumes "unat (ReadPtr (RX p)) < 32"
  shows "let q = ((\<lambda>q. snd (U1ReadByte q)) ^^ n) p in
     cells (RX q) = cells (RX p) \<and> WritePtr (RX q) = WritePtr (RX p)
     \<and> unat (ReadPtr (RX q)) = (unat (ReadPtr (RX p)) + n) mod 32 \<and> Size (RX q) = Size (RX p) - of_nat n"
proof (induction n)
  case 0
  with assms show ?case by simp
next
  case (Suc n)
  then show ?case
    by (simp add: Let_def U1ReadByte_drop ring_drop_def unat_wrap32 mod_Suc_eq)
qed

lemma U1RXStore_full:
  "\<not> Size (RX p) < 31 \<Longrightarrow> RX (U1RXStore b p) = (RX p)\<lparr>cells := (cells (RX p))[unat (WritePtr (RX p)) := b],
      WritePtr := (WritePtr (RX p) + 1) AND 31\<rparr>"
  by (simp add: U1RXStore_def RXBUF_SIZE_def Let_def)

text \<open>
  Once 32 bytes arrive unread the read and write pointers no longer agree with the
  count: the handler stores the byte, moves the write pointer and leaves the count at 31.  After
  the 31 counted bytes are read, the next byte to arrive is not the one \<^verbatim>\<open>U1ReadByte\<close> returns:
  the port has slipped by one byte for good.
\<close>

theorem uart_overflow_desynchronises:
  assumes "port_inv p" and "queue (RX p) = []" and "length bs = 31"
  shows "let q = ((\<lambda>q. snd (U1ReadByte q)) ^^ 31) (U1RXInterrupt (bs @ [b]) p)
         in U1CanRead q = 0 \<and> fst (U1ReadByte (U1RXStore c q)) = b"
proof -
  let ?f = "U1RXInterrupt bs p"
  have f: "port_inv ?f" "queue (RX ?f) = bs"
    using rx_fifo.put_all [of p bs] assms by (simp_all add: U1RXInterrupt_fold)
  then have "unat (Size (RX ?f)) = 31" using assms(3) by (metis length_queue)
  then have size: "Size (RX ?f) = 31" by (simp add: word_unat_eq_iff)
  define g where "g = U1RXStore b ?f"
  define R where "R = unat (ReadPtr (RX ?f))"
  have R: "R < 32" "unat (WritePtr (RX ?f)) = (R + 31) mod 32" "length (cells (RX ?f)) = 32"
    using f(1) size by (simp_all add: port_inv_def ring_inv_def R_def)
  have RXg: "RX g = (RX ?f)\<lparr>cells := (cells (RX ?f))[unat (WritePtr (RX ?f)) := b],
      WritePtr := (WritePtr (RX ?f) + 1) AND 31\<rparr>"
    unfolding g_def by (rule U1RXStore_full) (simp add: size)
  have "((R + 31) mod 32 + 1) mod 32 = R" using R(1) by (simp add: mod_Suc_eq)
  then have "unat ((WritePtr (RX ?f) + 1) AND 31) = R"
    by (simp only: unat_wrap32 R(2))
  then have g: "cells (RX g) = (cells (RX ?f))[(R + 31) mod 32 := b]" "unat (WritePtr (RX g)) = R"
    "unat (ReadPtr (RX g)) = R" "Size (RX g) = 31"
    by (simp_all add: RXg R(2) R_def [symmetric] size)
  define q where "q = ((\<lambda>q. snd (U1ReadByte q)) ^^ 31) g"
  have q: "cells (RX q) = cells (RX g)" "unat (WritePtr (RX q)) = R"
    "unat (ReadPtr (RX q)) = (R + 31) mod 32" "Size (RX q) = 0"
    using reads_ring [of g 31, unfolded Let_def g(2-4), folded q_def] R(1) g(2) by simp_all
  have "R \<noteq> (R + 31) mod 32" using R(1) by (cases "R = 0") (auto simp: mod_if)
  then have "fst (U1ReadByte (U1RXStore c q)) = b"
    using q g R by (simp add: U1ReadByte_drop U1RXStore_put ring_put_def)
  with q show ?thesis
    by (simp add: U1RXInterrupt_fold q_def g_def U1CanRead_def)
qed

theorem uart_overflow_desynchronises_witness:
  "let q = ((\<lambda>q. snd (U1ReadByte q)) ^^ 31) (U1RXInterrupt (replicate 31 0 @ [1]) fresh_port)
   in U1CanRead q = 0 \<and> fst (U1ReadByte (U1RXStore 2 q)) = 1"
  by (rule uart_overflow_desynchronises) (simp_all add: fresh_port)

text \<open>
  \<^verbatim>\<open>UARTSendSpeed\<close> queues the five bytes of a motor controller frame on the port
  asked for, the last of them the sum of the others, and leaves the other port alone; stale
  answers of that controller are dropped first.
\<close>

theorem UARTSendSpeed_frame:
  assumes "port_inv (u1 u)" and "length (queue (TX (u1 u))) + 5 \<le> 32"
  shows "let u' = UARTSendSpeed addr msb lsb 0 u in
     queue (TX (u1 u')) = queue (TX (u1 u)) @ [0x14, addr, lsb, msb, 0x14 + addr + msb + lsb]
     \<and> U1CanRead (u1 u') = 0 \<and> port_inv (u1 u') \<and> u2 u' = u2 u"
proof -
  let ?p = "U1ClearRXBuffer (u1 u)"
  let ?bs = "[0x14, addr, lsb, msb, 0x14 + addr + msb + lsb]"
  have p: "port_inv ?p" "queue (TX ?p) = queue (TX (u1 u))" "U1CanRead ?p = 0"
    using assms(1) by (simp_all add: U1ClearRXBuffer_def port_inv_def ring_inv_def U1CanRead_def)
  have "UARTSendSpeed addr msb lsb 0 u = u\<lparr>u1 := fold U1WriteByte ?bs ?p\<rparr>"
    by (simp add: UARTSendSpeed_def UARTWriteByte_def Let_def)
  moreover have "RX (fold U1WriteByte ?bs ?p) = RX ?p"
    by (simp add: U1WriteByte_put)
  ultimately show ?thesis
    using tx_fifo.put_all [of ?p ?bs] p assms(2) by (simp add: Let_def U1CanRead_def del: fold.simps fold_simps)
qed

theorem UARTSendSpeed_frame_witness:
  "queue (TX (u1 (UARTSendSpeed 3 1 2 0 \<lparr>u1 = fresh_port, u2 = fresh_port\<rparr>))) = [0x14, 3, 2, 1, 0x1A]"
  using UARTSendSpeed_frame [of "\<lparr>u1 = fresh_port, u2 = fresh_port\<rparr>" 3 1 2]
  by (simp add: fresh_port Let_def)

end
