(* ===== verification/SlaveCore.thy ===== *)
theory SlaveCore
  imports Uart Slave
begin

text \<open>
  What the slaves on the sensor board have in common: the state \<^verbatim>\<open>processData\<close> keeps between two
  bytes, the commands with arguments, and the buffer of bytes to send.  The same code stands in
  \<^verbatim>\<open>ic2.c\<close>, \<^verbatim>\<open>ic3.c\<close> and \<^verbatim>\<open>ic4.c\<close>.
\<close>

definition STATE_TOP_LEVEL :: byte where "STATE_TOP_LEVEL = 0"
definition STATE_READ_CMD :: byte where "STATE_READ_CMD = 1"
definition STATE_WRITE_CMD :: byte where "STATE_WRITE_CMD = 2"
definition STATE_WRITE_LCD :: byte where "STATE_WRITE_LCD = 3"
definition STATE_SETSPEED_U1 :: byte where "STATE_SETSPEED_U1 = 4"
definition STATE_SETSPEED_U2 :: byte where "STATE_SETSPEED_U2 = 5"

lemmas STATE_defs = STATE_TOP_LEVEL_def STATE_READ_CMD_def STATE_WRITE_CMD_def STATE_WRITE_LCD_def
  STATE_SETSPEED_U1_def STATE_SETSPEED_U2_def

record core =
  busState :: byte
  nParam :: byte
  p1 :: byte
  txPtr :: byte
  txBuf :: "byte list"
  cfgRegs :: "byte list"

text \<open>The slaves with two serial ports for motor controllers.\<close>

record ucore = core +
  uart :: uarts

section \<open>The buffer of bytes to send\<close>

text \<open>\<^verbatim>\<open>data = txBuf[txPtr++]\<close>; the test of \<^verbatim>\<open>txPtr\<close> before it has an empty body.\<close>

definition nextTx :: "'x core_scheme \<Rightarrow> (byte \<times> 'x core_scheme) option" where
  "nextTx s =
     (if unat (txPtr s) < length (txBuf s)
      then Some (txBuf s ! unat (txPtr s), s\<lparr>txPtr := txPtr s + 1\<rparr>) else None)"

definition putTx :: "nat \<Rightarrow> byte \<Rightarrow> 'x core_scheme \<Rightarrow> 'x core_scheme" where
  "putTx i b s = s\<lparr>txBuf := (txBuf s)[i := b]\<rparr>"

text \<open>\<^verbatim>\<open>txBuf[0] = sprintf(txBuf+1, str)\<close>: the characters, a zero, and their number.\<close>

fun putBytes :: "nat \<Rightarrow> byte list \<Rightarrow> 'x core_scheme \<Rightarrow> 'x core_scheme" where
  "putBytes i [] s = s"
| "putBytes i (b # bs) s = putBytes (Suc i) bs (putTx i b s)"

definition putString :: "string \<Rightarrow> 'x core_scheme \<Rightarrow> 'x core_scheme" where
  "putString str s = putTx 0 (of_nat (length str)) (putBytes 1 (map of_char str @ [0]) s)"

section \<open>Commands with arguments\<close>

text \<open>\<^verbatim>\<open>busState = st; nParam = 0;\<close>\<close>

definition expect :: "byte \<Rightarrow> 'x core_scheme \<Rightarrow> 'x core_scheme" where
  "expect st s = s\<lparr>busState := st, nParam := 0\<rparr>"

text \<open>\<^verbatim>\<open>if(nParam == 0) p1 = data; nParam++;\<close>\<close>

definition countParam :: "byte \<Rightarrow> 'x core_scheme \<Rightarrow> 'x core_scheme" where
  "countParam data s =
     (let s = (if nParam s = 0 then s\<lparr>p1 := data\<rparr> else s) in s\<lparr>nParam := nParam s + 1\<rparr>)"

definition setspeedArg :: "byte \<Rightarrow> byte \<Rightarrow> byte \<Rightarrow> 'x ucore_scheme \<Rightarrow> 'x ucore_scheme" where
  "setspeedArg U1_MM_ADDR U2_MM_ADDR data s =
     (let s = countParam data s in
      if nParam s = 2
      then let s = s\<lparr>nParam := 0\<rparr>;
               s = s\<lparr>uart := UARTSendSpeed (if busState s = STATE_SETSPEED_U1 then U1_MM_ADDR else U2_MM_ADDR)
                               (p1 s) data (if busState s = STATE_SETSPEED_U1 then 0 else 1) (uart s)\<rparr>
           in s\<lparr>busState := STATE_TOP_LEVEL\<rparr>
      else s)"

text \<open>The register number is not checked.\<close>

definition readRegArg :: "byte \<Rightarrow> 'x core_scheme \<Rightarrow> 'x core_scheme option" where
  "readRegArg data s =
     (let s = s\<lparr>nParam := 0, busState := STATE_TOP_LEVEL\<rparr>;
          s = putTx 0 1 s
      in if unat data < length (cfgRegs s) then Some (putTx 1 (cfgRegs s ! unat data) s) else None)"

definition writeRegArg :: "byte \<Rightarrow> 'x core_scheme \<Rightarrow> 'x core_scheme option" where
  "writeRegArg data s =
     (let s = countParam data s in
      if nParam s = 2
      then let s = s\<lparr>nParam := 0, busState := STATE_TOP_LEVEL\<rparr> in
           if unat (p1 s) < length (cfgRegs s) then Some (s\<lparr>cfgRegs := (cfgRegs s)[unat (p1 s) := data]\<rparr>) else None
      else Some s)"

text \<open>
  \<^verbatim>\<open>txBuf[0] = 1; if(UxCanRead()) txBuf[1] = UxReadByte(); else txBuf[1] = 0xFF;\<close>
\<close>

definition getReply_U1 :: "'x ucore_scheme \<Rightarrow> 'x ucore_scheme" where
  "getReply_U1 s =
     (let s = putTx 0 1 s in
      if U1CanRead (u1 (uart s)) \<noteq> 0
      then let (b, p) = U1ReadByte (u1 (uart s)) in putTx 1 b (s\<lparr>uart := (uart s)\<lparr>u1 := p\<rparr>\<rparr>)
      else putTx 1 0xFF s)"

definition getReply_U2 :: "'x ucore_scheme \<Rightarrow> 'x ucore_scheme" where
  "getReply_U2 s =
     (let s = putTx 0 1 s in
      if U1CanRead (u2 (uart s)) \<noteq> 0
      then let (b, p) = U1ReadByte (u2 (uart s)) in putTx 1 b (s\<lparr>uart := (uart s)\<lparr>u2 := p\<rparr>\<rparr>)
      else putTx 1 0xFF s)"

text \<open>The commands every slave of this kind knows; \<open>name\<close> is what it says to \<^verbatim>\<open>BUS_CMD_ID\<close>.\<close>

definition commonCommand :: "string \<Rightarrow> byte \<Rightarrow> 'x ucore_scheme \<Rightarrow> 'x ucore_scheme" where
  "commonCommand name data s =
     (if data = BUS_CMD_PING then putTx 0 0 s
      else if data = BUS_CMD_ID then putString name s
      else if data = BUS_CMD_READ_REG then expect STATE_READ_CMD s
      else if data = BUS_CMD_WRITE_REG then expect STATE_WRITE_CMD s
      else if data = BUS_CMD_SETSPEED_U1 then expect STATE_SETSPEED_U1 s
      else if data = BUS_CMD_SETSPEED_U2 then expect STATE_SETSPEED_U2 s
      else if data = BUS_CMD_GETREPLY_U1 then getReply_U1 s
      else if data = BUS_CMD_GETREPLY_U2 then getReply_U2 s
      else s)"

section \<open>What the operations preserve\<close>

text \<open>
  The buffers keep their sizes, at most one argument is pending, and the bus state is a known one.
\<close>

definition core_inv :: "nat \<Rightarrow> 'x core_scheme \<Rightarrow> bool" where
  "core_inv n s \<longleftrightarrow> length (txBuf s) = n \<and> length (cfgRegs s) = 16 \<and> nParam s \<le> 1 \<and> busState s \<le> 5"

lemma core_inv_txPtr [simp]: "core_inv n (s\<lparr>txPtr := p\<rparr>) = core_inv n s"
  by (simp add: core_inv_def)

lemma nextTx_inv: "core_inv n s \<Longrightarrow> nextTx s = Some (b, s') \<Longrightarrow> core_inv n s'"
  by (auto simp: nextTx_def core_inv_def split: if_splits)

lemma putTx_inv [simp]: "core_inv n (putTx i b s) = core_inv n s"
  by (simp add: putTx_def core_inv_def)

lemma putBytes_inv [simp]: "core_inv n (putBytes i bs s) = core_inv n s"
  by (induction i bs s rule: putBytes.induct) simp_all

lemma expect_inv: "core_inv n s \<Longrightarrow> st \<le> 5 \<Longrightarrow> core_inv n (expect st s)"
  by (simp add: expect_def core_inv_def)

lemma uart_inv [simp]: "core_inv n (s\<lparr>uart := u\<rparr>) = core_inv n s"
  by (simp add: core_inv_def)

lemma getReply_inv [simp]: "core_inv n (getReply_U1 s) = core_inv n s" "core_inv n (getReply_U2 s) = core_inv n s"
  by (simp_all add: getReply_U1_def getReply_U2_def Let_def split: prod.split)

lemma commonCommand_inv: "core_inv n s \<Longrightarrow> core_inv n (commonCommand name data s)"
  by (simp add: commonCommand_def putString_def expect_inv STATE_defs)

lemma nParam_cases: "(n :: byte) \<le> 1 \<Longrightarrow> n = 0 \<or> n = 1"
  by (auto simp: word_le_nat_alt word_unat_eq_iff)

lemma setspeedArg_inv: "core_inv n s \<Longrightarrow> core_inv n (setspeedArg a1 a2 data s)"
  by (auto simp: setspeedArg_def countParam_def core_inv_def STATE_defs Let_def dest: nParam_cases)

lemma readRegArg_inv: "core_inv n s \<Longrightarrow> readRegArg data s = Some s' \<Longrightarrow> core_inv n s'"
  by (auto simp: readRegArg_def core_inv_def putTx_def STATE_defs Let_def split: if_splits)

lemma writeRegArg_inv: "core_inv n s \<Longrightarrow> writeRegArg data s = Some s' \<Longrightarrow> core_inv n s'"
  by (auto simp: writeRegArg_def countParam_def core_inv_def STATE_defs Let_def dest: nParam_cases split: if_splits)

text \<open>Where they can leave an array.\<close>

lemma readRegArg_None: "length (cfgRegs s) = 16 \<Longrightarrow> readRegArg data s = None \<longleftrightarrow> 16 \<le> unat data"
  by (auto simp: readRegArg_def putTx_def Let_def)

lemma writeRegArg_None:
  "length (cfgRegs s) = 16 \<Longrightarrow> nParam s \<le> 1 \<Longrightarrow> writeRegArg data s = None \<longleftrightarrow> nParam s = 1 \<and> 16 \<le> unat (p1 s)"
  by (auto simp: writeRegArg_def countParam_def Let_def dest: nParam_cases)

end
