(* ===== verification/Lcd.thy ===== *)
theory Lcd
  imports SlaveCore
begin

text \<open>
  The LCD controller \<^verbatim>\<open>sbr9/ic2.c\<close>: its \<^verbatim>\<open>processData\<close>, the buffer of the two lines, the backlight and
  its timer, and the driver of the display with the pins it moves.
\<close>

section \<open>State\<close>

text \<open>
  \<open>pulses\<close> is what the display has clocked in so far: at every falling edge of \<^verbatim>\<open>LAT_E\<close> the RS line
  and the four data lines.
\<close>

record ic2 = ucore +
  lcdBuf :: "byte list"
  lcdUpdate :: byte
  LAT_BL :: bool
  T1 :: timer
  LATB :: word16
  LATD3 :: bool
  pulses :: "(bool \<times> byte) list"

section \<open>Commands of the master\<close>

definition startBlink :: "ic2 \<Rightarrow> ic2" where
  "startBlink s = s\<lparr>T1 := (T1 s)\<lparr>PR := 8000, TMR := 0, TIF := False, TIE := True, TCS := False, TCKPS := 3, TON := True\<rparr>\<rparr>"

definition ic2_command :: "byte \<Rightarrow> ic2 \<Rightarrow> ic2" where
  "ic2_command data s =
     (if data = BUS_CMD_LCD_WRITE then expect STATE_WRITE_LCD s
      else if data = BUS_CMD_LCD_REFRESH then s\<lparr>lcdUpdate := lcdUpdate s + 1\<rparr>
      else if data = BUS_CMD_LCD_LIGHT_OFF then s\<lparr>LAT_BL := False, T1 := (T1 s)\<lparr>TON := False\<rparr>\<rparr>
      else if data = BUS_CMD_LCD_LIGHT_ON then s\<lparr>LAT_BL := True, T1 := (T1 s)\<lparr>TON := False\<rparr>\<rparr>
      else if data = BUS_CMD_LCD_LIGHT_FLASH then startBlink s
      else commonCommand ''LCD Controller'' data s)"

definition writeLcdArg :: "byte \<Rightarrow> ic2 \<Rightarrow> ic2" where
  "writeLcdArg data s =
     (let s = countParam data s in
      if nParam s = 2
      then let s = s\<lparr>nParam := 0, busState := STATE_TOP_LEVEL\<rparr> in
           if p1 s < 32 then s\<lparr>lcdBuf := (lcdBuf s)[unat (p1 s) := data]\<rparr> else s
      else s)"

definition ic2_processData :: "byte \<Rightarrow> ic2 \<Rightarrow> ic2 option" where
  "ic2_processData data s =
     (let s = s\<lparr>txPtr := 0\<rparr> in
      if busState s = STATE_TOP_LEVEL then Some (ic2_command data s)
      else if busState s = STATE_SETSPEED_U1 \<or> busState s = STATE_SETSPEED_U2 then Some (setspeedArg 1 2 data s)
      else if busState s = STATE_READ_CMD then readRegArg data s
      else if busState s = STATE_WRITE_CMD then writeRegArg data s
      else if busState s = STATE_WRITE_LCD then Some (writeLcdArg data s)
      else Some s)"

definition ic2_chip :: "ic2 chip" where
  "ic2_chip = \<lparr>process = ic2_processData, next_tx = nextTx\<rparr>"

lemma ic2_chip_simps [simp]: "process ic2_chip = ic2_processData" "next_tx ic2_chip = nextTx"
  by (simp_all add: ic2_chip_def)

definition ic2_T1Interrupt :: "ic2 \<Rightarrow> ic2" where
  "ic2_T1Interrupt s = s\<lparr>T1 := (T1 s)\<lparr>TIF := False\<rparr>, LAT_BL := \<not> LAT_BL s\<rparr>"

section \<open>The display\<close>

text \<open>\<^verbatim>\<open>LAT_E\<close> is bit 4 and \<^verbatim>\<open>LAT_RS\<close> bit 5 of \<^verbatim>\<open>LATB\<close>; the data lines are bits 3 to 1 of it and \<^verbatim>\<open>LATD3\<close>.\<close>

definition setRS :: "bool \<Rightarrow> ic2 \<Rightarrow> ic2" where
  "setRS v s = s\<lparr>LATB := (if v then LATB s OR 0x20 else LATB s AND 0xFFDF)\<rparr>"

definition lcdPins :: "ic2 \<Rightarrow> bool \<times> byte" where
  "lcdPins s = (bit (LATB s) 5, ucast (LATB s AND 0x0E) OR of_bool (LATD3 s))"

definition lcdPulse :: "ic2 \<Rightarrow> ic2" where
  "lcdPulse s =
     (let s = s\<lparr>LATB := LATB s OR 0x10\<rparr>
      in s\<lparr>pulses := pulses s @ [lcdPins s], LATB := LATB s AND 0xFFEF\<rparr>)"

definition lcdWrite :: "byte \<Rightarrow> ic2 \<Rightarrow> ic2" where
  "lcdWrite b s =
     (let b = b AND 0x0F
      in s\<lparr>LATB := (LATB s AND 0xFFF1) OR ucast (b AND 0x0E), LATD3 := (b AND 0x01 = 1)\<rparr>)"

definition lcdByte :: "byte \<Rightarrow> ic2 \<Rightarrow> ic2" where
  "lcdByte b s =
     (let s = lcdWrite (drop_bit 4 (b AND 0xF0)) s;
          s = lcdPulse s;
          s = lcdWrite (b AND 0x0F) s
      in lcdPulse s)"

definition initLCD :: "ic2 \<Rightarrow> ic2" where
  "initLCD s =
     (let s = s\<lparr>LATB := 0\<rparr>;
          s = lcdWrite 0x00 s;
          s = setRS False s;
          s = lcdWrite 0x03 s;
          s = lcdPulse (lcdPulse (lcdPulse s));
          s = lcdWrite 0x02 s;
          s = lcdPulse s;
          s = lcdByte 0x2C s;
          s = lcdByte 0x0C s;
          s = lcdByte 0x01 s;
          s = lcdByte 0x06 s
      in setRS True s)"

definition lcdCmd :: "byte \<Rightarrow> ic2 \<Rightarrow> ic2" where
  "lcdCmd b s = setRS True (lcdByte b (setRS False s))"

definition lcdChar :: "byte \<Rightarrow> ic2 \<Rightarrow> ic2" where
  "lcdChar b s = lcdByte b s"

text \<open>The body of the loop of \<^verbatim>\<open>main\<close>: the buffer as it is at that moment goes to the display.\<close>

definition refresh :: "ic2 \<Rightarrow> ic2" where
  "refresh s =
     (let s = lcdCmd 0x80 s;
          s = fold (\<lambda>i s. lcdChar (lcdBuf s ! i) s) [0..<16] s;
          s = lcdCmd 0xC0 s;
          s = fold (\<lambda>i s. lcdChar (lcdBuf s ! (i + 16)) s) [0..<16] s
      in s\<lparr>lcdUpdate := lcdUpdate s - 1\<rparr>)"

section \<open>What the display sees\<close>

text \<open>Two pulses make a byte, the high half first.\<close>

fun clocked :: "(bool \<times> byte) list \<Rightarrow> (bool \<times> byte) list" where
  "clocked ((rs, h) # (rs', l) # ps) = (rs, push_bit 4 h OR l) # clocked ps"
| "clocked ps = []"

text \<open>What the driver leaves alone: everything but the pins and the pulses.\<close>

definition pins_only :: "ic2 \<Rightarrow> ic2 \<Rightarrow> bool" where
  "pins_only s s' \<longleftrightarrow> s'\<lparr>LATB := LATB s, LATD3 := LATD3 s, pulses := pulses s\<rparr> = s"

lemma pins_only_trans:
  assumes "pins_only s t" and "pins_only t u"
  shows "pins_only s u"
proof -
  have "u\<lparr>LATB := LATB s, LATD3 := LATD3 s, pulses := pulses s\<rparr>
      = (u\<lparr>LATB := LATB t, LATD3 := LATD3 t, pulses := pulses t\<rparr>)\<lparr>LATB := LATB s, LATD3 := LATD3 s, pulses := pulses s\<rparr>"
    by simp
  also have "\<dots> = t\<lparr>LATB := LATB s, LATD3 := LATD3 s, pulses := pulses s\<rparr>"
    by (simp only: assms(2) [unfolded pins_only_def])
  also have "\<dots> = s" by (rule assms(1) [unfolded pins_only_def])
  finally show ?thesis by (simp only: pins_only_def)
qed

lemma pins_only_lcdBuf: "pins_only s s' \<Longrightarrow> lcdBuf s' = lcdBuf s \<and> lcdUpdate s' = lcdUpdate s"
  unfolding pins_only_def by (metis ic2.select_convs(1,2) ic2.surjective ic2.update_convs(5,6,7))

lemma nibble_lines:
  "ucast (((B AND 0xFFF1 OR ucast (b AND 0x0E)) OR 0x10) AND 0x0E :: word16) OR of_bool (b AND 1 = 1) = b AND (0x0F :: byte)"
proof -
  have "((B AND 0xFFF1 OR ucast (b AND 0x0E)) OR 0x10) AND 0x0E = (ucast (b AND 0x0E) :: word16) AND 0x0E"
    by (simp add: bit.conj_disj_distrib2 and.assoc)
  moreover have "(b AND 1 = 1) = bit b 0"
    by (simp add: and_one_eq bit_0 odd_iff_mod_2_eq_one)
  moreover have "ucast ((ucast (b AND 0x0E) :: word16) AND 0x0E) OR of_bool (bit b 0) = b AND 0x0F"
    by (rule byte_eqI) (auto simp: bit_simps)
  ultimately show ?thesis by (simp only:)
qed

lemma rs_line [simp]:
  "bit ((B AND 0xFFF1 OR ucast ((b :: byte) AND 0x0E)) OR 0x10 :: word16) 5 = bit B 5"
  "bit ((B AND 0xFFF1 OR ucast ((b :: byte) AND 0x0E)) :: word16) 5 = bit B 5"
  "bit (C AND 0xFFEF :: word16) 5 = bit C 5" "bit (C OR 0x10 :: word16) 5 = bit C 5"
  "bit (C OR 0x20 :: word16) 5" "\<not> bit (C AND 0xFFDF :: word16) 5"
  by (simp_all add: bit_simps)

lemma lcdWrite_Pulse:
  "pulses (lcdPulse (lcdWrite b s)) = pulses s @ [(bit (LATB s) 5, b AND 0x0F)]"
  "bit (LATB (lcdPulse (lcdWrite b s))) 5 = bit (LATB s) 5"
  "pins_only s (lcdPulse (lcdWrite b s))"
proof -
  have n: "(b AND 0x0F) AND 0x0E = b AND 0x0E" "(b AND 0x0F) AND 0x01 = b AND 0x01"
    by (simp_all add: and.assoc)
  show "pulses (lcdPulse (lcdWrite b s)) = pulses s @ [(bit (LATB s) 5, b AND 0x0F)]"
    using nibble_lines [of "LATB s" b] by (simp add: lcdPulse_def lcdWrite_def lcdPins_def Let_def n)
  show "bit (LATB (lcdPulse (lcdWrite b s))) 5 = bit (LATB s) 5"
    by (simp add: lcdPulse_def lcdWrite_def Let_def n)
  show "pins_only s (lcdPulse (lcdWrite b s))"
    by (simp add: pins_only_def lcdPulse_def lcdWrite_def Let_def)
qed

lemma halves: "push_bit 4 (drop_bit 4 (b AND 0xF0)) OR (b AND 0x0F) = (b :: byte)"
  "drop_bit 4 (b AND 0xF0) AND 0x0F = drop_bit 4 (b AND 0xF0)"
  "push_bit 4 (drop_bit 4 b) AND 0xF0 OR b AND 0x0F = b"
  by (rule byte_eqI; auto simp: bit_simps)+

lemma lcdByte_shows:
  "\<exists>ps. pulses (lcdByte b s) = pulses s @ ps \<and> (\<forall>qs. clocked (ps @ qs) = (bit (LATB s) 5, b) # clocked qs)
     \<and> bit (LATB (lcdByte b s)) 5 = bit (LATB s) 5 \<and> pins_only s (lcdByte b s)"
proof -
  let ?t = "lcdPulse (lcdWrite (drop_bit 4 (b AND 0xF0)) s)"
  have t: "pulses ?t = pulses s @ [(bit (LATB s) 5, drop_bit 4 (b AND 0xF0))]" "bit (LATB ?t) 5 = bit (LATB s) 5"
    "pins_only s ?t"
    using lcdWrite_Pulse [where b = "drop_bit 4 (b AND 0xF0)" and s = s] by (simp_all only: halves)
  have "lcdByte b s = lcdPulse (lcdWrite (b AND 0x0F) ?t)"
    by (simp add: lcdByte_def Let_def)
  then show ?thesis
    using lcdWrite_Pulse [where b = "b AND 0x0F" and s = ?t] t
    by (intro exI [of _ "[(bit (LATB s) 5, drop_bit 4 (b AND 0xF0)), (bit (LATB s) 5, b AND 0x0F)]"])
      (auto simp: halves and.assoc intro: pins_only_trans)
qed

lemma rs_setRS: "bit (LATB (setRS v s)) 5 = v" "pulses (setRS v s) = pulses s" "pins_only s (setRS v s)"
  by (simp_all add: setRS_def pins_only_def)

lemma lcdCmd_shows:
  "\<exists>ps. pulses (lcdCmd b s) = pulses s @ ps \<and> (\<forall>qs. clocked (ps @ qs) = (False, b) # clocked qs)
     \<and> bit (LATB (lcdCmd b s)) 5 \<and> pins_only s (lcdCmd b s)"
proof -
  obtain ps where ps: "pulses (lcdByte b (setRS False s)) = pulses s @ ps"
    "\<forall>qs. clocked (ps @ qs) = (False, b) # clocked qs" "pins_only (setRS False s) (lcdByte b (setRS False s))"
    using lcdByte_shows [where b = b and s = "setRS False s"] by (auto simp: rs_setRS)
  then show ?thesis
    using pins_only_trans [OF rs_setRS(3) pins_only_trans [OF ps(3) rs_setRS(3)]]
    by (intro exI [of _ ps]) (simp add: lcdCmd_def rs_setRS)
qed

lemma chars_shown:
  assumes "bit (LATB s) 5"
  shows "\<exists>ps. pulses (fold (\<lambda>i s. lcdChar (lcdBuf s ! f i) s) xs s) = pulses s @ ps
    \<and> (\<forall>qs. clocked (ps @ qs) = map (\<lambda>i. (True, lcdBuf s ! f i)) xs @ clocked qs)
    \<and> bit (LATB (fold (\<lambda>i s. lcdChar (lcdBuf s ! f i) s) xs s)) 5
    \<and> pins_only s (fold (\<lambda>i s. lcdChar (lcdBuf s ! f i) s) xs s)"
  using assms
proof (induction xs arbitrary: s)
  case Nil
  then show ?case by (simp add: pins_only_def)
next
  case (Cons i xs)
  let ?b = "lcdBuf s ! f i" and ?t = "lcdChar (lcdBuf s ! f i) s"
  obtain ps where ps: "pulses ?t = pulses s @ ps" "\<forall>qs. clocked (ps @ qs) = (True, ?b) # clocked qs"
    "bit (LATB ?t) 5" "pins_only s ?t"
    using lcdByte_shows [where b = ?b and s = s] Cons.prems by (auto simp: lcdChar_def)
  have b: "lcdBuf ?t = lcdBuf s" using pins_only_lcdBuf [OF ps(4)] by simp
  obtain rs where rs: "pulses (fold (\<lambda>i s. lcdChar (lcdBuf s ! f i) s) xs ?t) = pulses ?t @ rs"
    "\<forall>qs. clocked (rs @ qs) = map (\<lambda>i. (True, lcdBuf s ! f i)) xs @ clocked qs"
    "bit (LATB (fold (\<lambda>i s. lcdChar (lcdBuf s ! f i) s) xs ?t)) 5"
    "pins_only ?t (fold (\<lambda>i s. lcdChar (lcdBuf s ! f i) s) xs ?t)"
    using Cons.IH [OF ps(3)] b by auto
  show ?case
    using ps rs pins_only_trans [OF ps(4) rs(4)] by (intro exI [of _ "ps @ rs"]) simp
qed

lemma refresh_shows:
  "\<exists>ps. pulses (refresh s) = pulses s @ ps
    \<and> (\<forall>qs. clocked (ps @ qs) = (False, 0x80) # map (\<lambda>i. (True, lcdBuf s ! i)) [0..<16]
          @ (False, 0xC0) # map (\<lambda>i. (True, lcdBuf s ! (i + 16))) [0..<16] @ clocked qs)
    \<and> lcdBuf (refresh s) = lcdBuf s \<and> lcdUpdate (refresh s) = lcdUpdate s - 1"
proof -
  obtain p1 where p1: "pulses (lcdCmd 0x80 s) = pulses s @ p1" "\<forall>qs. clocked (p1 @ qs) = (False, 0x80) # clocked qs"
    "bit (LATB (lcdCmd 0x80 s)) 5" "pins_only s (lcdCmd 0x80 s)"
    using lcdCmd_shows [where b = "0x80" and s = s] by blast
  define t where "t = fold (\<lambda>i s. lcdChar (lcdBuf s ! i) s) [0..<16] (lcdCmd 0x80 s)"
  obtain p2 where p2: "pulses t = pulses (lcdCmd 0x80 s) @ p2"
    "\<forall>qs. clocked (p2 @ qs) = map (\<lambda>i. (True, lcdBuf (lcdCmd 0x80 s) ! i)) [0..<16] @ clocked qs" "pins_only (lcdCmd 0x80 s) t"
    using chars_shown [OF p1(3), where f = "\<lambda>i. i" and xs = "[0..<16]"] unfolding t_def by blast
  obtain p3 where p3: "pulses (lcdCmd 0xC0 t) = pulses t @ p3" "\<forall>qs. clocked (p3 @ qs) = (False, 0xC0) # clocked qs"
    "bit (LATB (lcdCmd 0xC0 t)) 5" "pins_only t (lcdCmd 0xC0 t)"
    using lcdCmd_shows [where b = "0xC0" and s = t] by blast
  define u where "u = fold (\<lambda>i s. lcdChar (lcdBuf s ! (i + 16)) s) [0..<16] (lcdCmd 0xC0 t)"
  obtain p4 where p4: "pulses u = pulses (lcdCmd 0xC0 t) @ p4"
    "\<forall>qs. clocked (p4 @ qs) = map (\<lambda>i. (True, lcdBuf (lcdCmd 0xC0 t) ! (i + 16))) [0..<16] @ clocked qs"
    "pins_only (lcdCmd 0xC0 t) u"
    using chars_shown [OF p3(3), where f = "\<lambda>i. i + 16" and xs = "[0..<16]"] unfolding u_def by blast
  note b = pins_only_lcdBuf [OF p1(4)] pins_only_lcdBuf [OF p2(3)] pins_only_lcdBuf [OF p3(4)] pins_only_lcdBuf [OF p4(3)]
  have "refresh s = u\<lparr>lcdUpdate := lcdUpdate u - 1\<rparr>"
    by (simp add: refresh_def Let_def t_def u_def)
  then show ?thesis
    using p1 p2 p3 p4 b by (intro exI [of _ "p1 @ p2 @ p3 @ p4"]) (simp del: upt_Suc upt_rec_numeral)
qed

text \<open>\<^verbatim>\<open>while(lcdUpdate > 0)\<close>, when no interrupt comes in between.\<close>

function refreshAll :: "ic2 \<Rightarrow> ic2" where
  "refreshAll s = (if lcdUpdate s > 0 then refreshAll (refresh s) else s)"
  by pat_completeness auto
termination
proof (relation "measure (\<lambda>s. unat (lcdUpdate s))", goal_cases)
  case (2 s)
  have "lcdUpdate (refresh s) = lcdUpdate s - 1" using refresh_shows [of s] by blast
  with 2 show ?case by (simp add: measure_unat word_gt_0)
qed simp

declare refreshAll.simps [simp del]

section \<open>The screen\<close>

text \<open>
  The controller of the display, as its data sheet describes it: a command with the top bit set
  moves the cursor, a character goes to the cursor and moves it on.
\<close>

definition screen_step :: "bool \<times> byte \<Rightarrow> byte \<times> (byte \<Rightarrow> byte) \<Rightarrow> byte \<times> (byte \<Rightarrow> byte)" where
  "screen_step op scr =
     (case op of
        (True, b) \<Rightarrow> (fst scr + 1, (snd scr)(fst scr := b))
      | (False, b) \<Rightarrow> if bit b 7 then (b AND 0x7F, snd scr) else scr)"

definition screen :: "ic2 \<Rightarrow> byte \<Rightarrow> byte" where
  "screen s = snd (fold screen_step (clocked (pulses s)) (0, \<lambda>a. 0x20))"

text \<open>The two lines of the display are at the addresses 0x00 and 0x40.\<close>

definition place :: "nat \<Rightarrow> byte" where
  "place i = (if i < 16 then of_nat i else 0x40 + of_nat (i - 16))"

lemma clocked_append: "even (length ps) \<Longrightarrow> clocked (ps @ qs) = clocked ps @ clocked qs"
  by (induction ps rule: clocked.induct) auto

lemma characters_at:
  "fold screen_step (map (\<lambda>i. (True, f i)) [0..<n]) (a, mem)
     = (a + of_nat n, \<lambda>x. if unat (x - a) < n then f (unat (x - a)) else mem x)" if "n \<le> 16"
  using that
proof (induction n)
  case (Suc n)
  have "x = a + of_nat n \<longleftrightarrow> unat (x - a) = n" for x
  proof
    assume "unat (x - a) = n"
    then have "(of_nat (unat (x - a)) :: byte) = of_nat n" by simp
    then show "x = a + of_nat n" by (simp add: algebra_simps)
  qed (use Suc.prems in \<open>simp add: unat_of_nat take_bit_nat_def\<close>)
  then show ?case
    using Suc by (auto simp: screen_step_def fun_eq_iff less_Suc_eq algebra_simps)
qed simp

lemma places:
  assumes "i < 32"
  shows "if i < 16 then unat (place i) = i \<and> \<not> unat (place i - 0x40) < 16
    else unat (place i - 0x40) < 16 \<and> unat (place i - 0x40) + 16 = i"
proof -
  have "list_all (\<lambda>i. if i < 16 then unat (place i) = i \<and> \<not> unat (place i - 0x40) < 16
      else unat (place i - 0x40) < 16 \<and> unat (place i - 0x40) + 16 = i) [0..<32]"
    by code_simp
  then show ?thesis using assms by (simp add: list_all_iff)
qed

lemma length_clocked: "length (clocked ps) = length ps div 2"
  by (induction ps rule: clocked.induct) auto

lemma refresh_screen:
  assumes "even (length (pulses s))" and "i < 32"
  shows "even (length (pulses (refresh s))) \<and> screen (refresh s) (place i) = lcdBuf s ! i"
proof -
  obtain ps where ps: "pulses (refresh s) = pulses s @ ps"
    "\<forall>qs. clocked (ps @ qs) = (False, 0x80) # map (\<lambda>i. (True, lcdBuf s ! i)) [0..<16]
          @ (False, 0xC0) # map (\<lambda>i. (True, lcdBuf s ! (i + 16))) [0..<16] @ clocked qs"
    using refresh_shows [of s] by blast
  let ?l1 = "\<lambda>i. lcdBuf s ! i" and ?l2 = "\<lambda>i. lcdBuf s ! (i + 16)"
  obtain a mem where m: "fold screen_step (clocked (pulses s)) (0, \<lambda>a. 0x20) = (a, mem)" by fastforce
  have "clocked (pulses (refresh s)) = clocked (pulses s) @ (False, 0x80) # map (\<lambda>i. (True, ?l1 i)) [0..<16]
      @ (False, 0xC0) # map (\<lambda>i. (True, ?l2 i)) [0..<16]"
    using clocked_append [OF assms(1), of ps] ps(1) spec [OF ps(2), of "[]"] by (simp del: upt_Suc upt_rec_numeral)
  then have "fold screen_step (clocked (pulses (refresh s))) (0, \<lambda>a. 0x20)
      = (0x50, \<lambda>x. if unat (x - 0x40) < 16 then ?l2 (unat (x - 0x40))
               else if unat x < 16 then ?l1 (unat x) else mem x)"
    using characters_at [of 16 ?l1 0 mem, unfolded diff_zero] characters_at [of 16 ?l2 "0x40"]
    by (simp add: m screen_step_def del: upt_Suc upt_rec_numeral)
  then have "screen (refresh s) (place i) = lcdBuf s ! i"
    using places [OF assms(2)] by (auto simp: screen_def split: if_splits)
  moreover have "even (length ps)"
  proof -
    have "length ps div 2 = Suc (length ps) div 2"
      using arg_cong [OF spec [OF ps(2), of "[]"], of length] arg_cong [OF spec [OF ps(2), of "[(True, 0)]"], of length]
      by (simp add: length_clocked del: upt_Suc upt_rec_numeral)
    then show ?thesis by presburger
  qed
  ultimately show ?thesis using assms(1) ps(1) by simp
qed

lemma screen_refreshAll:
  assumes "even (length (pulses s))" and "lcdUpdate s > 0" and "i < 32"
  shows "screen (refreshAll s) (place i) = lcdBuf s ! i \<and> lcdBuf (refreshAll s) = lcdBuf s
    \<and> lcdUpdate (refreshAll s) = 0"
  using assms
proof (induction s rule: refreshAll.induct)
  case (1 s)
  have r: "lcdBuf (refresh s) = lcdBuf s" "even (length (pulses (refresh s)))"
    "screen (refresh s) (place i) = lcdBuf s ! i"
    using refresh_shows [of s] refresh_screen [OF "1.prems"(1,3)] by auto
  have "refreshAll s = refreshAll (refresh s)" using "1.prems"(2) by (subst refreshAll.simps) simp
  then show ?case
  proof (cases "lcdUpdate (refresh s) > 0")
    case True
    then show ?thesis using "1.IH" "1.prems"(2,3) r \<open>refreshAll s = refreshAll (refresh s)\<close> by simp
  next
    case False
    then have "refreshAll (refresh s) = refresh s" by (subst refreshAll.simps) simp
    then show ?thesis using False r \<open>refreshAll s = refreshAll (refresh s)\<close> by (simp add: word_gt_0)
  qed
qed

text \<open>
  When the master has asked for a refresh, the display shows the 32 characters of the
  buffer, each at its place, once the loop of \<^verbatim>\<open>main\<close> has worked off the requests; the buffer is as
  before and no request is left.  The bytes reach the display as nibbles on the pins, high half
  first, and whatever the display had received before does not matter.
\<close>

theorem display_shows_buffer:
  assumes "even (length (pulses s))" and "lcdUpdate s > 0" and "length (lcdBuf s) = 32"
  shows "map (\<lambda>i. screen (refreshAll s) (place i)) [0..<32] = lcdBuf s \<and> lcdBuf (refreshAll s) = lcdBuf s
    \<and> lcdUpdate (refreshAll s) = 0"
  using screen_refreshAll [OF assms(1,2)] screen_refreshAll [OF assms(1,2), of 0] assms(3)
  by (auto intro: nth_equalityI simp del: upt_Suc upt_rec_numeral)

definition ic2_start :: "uarts \<Rightarrow> ic2" where
  "ic2_start u =
     (let s = initLCD \<lparr>busState = 0, nParam = 0, p1 = 0, txPtr = 0, txBuf = replicate 30 0, cfgRegs = replicate 16 65,
        uart = u, lcdBuf = replicate 32 0x20, lcdUpdate = 0, LAT_BL = False,
        T1 = \<lparr>PR = 0, TMR = 0, TIF = False, TIE = False, TCS = False, TCKPS = 0, TON = False\<rparr>,
        LATB = 0, LATD3 = False, pulses = []\<rparr>
      in fold (\<lambda>c s. lcdChar (of_char c) s) ''Self test...    '' (lcdWrite 0 s))"

theorem display_shows_buffer_witness:
  "let s = (ic2_start \<lparr>u1 = fresh_port, u2 = fresh_port\<rparr>)\<lparr>lcdBuf := (replicate 32 0x20)[20 := 0x41], lcdUpdate := 2\<rparr>
   in screen (refreshAll s) (place 20) = 0x41"
proof -
  let ?s = "(ic2_start \<lparr>u1 = fresh_port, u2 = fresh_port\<rparr>)\<lparr>lcdBuf := (replicate 32 0x20)[20 := 0x41], lcdUpdate := 2\<rparr>"
  have p: "length (pulses (lcdByte b s)) = length (pulses s) + 2" "length (pulses (lcdPulse s)) = length (pulses s) + 1"
    "pulses (lcdWrite b s) = pulses s" "pulses (setRS v s) = pulses s" for b v s
    by (simp_all add: lcdByte_def lcdPulse_def lcdWrite_def setRS_def Let_def)
  have "even (length (pulses ?s))"
    by (simp add: ic2_start_def initLCD_def lcdChar_def p Let_def)
  then have "map (\<lambda>i. screen (refreshAll ?s) (place i)) [0..<32] ! 20 = lcdBuf ?s ! 20"
    using display_shows_buffer [of ?s] by (simp del: upt_Suc upt_rec_numeral)
  then show ?thesis by (simp add: Let_def del: upt_Suc upt_rec_numeral)
qed

end
