(* ===== verification/Temp.thy ===== *)
theory Temp
  imports SlaveCore
begin

text \<open>
  The temperature and start switch slave \<^verbatim>\<open>sbr9/ic3.c\<close>: its \<^verbatim>\<open>processData\<close> and the round of readings in
  \<^verbatim>\<open>main\<close>.  The bytes \<^verbatim>\<open>readTemp\<close> gets from the five sensors are an argument.
\<close>

section \<open>State\<close>

definition TEMP_DATA_SIZE :: nat where "TEMP_DATA_SIZE = 5"

text \<open>\<open>RB1\<close> is the pin of the start switch.\<close>

record ic3 = ucore +
  tempData :: "byte list"
  RB1 :: bool

section \<open>Commands of the master\<close>

text \<open>\<^verbatim>\<open>for(i=0; i<TEMP_DATA_SIZE; i++) txBuf[i+1] = tempData[i]; txBuf[0] = TEMP_DATA_SIZE;\<close>\<close>

definition sendTemps :: "ic3 \<Rightarrow> ic3" where
  "sendTemps s =
     putTx 0 (of_nat TEMP_DATA_SIZE) (fold (\<lambda>i s. putTx (i + 1) (tempData s ! i) s) [0..<TEMP_DATA_SIZE] s)"

text \<open>\<^verbatim>\<open>~_RB1\<close> on the one-bit value of the pin, narrowed to a byte.\<close>

definition ic3_command :: "byte \<Rightarrow> ic3 \<Rightarrow> ic3" where
  "ic3_command data s =
     (if data = BUS_CMD_STARTSW then let s = putTx 0 1 s in putTx 1 (NOT (of_bool (RB1 s))) s
      else if data = BUS_CMD_TEMP then sendTemps s
      else commonCommand ''TMP STA'' data s)"

definition ic3_processData :: "byte \<Rightarrow> ic3 \<Rightarrow> ic3 option" where
  "ic3_processData data s =
     (let s = s\<lparr>txPtr := 0\<rparr>;
          s = putTx 1 9 s in
      if busState s = STATE_TOP_LEVEL then Some (ic3_command data s)
      else if busState s = STATE_SETSPEED_U1 \<or> busState s = STATE_SETSPEED_U2 then Some (setspeedArg 3 4 data s)
      else if busState s = STATE_READ_CMD then readRegArg data s
      else if busState s = STATE_WRITE_CMD then writeRegArg data s
      else Some s)"

definition ic3_chip :: "ic3 chip" where
  "ic3_chip = \<lparr>process = ic3_processData, next_tx = nextTx\<rparr>"

lemma ic3_chip_simps [simp]: "process ic3_chip = ic3_processData" "next_tx ic3_chip = nextTx"
  by (simp_all add: ic3_chip_def)

definition ic3_checkBus :: "bool \<Rightarrow> bool \<Rightarrow> byte \<Rightarrow> ic3 slave \<Rightarrow> ic3 slave" where
  "ic3_checkBus = checkBus ic3_chip"

section \<open>The readings\<close>

text \<open>
  One round of the loop of \<^verbatim>\<open>main\<close>: \<open>readings\<close> are the five bytes \<^verbatim>\<open>readTemp\<close> returns.  A byte 255 is a
  failed reading; it makes the code restart the I2C module, and is stored all the same.
\<close>

definition readTemps :: "byte list \<Rightarrow> ic3 \<Rightarrow> ic3" where
  "readTemps readings s =
     fold (\<lambda>i s. s\<lparr>tempData := (tempData s)[i := readings ! i]\<rparr>) [0..<TEMP_DATA_SIZE] s"

definition ic3_start :: "uarts \<Rightarrow> byte list \<Rightarrow> bool \<Rightarrow> ic3" where
  "ic3_start u buf sw =
     \<lparr>busState = 0, nParam = 0, p1 = 0, txPtr = 0, txBuf = buf, cfgRegs = replicate 16 65, uart = u,
      tempData = replicate TEMP_DATA_SIZE 0, RB1 = sw\<rparr>"

section \<open>What the operations preserve\<close>

definition ic3_inv :: "ic3 \<Rightarrow> bool" where
  "ic3_inv s \<longleftrightarrow> core_inv 60 s \<and> length (tempData s) = TEMP_DATA_SIZE"

lemma upto5: "[0..<5] = [0, 1, 2, 3, 4 :: nat]"
  by (simp add: upt_conv_Cons)

lemma sendTemps_inv [simp]: "core_inv n (sendTemps s) = core_inv n s" "tempData (sendTemps s) = tempData s"
  by (simp_all add: sendTemps_def TEMP_DATA_SIZE_def upto5) (simp add: putTx_def)

lemma core_tempData [simp]:
  "tempData (putTx i b s) = tempData s" "tempData (putBytes i bs s) = tempData s"
  "tempData (expect st s) = tempData s" "tempData (countParam d s) = tempData s"
  "tempData (setspeedArg a1 a2 d s) = tempData s"
  by (simp_all add: putTx_def expect_def countParam_def setspeedArg_def Let_def)
    (induction i bs s rule: putBytes.induct; simp add: putTx_def)

lemma commonCommand_tempData [simp]: "tempData (commonCommand name d s) = tempData s"
  by (simp add: commonCommand_def putString_def getReply_U1_def getReply_U2_def Let_def split: prod.split)

lemma ic3_processData_inv:
  assumes "ic3_inv s" and "ic3_processData data s = Some s'"
  shows "ic3_inv s'"
proof -
  let ?s = "putTx 1 9 (s\<lparr>txPtr := 0\<rparr>)"
  have i: "core_inv 60 ?s" "length (tempData ?s) = 5" using assms(1) by (simp_all add: ic3_inv_def TEMP_DATA_SIZE_def)
  have "core_inv 60 (ic3_command data ?s)" "tempData (ic3_command data ?s) = tempData ?s"
    using i commonCommand_inv [OF i(1)] by (simp_all add: ic3_command_def Let_def)
  moreover have "tempData t = tempData ?s" if "readRegArg data ?s = Some t \<or> writeRegArg data ?s = Some t" for t
    using that by (auto simp: readRegArg_def writeRegArg_def countParam_def Let_def split: if_splits)
  ultimately show ?thesis
    using assms(2) i readRegArg_inv [OF i(1)] writeRegArg_inv [OF i(1)] setspeedArg_inv [OF i(1)]
    by (auto simp: ic3_processData_def ic3_inv_def TEMP_DATA_SIZE_def Let_def split: if_splits)
qed

lemma readTemps_reads:
  assumes "ic3_inv s" and "length readings = 5"
  shows "tempData (readTemps readings s) = readings" and "ic3_inv (readTemps readings s)"
proof -
  obtain a b c d e where r: "readings = [a, b, c, d, e]"
    using assms(2) by (auto simp: numeral_eq_Suc length_Suc_conv)
  obtain a' b' c' d' e' where t: "tempData s = [a', b', c', d', e']"
    using assms(1) by (auto simp: ic3_inv_def TEMP_DATA_SIZE_def numeral_eq_Suc length_Suc_conv)
  show "tempData (readTemps readings s) = readings" "ic3_inv (readTemps readings s)"
    using assms(1) t r by (simp_all add: readTemps_def TEMP_DATA_SIZE_def upto5 ic3_inv_def core_inv_def)
qed

lemma ic3_start_inv: "length buf = 60 \<Longrightarrow> ic3_inv (ic3_start u buf sw)"
  by (simp add: ic3_inv_def ic3_start_def core_inv_def TEMP_DATA_SIZE_def)

end
