(* ===== verification/Depth.thy ===== *)
theory Depth
  imports SlaveCore
begin

text \<open>
  The depth slave \<^verbatim>\<open>sbr9/ic4.c\<close>: the ADC interrupt with its ring of samples, \<^verbatim>\<open>processData\<close> with the
  camera relay, and its own wiring of the bus pins.
\<close>

section \<open>State\<close>

definition NUM_SAMPLES :: nat where "NUM_SAMPLES = 128"

text \<open>\<^verbatim>\<open>int\<close> is 16 bits and \<^verbatim>\<open>long\<close> 32 bits on the dsPIC.\<close>

record ic4 = ucore +
  avgDepth :: "32 word"
  LAT_CAM_REL :: bool
  LAT_CAM_LED :: bool
  depthArray :: "word16 list"
  dp :: nat

section \<open>The ADC interrupt\<close>

text \<open>\<^verbatim>\<open>depthArray[dp++] = ADCBUFn; if(dp >= NUM_SAMPLES) dp = 0;\<close>\<close>

definition adcStore :: "word16 \<Rightarrow> ic4 \<Rightarrow> ic4" where
  "adcStore b s =
     (let s = s\<lparr>depthArray := (depthArray s)[dp s := b], dp := dp s + 1\<rparr>
      in if dp s \<ge> NUM_SAMPLES then s\<lparr>dp := 0\<rparr> else s)"

text \<open>
  \<open>adcbuf\<close> gives the sixteen result registers \<^verbatim>\<open>ADCBUF0\<close> to \<^verbatim>\<open>ADCBUFF\<close>.  \<^verbatim>\<open>ad\<close> is a \<^verbatim>\<open>long long\<close>, far too
  wide for 128 samples to overflow; the division of C truncates.
\<close>

definition ADCInterrupt :: "(nat \<Rightarrow> word16) \<Rightarrow> ic4 \<Rightarrow> ic4" where
  "ADCInterrupt adcbuf s =
     (let s = fold (\<lambda>i. adcStore (adcbuf i)) [0..<16] s;
          ad = fold (\<lambda>i ad. ad + sint (depthArray s ! i)) [0..<NUM_SAMPLES] 0;
          ad = ad sdiv int NUM_SAMPLES
      in s\<lparr>avgDepth := word_of_int ad\<rparr>)"

section \<open>Commands of the master\<close>

definition ic4_command :: "byte \<Rightarrow> ic4 \<Rightarrow> ic4" where
  "ic4_command data s =
     (if data = BUS_CMD_CAM_RELAY_ON then s\<lparr>LAT_CAM_REL := True, LAT_CAM_LED := True\<rparr>
      else if data = BUS_CMD_CAM_RELAY_OFF then s\<lparr>LAT_CAM_REL := False, LAT_CAM_LED := False\<rparr>
      else if data = BUS_CMD_DEPTH
      then let s = putTx 0 2 s;
               s = putTx 1 (ucast (drop_bit 8 (avgDepth s AND 0xFF00))) s
           in putTx 2 (ucast (avgDepth s AND 0xFF)) s
      else commonCommand ''Depth'' data s)"

definition ic4_processData :: "byte \<Rightarrow> ic4 \<Rightarrow> ic4 option" where
  "ic4_processData data s =
     (let s = s\<lparr>txPtr := 0\<rparr> in
      if busState s = STATE_TOP_LEVEL then Some (ic4_command data s)
      else if busState s = STATE_SETSPEED_U1 \<or> busState s = STATE_SETSPEED_U2 then Some (setspeedArg 5 6 data s)
      else if busState s = STATE_READ_CMD then readRegArg data s
      else if busState s = STATE_WRITE_CMD then writeRegArg data s
      else Some s)"

definition ic4_chip :: "ic4 chip" where
  "ic4_chip = \<lparr>process = ic4_processData, next_tx = nextTx\<rparr>"

lemma ic4_chip_simps [simp]: "process ic4_chip = ic4_processData" "next_tx ic4_chip = nextTx"
  by (simp_all add: ic4_chip_def)

definition ic4_checkBus :: "bool \<Rightarrow> bool \<Rightarrow> byte \<Rightarrow> ic4 slave \<Rightarrow> ic4 slave" where
  "ic4_checkBus = checkBus ic4_chip"

text \<open>
  The state when \<^verbatim>\<open>main\<close> reaches its loop: the camera on (\<^verbatim>\<open>initCam\<close>) and a depth of 0x1234 (\<^verbatim>\<open>initADC\<close>)
  until the first interrupt.
\<close>

definition ic4_start :: "uarts \<Rightarrow> ic4" where
  "ic4_start u =
     \<lparr>busState = 0, nParam = 0, p1 = 0, txPtr = 0, txBuf = replicate 60 0, cfgRegs = replicate 16 65, uart = u,
      avgDepth = 0x1234, LAT_CAM_REL = True, LAT_CAM_LED = True,
      depthArray = replicate NUM_SAMPLES 0, dp = 0\<rparr>"

section \<open>The bus pins of this slave\<close>

text \<open>The low half of the bus is on D3-D0, the high half on B11-B8.\<close>

record ports =
  ic4_TRISB :: word16
  ic4_TRISD :: word16
  ic4_LATB :: word16
  ic4_LATD :: word16

definition ic4_readBus :: "word16 \<Rightarrow> word16 \<Rightarrow> byte" where
  "ic4_readBus PORTD PORTB = ucast ((PORTD AND 0x0F) OR drop_bit 4 (PORTB AND 0x0F00))"

definition ic4_writeBus :: "byte \<Rightarrow> ports \<Rightarrow> ports" where
  "ic4_writeBus b p = p\<lparr>
     ic4_TRISD := ic4_TRISD p AND 0xFFF0,
     ic4_TRISB := ic4_TRISB p AND 0xF0FF,
     ic4_LATD := (ic4_LATD p AND 0xFFF0) OR (ucast b AND 0x0F),
     ic4_LATB := (ic4_LATB p AND 0xF0FF) OR push_bit 4 (ucast b AND 0xF0)\<rparr>"

definition ic4_freeBus :: "ports \<Rightarrow> ports" where
  "ic4_freeBus p = p\<lparr>ic4_TRISB := ic4_TRISB p OR 0x0F00, ic4_TRISD := ic4_TRISD p OR 0x0F\<rparr>"

section \<open>What the operations preserve\<close>

definition ic4_inv :: "ic4 \<Rightarrow> bool" where
  "ic4_inv s \<longleftrightarrow> core_inv 60 s \<and> length (depthArray s) = NUM_SAMPLES \<and> dp s < NUM_SAMPLES"

lemma adcStore_inv: "ic4_inv s \<Longrightarrow> ic4_inv (adcStore b s)"
  by (auto simp: adcStore_def ic4_inv_def core_inv_def NUM_SAMPLES_def Let_def)

lemma fold_adcStore_inv: "ic4_inv s \<Longrightarrow> ic4_inv (fold (\<lambda>i. adcStore (f i)) xs s)"
  by (induction xs arbitrary: s) (simp_all add: adcStore_inv)

lemma ADCInterrupt_inv: "ic4_inv s \<Longrightarrow> ic4_inv (ADCInterrupt adcbuf s)"
  using fold_adcStore_inv [of s adcbuf "[0..<16]"]
  by (simp add: ADCInterrupt_def Let_def ic4_inv_def core_inv_def del: upt_Suc upt_rec_numeral)

definition ring_of :: "ic4 \<Rightarrow> word16 list \<times> nat" where
  "ring_of s = (depthArray s, dp s)"

lemma ring_of_core [simp]:
  "ring_of (putTx i b s) = ring_of s" "ring_of (putBytes i bs s) = ring_of s" "ring_of (expect st s) = ring_of s"
  "ring_of (setspeedArg a1 a2 d s) = ring_of s"
  by (simp_all add: ring_of_def putTx_def expect_def countParam_def setspeedArg_def Let_def)
    (induction i bs s rule: putBytes.induct; simp add: putTx_def)

lemma ring_of_command [simp]: "ring_of (commonCommand name d s) = ring_of s" "ring_of (ic4_command d s) = ring_of s"
proof -
  show c: "ring_of (commonCommand name d s) = ring_of s" for name
    by (simp add: commonCommand_def putString_def getReply_U1_def getReply_U2_def Let_def split: prod.split)
      (simp add: ring_of_def putTx_def)
  show "ring_of (ic4_command d s) = ring_of s"
    by (simp add: ic4_command_def c Let_def) (simp add: ring_of_def)
qed

lemma ic4_processData_inv:
  assumes "ic4_inv s" and "ic4_processData data s = Some s'"
  shows "ic4_inv s'" and "ring_of s' = ring_of s"
proof -
  let ?s = "s\<lparr>txPtr := 0\<rparr>"
  have i: "core_inv 60 ?s" using assms(1) by (simp add: ic4_inv_def core_inv_txPtr)
  have c: "core_inv 60 (ic4_command data ?s)"
    using i commonCommand_inv [OF i] by (simp add: ic4_command_def Let_def) (simp add: core_inv_def)
  have regs: "ring_of t = ring_of ?s" if "readRegArg data ?s = Some t \<or> writeRegArg data ?s = Some t" for t
    using that by (auto simp: readRegArg_def writeRegArg_def countParam_def Let_def ring_of_def putTx_def split: if_splits)
  have "core_inv 60 s' \<and> ring_of s' = ring_of ?s"
    using assms(2) i c regs readRegArg_inv [OF i] writeRegArg_inv [OF i] setspeedArg_inv [OF i]
    by (auto simp: ic4_processData_def Let_def split: if_splits)
  then show "ic4_inv s'" "ring_of s' = ring_of s"
    using assms(1) by (simp_all add: ic4_inv_def ring_of_def)
qed

section \<open>The ring is a window that slides over the samples\<close>

text \<open>The samples in the ring, the oldest first.\<close>

definition window :: "ic4 \<Rightarrow> word16 list" where
  "window s = drop (dp s) (depthArray s) @ take (dp s) (depthArray s)"

lemma window_length: "ic4_inv s \<Longrightarrow> length (window s) = NUM_SAMPLES"
  by (simp add: window_def ic4_inv_def)

lemma window_store:
  assumes "ic4_inv s"
  shows "window (adcStore b s) = tl (window s) @ [b]"
proof -
  have l: "length (depthArray s) = 128" "dp s < 128" using assms by (simp_all add: ic4_inv_def NUM_SAMPLES_def)
  then have d: "drop (dp s) (depthArray s) = depthArray s ! dp s # drop (Suc (dp s)) (depthArray s)"
    by (simp add: Cons_nth_drop_Suc [symmetric])
  have t: "take (Suc (dp s)) ((depthArray s)[dp s := b]) = take (dp s) (depthArray s) @ [b]"
    using l by (simp add: take_Suc_conv_app_nth)
  show ?thesis
  proof (cases "dp s = 127")
    case True
    have "drop 128 (depthArray s) = []" "(depthArray s)[127 := b] = take 128 ((depthArray s)[127 := b])" using l by simp_all
    then show ?thesis using True d t l
      by (simp add: window_def adcStore_def NUM_SAMPLES_def Let_def)
  next
    case False
    then show ?thesis using d t l by (simp add: window_def adcStore_def NUM_SAMPLES_def Let_def)
  qed
qed

lemma window_stores:
  assumes "ic4_inv s"
  shows "window (fold (\<lambda>i. adcStore (f i)) xs s) = drop (length xs) (window s @ map f xs)"
  using assms
proof (induction xs rule: rev_induct)
  case (snoc x xs)
  let ?t = "fold (\<lambda>i. adcStore (f i)) xs s"
  have "window (adcStore (f x) ?t) = tl (drop (length xs) (window s @ map f xs)) @ [f x]"
    by (simp only: snoc.IH [OF snoc.prems] window_store [OF fold_adcStore_inv [OF snoc.prems]])
  also have "\<dots> = drop (Suc (length xs)) ((window s @ map f xs) @ [f x])"
  proof -
    have "Suc (length xs) \<le> length (window s @ map f xs)"
      using window_length [OF snoc.prems] by (simp add: NUM_SAMPLES_def)
    then have "drop (Suc (length xs)) ((window s @ map f xs) @ [f x]) = drop (Suc (length xs)) (window s @ map f xs) @ [f x]"
      by (subst drop_append) simp
    then show ?thesis by (simp only: tl_drop drop_Suc)
  qed
  finally show ?case by simp
qed simp

lemma fold_sum: "fold (\<lambda>i a. a + f i) xs a = a + sum_list (map f xs)" for a :: int
  by (induction xs arbitrary: a) (simp_all add: add.assoc)

lemma sum_window: "ic4_inv s \<Longrightarrow> sum_list (map sint (depthArray s)) = sum_list (map sint (window s))"
  by (metis (no_types, lifting) add.commute append_take_drop_id map_append sum_list_append window_def)

lemma ADCInterrupt_average:
  assumes "ic4_inv s"
  shows "window (ADCInterrupt adcbuf s) = drop 16 (window s @ map adcbuf [0..<16])"
    and "avgDepth (ADCInterrupt adcbuf s)
      = word_of_int (sum_list (map sint (window (ADCInterrupt adcbuf s))) sdiv 128)"
proof -
  let ?t = "fold (\<lambda>i. adcStore (adcbuf i)) [0..<16] s"
  have w: "window (ADCInterrupt adcbuf s) = window ?t"
    by (simp add: ADCInterrupt_def Let_def window_def del: upt_Suc upt_rec_numeral)
  then show "window (ADCInterrupt adcbuf s) = drop 16 (window s @ map adcbuf [0..<16])"
    using window_stores [OF assms, of adcbuf "[0..<16]"] by simp
  have i: "ic4_inv ?t" by (rule fold_adcStore_inv [OF assms])
  have "map (\<lambda>i. sint (depthArray ?t ! i)) [0..<NUM_SAMPLES] = map sint (map (\<lambda>i. depthArray ?t ! i) [0..<length (depthArray ?t)])"
    using i by (simp add: ic4_inv_def)
  also have "\<dots> = map sint (depthArray ?t)" by (simp only: map_nth)
  finally have "sum_list (map (\<lambda>i. sint (depthArray ?t ! i)) [0..<NUM_SAMPLES]) = sum_list (map sint (window ?t))"
    using sum_window [OF i] by simp
  then show "avgDepth (ADCInterrupt adcbuf s)
      = word_of_int (sum_list (map sint (window (ADCInterrupt adcbuf s))) sdiv 128)"
    unfolding w by (simp add: ADCInterrupt_def Let_def fold_sum NUM_SAMPLES_def del: upt_Suc upt_rec_numeral)
qed

lemma ADCInterrupts_average:
  assumes "ic4_inv s" and "bufs \<noteq> []"
  shows "ic4_inv (fold ADCInterrupt bufs s)
    \<and> window (fold ADCInterrupt bufs s) = drop (16 * length bufs) (window s @ concat (map (\<lambda>buf. map buf [0..<16]) bufs))
    \<and> avgDepth (fold ADCInterrupt bufs s) = word_of_int (sum_list (map sint (window (fold ADCInterrupt bufs s))) sdiv 128)"
  using assms
proof (induction bufs rule: rev_induct)
  case (snoc buf bufs)
  let ?t = "fold ADCInterrupt bufs s"
  have t: "ic4_inv ?t \<and> window ?t = drop (16 * length bufs) (window s @ concat (map (\<lambda>buf. map buf [0..<16]) bufs))"
    using snoc by (cases "bufs = []") simp_all
  let ?w = "window s @ concat (map (\<lambda>buf. map buf [0..<16]) bufs)"
  have l: "16 * length bufs + 16 \<le> length ?w"
    using window_length [OF snoc.prems(1)] by (simp add: NUM_SAMPLES_def length_concat comp_def sum_list_triv del: upt_Suc upt_rec_numeral)
  have "16 * n + 16 \<le> length W \<Longrightarrow> drop 16 (drop (16 * n) W @ m) = drop (16 * n + 16) (W @ m)" for n and W m :: "word16 list"
    by (simp add: add.commute)
  from this [OF l]
  have "drop 16 (drop (16 * length bufs) ?w @ map buf [0..<16]) = drop (16 * length bufs + 16) (?w @ map buf [0..<16])" .
  then show ?case
    using ADCInterrupt_average [of ?t buf] ADCInterrupt_inv [of ?t buf] t
    by (simp del: upt_Suc upt_rec_numeral drop_append add: add.commute)
qed simp

text \<open>
  Property C16.  The ring of the depth slave is a window that slides over the samples of the ADC:
  after any number of interrupts the depth is the average of the last 128 samples, in whatever
  order the ring holds them.
\<close>

theorem depth_is_average:
  assumes "ic4_inv s" and "bufs \<noteq> []"
    and "ws = drop (16 * length bufs) (window s @ concat (map (\<lambda>buf. map buf [0..<16]) bufs))"
  shows "length ws = 128 \<and> avgDepth (fold ADCInterrupt bufs s) = word_of_int (sum_list (map sint ws) sdiv 128)"
  using ADCInterrupts_average [OF assms(1,2)] window_length [of "fold ADCInterrupt bufs s"] assms(3)
  by (simp add: NUM_SAMPLES_def)

text \<open>
  From the first conversion on, the depth is within the ten bits of the converter: what the header of the driver promises.
  Before it, \<open>avgDepth\<close> is the 0x1234 of the start-up, which is not.
\<close>

lemma sum_list_bounds:
  "\<forall>x\<in>set xs. (0 :: int) \<le> x \<and> x \<le> c \<Longrightarrow> 0 \<le> sum_list xs \<and> sum_list xs \<le> int (length xs) * c"
  by (induction xs) (auto simp: distrib_right)

lemma depth_of_ten_bits:
  assumes "ic4_inv s" and "bufs \<noteq> []" and "\<forall>w\<in>set (window s). w \<le> 0x3FF" and "\<forall>buf\<in>set bufs. \<forall>i. buf i \<le> 0x3FF"
  shows "0 \<le> sint (avgDepth (fold ADCInterrupt bufs s)) \<and> sint (avgDepth (fold ADCInterrupt bufs s)) \<le> 1023"
proof -
  let ?ws = "window (fold ADCInterrupt bufs s)" let ?v = "sum_list (map sint ?ws) sdiv 128"
  have a: "?ws = drop (16 * length bufs) (window s @ concat (map (\<lambda>buf. map buf [0..<16]) bufs))"
    "avgDepth (fold ADCInterrupt bufs s) = word_of_int ?v" "length ?ws = 128"
    using ADCInterrupts_average [OF assms(1,2)] window_length [of "fold ADCInterrupt bufs s"] by (simp_all add: NUM_SAMPLES_def)
  have "w \<le> 0x3FF" if "w \<in> set ?ws" for w
    using in_set_dropD [OF that [unfolded a(1)]] assms(3,4) by auto
  moreover have "0 \<le> sint w \<and> sint w \<le> 1023" if "w \<le> 0x3FF" for w :: word16
  proof -
    have u: "0 \<le> uint w" "uint w \<le> 1023" using that by (simp_all add: word_le_def)
    then have "- 32768 \<le> uint w" "uint w < 32768" by linarith+
    then have "sint w = uint w" unfolding sint_uint by (intro signed_take_bit_int_eq_self) simp_all
    then show ?thesis using u by simp
  qed
  ultimately have "0 \<le> sum_list (map sint ?ws) \<and> sum_list (map sint ?ws) \<le> int (length ?ws) * 1023"
    using sum_list_bounds [of "map sint ?ws" 1023] by simp
  then have v: "0 \<le> ?v \<and> ?v \<le> 1023" unfolding a(3) by (auto simp: signed_divide_int_def sgn_if)
  have "sint (word_of_int v :: 32 word) = v" if "0 \<le> v" "v \<le> 1023" for v
    unfolding sint_sbintrunc' using that by (intro signed_take_bit_int_eq_self) simp_all
  then show ?thesis using v a(2) by simp
qed

lemma ic4_start_inv: "ic4_inv (ic4_start u)"
  by (simp add: ic4_start_def ic4_inv_def core_inv_def NUM_SAMPLES_def)

theorem depth_is_average_witness:
  "avgDepth (fold ADCInterrupt (replicate 8 (\<lambda>i. 1000 + of_nat i)) (ic4_start \<lparr>u1 = fresh_port, u2 = fresh_port\<rparr>)) = 1007"
proof -
  let ?s = "ic4_start \<lparr>u1 = fresh_port, u2 = fresh_port\<rparr>" and ?bufs = "replicate 8 (\<lambda>i. 1000 + of_nat i) :: (nat \<Rightarrow> word16) list"
  let ?ws = "drop (16 * length ?bufs) (window ?s @ concat (map (\<lambda>buf. map buf [0..<16]) ?bufs))"
  have w: "length (window ?s) = 128" using window_length [OF ic4_start_inv] by (simp add: NUM_SAMPLES_def)
  then have "?ws = concat (replicate 8 (map (\<lambda>i. 1000 + of_nat i) [0..<16]))" by (simp del: upt_Suc upt_rec_numeral)
  moreover have "sum_list (map sint (concat (replicate 8 (map (\<lambda>i. 1000 + of_nat i :: word16) [0..<16])))) sdiv 128 = 1007"
    by code_simp
  ultimately show ?thesis
    using depth_is_average [OF ic4_start_inv, of ?bufs ?ws] by simp
qed

section \<open>The pins\<close>

lemma ic4_bus_round_trip:
  "ic4_readBus (ic4_LATD (ic4_writeBus b p)) (ic4_LATB (ic4_writeBus b p)) = b"
  "ic4_TRISD (ic4_writeBus b p) AND 0x0F = 0" "ic4_TRISB (ic4_writeBus b p) AND 0x0F00 = 0"
proof -
  show "ic4_readBus (ic4_LATD (ic4_writeBus b p)) (ic4_LATB (ic4_writeBus b p)) = b"
  proof (rule bit_word_eqI)
    fix n assume "n < LENGTH(8)"
    then have "n = 0 \<or> n = 1 \<or> n = 2 \<or> n = 3 \<or> n = 4 \<or> n = 5 \<or> n = 6 \<or> n = 7" by (simp, linarith)
    then show "bit (ic4_readBus (ic4_LATD (ic4_writeBus b p)) (ic4_LATB (ic4_writeBus b p))) n = bit b n"
      by (elim disjE) (simp_all add: ic4_readBus_def ic4_writeBus_def bit_simps)
  qed
  show "ic4_TRISD (ic4_writeBus b p) AND 0x0F = 0" "ic4_TRISB (ic4_writeBus b p) AND 0x0F00 = 0"
    by (simp_all add: ic4_writeBus_def and.assoc)
qed

end
