(* ===== verification/Distro.thy ===== *)
theory Distro
  imports SlaveCore
begin

text \<open>
  The power distribution board \<^verbatim>\<open>sbr9/distro.c\<close>, built as the file is, with \<^verbatim>\<open>DVL_INSIDE\<close> and
  \<^verbatim>\<open>DERPY_ATTACHED\<close>: the thruster enables with their overcurrent latches, the kill switch, the LED bars
  with their animations, and the loop of \<^verbatim>\<open>main\<close>.  The board has no serial ports (\<^verbatim>\<open>HAS_UART\<close> is not
  defined for it).
\<close>

section \<open>State\<close>

definition STATE_MOTRSPEEDS :: byte where "STATE_MOTRSPEEDS = 6"
definition STATE_SET_BARMODE :: byte where "STATE_SET_BARMODE = 7"
definition STATE_SET_BARS :: byte where "STATE_SET_BARS = 8"

lemmas distro_STATE_defs = STATE_defs STATE_MOTRSPEEDS_def STATE_SET_BARMODE_def STATE_SET_BARS_def

text \<open>
  \<open>LAT_MOTR n\<close> and \<open>LAT_BAR n\<close> are the pins \<^verbatim>\<open>LAT_MOTR1\<close> to \<^verbatim>\<open>LAT_MOTR6\<close> and \<^verbatim>\<open>LAT_BAR1\<close> to \<^verbatim>\<open>LAT_BAR8\<close>.  With
  this build the pins of the marker droppers are \<open>LAT_DVL\<close> and \<open>LAT_DERPY\<close>.  The last four are locals
  of \<^verbatim>\<open>main\<close> and the history of the current sensors.
\<close>

record distro = core +
  LAT_MOTR :: "nat \<Rightarrow> bool"
  LAT_DERPY :: bool
  LAT_DVL :: bool
  LAT_BAR :: "nat \<Rightarrow> bool"
  LED_STA2 :: bool
  LED_OVR :: bool
  IN_KILLSW :: bool
  ovrReg :: byte
  barMode :: byte
  barBlinkState :: byte
  oldBarState :: byte
  barDelaySteps :: byte
  mSpeeds :: "byte list"
  myTemperature :: byte
  iMotor :: "word16 list"
  refVoltage :: word16
  v5VBus :: word16
  v12VBus :: word16
  i5VBus :: word16
  i12VBus :: word16
  iAux :: word16
  iADCVal :: "nat \<Rightarrow> word16 list"
  writeIndex :: byte
  ovrTmp :: byte
  i2cErrCount :: byte

definition KILLSW_ON :: bool where [codes]: "KILLSW_ON = False"

section \<open>Thrusters\<close>

definition checkOvrReg :: "distro \<Rightarrow> distro" where
  "checkOvrReg s = s\<lparr>
     LED_OVR := ovrReg s \<noteq> 0,
     LAT_MOTR := (\<lambda>n. LAT_MOTR s n \<and> \<not> (1 \<le> n \<and> n \<le> 6 \<and> bit (ovrReg s) (n - 1))),
     LAT_DERPY := (LAT_DERPY s \<and> \<not> bit (ovrReg s) 7)\<rparr>"

text \<open>\<^verbatim>\<open>LAT_MOTRn = ~MOTR_ON; ovrReg &= ~(1 << (n-1)); checkOvrReg();\<close>\<close>

definition thrusterOff :: "nat \<Rightarrow> distro \<Rightarrow> distro" where
  "thrusterOff n s =
     checkOvrReg (s\<lparr>LAT_MOTR := (LAT_MOTR s)(n := False), ovrReg := ovrReg s AND NOT (push_bit (n - 1) 1)\<rparr>)"

definition thrusterOn :: "nat \<Rightarrow> distro \<Rightarrow> distro" where
  "thrusterOn n s =
     (if ovrReg s AND push_bit (n - 1) 1 = 0 then s\<lparr>LAT_MOTR := (LAT_MOTR s)(n := True)\<rparr> else s)"

definition derpyOff :: "distro \<Rightarrow> distro" where
  "derpyOff s = checkOvrReg (s\<lparr>LAT_DERPY := False, ovrReg := ovrReg s AND NOT 0x80\<rparr>)"

definition derpyOn :: "distro \<Rightarrow> distro" where
  "derpyOn s = (if ovrReg s AND 0x80 = 0 then s\<lparr>LAT_DERPY := True\<rparr> else s)"

definition thrusterState :: "distro \<Rightarrow> byte" where
  "thrusterState s = fold (\<lambda>n b. if LAT_MOTR s n then b OR push_bit (n - 1) 1 else b) [1, 2, 3, 4, 5, 6] 0"

definition checkKillSwitch :: "distro \<Rightarrow> distro" where
  "checkKillSwitch s =
     (if IN_KILLSW s \<noteq> KILLSW_ON
      then s\<lparr>LAT_MOTR := (\<lambda>n. if 1 \<le> n \<and> n \<le> 6 then False else LAT_MOTR s n),
             LAT_DERPY := False, ovrReg := ovrReg s AND 0x40\<rparr>
      else s)"

definition checkSafetyIndicator :: "distro \<Rightarrow> distro" where
  "checkSafetyIndicator s =
     s\<lparr>LED_STA2 := (list_ex (LAT_MOTR s) [1, 2, 3, 4, 5, 6] \<or> LAT_DVL s \<or> LAT_DERPY s)\<rparr>"

section \<open>LED bars\<close>

definition setBars :: "byte \<Rightarrow> distro \<Rightarrow> distro" where
  "setBars b s = s\<lparr>LAT_BAR := (\<lambda>n. if 1 \<le> n \<and> n \<le> 8 then bit b (n - 1) else LAT_BAR s n)\<rparr>"

definition readBars :: "distro \<Rightarrow> byte" where
  "readBars s = fold (\<lambda>n t. if LAT_BAR s n then t OR push_bit (n - 1) 1 else t) [1, 2, 3, 4, 5, 6, 7, 8] 0"

definition setBarMode :: "byte \<Rightarrow> distro \<Rightarrow> distro" where
  "setBarMode data s =
     (let s = (if barMode s = 0 then s\<lparr>oldBarState := readBars s\<rparr> else s);
          s = (if data = 0 then setBars (oldBarState s) s else s)
      in s\<lparr>barMode := data, barBlinkState := 0\<rparr>)"

definition redBlueAnim :: "byte list" where "redBlueAnim = [0xC0, 0x03, 0x30, 0x03]"
definition redGreenAnim :: "byte list" where "redGreenAnim = [0x30, 0xC0, 0x0C, 0xC0]"

text \<open>\<^verbatim>\<open>None\<close> is an access beyond one of the animations.\<close>

definition updateBars :: "distro \<Rightarrow> distro option" where
  "updateBars s =
     (if barMode s \<noteq> 0
      then if barDelaySteps s \<noteq> 0 then Some (s\<lparr>barDelaySteps := barDelaySteps s - 1\<rparr>)
           else let s = s\<lparr>barDelaySteps := 10\<rparr>;
                    s = s\<lparr>barBlinkState := barBlinkState s + 1\<rparr>;
                    s = (if barBlinkState s = 4 then s\<lparr>barBlinkState := 0\<rparr> else s);
                    i = unat (barBlinkState s)
                in if barMode s = 1
                   then if i < length redBlueAnim then Some (setBars (redBlueAnim ! i) s) else None
                   else if barMode s = 2
                   then if i < length redGreenAnim then Some (setBars (redGreenAnim ! i) s) else None
                   else Some s
      else Some s)"

section \<open>Commands of the master\<close>

text \<open>Both definitions make \<^verbatim>\<open>dropMarker\<close> return at once.\<close>

definition dropMarker :: "byte \<Rightarrow> distro \<Rightarrow> distro" where
  "dropMarker markerId s = s"

text \<open>The case labels that come once per thruster and once per bar.\<close>

definition offCodes :: "(byte \<times> nat) list" where
  "offCodes = [(BUS_CMD_THRUSTER1_OFF, 1), (BUS_CMD_THRUSTER2_OFF, 2), (BUS_CMD_THRUSTER3_OFF, 3),
     (BUS_CMD_THRUSTER4_OFF, 4), (BUS_CMD_THRUSTER5_OFF, 5), (BUS_CMD_THRUSTER6_OFF, 6)]"

definition onCodes :: "(byte \<times> nat) list" where
  "onCodes = [(BUS_CMD_THRUSTER1_ON, 1), (BUS_CMD_THRUSTER2_ON, 2), (BUS_CMD_THRUSTER3_ON, 3),
     (BUS_CMD_THRUSTER4_ON, 4), (BUS_CMD_THRUSTER5_ON, 5), (BUS_CMD_THRUSTER6_ON, 6)]"

definition barOffCodes :: "(byte \<times> nat) list" where
  "barOffCodes = [(BUS_CMD_BAR1_OFF, 1), (BUS_CMD_BAR2_OFF, 2), (BUS_CMD_BAR3_OFF, 3), (BUS_CMD_BAR4_OFF, 4),
     (BUS_CMD_BAR5_OFF, 5), (BUS_CMD_BAR6_OFF, 6), (BUS_CMD_BAR7_OFF, 7), (BUS_CMD_BAR8_OFF, 8)]"

definition barOnCodes :: "(byte \<times> nat) list" where
  "barOnCodes = [(BUS_CMD_BAR1_ON, 1), (BUS_CMD_BAR2_ON, 2), (BUS_CMD_BAR3_ON, 3), (BUS_CMD_BAR4_ON, 4),
     (BUS_CMD_BAR5_ON, 5), (BUS_CMD_BAR6_ON, 6), (BUS_CMD_BAR7_ON, 7), (BUS_CMD_BAR8_ON, 8)]"

text \<open>A 16-bit value, the high byte first.\<close>

definition putWord :: "nat \<Rightarrow> word16 \<Rightarrow> distro \<Rightarrow> distro" where
  "putWord i t s = putTx (i + 1) (ucast (t AND 0xFF)) (putTx i (ucast (drop_bit 8 t)) s)"

definition answerByte :: "byte \<Rightarrow> distro \<Rightarrow> distro" where
  "answerByte b s = putTx 1 b (putTx 0 1 s)"

definition distro_command :: "byte \<Rightarrow> distro \<Rightarrow> distro" where
  "distro_command data s =
     (case map_of offCodes data of Some n \<Rightarrow> thrusterOff n s | None \<Rightarrow>
      case map_of onCodes data of Some n \<Rightarrow> thrusterOn n s | None \<Rightarrow>
      case map_of barOffCodes data of Some n \<Rightarrow> s\<lparr>LAT_BAR := (LAT_BAR s)(n := False)\<rparr> | None \<Rightarrow>
      case map_of barOnCodes data of Some n \<Rightarrow> s\<lparr>LAT_BAR := (LAT_BAR s)(n := True)\<rparr> | None \<Rightarrow>
      if data = BUS_CMD_PING then putTx 0 0 s
      else if data = BUS_CMD_ID then putString ''PWR MRK THR'' s
      else if data = BUS_CMD_READ_REG then expect STATE_READ_CMD s
      else if data = BUS_CMD_WRITE_REG then expect STATE_WRITE_CMD s
      else if data = BUS_CMD_SET_BARS then expect STATE_SET_BARS s
      else if data = BUS_CMD_MOTRSPEEDS then expect STATE_MOTRSPEEDS s
      else if data = BUS_CMD_SETSPEED_U1 then expect STATE_SETSPEED_U1 s
      else if data = BUS_CMD_SETSPEED_U2 then expect STATE_SETSPEED_U2 s
      else if data = BUS_CMD_SET_BARMODE then expect STATE_SET_BARMODE s
      else if data = BUS_CMD_MARKER1 then dropMarker 0 s
      else if data = BUS_CMD_MARKER2 then dropMarker 1 s
      else if data = BUS_CMD_DVL_ON then s\<lparr>LAT_DVL := True\<rparr>
      else if data = BUS_CMD_DVL_OFF then s\<lparr>LAT_DVL := False\<rparr>
      else if data = BUS_CMD_DERPY_OFF then derpyOff s
      else if data = BUS_CMD_DERPY_ON then derpyOn s
      else if data = BUS_CMD_THRUSTER_STATE then answerByte (thrusterState s) s
      else if data = BUS_CMD_BAR_STATE then answerByte (readBars s) s
      else if data = BUS_CMD_BOARDSTATUS then answerByte (if IN_KILLSW s = KILLSW_ON then 0x01 else 0) s
      else if data = BUS_CMD_TEMP then answerByte (myTemperature s) s
      else if data = BUS_CMD_READ_OVR then answerByte (ovrReg s) s
      else if data = BUS_CMD_READ_IMOTOR
      then fold (\<lambda>i s. putWord (2 * i + 1) (iMotor s ! i) s) [0..<8] (putTx 0 16 s)
      else if data = BUS_CMD_READ_ASTATUS
      then putWord 9 (iAux s) (putWord 7 (i12VBus s) (putWord 5 (v12VBus s) (putWord 3 (i5VBus s)
             (putWord 1 (v5VBus s) (putTx 0 10 s)))))
      else s)"

text \<open>\<^verbatim>\<open>mSpeeds[nParam++] = data;\<close>\<close>

definition motrSpeedArg :: "byte \<Rightarrow> distro \<Rightarrow> distro option" where
  "motrSpeedArg data s =
     (if unat (nParam s) < length (mSpeeds s)
      then let s = s\<lparr>mSpeeds := (mSpeeds s)[unat (nParam s) := data], nParam := nParam s + 1\<rparr>
           in Some (if nParam s = 6 then s\<lparr>nParam := 0, busState := STATE_TOP_LEVEL\<rparr> else s)
      else None)"

text \<open>There is no case for the two states of the serial ports: a byte in them is ignored.\<close>

definition distro_processData :: "byte \<Rightarrow> distro \<Rightarrow> distro option" where
  "distro_processData data s =
     (let s = s\<lparr>txPtr := 0\<rparr> in
      if busState s = STATE_TOP_LEVEL then Some (distro_command data s)
      else if busState s = STATE_READ_CMD then readRegArg data s
      else if busState s = STATE_WRITE_CMD then writeRegArg data s
      else if busState s = STATE_MOTRSPEEDS then motrSpeedArg data s
      else if busState s = STATE_SET_BARMODE
      then Some ((setBarMode data s)\<lparr>nParam := 0, busState := STATE_TOP_LEVEL\<rparr>)
      else if busState s = STATE_SET_BARS
      then Some ((setBars data s)\<lparr>nParam := 0, busState := STATE_TOP_LEVEL\<rparr>)
      else Some s)"

definition distro_chip :: "distro chip" where
  "distro_chip = \<lparr>process = distro_processData, next_tx = nextTx\<rparr>"

lemma distro_chip_simps [simp]: "process distro_chip = distro_processData" "next_tx distro_chip = nextTx"
  by (simp_all add: distro_chip_def)

section \<open>The loop of \<^verbatim>\<open>main\<close>\<close>

text \<open>
  What the loop gets from outside in one round: the ADC channels, the byte of \<^verbatim>\<open>readTemp\<close>, and the
  floating-point conversions \<^verbatim>\<open>applyCalibration\<close> with the three pairs of constants.
\<close>

record inputs =
  adc :: "byte \<Rightarrow> word16"
  temp :: byte
  calV :: "word16 \<Rightarrow> word16"
  calI5V :: "word16 \<Rightarrow> word16"
  calI12V :: "word16 \<Rightarrow> word16"

definition IHISTORY_SIZE :: nat where "IHISTORY_SIZE = 16"

definition iADCs :: "byte list" where
  "iADCs = [0x09, 0x08, 0x07, 0x06, 0x02, 0x03, 0x04, 0x05, 0x0E, 0x0F, 0x0D]"

definition avgRow :: "nat \<Rightarrow> distro \<Rightarrow> word16" where
  "avgRow r s = of_nat (sum_list (map (\<lambda>i. unat (iADCVal s r ! i)) [0..<IHISTORY_SIZE]) div 2 ^ 4)"

definition readTemperature :: "byte \<Rightarrow> distro \<Rightarrow> distro" where
  "readTemperature reading s =
     (if reading = 255
      then if i2cErrCount s < 10 then s\<lparr>i2cErrCount := i2cErrCount s + 1\<rparr> else s\<lparr>myTemperature := 255\<rparr>
      else s\<lparr>i2cErrCount := 0, myTemperature := reading\<rparr>)"

definition sampleCurrents :: "(byte \<Rightarrow> word16) \<Rightarrow> distro \<Rightarrow> distro" where
  "sampleCurrents f s =
     (let s = s\<lparr>iADCVal := (\<lambda>r. if r < 11 then (iADCVal s r)[unat (writeIndex s) := f (iADCs ! r)] else iADCVal s r)\<rparr>;
          s = s\<lparr>writeIndex := writeIndex s + 1\<rparr>
      in if unat (writeIndex s) \<ge> IHISTORY_SIZE then s\<lparr>writeIndex := 0\<rparr> else s)"

definition measure :: "inputs \<Rightarrow> distro \<Rightarrow> distro" where
  "measure inp s = s\<lparr>
     refVoltage := adc inp 0x0A,
     v5VBus := calV inp (adc inp 0x0B),
     v12VBus := calV inp (adc inp 0x0C),
     iMotor := map (\<lambda>i. calI12V inp (avgRow i s)) [0..<8],
     i5VBus := calI5V inp (avgRow 8 s),
     i12VBus := calI12V inp (avgRow 9 s),
     iAux := calI12V inp (avgRow 10 s)\<rparr>"

text \<open>
  \<^verbatim>\<open>(cfgRegs[0] * mSpeeds[i]) / 6 + (cfgRegs[1] * 40)\<close> in the 16-bit \<^verbatim>\<open>int\<close> of the dsPIC; a product above
  32767 comes out negative.
\<close>

definition maxCurrent :: "byte \<Rightarrow> byte \<Rightarrow> byte \<Rightarrow> word16" where
  "maxCurrent c0 speed c1 =
     (let p = ucast c0 * ucast speed :: word16
      in word_of_int (sint p sdiv 6) + ucast c1 * 40)"

text \<open>One controller: a current over the limit in two checks in a row trips it.\<close>

definition overcurrent :: "nat \<Rightarrow> distro \<Rightarrow> distro option" where
  "overcurrent i s =
     (if i < length (mSpeeds s)
      then Some
        (if iMotor s ! i > maxCurrent (cfgRegs s ! 0) (mSpeeds s ! i) (cfgRegs s ! 1)
         then if ovrTmp s AND push_bit i 1 \<noteq> 0
              then checkOvrReg (s\<lparr>ovrReg := ovrReg s OR push_bit i 1\<rparr>)
              else s\<lparr>ovrTmp := ovrTmp s OR push_bit i 1\<rparr>
         else s\<lparr>ovrTmp := ovrTmp s AND NOT (push_bit i 1)\<rparr>)
      else None)"

fun overcurrents :: "nat list \<Rightarrow> distro \<Rightarrow> distro option" where
  "overcurrents [] s = Some s"
| "overcurrents (i # is) s = (case overcurrent i s of None \<Rightarrow> None | Some s \<Rightarrow> overcurrents is s)"

text \<open>\<^verbatim>\<open>for(i = 0; i < 8; i++) { if(i == 6) continue; ... }\<close>\<close>

definition checkCurrents :: "distro \<Rightarrow> distro option" where
  "checkCurrents s =
     (if writeIndex s = 0 \<and> cfgRegs s ! 1 \<noteq> 0xFF
      then overcurrents [0, 1, 2, 3, 4, 5, 7] s else Some s)"

definition distro_round :: "inputs \<Rightarrow> distro \<Rightarrow> distro option" where
  "distro_round inp s =
     (let s = checkSafetyIndicator s;
          s = checkKillSwitch s
      in case updateBars s of
           None \<Rightarrow> None
         | Some s \<Rightarrow>
             let s = readTemperature (temp inp) s;
                 s = sampleCurrents (adc inp) s;
                 s = measure inp s
             in checkCurrents s)"

text \<open>The state when \<^verbatim>\<open>main\<close> reaches its loop; the overcurrent protection is off.\<close>

definition distro_start :: "bool \<Rightarrow> distro" where
  "distro_start kill =
     \<lparr>busState = 0, nParam = 0, p1 = 0, txPtr = 0, txBuf = replicate 60 0,
      cfgRegs = (replicate 16 0)[1 := 0xFF],
      LAT_MOTR = (\<lambda>n. False), LAT_DERPY = False, LAT_DVL = False, LAT_BAR = (\<lambda>n. False),
      LED_STA2 = False, LED_OVR = False, IN_KILLSW = kill, ovrReg = 0, barMode = 0, barBlinkState = 0,
      oldBarState = 0, barDelaySteps = 0, mSpeeds = replicate 6 0, myTemperature = 255,
      iMotor = replicate 8 0, refVoltage = 0, v5VBus = 0, v12VBus = 0, i5VBus = 0, i12VBus = 0, iAux = 0,
      iADCVal = (\<lambda>r. replicate 16 0), writeIndex = 0, ovrTmp = 0, i2cErrCount = 0\<rparr>"

section \<open>Bits of a byte\<close>

lemma single_bit: "(b :: byte) AND push_bit n 1 = 0 \<longleftrightarrow> \<not> bit b n"
  by (simp add: push_bit_of_1 and_exp_eq_0_iff_not_bit)

text \<open>A loop of the form \<^verbatim>\<open>if(pin n) t |= 1 << (n-1);\<close>\<close>

lemma bit_gather:
  "bit (fold (\<lambda>n t. if P n then t OR push_bit (n - 1) 1 else t) ns a) i
     \<longleftrightarrow> bit (a :: byte) i \<or> (i < 8 \<and> (\<exists>n\<in>set ns. P n \<and> i = n - 1))"
  by (induction ns arbitrary: a) (auto simp: bit_simps)

lemma bit_thrusterState: "bit (thrusterState s) i \<longleftrightarrow> i < 6 \<and> LAT_MOTR s (i + 1)"
  unfolding thrusterState_def bit_gather by (auto simp: less_Suc_eq numeral_eq_Suc)

lemma bit_readBars: "bit (readBars s) i \<longleftrightarrow> i < 8 \<and> LAT_BAR s (i + 1)"
  unfolding readBars_def bit_gather by (auto simp: less_Suc_eq numeral_eq_Suc)

lemma readBars_setBars: "readBars (setBars b s) = b"
proof (rule bit_word_eqI)
  fix i :: nat
  assume "i < LENGTH(8)"
  then show "bit (readBars (setBars b s)) i = bit b i" by (simp add: bit_readBars setBars_def)
qed

end
