(* ===== verification/DistroSafety.thy ===== *)
theory DistroSafety
  imports Distro
begin

text \<open>
  What the power distribution board keeps: the steps it can take in any order, their invariant, the
  overcurrent latches, the limit they compare with, and the LED bars.
\<close>

section \<open>The invariant\<close>

definition distro_inv :: "distro \<Rightarrow> bool" where
  "distro_inv s \<longleftrightarrow> length (txBuf s) = 60 \<and> length (cfgRegs s) = 16 \<and> length (mSpeeds s) = 6
     \<and> length (iMotor s) = 8 \<and> busState s \<le> 8 \<and> (busState s = STATE_MOTRSPEEDS \<longrightarrow> nParam s < 6)
     \<and> (busState s = STATE_WRITE_CMD \<longrightarrow> nParam s \<le> 1) \<and> barBlinkState s < 4"

text \<open>A thruster whose overcurrent bit is set is off.\<close>

definition tripped_off :: "distro \<Rightarrow> bool" where
  "tripped_off s \<longleftrightarrow> (\<forall>n\<in>{1..6}. bit (ovrReg s) (n - 1) \<longrightarrow> \<not> LAT_MOTR s n) \<and> (bit (ovrReg s) 7 \<longrightarrow> \<not> LAT_DERPY s)"

text \<open>What the buffer operations leave alone.\<close>

definition pins_of :: "distro \<Rightarrow> (nat \<Rightarrow> bool) \<times> bool \<times> byte" where
  "pins_of s = (LAT_MOTR s, LAT_DERPY s, ovrReg s)"

lemma tripped_off_pins: "pins_of s = pins_of t \<Longrightarrow> tripped_off s = tripped_off t"
  by (simp add: pins_of_def tripped_off_def)

lemma pins_putTx [simp]: "pins_of (putTx i b s) = pins_of s" "distro_inv (putTx i b s) = distro_inv s"
  by (simp_all add: putTx_def pins_of_def distro_inv_def)

lemma pins_putBytes [simp]: "pins_of (putBytes i bs s) = pins_of s" "distro_inv (putBytes i bs s) = distro_inv s"
  by (induction i bs s rule: putBytes.induct) simp_all

lemma pins_answers [simp]:
  "pins_of (putString str s) = pins_of s" "distro_inv (putString str s) = distro_inv s"
  "pins_of (putWord i w s) = pins_of s" "distro_inv (putWord i w s) = distro_inv s"
  "pins_of (answerByte b s) = pins_of s" "distro_inv (answerByte b s) = distro_inv s"
  "pins_of (expect st s) = pins_of s"
  by (simp_all add: putString_def putWord_def answerByte_def) (simp add: expect_def pins_of_def)

lemma pins_putWords [simp]:
  "pins_of (fold (\<lambda>i s. putWord (f i) (g s i) s) is s) = pins_of s"
  "distro_inv (fold (\<lambda>i s. putWord (f i) (g s i) s) is s) = distro_inv s"
  by (induction "is" arbitrary: s) simp_all

lemma expect_distro_inv: "distro_inv s \<Longrightarrow> st \<le> 8 \<Longrightarrow> distro_inv (expect st s)"
  by (simp add: expect_def distro_inv_def)

section \<open>Thrusters\<close>

lemma checkOvrReg_safe [simp]: "tripped_off (checkOvrReg s)" "distro_inv (checkOvrReg s) = distro_inv s"
  by (auto simp: checkOvrReg_def tripped_off_def distro_inv_def)

lemma thrusterOff_safe [simp]: "tripped_off (thrusterOff n s)" "distro_inv (thrusterOff n s) = distro_inv s"
  by (simp_all add: thrusterOff_def) (simp add: distro_inv_def)

lemma derpyOff_safe [simp]: "tripped_off (derpyOff s)" "distro_inv (derpyOff s) = distro_inv s"
  by (simp_all add: derpyOff_def) (simp add: distro_inv_def)

lemma thrusterOn_safe: "tripped_off s \<Longrightarrow> tripped_off (thrusterOn n s)" "distro_inv (thrusterOn n s) = distro_inv s"
  by (auto simp: thrusterOn_def tripped_off_def distro_inv_def and_exp_eq_0_iff_not_bit)

lemma derpyOn_safe: "tripped_off s \<Longrightarrow> tripped_off (derpyOn s)" "distro_inv (derpyOn s) = distro_inv s"
  using single_bit [of "ovrReg s" 7] by (auto simp: derpyOn_def tripped_off_def distro_inv_def)

lemma checkKillSwitch_safe:
  "tripped_off s \<Longrightarrow> tripped_off (checkKillSwitch s)" "distro_inv (checkKillSwitch s) = distro_inv s"
  by (auto simp: checkKillSwitch_def tripped_off_def distro_inv_def)

section \<open>Every operation keeps both\<close>

definition kept :: "distro \<Rightarrow> distro \<Rightarrow> bool" where
  "kept s s' \<longleftrightarrow> (distro_inv s \<longrightarrow> distro_inv s') \<and> (tripped_off s \<longrightarrow> tripped_off s')"

lemma kept_pins: "pins_of s' = pins_of s \<Longrightarrow> (distro_inv s \<Longrightarrow> distro_inv s') \<Longrightarrow> kept s s'"
  using tripped_off_pins [of s' s] by (simp add: kept_def)

lemma kept_trans: "kept s t \<Longrightarrow> kept t u \<Longrightarrow> kept s u"
  by (simp add: kept_def)

text \<open>The commands that touch neither the thrusters nor their latches.\<close>

definition apart :: "distro \<Rightarrow> distro \<Rightarrow> bool" where
  "apart s t \<longleftrightarrow> pins_of t = pins_of s \<and> (distro_inv s \<longrightarrow> distro_inv t)"

lemma apart_kept: "apart s t \<Longrightarrow> kept s t"
  by (simp add: apart_def kept_pins)

lemma apart_commands:
  "apart s s" "apart s (s\<lparr>LAT_BAR := b\<rparr>)" "apart s (s\<lparr>LAT_DVL := v\<rparr>)"
  "apart s t \<Longrightarrow> apart s (putTx i c t)" "apart s t \<Longrightarrow> apart s (putWord i w t)"
  "apart s (putString str s)" "apart s (answerByte c s)"
  "apart s t \<Longrightarrow> apart s (fold (\<lambda>i s. putWord (f i) (g s i) s) xs t)"
  "st \<le> 8 \<Longrightarrow> apart s (expect st s)"
  by (simp_all add: apart_def expect_distro_inv) (simp_all add: pins_of_def distro_inv_def)

text \<open>What can happen in a command.\<close>

lemma distro_command_cases:
  assumes "\<And>n. map_of offCodes data = Some n \<Longrightarrow> R (thrusterOff n s)" and "\<And>n. R (thrusterOn n s)"
    and "R (derpyOff s)" and "R (derpyOn s)" and "\<And>t. apart s t \<Longrightarrow> R t"
  shows "R (distro_command data s)"
proof -
  have i: "R t \<Longrightarrow> R u \<Longrightarrow> R (if c then t else u)" for t u c by simp
  have o: "(\<And>n. x = Some n \<Longrightarrow> R (f n)) \<Longrightarrow> R t \<Longrightarrow> R (case x of None \<Rightarrow> t | Some n \<Rightarrow> f n)" for x :: "nat option" and f t
    by (simp split: option.split)
  show ?thesis
    unfolding distro_command_def dropMarker_def
    by (intro i o assms apart_commands) (simp_all add: distro_STATE_defs)
qed

lemma distro_command_kept: "kept s (distro_command data s)"
  by (rule distro_command_cases) (simp_all add: apart_kept, simp_all add: kept_def thrusterOn_safe derpyOn_safe)

lemma readRegArg_kept: "readRegArg data s = Some s' \<Longrightarrow> kept s s'" for s :: distro
  by (rule kept_pins) (auto simp: readRegArg_def pins_of_def distro_inv_def putTx_def distro_STATE_defs Let_def split: if_splits)

lemma nParam_step: "(n :: byte) \<le> 1 \<Longrightarrow> n + 1 \<noteq> 2 \<Longrightarrow> n + 1 \<le> 1"
  by (auto dest: nParam_cases)

lemma writeRegArg_kept:
  fixes s :: distro
  assumes "writeRegArg data s = Some s'" and "busState s = STATE_WRITE_CMD"
  shows "kept s s'"
proof (rule kept_pins)
  show "pins_of s' = pins_of s"
    using assms by (auto simp: writeRegArg_def countParam_def pins_of_def Let_def split: if_splits)
  assume "distro_inv s"
  then show "distro_inv s'"
    using assms nParam_step [of "nParam s"]
    by (auto simp: writeRegArg_def countParam_def distro_inv_def distro_STATE_defs Let_def split: if_splits)
qed

lemma motrSpeedArg_kept:
  assumes "motrSpeedArg data s = Some s'" and "busState s = STATE_MOTRSPEEDS"
  shows "kept s s'"
proof (rule kept_pins)
  show "pins_of s' = pins_of s"
    using assms by (auto simp: motrSpeedArg_def pins_of_def Let_def split: if_splits)
  assume i: "distro_inv s"
  have "(n :: byte) < 6 \<Longrightarrow> n + 1 \<noteq> 6 \<Longrightarrow> n + 1 < 6" for n
    by unat_arith
  then show "distro_inv s'"
    using assms i by (auto simp: motrSpeedArg_def distro_inv_def distro_STATE_defs Let_def split: if_splits)
qed

lemma distro_processData_kept:
  assumes "distro_processData data s = Some s'"
  shows "kept s s'"
proof -
  let ?s = "s\<lparr>txPtr := 0\<rparr>"
  have s: "kept s ?s" by (rule kept_pins) (simp_all add: pins_of_def distro_inv_def)
  have bars: "kept t ((setBars data t)\<lparr>nParam := 0, busState := STATE_TOP_LEVEL\<rparr>)"
    "kept t ((setBarMode data t)\<lparr>nParam := 0, busState := STATE_TOP_LEVEL\<rparr>)" for t
    by (rule kept_pins; simp add: setBars_def setBarMode_def pins_of_def distro_inv_def distro_STATE_defs Let_def)+
  show ?thesis
    using assms kept_trans [OF s distro_command_kept] kept_trans [OF s readRegArg_kept]
      kept_trans [OF s writeRegArg_kept] kept_trans [OF s motrSpeedArg_kept] kept_trans [OF s bars(1)]
      kept_trans [OF s bars(2)] s
    by (auto simp: distro_processData_def Let_def split: if_splits)
qed

text \<open>The operations of the loop.\<close>

lemma loop_kept:
  "kept s (checkSafetyIndicator s)" "kept s (checkKillSwitch s)" "kept s (readTemperature r s)"
  "kept s (sampleCurrents f s)" "kept s (measure inp s)" "kept s (s\<lparr>IN_KILLSW := v\<rparr>)"
  using checkKillSwitch_safe
  by (auto simp: kept_def tripped_off_def distro_inv_def checkSafetyIndicator_def readTemperature_def
      sampleCurrents_def measure_def Let_def)

lemma updateBars_kept: "updateBars s = Some s' \<Longrightarrow> kept s s'"
proof (rule kept_pins)
  assume u: "updateBars s = Some s'"
  then show "pins_of s' = pins_of s"
    by (auto simp: updateBars_def setBars_def pins_of_def Let_def split: if_splits)
  have "(n :: byte) < 4 \<Longrightarrow> n + 1 \<noteq> 4 \<Longrightarrow> n + 1 < 4" for n by unat_arith
  then show "distro_inv s \<Longrightarrow> distro_inv s'"
    using u by (auto simp: updateBars_def setBars_def distro_inv_def Let_def split: if_splits)
qed

lemma overcurrent_kept: "overcurrent i s = Some s' \<Longrightarrow> kept s s'"
  by (auto simp: overcurrent_def kept_def split: if_splits) (auto simp: tripped_off_def distro_inv_def)

section \<open>The board as a state machine\<close>

text \<open>
  Bytes from the master arrive by interrupt, between any two operations of the loop; the pin of the
  kill switch moves when it likes.
\<close>

inductive distro_step :: "distro \<Rightarrow> distro \<Rightarrow> bool" where
  received: "distro_processData b s = Some s' \<Longrightarrow> distro_step s s'"
| sent: "nextTx s = Some (b, s') \<Longrightarrow> distro_step s s'"
| kill_switch: "distro_step s (s\<lparr>IN_KILLSW := v\<rparr>)"
| indicator: "distro_step s (checkSafetyIndicator s)"
| kill_check: "distro_step s (checkKillSwitch s)"
| bars: "updateBars s = Some s' \<Longrightarrow> distro_step s s'"
| temperature: "distro_step s (readTemperature r s)"
| currents: "distro_step s (sampleCurrents f s)"
| measured: "distro_step s (measure inp s)"
| over: "overcurrent i s = Some s' \<Longrightarrow> distro_step s s'"

inductive distro_reaches :: "distro \<Rightarrow> bool" where
  start: "distro_reaches (distro_start kill)"
| step: "distro_reaches s \<Longrightarrow> distro_step s s' \<Longrightarrow> distro_reaches s'"

lemma distro_step_kept: "distro_step s s' \<Longrightarrow> kept s s'"
proof (induction rule: distro_step.induct)
  case (sent s b s')
  then show ?case by (intro kept_pins) (auto simp: nextTx_def pins_of_def distro_inv_def split: if_splits)
qed (simp_all add: distro_processData_kept loop_kept updateBars_kept overcurrent_kept)

lemma distro_reaches_inv: "distro_reaches s \<Longrightarrow> distro_inv s \<and> tripped_off s"
proof (induction rule: distro_reaches.induct)
  case (start kill)
  then show ?case by (simp add: distro_start_def distro_inv_def tripped_off_def STATE_MOTRSPEEDS_def STATE_WRITE_CMD_def)
next
  case (step s s')
  then show ?case using distro_step_kept by (simp add: kept_def)
qed

section \<open>Latches\<close>

lemma ovrReg_thrusters [simp]:
  "ovrReg (thrusterOn n s) = ovrReg s" "ovrReg (derpyOn s) = ovrReg s"
  "ovrReg (thrusterOff n s) = ovrReg s AND NOT (push_bit (n - 1) 1)" "ovrReg (derpyOff s) = ovrReg s AND NOT 0x80"
  by (simp_all add: thrusterOn_def derpyOn_def thrusterOff_def derpyOff_def checkOvrReg_def)

lemma offCodes_range: "\<forall>p\<in>set offCodes. 1 \<le> snd p \<and> snd p \<le> 6"
  by (simp add: offCodes_def)

text \<open>The code that releases the latch of thruster \<open>n\<close>.\<close>

lemma distro_command_latch:
  assumes "bit (ovrReg s) (n - 1)" and "n \<in> {1..6}" and "(data, n) \<notin> set offCodes"
  shows "bit (ovrReg (distro_command data s)) (n - 1)"
proof (rule distro_command_cases)
  fix m
  assume "map_of offCodes data = Some m"
  then have "(data, m) \<in> set offCodes" by (rule map_of_SomeD)
  then have "m \<noteq> n" "1 \<le> m" using assms(3) offCodes_range by auto
  then have "m - 1 \<noteq> n - 1" using assms(2) by auto
  then show "bit (ovrReg (thrusterOff m s)) (n - 1)"
    using assms(1,2) by (auto simp: bit_simps)
next
  have "bit (NOT 128 :: byte) i" if "i < 6" for i
    using that by (auto simp: less_Suc_eq numeral_eq_Suc)
  then show "bit (ovrReg (derpyOff s)) (n - 1)"
    using assms(1,2) by (auto simp: bit_and_iff)
qed (use assms in \<open>simp_all add: apart_def pins_of_def\<close>)

lemma distro_processData_latch:
  assumes "distro_processData data s = Some s'" and "bit (ovrReg s) (n - 1)" and "n \<in> {1..6}"
    and "(data, n) \<notin> set offCodes"
  shows "bit (ovrReg s') (n - 1)"
  using assms distro_command_latch [of "s\<lparr>txPtr := 0\<rparr>" n data]
  by (auto simp: distro_processData_def Let_def readRegArg_def writeRegArg_def countParam_def motrSpeedArg_def
      setBarMode_def setBars_def putTx_def split: if_splits)

section \<open>What cannot happen\<close>

lemma updateBars_defined: "barBlinkState s < 4 \<Longrightarrow> updateBars s \<noteq> None"
proof -
  assume "barBlinkState s < 4"
  then have "barBlinkState s = 0 \<or> barBlinkState s = 1 \<or> barBlinkState s = 2 \<or> barBlinkState s = 3"
    by unat_arith
  then show ?thesis by (auto simp: updateBars_def redBlueAnim_def redGreenAnim_def Let_def)
qed

text \<open>
  Property C14.  In every state the board can get into, with bus bytes, the operations of the loop
  and the kill switch interleaved in any way, a thruster whose overcurrent bit is set is off; the
  animation of the bars stays within its table; and a byte from the master makes the code leave an
  array in one case only, a register number above 15.
\<close>

theorem distro_stays_safe:
  assumes "distro_reaches s"
  shows "tripped_off s \<and> updateBars s \<noteq> None
    \<and> (distro_processData b s = None \<longleftrightarrow>
         busState s = STATE_READ_CMD \<and> 16 \<le> unat b
         \<or> busState s = STATE_WRITE_CMD \<and> nParam s = 1 \<and> 16 \<le> unat (p1 s))"
proof -
  have i: "distro_inv s" "tripped_off s" using distro_reaches_inv [OF assms] by simp_all
  have "updateBars s \<noteq> None" using i(1) by (simp add: distro_inv_def updateBars_defined)
  moreover have "distro_processData b s = None \<longleftrightarrow>
      busState s = STATE_READ_CMD \<and> 16 \<le> unat b \<or> busState s = STATE_WRITE_CMD \<and> nParam s = 1 \<and> 16 \<le> unat (p1 s)"
    using i(1) by (auto simp: distro_processData_def distro_inv_def readRegArg_None writeRegArg_None motrSpeedArg_def
        distro_STATE_defs word_less_nat_alt Let_def)
  ultimately show ?thesis using i(2) by simp
qed

definition surge :: inputs where
  "surge = \<lparr>adc = (\<lambda>c. 0), temp = 20, calV = (\<lambda>x. x), calI5V = (\<lambda>x. x), calI12V = (\<lambda>x. 20000)\<rparr>"

text \<open>A state in which thruster 1 has just tripped.\<close>

definition tripped1 :: distro where
  "tripped1 = the (overcurrent 0 (the (overcurrent 0 (measure surge (the (distro_processData BUS_CMD_THRUSTER1_ON (distro_start False)))))))"

lemma maxCurrent_start: "maxCurrent 0 speed c1 = ucast c1 * 40"
  by (simp add: maxCurrent_def)

lemma distro_command_on1: "distro_command BUS_CMD_THRUSTER1_ON s = thrusterOn 1 s"
  by (simp add: distro_command_def offCodes_def onCodes_def codes)

lemma tripped1_reached: "distro_reaches tripped1" "ovrReg tripped1 = 1" "busState tripped1 = 0" "nParam tripped1 = 0"
proof -
  define s1 where "s1 = the (distro_processData BUS_CMD_THRUSTER1_ON (distro_start False))"
  define s2 where "s2 = measure surge s1"
  define s3 where "s3 = the (overcurrent 0 s2)"
  have p: "distro_processData BUS_CMD_THRUSTER1_ON (distro_start False) = Some s1"
    by (simp add: s1_def distro_processData_def distro_start_def STATE_TOP_LEVEL_def)
  have s1: "ovrReg s1 = 0" "ovrTmp s1 = 0" "cfgRegs s1 = (replicate 16 0)[1 := 0xFF]" "mSpeeds s1 = replicate 6 0"
    "busState s1 = 0" "nParam s1 = 0"
    by (simp_all add: s1_def distro_processData_def distro_start_def STATE_TOP_LEVEL_def distro_command_on1 thrusterOn_def)
  have s2: "iMotor s2 ! 0 = 20000" "ovrReg s2 = 0" "ovrTmp s2 = 0" "cfgRegs s2 = cfgRegs s1" "mSpeeds s2 = mSpeeds s1"
    "busState s2 = 0" "nParam s2 = 0"
    using s1 by (simp_all add: s2_def measure_def surge_def)
  have o2: "overcurrent 0 s2 = Some (s2\<lparr>ovrTmp := 1\<rparr>)"
    using s2 s1 by (simp add: overcurrent_def maxCurrent_start)
  then have s3: "s3 = s2\<lparr>ovrTmp := 1\<rparr>" by (simp add: s3_def)
  have o3: "overcurrent 0 s3 = Some (checkOvrReg (s3\<lparr>ovrReg := 1\<rparr>))"
    using s2 s1 by (simp add: s3 overcurrent_def maxCurrent_start)
  have t: "tripped1 = checkOvrReg (s3\<lparr>ovrReg := 1\<rparr>)"
    using o3 by (simp add: tripped1_def s1_def [symmetric] s2_def [symmetric] s3_def [symmetric])
  show "ovrReg tripped1 = 1" "busState tripped1 = 0" "nParam tripped1 = 0"
    unfolding t using s2 by (simp_all add: checkOvrReg_def s3)
  show "distro_reaches tripped1"
    unfolding t using distro_reaches.step [OF distro_reaches.step [OF distro_reaches.step [OF distro_reaches.step
          [OF distro_reaches.start received [OF p]] measured [of s1 surge, folded s2_def]] over [OF o2, folded s3]] over [OF o3]] .
qed

theorem distro_stays_safe_witness: "tripped_off tripped1 \<and> updateBars tripped1 \<noteq> None \<and> distro_processData 7 tripped1 \<noteq> None"
  using distro_stays_safe [OF tripped1_reached(1), of 7] tripped1_reached(3)
  by (simp add: STATE_READ_CMD_def STATE_WRITE_CMD_def)

text \<open>
  Property C15.  Once a thruster has tripped, no sequence of bytes from the master turns it on again
  as long as the off command of that thruster is not among them.
\<close>

theorem tripped_thruster_stays_off:
  assumes "distro_reaches s" and "n \<in> {1..6}" and "bit (ovrReg s) (n - 1)"
    and "process_all distro_chip bs s = Some s'" and "\<forall>c\<in>set bs. (c, n) \<notin> set offCodes"
  shows "bit (ovrReg s') (n - 1) \<and> \<not> LAT_MOTR s' n"
proof -
  have "tripped_off s" using distro_reaches_inv [OF assms(1)] by simp
  then show ?thesis using assms(3-5)
  proof (induction bs arbitrary: s)
    case Nil
    then show ?case using assms(2) by (auto simp: tripped_off_def)
  next
    case (Cons c bs)
    then obtain t where t: "distro_processData c s = Some t" "process_all distro_chip bs t = Some s'"
      by (auto split: option.splits)
    then have "tripped_off t" "bit (ovrReg t) (n - 1)"
      using Cons.prems distro_processData_kept [OF t(1)] distro_processData_latch [OF t(1) _ assms(2)]
      by (simp_all add: kept_def)
    then show ?case using Cons t(2) by simp
  qed
qed

theorem tripped_thruster_stays_off_witness:
  "\<exists>s'. process_all distro_chip [BUS_CMD_THRUSTER1_ON] tripped1 = Some s' \<and> \<not> LAT_MOTR s' 1"
proof -
  obtain s' where "process_all distro_chip [BUS_CMD_THRUSTER1_ON] tripped1 = Some s'"
    using tripped1_reached(3) by (simp add: distro_processData_def STATE_TOP_LEVEL_def)
  then show ?thesis
    using tripped_thruster_stays_off [OF tripped1_reached(1), of 1 "[BUS_CMD_THRUSTER1_ON]" s'] tripped1_reached(2)
    by (simp add: offCodes_def codes)
qed

section \<open>The overcurrent check\<close>

lemma overcurrent_some: "length (mSpeeds s) = 6 \<Longrightarrow> i < 6 \<Longrightarrow> \<exists>s'. overcurrent i s = Some s' \<and> length (mSpeeds s') = 6"
  by (auto simp: overcurrent_def checkOvrReg_def)

lemma overcurrents_some:
  "length (mSpeeds s) = 6 \<Longrightarrow> \<forall>i\<in>set is. i < 6 \<Longrightarrow> \<exists>s'. overcurrents is s = Some s' \<and> length (mSpeeds s') = 6"
proof (induction "is" arbitrary: s)
  case (Cons i "is")
  then obtain t where "overcurrent i s = Some t" "length (mSpeeds t) = 6"
    using overcurrent_some [of s i] by auto
  then show ?case using Cons by simp
qed simp

lemma overcurrents_append:
  "overcurrents (xs @ ys) s = (case overcurrents xs s of None \<Rightarrow> None | Some t \<Rightarrow> overcurrents ys t)"
  by (induction xs arbitrary: s) (simp_all split: option.split)

lemma overcurrents_kept: "overcurrents is s = Some s' \<Longrightarrow> kept s s'"
  by (induction "is" arbitrary: s) (auto simp: kept_def split: option.splits dest!: overcurrent_kept)

text \<open>
  With the overcurrent protection switched on, the sixteenth round of the loop decides
  about the six thrusters and then reads \<^verbatim>\<open>mSpeeds[7]\<close>, two past the end of the array, for the
  seventh controller.
\<close>

theorem overcurrent_reads_past_speeds:
  assumes "distro_reaches s" and "writeIndex s = 0" and "cfgRegs s ! 1 \<noteq> 0xFF"
  shows "checkCurrents s = None \<and> (\<exists>s'. overcurrents [0, 1, 2, 3, 4, 5] s = Some s' \<and> tripped_off s')"
proof -
  have i: "distro_inv s" "tripped_off s" using distro_reaches_inv [OF assms(1)] by simp_all
  then obtain s' where s': "overcurrents [0, 1, 2, 3, 4, 5] s = Some s'" "length (mSpeeds s') = 6"
    using overcurrents_some [of s "[0, 1, 2, 3, 4, 5]"] by (auto simp: distro_inv_def)
  have "overcurrents ([0, 1, 2, 3, 4, 5] @ [7]) s = None"
    unfolding overcurrents_append s'(1) using s'(2) by (simp add: overcurrent_def)
  then show ?thesis
    using assms(2,3) s'(1) overcurrents_kept [OF s'(1)] i(2) by (simp add: checkCurrents_def kept_def)
qed

text \<open>The protection is switched on by writing the two registers.\<close>

definition protected_board :: distro where
  "protected_board = the (process_all distro_chip [BUS_CMD_WRITE_REG, 1, 100] (distro_start False))"

lemma protected_board_val:
  "process_all distro_chip [BUS_CMD_WRITE_REG, 1, 100] (distro_start False) = Some protected_board"
  "writeIndex protected_board = 0" "cfgRegs protected_board = (replicate 16 0)[1 := 100]"
proof -
  have c: "distro_command BUS_CMD_WRITE_REG s = expect STATE_WRITE_CMD s" for s
    by (simp add: distro_command_def offCodes_def onCodes_def barOffCodes_def barOnCodes_def codes)
  have "process_all distro_chip [BUS_CMD_WRITE_REG, 1, 100] (distro_start False)
      = Some ((distro_start False)\<lparr>p1 := 1, cfgRegs := (replicate 16 0)[1 := 100]\<rparr>)"
    by (simp add: distro_processData_def distro_start_def c expect_def writeRegArg_def countParam_def
        distro_STATE_defs)
  then show "process_all distro_chip [BUS_CMD_WRITE_REG, 1, 100] (distro_start False) = Some protected_board"
    "writeIndex protected_board = 0" "cfgRegs protected_board = (replicate 16 0)[1 := 100]"
    by (simp_all add: protected_board_def distro_start_def)
qed

lemma process_all_reaches: "distro_reaches s \<Longrightarrow> process_all distro_chip bs s = Some s' \<Longrightarrow> distro_reaches s'"
proof (induction bs arbitrary: s)
  case (Cons b bs)
  then obtain t where t: "distro_processData b s = Some t" "process_all distro_chip bs t = Some s'"
    by (auto split: option.splits)
  then show ?case using Cons.IH [OF distro_reaches.step [OF Cons.prems(1) received]] by simp
qed simp

theorem overcurrent_reads_past_speeds_witness: "checkCurrents protected_board = None"
  using overcurrent_reads_past_speeds [OF process_all_reaches [OF distro_reaches.start protected_board_val(1)]]
    protected_board_val(2,3) by simp

text \<open>
  The limit is a sixth of the product of the first register and the speed plus forty
  times the second register, as long as the product stays below 32768.  Beyond, the 16-bit product
  is negative: with the largest factor and speed and a small second register the limit is so large
  that no reading is above it.
\<close>

theorem maxCurrent_limit:
  "(unat c0 * unat speed < 32768 \<longrightarrow> unat (maxCurrent c0 speed c1) = unat c0 * unat speed div 6 + 40 * unat c1)
   \<and> maxCurrent 0xFF 0xFF 0 = 65451"
proof (intro conjI impI)
  assume p: "unat c0 * unat speed < 32768"
  let ?p = "ucast c0 * ucast speed :: word16"
  have w: "unat (ucast b :: word16) = unat b" for b :: byte
    using less_le_trans [OF byte_lt_256 [of b], of 65536] by (simp add: unsigned_ucast_eq take_bit_nat_def del: byte_lt_256)
  have u: "unat ?p = unat c0 * unat speed" using p by (simp add: unat_word_ariths w)
  then have "sint ?p = int (unat c0 * unat speed)"
    using p unfolding sint_uint uint_nat u by (simp add: signed_take_bit_int_eq_self flip: of_nat_mult)
  then have d: "sint ?p sdiv 6 = int (unat c0 * unat speed div 6)"
    using sdiv_of_nat [of "unat c0 * unat speed" 6] by (simp only: of_nat_numeral)
  have c: "unat c1 < 256" by simp
  have "maxCurrent c0 speed c1 = of_nat (unat c0 * unat speed div 6 + 40 * unat c1)"
    unfolding maxCurrent_def Let_def d by (simp add: mult.commute)
  moreover have "unat c0 * unat speed div 6 + 40 * unat c1 < 65536" using p c by linarith
  ultimately show "unat (maxCurrent c0 speed c1) = unat c0 * unat speed div 6 + 40 * unat c1"
    by (simp add: unat_of_nat del: of_nat_add of_nat_mult)
qed (simp add: maxCurrent_def signed_divide_int_def)

theorem maxCurrent_limit_witness: "unat (maxCurrent 100 200 10) = 3733"
  using maxCurrent_limit [of 100 200 10] by simp

section \<open>A byte that makes the board deaf\<close>

lemma deaf_process_all:
  assumes "busState s = STATE_SETSPEED_U1"
  shows "\<exists>p. process_all distro_chip bs s = Some (s\<lparr>txPtr := p\<rparr>)"
  using assms
proof (induction bs arbitrary: s)
  case Nil
  then show ?case by (auto intro: exI [of _ "txPtr s"])
next
  case (Cons b bs)
  have "process distro_chip b s = Some (s\<lparr>txPtr := 0\<rparr>)"
    using Cons.prems by (simp add: distro_processData_def distro_STATE_defs)
  then show ?case using Cons.IH [of "s\<lparr>txPtr := 0\<rparr>"] Cons.prems by auto
qed

text \<open>
  The board has no serial ports, but it still accepts the command to send a speed over
  one, and there is no case that handles its arguments: after that byte nothing the master sends has
  any effect, the commands that switch thrusters off included.
\<close>

theorem setspeed_deafens_distro:
  assumes "busState s = STATE_TOP_LEVEL" and "distro_processData BUS_CMD_SETSPEED_U1 s = Some s1"
  shows "\<exists>s2. process_all distro_chip bs s1 = Some s2 \<and> LAT_MOTR s2 = LAT_MOTR s \<and> LAT_DERPY s2 = LAT_DERPY s
    \<and> LAT_BAR s2 = LAT_BAR s \<and> txBuf s2 = txBuf s \<and> cfgRegs s2 = cfgRegs s \<and> busState s2 = STATE_SETSPEED_U1"
proof -
  have "distro_command BUS_CMD_SETSPEED_U1 t = expect STATE_SETSPEED_U1 t" for t
    by (simp add: distro_command_def offCodes_def onCodes_def barOffCodes_def barOnCodes_def codes)
  then have "s1 = expect STATE_SETSPEED_U1 (s\<lparr>txPtr := 0\<rparr>)"
    using assms by (simp add: distro_processData_def)
  moreover from this obtain p where "process_all distro_chip bs s1 = Some (s1\<lparr>txPtr := p\<rparr>)"
    using deaf_process_all [of s1 bs] by (auto simp: expect_def)
  ultimately show ?thesis by (simp add: expect_def)
qed

theorem setspeed_deafens_distro_witness:
  "\<exists>s2. process_all distro_chip [BUS_CMD_THRUSTER1_ON, BUS_CMD_SETSPEED_U1, BUS_CMD_THRUSTER1_OFF] (distro_start False) = Some s2
     \<and> LAT_MOTR s2 1"
proof -
  define s where "s = the (distro_processData BUS_CMD_THRUSTER1_ON (distro_start False))"
  have s: "distro_processData BUS_CMD_THRUSTER1_ON (distro_start False) = Some s" "busState s = STATE_TOP_LEVEL" "LAT_MOTR s 1"
    by (simp_all add: s_def distro_processData_def distro_start_def STATE_TOP_LEVEL_def distro_command_on1 thrusterOn_def)
  then obtain s1 where s1: "distro_processData BUS_CMD_SETSPEED_U1 s = Some s1"
    by (simp add: distro_processData_def)
  then show ?thesis
    using setspeed_deafens_distro [OF s(2) s1, of "[BUS_CMD_THRUSTER1_OFF]"] s
    by (simp split: option.splits)
qed

section \<open>The LED bars\<close>

lemma bars_animated:
  "barMode s \<noteq> 0 \<Longrightarrow> barBlinkState s < 4 \<Longrightarrow> \<exists>s'. ((\<lambda>s. Option.bind s updateBars) ^^ k) (Some s) = Some s'
     \<and> barMode s' \<noteq> 0 \<and> barBlinkState s' < 4 \<and> oldBarState s' = oldBarState s"
proof (induction k)
  case (Suc k)
  then obtain t where t: "((\<lambda>s. Option.bind s updateBars) ^^ k) (Some s) = Some t" "barMode t \<noteq> 0"
    "barBlinkState t < 4" "oldBarState t = oldBarState s" by auto
  then obtain u where u: "updateBars t = Some u" using updateBars_defined [of t] by auto
  have "(n :: byte) < 4 \<Longrightarrow> n + 1 \<noteq> 4 \<Longrightarrow> n + 1 < 4" for n by unat_arith
  then have "barMode u = barMode t" "barBlinkState u < 4" "oldBarState u = oldBarState t"
    using u t(3) by (auto simp: updateBars_def setBars_def Let_def split: if_splits)
  then show ?case using t u by simp
qed simp

text \<open>
  An animation of the LED bars is transparent: whichever mode is set, and however often
  it advances, switching it off restores the bars as they were.
\<close>

theorem bars_restored:
  assumes "barMode s = 0" and "mode \<noteq> 0"
  shows "\<exists>s'. ((\<lambda>s. Option.bind s updateBars) ^^ k) (Some (setBarMode mode s)) = Some s'
    \<and> (\<forall>n\<in>{1..8}. LAT_BAR (setBarMode 0 s') n = LAT_BAR s n)"
proof -
  obtain s' where s': "((\<lambda>s. Option.bind s updateBars) ^^ k) (Some (setBarMode mode s)) = Some s'"
    "barMode s' \<noteq> 0" "oldBarState s' = oldBarState (setBarMode mode s)"
    using bars_animated [of "setBarMode mode s" k] assms(2) by (auto simp: setBarMode_def Let_def)
  have "readBars (setBarMode 0 s') = readBars s"
    using s'(2,3) assms by (simp add: setBarMode_def Let_def readBars_setBars) (simp add: readBars_def setBars_def readBars_setBars)
  then have "\<forall>i. bit (readBars (setBarMode 0 s')) i = bit (readBars s) i" by simp
  then have "\<forall>n\<in>{1..8}. LAT_BAR (setBarMode 0 s') n = LAT_BAR s n"
    unfolding bit_readBars by (metis atLeastAtMost_iff le_add_diff_inverse2 less_eq_Suc_le Suc_eq_plus1 numeral_nat(7) One_nat_def add_le_imp_le_diff less_Suc_eq_le)
  then show ?thesis using s'(1) by blast
qed

theorem bars_restored_witness:
  "\<exists>s'. ((\<lambda>s. Option.bind s updateBars) ^^ 25) (Some (setBarMode 1 (setBars 0x81 (distro_start False)))) = Some s'
    \<and> LAT_BAR (setBarMode 0 s') 8 \<and> \<not> LAT_BAR (setBarMode 0 s') 2"
proof -
  let ?s = "setBars 0x81 (distro_start False)"
  have "barMode ?s = 0" "LAT_BAR ?s 8" "\<not> LAT_BAR ?s 2" by (simp_all add: setBars_def distro_start_def)
  then show ?thesis using bars_restored [of ?s 1 25] by auto
qed

end
