(* ===== verification/Registers.thy ===== *)
theory Registers
  imports Lcd Temp Depth DistroSafety
begin

text \<open>
  The part of \<^verbatim>\<open>processData\<close> that all slaves on the sensor board and the power distribution board
  share: the ping, the sixteen registers, and what can make the code leave an array.  It is a
  contract of a chip; \<^verbatim>\<open>ic2.c\<close>, \<^verbatim>\<open>ic3.c\<close>, \<^verbatim>\<open>ic4.c\<close> and \<^verbatim>\<open>distro.c\<close> keep it.
\<close>

section \<open>The contract\<close>

text \<open>\<open>prep\<close> is what the code does before it looks at the state of the bus.\<close>

locale register_slave =
  fixes ch :: "('x core_scheme) chip"
    and inv :: "'x core_scheme \<Rightarrow> bool"
    and prep :: "'x core_scheme \<Rightarrow> 'x core_scheme"
  assumes next_tx: "next_tx ch = nextTx"
    and inv_sizes: "inv s \<Longrightarrow> length (cfgRegs s) = 16 \<and> 1 < length (txBuf s)
      \<and> (busState s = STATE_WRITE_CMD \<longrightarrow> nParam s \<le> 1)"
    and prep_core: "busState (prep s) = busState s \<and> nParam (prep s) = nParam s \<and> p1 (prep s) = p1 s
      \<and> cfgRegs (prep s) = cfgRegs s \<and> txPtr (prep s) = 0 \<and> length (txBuf (prep s)) = length (txBuf s)"
    and keeps: "inv s \<Longrightarrow> process ch b s = Some s' \<Longrightarrow> inv s'"
    and inv_ptr: "inv (s\<lparr>txPtr := i\<rparr>) = inv s"
    and top_ping: "busState s = STATE_TOP_LEVEL \<Longrightarrow> process ch BUS_CMD_PING s = Some (putTx 0 0 (prep s))"
    and top_read: "busState s = STATE_TOP_LEVEL \<Longrightarrow> process ch BUS_CMD_READ_REG s = Some (expect STATE_READ_CMD (prep s))"
    and top_write: "busState s = STATE_TOP_LEVEL \<Longrightarrow> process ch BUS_CMD_WRITE_REG s = Some (expect STATE_WRITE_CMD (prep s))"
    and read_arg: "busState s = STATE_READ_CMD \<Longrightarrow> process ch b s = readRegArg b (prep s)"
    and write_arg: "busState s = STATE_WRITE_CMD \<Longrightarrow> process ch b s = writeRegArg b (prep s)"
    and other: "inv s \<Longrightarrow> busState s \<noteq> STATE_READ_CMD \<Longrightarrow> busState s \<noteq> STATE_WRITE_CMD \<Longrightarrow> process ch b s \<noteq> None"
begin

lemma crashes_iff:
  assumes "inv s"
  shows "process ch b s = None \<longleftrightarrow>
    busState s = STATE_READ_CMD \<and> 16 \<le> unat b \<or> busState s = STATE_WRITE_CMD \<and> nParam s = 1 \<and> 16 \<le> unat (p1 s)"
proof -
  consider "busState s = STATE_READ_CMD" | "busState s = STATE_WRITE_CMD"
    | "busState s \<noteq> STATE_READ_CMD" "busState s \<noteq> STATE_WRITE_CMD" by blast
  then show ?thesis
  proof cases
    case 1
    then show ?thesis
      using inv_sizes [OF assms] prep_core [of s] read_arg [of s b] readRegArg_None [of "prep s" b]
      by (simp add: STATE_defs)
  next
    case 2
    then show ?thesis
      using inv_sizes [OF assms] prep_core [of s] write_arg [of s b] writeRegArg_None [of "prep s" b]
      by (simp add: STATE_defs)
  next
    case 3
    then show ?thesis using other [OF assms, of b] by simp
  qed
qed

lemma keeps_all: "inv s \<Longrightarrow> process_all ch bs s = Some s' \<Longrightarrow> inv s'"
proof (induction bs arbitrary: s)
  case (Cons b bs)
  then show ?case using keeps by (auto split: option.splits)
qed simp

lemma ping_block:
  assumes "inv s" and "busState s = STATE_TOP_LEVEL"
  shows "\<exists>s' s''. process ch BUS_CMD_PING s = Some s' \<and> inv s' \<and> draw_block ch s' = Some ([], s'')"
proof -
  have "length (txBuf (prep s)) > 0" using inv_sizes [OF assms(1)] prep_core [of s] by auto
  then show ?thesis
    using top_ping [OF assms(2)] keeps [OF assms(1) top_ping [OF assms(2)]] prep_core [of s]
    by (simp add: draw_block_def next_tx nextTx_def putTx_def)
qed

lemma write_register:
  assumes "inv s" and "busState s = STATE_TOP_LEVEL" and "unat r < 16"
  shows "\<exists>s'. process_all ch [BUS_CMD_WRITE_REG, r, v] s = Some s' \<and> inv s'
    \<and> busState s' = STATE_TOP_LEVEL \<and> cfgRegs s' = (cfgRegs s)[unat r := v]"
proof -
  let ?a = "expect STATE_WRITE_CMD (prep s)"
  have "writeRegArg r (prep ?a) = Some ((prep ?a)\<lparr>p1 := r, nParam := 1\<rparr>)"
    using prep_core [of ?a] by (simp add: writeRegArg_def countParam_def expect_def)
  then obtain b where b: "process ch r ?a = Some b" "b = (prep ?a)\<lparr>p1 := r, nParam := 1\<rparr>"
    using write_arg [of ?a r] by (simp add: expect_def)
  have b': "busState b = STATE_WRITE_CMD" "nParam b = 1" "p1 b = r" "cfgRegs b = cfgRegs s"
    using prep_core [of ?a] prep_core [of s] b(2) by (simp_all add: expect_def)
  have "writeRegArg v (prep b) = Some ((prep b)\<lparr>nParam := 0, busState := STATE_TOP_LEVEL,
      cfgRegs := (cfgRegs s)[unat r := v]\<rparr>)"
    using prep_core [of b] b' inv_sizes [OF assms(1)] assms(3) by (simp add: writeRegArg_def countParam_def)
  then have "process_all ch [BUS_CMD_WRITE_REG, r, v] s = Some ((prep b)\<lparr>nParam := 0, busState := STATE_TOP_LEVEL,
      cfgRegs := (cfgRegs s)[unat r := v]\<rparr>)"
    using top_write [OF assms(2)] b(1) write_arg [OF b'(1)] by simp
  then show ?thesis using keeps_all [OF assms(1)] by fastforce
qed

lemma read_register:
  assumes "inv s" and "busState s = STATE_TOP_LEVEL" and "unat r < 16"
  shows "\<exists>s' s''. process_all ch [BUS_CMD_READ_REG, r] s = Some s' \<and> inv s' \<and> busState s' = STATE_TOP_LEVEL
    \<and> cfgRegs s' = cfgRegs s \<and> draw_block ch s' = Some ([cfgRegs s ! unat r], s'')
    \<and> inv s'' \<and> busState s'' = STATE_TOP_LEVEL \<and> cfgRegs s'' = cfgRegs s"
proof -
  let ?a = "expect STATE_READ_CMD (prep s)"
  have a: "cfgRegs (prep ?a) = cfgRegs s" "0 < length (txBuf (prep ?a))" "1 < length (txBuf (prep ?a))" "txPtr (prep ?a) = 0"
    using prep_core [of ?a] prep_core [of s] inv_sizes [OF assms(1)] by (auto simp: expect_def)
  let ?s = "putTx 1 (cfgRegs s ! unat r) (putTx 0 1 ((prep ?a)\<lparr>nParam := 0, busState := STATE_TOP_LEVEL\<rparr>))"
  have "readRegArg r (prep ?a) = Some ?s"
    using a inv_sizes [OF assms(1)] assms(3) by (simp add: readRegArg_def putTx_def)
  then have p: "process_all ch [BUS_CMD_READ_REG, r] s = Some ?s"
    using top_read [OF assms(2)] read_arg [of ?a r] by (simp add: expect_def)
  have "txBuf ?s ! 0 = 1" "txBuf ?s ! 1 = cfgRegs s ! unat r" "txPtr ?s = 0" "1 < length (txBuf ?s)" "0 < length (txBuf ?s)"
    using a by (simp_all add: putTx_def)
  then have "draw_block ch ?s = Some ([cfgRegs s ! unat r], ?s\<lparr>txPtr := 2\<rparr>)"
    by (simp add: draw_block_def next_tx nextTx_def)
  then show ?thesis using p keeps_all [OF assms(1) p] a(1) by (simp add: putTx_def inv_ptr)
qed

end

section \<open>The four slaves keep it\<close>

definition ic2_inv :: "ic2 \<Rightarrow> bool" where
  "ic2_inv s \<longleftrightarrow> core_inv 30 s \<and> length (lcdBuf s) = 32"

lemma lcdBuf_core [simp]:
  "lcdBuf (putTx i b s) = lcdBuf s" "lcdBuf (putBytes i bs s) = lcdBuf s" "lcdBuf (expect st s) = lcdBuf s"
  "lcdBuf (setspeedArg a1 a2 d s) = lcdBuf s" "lcdBuf (countParam d s) = lcdBuf s"
  by (simp_all add: putTx_def expect_def countParam_def setspeedArg_def Let_def)
    (induction i bs s rule: putBytes.induct; simp add: putTx_def)

lemma lcdBuf_command [simp]: "lcdBuf (ic2_command d s) = lcdBuf s"
  by (simp add: ic2_command_def commonCommand_def putString_def getReply_U1_def getReply_U2_def startBlink_def
      Let_def split: prod.split)

lemma ic2_processData_inv:
  assumes "ic2_inv s" and "ic2_processData data s = Some s'"
  shows "ic2_inv s'"
proof -
  let ?s = "s\<lparr>txPtr := 0\<rparr>"
  have i: "core_inv 30 ?s" "length (lcdBuf ?s) = 32" using assms(1) by (simp_all add: ic2_inv_def core_inv_def)
  have c: "core_inv 30 (ic2_command data ?s)"
    using i(1) commonCommand_inv [OF i(1)] expect_inv [OF i(1)]
    by (simp add: ic2_command_def STATE_defs) (simp add: core_inv_def startBlink_def)
  have w: "core_inv 30 (writeLcdArg data ?s) \<and> length (lcdBuf (writeLcdArg data ?s)) = 32"
    using i by (auto simp: writeLcdArg_def countParam_def core_inv_def STATE_defs Let_def dest: nParam_cases)
  have regs: "lcdBuf t = lcdBuf ?s" if "readRegArg data ?s = Some t \<or> writeRegArg data ?s = Some t" for t
    using that by (auto simp: readRegArg_def writeRegArg_def countParam_def Let_def split: if_splits)
  show ?thesis
    using assms(2) i c w regs readRegArg_inv [OF i(1)] writeRegArg_inv [OF i(1)] setspeedArg_inv [OF i(1)]
    by (auto simp: ic2_processData_def ic2_inv_def Let_def split: if_splits)
qed

interpretation ic2_registers: register_slave ic2_chip ic2_inv "\<lambda>s. s\<lparr>txPtr := 0\<rparr>"
proof unfold_locales
  show "ic2_inv s \<Longrightarrow> process ic2_chip b s = Some s' \<Longrightarrow> ic2_inv s'" for s b s'
    using ic2_processData_inv by simp
  show "ic2_inv (s\<lparr>txPtr := i\<rparr>) = ic2_inv s" for s i by (simp add: ic2_inv_def core_inv_def)
  show "ic2_inv s \<Longrightarrow> length (cfgRegs s) = 16 \<and> 1 < length (txBuf s) \<and> (busState s = STATE_WRITE_CMD \<longrightarrow> nParam s \<le> 1)" for s
    by (simp add: ic2_inv_def core_inv_def)
qed (simp_all add: ic2_processData_def ic2_command_def commonCommand_def STATE_defs codes Let_def)

interpretation ic3_registers: register_slave ic3_chip ic3_inv "\<lambda>s. putTx 1 9 (s\<lparr>txPtr := 0\<rparr>)"
proof unfold_locales
  show "ic3_inv s \<Longrightarrow> process ic3_chip b s = Some s' \<Longrightarrow> ic3_inv s'" for s b s'
    using ic3_processData_inv by simp
  show "ic3_inv (s\<lparr>txPtr := i\<rparr>) = ic3_inv s" for s i by (simp add: ic3_inv_def core_inv_def)
  show "ic3_inv s \<Longrightarrow> length (cfgRegs s) = 16 \<and> 1 < length (txBuf s) \<and> (busState s = STATE_WRITE_CMD \<longrightarrow> nParam s \<le> 1)" for s
    by (simp add: ic3_inv_def core_inv_def)
qed (simp_all add: ic3_processData_def ic3_command_def commonCommand_def STATE_defs codes Let_def putTx_def)

interpretation ic4_registers: register_slave ic4_chip ic4_inv "\<lambda>s. s\<lparr>txPtr := 0\<rparr>"
proof unfold_locales
  show "ic4_inv s \<Longrightarrow> process ic4_chip b s = Some s' \<Longrightarrow> ic4_inv s'" for s b s'
    using ic4_processData_inv(1) by simp
  show "ic4_inv (s\<lparr>txPtr := i\<rparr>) = ic4_inv s" for s i by (simp add: ic4_inv_def core_inv_def)
  show "ic4_inv s \<Longrightarrow> length (cfgRegs s) = 16 \<and> 1 < length (txBuf s) \<and> (busState s = STATE_WRITE_CMD \<longrightarrow> nParam s \<le> 1)" for s
    by (simp add: ic4_inv_def core_inv_def)
qed (simp_all add: ic4_processData_def ic4_command_def commonCommand_def STATE_defs codes Let_def)

interpretation distro_registers: register_slave distro_chip distro_inv "\<lambda>s. s\<lparr>txPtr := 0\<rparr>"
proof unfold_locales
  show "distro_inv s \<Longrightarrow> process distro_chip b s = Some s' \<Longrightarrow> distro_inv s'" for s b s'
    using distro_processData_kept [of b s s'] by (simp add: kept_def)
  show "distro_inv (s\<lparr>txPtr := i\<rparr>) = distro_inv s" for s i by (simp add: distro_inv_def)
  show "distro_inv s \<Longrightarrow> length (cfgRegs s) = 16 \<and> 1 < length (txBuf s) \<and> (busState s = STATE_WRITE_CMD \<longrightarrow> nParam s \<le> 1)" for s
    by (simp add: distro_inv_def)
  show "distro_inv s \<Longrightarrow> busState s \<noteq> STATE_READ_CMD \<Longrightarrow> busState s \<noteq> STATE_WRITE_CMD \<Longrightarrow> process distro_chip b s \<noteq> None" for s b
    by (auto simp: distro_processData_def distro_inv_def motrSpeedArg_def distro_STATE_defs word_less_nat_alt Let_def)
qed (simp_all add: distro_processData_def distro_command_def offCodes_def onCodes_def barOffCodes_def barOnCodes_def
      STATE_defs codes Let_def)

text \<open>
  The three slaves on the sensor board leave an array in one case only: the argument
  of a register command is above 15, which none of them checks.  Otherwise a byte of the master is
  taken and the state stays well formed, whatever came before.
\<close>

theorem slaves_crash_only_on_bad_register:
  assumes "ic2_inv s2" and "ic3_inv s3" and "ic4_inv s4"
  shows "(case ic2_processData b s2 of Some s \<Rightarrow> ic2_inv s
      | None \<Rightarrow> busState s2 = STATE_READ_CMD \<and> 16 \<le> unat b \<or> busState s2 = STATE_WRITE_CMD \<and> nParam s2 = 1 \<and> 16 \<le> unat (p1 s2))
    \<and> (case ic3_processData b s3 of Some s \<Rightarrow> ic3_inv s
      | None \<Rightarrow> busState s3 = STATE_READ_CMD \<and> 16 \<le> unat b \<or> busState s3 = STATE_WRITE_CMD \<and> nParam s3 = 1 \<and> 16 \<le> unat (p1 s3))
    \<and> (case ic4_processData b s4 of Some s \<Rightarrow> ic4_inv s
      | None \<Rightarrow> busState s4 = STATE_READ_CMD \<and> 16 \<le> unat b \<or> busState s4 = STATE_WRITE_CMD \<and> nParam s4 = 1 \<and> 16 \<le> unat (p1 s4))"
  using ic2_registers.crashes_iff [OF assms(1), of b] ic3_registers.crashes_iff [OF assms(2), of b]
    ic4_registers.crashes_iff [OF assms(3), of b] ic2_processData_inv [OF assms(1), of b]
    ic3_processData_inv [OF assms(2), of b] ic4_processData_inv(1) [OF assms(3), of b]
  by (simp split: option.split)

lemma lcd_driver_inv [simp]:
  "ic2_inv (lcdWrite b s) = ic2_inv s" "ic2_inv (lcdPulse s) = ic2_inv s" "ic2_inv (setRS v s) = ic2_inv s"
  "ic2_inv (lcdByte b s) = ic2_inv s" "ic2_inv (lcdChar b s) = ic2_inv s" "ic2_inv (initLCD s) = ic2_inv s"
proof -
  have i: "ic2_inv (s\<lparr>LATB := w\<rparr>) = ic2_inv s" "ic2_inv (s\<lparr>LATB := w, LATD3 := d\<rparr>) = ic2_inv s"
    "ic2_inv (s\<lparr>pulses := p, LATB := w\<rparr>) = ic2_inv s" for s w d p
    by (simp_all add: ic2_inv_def core_inv_def)
  have w: "ic2_inv (lcdWrite b s) = ic2_inv s" "ic2_inv (setRS v s) = ic2_inv s" for b v s
    by (simp_all add: lcdWrite_def setRS_def i Let_def)
  have p: "ic2_inv (lcdPulse s) = ic2_inv s" for s by (simp add: lcdPulse_def Let_def ic2_inv_def core_inv_def)
  have b: "ic2_inv (lcdByte b s) = ic2_inv s" for b s by (simp add: lcdByte_def w p Let_def)
  show "ic2_inv (lcdWrite b s) = ic2_inv s" "ic2_inv (lcdPulse s) = ic2_inv s" "ic2_inv (setRS v s) = ic2_inv s"
    "ic2_inv (lcdByte b s) = ic2_inv s" "ic2_inv (lcdChar b s) = ic2_inv s" "ic2_inv (initLCD s) = ic2_inv s"
    by (simp_all add: w p b lcdChar_def initLCD_def Let_def i)
qed

lemma ic2_start_inv: "ic2_inv (ic2_start u)"
  by (simp add: ic2_start_def Let_def) (simp add: ic2_inv_def core_inv_def)

theorem slaves_crash_only_on_bad_register_witness:
  "let u = \<lparr>u1 = fresh_port, u2 = fresh_port\<rparr> in
     \<exists>s. ic4_processData BUS_CMD_READ_REG (ic4_start u) = Some s \<and> ic4_inv s \<and> busState s = STATE_READ_CMD"
proof -
  let ?u = "\<lparr>u1 = fresh_port, u2 = fresh_port\<rparr>"
  have "ic4_processData BUS_CMD_READ_REG (ic4_start ?u) = Some (expect STATE_READ_CMD ((ic4_start ?u)\<lparr>txPtr := 0\<rparr>))"
    by (rule ic4_registers.top_read [unfolded ic4_chip_simps]) (simp add: ic4_start_def STATE_defs)
  then show ?thesis
    using slaves_crash_only_on_bad_register [OF ic2_start_inv [of ?u] ic3_start_inv [of "replicate 60 0" ?u True] ic4_start_inv [of ?u],
      where b = BUS_CMD_READ_REG]
    by (simp add: Let_def expect_def)
qed

end
