(* ===== verification/System.thy ===== *)
theory System
  imports Contract Registers Protocol
begin

text \<open>
  The boards on the bus together: the three slaves of the sensor board and the power distribution
  board are the models of their code, the battery balancer, the sonar and the motor board are chips
  of any kind.  What a command of the host achieves is followed from the bytes on the serial link,
  through the master, the wires and the polling loops on both sides, to the state of the slave.
\<close>

section \<open>The boards\<close>

datatype 'x board = Lcd_board ic2 | Temp_board ic3 | Depth_board ic4 | Distro_board distro | Other_board 'x

definition mount :: "('d \<Rightarrow> 'b) \<Rightarrow> ('b \<Rightarrow> 'd option) \<Rightarrow> 'd chip \<Rightarrow> 'b chip" where
  "mount put get ch =
     \<lparr>process = (\<lambda>b x. case get x of None \<Rightarrow> None | Some d \<Rightarrow> map_option put (process ch b d)),
      next_tx = (\<lambda>x. case get x of None \<Rightarrow> None | Some d \<Rightarrow> map_option (map_prod id put) (next_tx ch d))\<rparr>"

text \<open>Which board answers to which number is in the master's list of slaves.\<close>

definition tortuga_chips :: "(nat \<Rightarrow> 'x chip) \<Rightarrow> nat \<Rightarrow> 'x board chip" where
  "tortuga_chips other i =
     (if i = unat IRQ_IC2 then mount Lcd_board (\<lambda>x. case x of Lcd_board d \<Rightarrow> Some d | _ \<Rightarrow> None) ic2_chip
      else if i = unat IRQ_IC3 then mount Temp_board (\<lambda>x. case x of Temp_board d \<Rightarrow> Some d | _ \<Rightarrow> None) ic3_chip
      else if i = unat IRQ_IC4 then mount Depth_board (\<lambda>x. case x of Depth_board d \<Rightarrow> Some d | _ \<Rightarrow> None) ic4_chip
      else if i = unat IRQ_DISTRO then mount Distro_board (\<lambda>x. case x of Distro_board d \<Rightarrow> Some d | _ \<Rightarrow> None) distro_chip
      else mount Other_board (\<lambda>x. case x of Other_board d \<Rightarrow> Some d | _ \<Rightarrow> None) (other i))"

definition tortuga :: "(nat \<Rightarrow> 'x chip) \<Rightarrow> (nat \<Rightarrow> nat \<Rightarrow> bool) \<Rightarrow> 'x board bus bus_env" where
  "tortuga other sched = slave_bus (tortuga_chips other) sched"

text \<open>The seven boards in the order of their numbers.\<close>

definition rack :: "ic4 \<Rightarrow> ic3 \<Rightarrow> ic2 \<Rightarrow> distro \<Rightarrow> 'x \<times> 'x \<times> 'x \<Rightarrow> 'x board list" where
  "rack d4 d3 d2 dd xs =
     [Depth_board d4, Temp_board d3, Lcd_board d2, Distro_board dd,
      Other_board (fst xs), Other_board (fst (snd xs)), Other_board (snd (snd xs))]"

text \<open>The state of the boards, once what they are still doing is done.\<close>

definition boards :: "(nat \<Rightarrow> 'x chip) \<Rightarrow> 'x board bus master \<Rightarrow> 'x board list" where
  "boards other s = devices (tortuga_chips other) (env s)"

text \<open>Between two commands: no line is driven, no chip is stuck, and none ever drove against another.\<close>

definition ready :: "(nat \<Rightarrow> 'x chip) \<Rightarrow> (nat \<Rightarrow> nat \<Rightarrow> bool) \<Rightarrow> 'x board bus master \<Rightarrow> bool" where
  "ready other sched s \<longleftrightarrow> slave_system.idle sched (tortuga_chips other) s \<and> wf_master s"

lemma ready_idle: "ready other sched s \<Longrightarrow> slave_system.idle sched (tortuga_chips other) s"
  by (simp add: ready_def)

lemma ready_no_conflict: "ready other sched s \<Longrightarrow> \<not> conflict (env s)"
  unfolding ready_def slave_system.idle_def by (simp add: at_rest_def)

section \<open>Chips as the boards see them\<close>

lemma board_numbers:
  "unat IRQ_IC2 = 2" "unat IRQ_IC3 = 1" "unat IRQ_IC4 = 0" "unat IRQ_DISTRO = 3" "unat IRQ_BALANCER = 4"
  "unat IRQ_SONAR = 5" "unat IRQ_MOTOR = 6" "NUM_SLAVES = 7"
  by (simp_all add: codes)

lemma chip_process [simp]:
  "process (tortuga_chips other 0) b (Depth_board d4) = map_option Depth_board (ic4_processData b d4)"
  "process (tortuga_chips other (Suc 0)) b (Temp_board d3) = map_option Temp_board (ic3_processData b d3)"
  "process (tortuga_chips other 2) b (Lcd_board d2) = map_option Lcd_board (ic2_processData b d2)"
  "process (tortuga_chips other 3) b (Distro_board dd) = map_option Distro_board (distro_processData b dd)"
  "4 \<le> i \<Longrightarrow> process (tortuga_chips other i) b (Other_board x) = map_option Other_board (process (other i) b x)"
  by (simp_all add: tortuga_chips_def mount_def board_numbers)

lemma chip_next_tx [simp]:
  "next_tx (tortuga_chips other 0) (Depth_board d4) = map_option (map_prod id Depth_board) (nextTx d4)"
  "next_tx (tortuga_chips other (Suc 0)) (Temp_board d3) = map_option (map_prod id Temp_board) (nextTx d3)"
  "next_tx (tortuga_chips other 2) (Lcd_board d2) = map_option (map_prod id Lcd_board) (nextTx d2)"
  "next_tx (tortuga_chips other 3) (Distro_board dd) = map_option (map_prod id Distro_board) (nextTx dd)"
  "4 \<le> i \<Longrightarrow> next_tx (tortuga_chips other i) (Other_board x) = map_option (map_prod id Other_board) (next_tx (other i) x)"
  by (simp_all add: tortuga_chips_def mount_def board_numbers)

lemma rack_nth [simp]:
  "rack d4 d3 d2 dd xs ! 0 = Depth_board d4" "rack d4 d3 d2 dd xs ! Suc 0 = Temp_board d3"
  "rack d4 d3 d2 dd xs ! 2 = Lcd_board d2" "rack d4 d3 d2 dd xs ! 3 = Distro_board dd"
  by (simp_all add: rack_def)

lemma rack_update [simp]:
  "(rack d4 d3 d2 dd xs)[0 := Depth_board d4'] = rack d4' d3 d2 dd xs"
  "(rack d4 d3 d2 dd xs)[Suc 0 := Temp_board d3'] = rack d4 d3' d2 dd xs"
  "(rack d4 d3 d2 dd xs)[2 := Lcd_board d2'] = rack d4 d3 d2' dd xs"
  "(rack d4 d3 d2 dd xs)[3 := Distro_board dd'] = rack d4 d3 d2 dd' xs"
  by (simp_all add: rack_def numeral_eq_Suc)

text \<open>A byte handed to one of the four boards.\<close>

lemma feed_boards:
  "ic4_processData b d4 = Some d4' \<Longrightarrow>
     feed (tortuga_chips other) ((b, IRQ_IC4) # ws) (rack d4 d3 d2 dd xs) = feed (tortuga_chips other) ws (rack d4' d3 d2 dd xs)"
  "ic3_processData b d3 = Some d3' \<Longrightarrow>
     feed (tortuga_chips other) ((b, IRQ_IC3) # ws) (rack d4 d3 d2 dd xs) = feed (tortuga_chips other) ws (rack d4 d3' d2 dd xs)"
  "ic2_processData b d2 = Some d2' \<Longrightarrow>
     feed (tortuga_chips other) ((b, IRQ_IC2) # ws) (rack d4 d3 d2 dd xs) = feed (tortuga_chips other) ws (rack d4 d3 d2' dd xs)"
  "distro_processData b dd = Some dd' \<Longrightarrow>
     feed (tortuga_chips other) ((b, IRQ_DISTRO) # ws) (rack d4 d3 d2 dd xs) = feed (tortuga_chips other) ws (rack d4 d3 d2 dd' xs)"
  by (simp_all add: board_numbers)

text \<open>The block one of the four boards sends.\<close>

lemma draw_mount:
  assumes "\<And>d. next_tx ch (put d) = map_option (map_prod id put) (nextTx d)"
  shows "draw ch n (put d) = map_option (map_prod id put) (draw \<lparr>process = (\<lambda>b d. None), next_tx = nextTx\<rparr> n d)"
proof (induction n arbitrary: d)
  case (Suc n)
  then show ?case by (auto simp: assms split: option.split prod.split)
qed simp

lemma draw_block_mount:
  assumes "\<And>d. next_tx ch (put d) = map_option (map_prod id put) (next_tx ch0 d)"
  shows "draw_block ch (put d) = map_option (map_prod id put) (draw_block ch0 d)"
proof -
  have "draw ch n (put d) = map_option (map_prod id put) (draw ch0 n d)" for n d
    by (induction n arbitrary: d) (auto simp: assms split: option.split prod.split)
  then show ?thesis by (auto simp: draw_block_def assms split: option.split prod.split)
qed

lemma nextTx_at:
  "txPtr s = of_nat i \<Longrightarrow> i < length (txBuf s) \<Longrightarrow> i < 256 \<Longrightarrow> nextTx s = Some (txBuf s ! i, s\<lparr>txPtr := of_nat (Suc i)\<rparr>)"
  by (simp add: nextTx_def unat_of_nat take_bit_nat_def)

lemma draw_txBuf:
  assumes "txPtr s = of_nat i" and "i + n \<le> length (txBuf s)" and "length (txBuf s) \<le> 255"
  shows "draw \<lparr>process = (\<lambda>b d. None), next_tx = nextTx\<rparr> n s = Some (map (\<lambda>k. txBuf s ! (i + k)) [0..<n], s\<lparr>txPtr := of_nat (i + n)\<rparr>)"
  using assms
proof (induction n arbitrary: s i)
  case (Suc n)
  have "nextTx s = Some (txBuf s ! i, s\<lparr>txPtr := of_nat (Suc i)\<rparr>)"
    using Suc.prems by (intro nextTx_at) simp_all
  moreover have "map (\<lambda>k. txBuf s ! (i + k)) [0..<Suc n] = txBuf s ! i # map (\<lambda>k. txBuf s ! (Suc i + k)) [0..<n]"
    by (simp add: upt_conv_Cons map_Suc_upt [symmetric] del: upt_Suc)
  ultimately show ?case
    using Suc.IH [of "s\<lparr>txPtr := of_nat (Suc i)\<rparr>" "Suc i"] Suc.prems by simp
qed simp

lemma draw_block_txBuf:
  assumes "\<And>d. next_tx ch (put d) = map_option (map_prod id put) (nextTx d)"
    and "txPtr s = 0" and "txBuf s ! 0 = of_nat n" and "n < length (txBuf s)" and "length (txBuf s) \<le> 255"
  shows "draw_block ch (put s) = Some (map (\<lambda>k. txBuf s ! Suc k) [0..<n], put (s\<lparr>txPtr := of_nat (Suc n)\<rparr>))"
proof -
  have "nextTx s = Some (of_nat n, s\<lparr>txPtr := 1\<rparr>)" using nextTx_at [of s 0] assms(2-5) by (cases "txBuf s") simp_all
  moreover have "unat (of_nat n :: byte) = n" using assms(4,5) by (simp add: unat_of_nat take_bit_nat_def)
  ultimately show ?thesis
    using draw_txBuf [of "s\<lparr>txPtr := 1\<rparr>" 1 n] assms(4,5)
    by (simp add: draw_block_def assms(1) draw_mount [where put = put, OF assms(1)])
qed

section \<open>The depth, from the sensor to the host\<close>

lemma echoT1_byte: "receives s [cmd] evs \<Longrightarrow> echoT1 E cmd s k = k (s\<lparr>rx := evs, t1 := uint cmd\<rparr>)"
  by (simp add: echoT1_def waitT1_def receives_def)

lemma ready_updates [simp]:
  "ready other sched (s\<lparr>rx := evs\<rparr>) = ready other sched s"
  "ready other sched (s\<lparr>t1 := x\<rparr>) = ready other sched s"
  "ready other sched (s\<lparr>rx := evs, t1 := x\<rparr>) = ready other sched s"
  "boards other (s\<lparr>rx := evs, t1 := x\<rparr>) = boards other s"
  "boards other (s\<lparr>rx := evs\<rparr>) = boards other s"
  by (simp_all add: ready_def slave_system.idle_def wf_master_def quiet_def released_def boards_def)

lemma depth_command:
  assumes "ic4_inv d" and "busState d = STATE_TOP_LEVEL"
  shows "\<exists>d1 d2. ic4_processData BUS_CMD_DEPTH d = Some d1
    \<and> draw_block (tortuga_chips other 0) (Depth_board d1)
        = Some ([ucast (drop_bit 8 (avgDepth d AND 0xFF00)), ucast (avgDepth d AND 0xFF)], Depth_board d2)
    \<and> avgDepth d2 = avgDepth d \<and> busState d2 = STATE_TOP_LEVEL"
proof -
  let ?d1 = "putTx 2 (ucast (avgDepth d AND 0xFF)) (putTx 1 (ucast (drop_bit 8 (avgDepth d AND 0xFF00))) (putTx 0 2 (d\<lparr>txPtr := 0\<rparr>)))"
  have p: "ic4_processData BUS_CMD_DEPTH d = Some ?d1"
    using assms(2) by (simp add: ic4_processData_def ic4_command_def putTx_def codes)
  have l: "length (txBuf d) = 60" using assms(1) by (simp add: ic4_inv_def core_inv_def)
  then have "draw_block (tortuga_chips other 0) (Depth_board ?d1)
      = Some (map (\<lambda>k. txBuf ?d1 ! Suc k) [0..<2], Depth_board (?d1\<lparr>txPtr := of_nat (Suc 2)\<rparr>))"
    by (intro draw_block_txBuf) (simp_all add: putTx_def)
  moreover have "map (\<lambda>k. txBuf ?d1 ! Suc k) [0..<2]
      = [ucast (drop_bit 8 (avgDepth d AND 0xFF00)), ucast (avgDepth d AND 0xFF)]"
    using l by (simp add: putTx_def numeral_eq_Suc)
  ultimately show ?thesis using p assms(2) by (simp add: putTx_def)
qed

lemma depth_over_bus:
  assumes "ready other sched s" and "boards other s = rack d4 d3 d2 dd xs"
    and "ic4_inv d4" and "busState d4 = STATE_TOP_LEVEL" and "receives s [HOST_CMD_DEPTH] evs"
    and "hi = ucast (drop_bit 8 (avgDepth d4 AND 0xFF00))" and "lo = ucast (avgDepth d4 AND 0xFF)"
  shows "\<exists>s' d4'. hostCommand (tortuga other sched) HOST_CMD_DEPTH s = Done () s'
    \<and> tx s' = tx s @ [HOST_REPLY_DEPTH, hi, lo, HOST_REPLY_DEPTH + hi + lo] \<and> rx s' = evs
    \<and> ready other sched s' \<and> \<not> conflict (env s') \<and> boards other s' = rack d4' d3 d2 dd xs \<and> avgDepth d4' = avgDepth d4
    \<and> usb s' = usb s \<and> failsafeTripped s' = failsafeTripped s"
proof -
  let ?s = "s\<lparr>rx := evs, t1 := uint HOST_CMD_DEPTH\<rparr>"
  have h: "hostCommand (tortuga other sched) HOST_CMD_DEPTH s
      = query (tortuga other sched) BUS_CMD_DEPTH SLAVE_ID_DEPTH 2 HOST_REPLY_DEPTH ?s"
    using assms(5) by (simp add: hostCommand_lookup(1) [OF command_lookup(4)] host_depth_def echoT1_byte)
  obtain d1 d5 where d: "ic4_processData BUS_CMD_DEPTH d4 = Some d1"
    "draw_block (tortuga_chips other 0) (Depth_board d1) = Some ([hi, lo], Depth_board d5)" "avgDepth d5 = avgDepth d4"
    using depth_command [OF assms(3,4), of other] assms(6,7) by blast
  have f: "feed (tortuga_chips other) [(BUS_CMD_DEPTH, SLAVE_ID_DEPTH)] (boards other ?s) = Some (rack d1 d3 d2 dd xs)"
    using assms(2) by (simp add: SLAVE_ID_DEPTH_val feed_boards(1) [OF d(1)] del: feed.simps(2))
  have r: "ready other sched ?s" using assms(1) by simp
  have i: "slave_system.idle sched (tortuga_chips other) ?s" "wf_master ?s"
    using r unfolding ready_def by blast+
  obtain s' where "query (tortuga other sched) BUS_CMD_DEPTH SLAVE_ID_DEPTH 2 HOST_REPLY_DEPTH ?s = Done () s'"
    "tx s' = tx ?s @ HOST_REPLY_DEPTH # [hi, lo] @ [sum_list [hi, lo] + HOST_REPLY_DEPTH]" "rx s' = rx ?s"
    "slave_system.idle sched (tortuga_chips other) s'" "wf_master s'"
    "boards other s' = (rack d1 d3 d2 dd xs)[unat SLAVE_ID_DEPTH := Depth_board d5]"
    "usb s' = usb s" "failsafeTripped s' = failsafeTripped s"
    using slave_system.query_draw [OF i, where cmd = BUS_CMD_DEPTH and req = SLAVE_ID_DEPTH and ds = "rack d1 d3 d2 dd xs"
        and bs = "[hi, lo]" and d = "Depth_board d5" and n = 2 and reply = HOST_REPLY_DEPTH] f d(2)
    unfolding tortuga_def boards_def by (auto simp: SLAVE_ID_DEPTH_val board_numbers)
  then show ?thesis
    using h d(3) ready_no_conflict [of other sched s']
    by (auto simp: ready_def SLAVE_ID_DEPTH_val board_numbers algebra_simps intro!: exI [of _ s'] exI [of _ d5])
qed

section \<open>A system that has just been switched on\<close>

lemma power_up_rest: "at_rest ch (power_up ds)" "devices ch (power_up ds) = map ds [0..<7]"
  by (auto simp: at_rest_def power_up_def initBus_def calm_def devices_def soon_def NUM_SLAVES_val codes)

definition silent_chip :: "unit chip" where
  "silent_chip = \<lparr>process = (\<lambda>b d. Some d), next_tx = (\<lambda>d. Some (0, d))\<rparr>"

text \<open>Every slave runs between any two samples of the master.\<close>

definition keen :: "nat \<Rightarrow> nat \<Rightarrow> bool" where
  "keen t i = True"

definition idle_uarts :: uarts where
  "idle_uarts = \<lparr>u1 = fresh_port, u2 = fresh_port\<rparr>"

definition first_boards :: "unit board list" where
  "first_boards = rack (ic4_start idle_uarts) (ic3_start idle_uarts (replicate 60 0) True) (ic2_start idle_uarts)
     (distro_start False) ((), (), ())"

definition first_state :: "uart_event list \<Rightarrow> unit board bus master" where
  "first_state evs = started (power_up ((!) first_boards)) evs"

lemma first_state_ready:
  "ready (\<lambda>i. silent_chip) keen (first_state evs)"
  "boards (\<lambda>i. silent_chip) (first_state evs) = rack (ic4_start idle_uarts) (ic3_start idle_uarts (replicate 60 0) True)
     (ic2_start idle_uarts) (distro_start False) ((), (), ())"
  "tx (first_state evs) = []"
proof -
  have p: "prompt keen" by (auto simp: prompt_def keen_def intro: exI [of _ 0])
  show "ready (\<lambda>i. silent_chip) keen (first_state evs)"
    unfolding ready_def slave_system.idle_def first_state_def
    using p power_up_rest(1) by (simp add: started) (simp add: started_def)
  have "length first_boards = 7" by (simp add: first_boards_def rack_def)
  then have "devices (tortuga_chips (\<lambda>i. silent_chip)) (power_up ((!) first_boards)) = map ((!) first_boards) [0..<length first_boards]"
    by (simp only: power_up_rest(2))
  then show "boards (\<lambda>i. silent_chip) (first_state evs) = rack (ic4_start idle_uarts) (ic3_start idle_uarts (replicate 60 0) True)
     (ic2_start idle_uarts) (distro_start False) ((), (), ())"
    unfolding map_nth boards_def by (simp add: first_state_def started_def first_boards_def)
  show "tx (first_state evs) = []" by (simp add: first_state_def started)
qed

lemma first_state_receives: "receives (first_state (map Byte bs @ evs)) bs evs"
  by (simp add: first_state_def started_receives)

section \<open>Text, from the host to the display\<close>

lemma feed_lcd:
  "process_all ic2_chip bs d2 = Some d2' \<Longrightarrow>
     feed (tortuga_chips other) (map (\<lambda>b. (b, SLAVE_ID_LCD)) bs @ ws) (rack d4 d3 d2 dd xs)
       = feed (tortuga_chips other) ws (rack d4 d3 d2' dd xs)"
proof (induction bs arbitrary: d2)
  case (Cons b bs)
  then obtain t where t: "ic2_processData b d2 = Some t" "process_all ic2_chip bs t = Some d2'"
    by (auto split: option.splits)
  show ?case using Cons.IH [OF t(2)] by (simp add: SLAVE_ID_LCD_val feed_boards(3) [OF t(1)] del: feed.simps(2))
qed simp

text \<open>The commands of one character, and of the refresh.\<close>

definition lcd_ready :: "ic2 \<Rightarrow> bool" where
  "lcd_ready d \<longleftrightarrow> ic2_inv d \<and> busState d = STATE_TOP_LEVEL"

lemma lcd_character:
  assumes "lcd_ready d" and "unat pos < 32"
  shows "\<exists>d'. process_all ic2_chip [BUS_CMD_LCD_WRITE, pos, c] d = Some d' \<and> lcd_ready d'
    \<and> lcdBuf d' = (lcdBuf d)[unat pos := c] \<and> lcdUpdate d' = lcdUpdate d \<and> pulses d' = pulses d"
proof -
  let ?d = "d\<lparr>nParam := 0, busState := STATE_TOP_LEVEL, p1 := pos, txPtr := 0, lcdBuf := (lcdBuf d)[unat pos := c]\<rparr>"
  have "pos < 32" using assms(2) by (simp add: word_less_nat_alt)
  then have p: "process_all ic2_chip [BUS_CMD_LCD_WRITE, pos, c] d = Some ?d"
    using assms(1) by (simp add: lcd_ready_def ic2_processData_def ic2_command_def expect_def writeLcdArg_def countParam_def
        STATE_defs codes)
  then show ?thesis
    using assms(1) ic2_registers.keeps_all [OF _ p] by (simp add: lcd_ready_def)
qed

lemma lcd_refresh:
  assumes "lcd_ready d"
  shows "\<exists>d'. process_all ic2_chip [BUS_CMD_LCD_REFRESH] d = Some d' \<and> lcd_ready d'
    \<and> lcdBuf d' = lcdBuf d \<and> lcdUpdate d' = lcdUpdate d + 1 \<and> pulses d' = pulses d"
proof -
  have p: "process_all ic2_chip [BUS_CMD_LCD_REFRESH] d = Some (d\<lparr>txPtr := 0, lcdUpdate := lcdUpdate d + 1\<rparr>)"
    using assms by (simp add: lcd_ready_def ic2_processData_def ic2_command_def STATE_defs codes)
  then show ?thesis
    using assms ic2_registers.keeps_all [OF _ p] by (simp add: lcd_ready_def)
qed

lemma text_fed:
  assumes "lcd_ready d" and "line \<le> 1" and "i + length cs \<le> 16"
  shows "\<exists>d'. feed (tortuga_chips other) (text_writes line cs i) (rack d4 d3 d dd xs) = Some (rack d4 d3 d' dd xs)
    \<and> lcd_ready d' \<and> lcdBuf d' = overwrite (unat line * 16 + i) cs (lcdBuf d)
    \<and> lcdUpdate d' = lcdUpdate d \<and> pulses d' = pulses d"
  using assms
proof (induction cs arbitrary: d i)
  case Nil
  then show ?case by (intro exI [of _ d]) simp
next
  case (Cons c cs)
  have pos: "unat (line * 16 + of_nat i) = unat line * 16 + i"
    using Cons.prems(2,3) by (auto simp: byte_le_1 unat_word_ariths unat_of_nat take_bit_nat_def)
  then have "unat (line * 16 + of_nat i) < 32" using Cons.prems(2,3) by (auto simp: byte_le_1)
  then obtain t where t: "process_all ic2_chip [BUS_CMD_LCD_WRITE, line * 16 + of_nat i, c] d = Some t" "lcd_ready t"
    "lcdBuf t = (lcdBuf d)[unat line * 16 + i := c]" "lcdUpdate t = lcdUpdate d" "pulses t = pulses d"
    using lcd_character [OF Cons.prems(1), of "line * 16 + of_nat i" c] pos by auto
  obtain d' where d': "feed (tortuga_chips other) (text_writes line cs (Suc i)) (rack d4 d3 t dd xs) = Some (rack d4 d3 d' dd xs)"
    "lcd_ready d'" "lcdBuf d' = overwrite (unat line * 16 + Suc i) cs (lcdBuf t)" "lcdUpdate d' = lcdUpdate t" "pulses d' = pulses t"
    using Cons.IH [OF t(2) Cons.prems(2), of "Suc i"] Cons.prems(3) by auto
  have "text_writes line (c # cs) i
      = map (\<lambda>b. (b, SLAVE_ID_LCD)) [BUS_CMD_LCD_WRITE, line * 16 + of_nat i, c] @ text_writes line cs (Suc i)" by simp
  then have "feed (tortuga_chips other) (text_writes line (c # cs) i) (rack d4 d3 d dd xs) = Some (rack d4 d3 d' dd xs)"
    by (simp only: feed_lcd [OF t(1)] d'(1))
  then show ?case using d' t(3-5) by (intro exI [of _ d']) (simp del: feed.simps text_writes.simps)
qed

lemma text_stored:
  assumes "ready other sched s" and "boards other s = rack d4 d3 d2 dd xs"
    and "ic2_inv d2" and "busState d2 = STATE_TOP_LEVEL"
    and "receives s (line # msg @ [sum_list msg + line + HOST_CMD_PRINTTEXT]) evs" and "line \<le> 1" and "length msg = 16"
  shows "\<exists>s' d2'. hostCommand (tortuga other sched) HOST_CMD_PRINTTEXT s = Done () s' \<and> tx s' = tx s @ [HOST_REPLY_SUCCESS]
    \<and> ready other sched s' \<and> boards other s' = rack d4 d3 d2' dd xs
    \<and> lcdBuf d2' = overwrite (unat line * 16) msg (lcdBuf d2)
    \<and> lcdUpdate d2' = lcdUpdate d2 + 1 \<and> pulses d2' = pulses d2 \<and> lcd_ready d2'
    \<and> rx s' = evs \<and> usb s' = usb s \<and> failsafeTripped s' = failsafeTripped s"
proof -
  let ?E = "tortuga other sched" and ?ck = "sum_list msg + line + HOST_CMD_PRINTTEXT"
  let ?buf = "(overwrite 0 msg ((rxBuf s)[16 := line]))[17 := ?ck]"
  let ?s = "s\<lparr>rx := evs, rxBuf := ?buf\<rparr>"
  note f = printtext_frame [OF assms(5,7)]
  have h: "hostCommand ?E HOST_CMD_PRINTTEXT s = on (printTextLoop ?E 0 16 0 ?s) (\<lambda>err s.
      on (busWriteByte ?E BUS_CMD_LCD_REFRESH SLAVE_ID_LCD s) (\<lambda>r s.
      if err + r \<noteq> 0 then sendByte HOST_REPLY_FAILURE s else sendByte HOST_REPLY_SUCCESS s))"
    using f(1) assms(6) by (simp add: hostCommand_lookup(1) [OF command_lookup(25)])
  have i: "slave_system.idle sched (tortuga_chips other) ?s" "wf_master ?s" "boards other ?s = boards other s"
    using assms(1) f(4) unfolding ready_def slave_system.idle_def boards_def
    by (simp_all add: wf_master_def quiet_def released_def)
  have "lcd_ready d2" using assms(3,4) by (simp add: lcd_ready_def)
  then obtain t where t: "feed (tortuga_chips other) (text_writes line msg 0) (boards other ?s) = Some (rack d4 d3 t dd xs)"
    "lcd_ready t" "lcdBuf t = overwrite (unat line * 16) msg (lcdBuf d2)" "lcdUpdate t = lcdUpdate d2" "pulses t = pulses d2"
    using text_fed [of d2 line 0 msg other d4 d3 dd xs] assms(2,6,7) i(3) by auto
  obtain s1 where s1: "printTextLoop ?E 0 16 0 ?s = Done 0 s1" "bus_only ?s s1" "slave_system.idle sched (tortuga_chips other) s1"
    "boards other s1 = rack d4 d3 t dd xs"
    using slave_system.printTextLoop_feed [OF i(1), of line msg 0] f(2,3) t(1) assms(7)
    unfolding tortuga_def boards_def by auto
  obtain d2' where d2': "ic2_processData BUS_CMD_LCD_REFRESH t = Some d2'" "lcd_ready d2'" "lcdBuf d2' = lcdBuf t"
    "lcdUpdate d2' = lcdUpdate t + 1" "pulses d2' = pulses t"
    using lcd_refresh [OF t(2)] by (auto split: option.splits)
  have "feed (tortuga_chips other) [(BUS_CMD_LCD_REFRESH, SLAVE_ID_LCD)] (boards other s1) = Some (rack d4 d3 d2' dd xs)"
    by (simp add: s1(4) SLAVE_ID_LCD_val feed_boards(3) [OF d2'(1)] del: feed.simps(2))
  then obtain s2 where s2: "busWriteByte ?E BUS_CMD_LCD_REFRESH SLAVE_ID_LCD s1 = Done 0 s2" "bus_only s1 s2"
    "slave_system.idle sched (tortuga_chips other) s2" "boards other s2 = rack d4 d3 d2' dd xs"
    using slave_system.busWriteByte_feed [OF s1(3)] unfolding tortuga_def boards_def by blast
  let ?s' = "s2\<lparr>tx := tx s2 @ [HOST_REPLY_SUCCESS]\<rparr>"
  have "hostCommand ?E HOST_CMD_PRINTTEXT s = Done () ?s'"
    unfolding h s1(1) on_Done s2(1) by (simp add: sendByte_def)
  moreover have "tx s2 = tx s" using s1(2) s2(2) by (simp add: bus_only_def)
  moreover have "ready other sched ?s'"
    using s2(2,3) s1(2) i(2) unfolding ready_def slave_system.idle_def
    by (simp add: bus_only_def wf_master_def quiet_def released_def)
  moreover have "boards other ?s' = rack d4 d3 d2' dd xs" using s2(4) by (simp add: boards_def)
  moreover have "rx s2 = evs" "usb s2 = usb s" "failsafeTripped s2 = failsafeTripped s"
    using s1(2) s2(2) by (simp_all add: bus_only_def)
  ultimately show ?thesis using d2' t(3-5) by (intro exI [of _ ?s'] exI [of _ d2']) simp
qed

lemma text_over_bus:
  assumes "ready other sched s" and "boards other s = rack d4 d3 d2 dd xs"
    and "ic2_inv d2" and "busState d2 = STATE_TOP_LEVEL" and "lcdUpdate d2 < 255" and "even (length (pulses d2))"
    and "receives s (line # msg @ [sum_list msg + line + HOST_CMD_PRINTTEXT]) evs" and "line \<le> 1" and "length msg = 16"
  shows "\<exists>s' d2'. hostCommand (tortuga other sched) HOST_CMD_PRINTTEXT s = Done () s' \<and> tx s' = tx s @ [HOST_REPLY_SUCCESS]
    \<and> ready other sched s' \<and> boards other s' = rack d4 d3 d2' dd xs
    \<and> rx s' = evs \<and> usb s' = usb s \<and> failsafeTripped s' = failsafeTripped s
    \<and> lcdBuf d2' = overwrite (unat line * 16) msg (lcdBuf d2)
    \<and> (\<forall>k<16. screen (refreshAll d2') (place (unat line * 16 + k)) = msg ! k)"
proof -
  obtain s' d2' where s': "hostCommand (tortuga other sched) HOST_CMD_PRINTTEXT s = Done () s'" "tx s' = tx s @ [HOST_REPLY_SUCCESS]"
    "ready other sched s'" "boards other s' = rack d4 d3 d2' dd xs" "lcdBuf d2' = overwrite (unat line * 16) msg (lcdBuf d2)"
    "lcdUpdate d2' = lcdUpdate d2 + 1" "pulses d2' = pulses d2" "rx s' = evs" "usb s' = usb s" "failsafeTripped s' = failsafeTripped s"
    using text_stored [OF assms(1-4,7-9)] by blast
  have "(n :: byte) < 255 \<Longrightarrow> n + 1 > 0" for n
    using eq_neg_iff_add_eq_0 [of n 1] by (auto simp: word_gt_0)
  then have "lcdUpdate d2' > 0" using assms(5) s'(6) by simp
  then have "screen (refreshAll d2') (place (unat line * 16 + k)) = msg ! k" if "k < 16" for k
    using screen_refreshAll [of d2' "unat line * 16 + k"] assms(3,6,8,9) s'(5,7) that
    by (auto simp: byte_le_1 nth_overwrite ic2_inv_def)
  then show ?thesis using s' by (intro exI [of _ s'] exI [of _ d2']) simp
qed

section \<open>Thrusters, from the host to the pins\<close>

lemma distro_codes:
  "map_of offCodes (tkCommands ! k) = (if k < 6 then Some (k + 1) else None)"
  "6 \<le> k \<Longrightarrow> map_of onCodes (tkCommands ! k) = Some (k - 5)" if "k < 12"
proof -
  have "list_all (\<lambda>k. map_of offCodes (tkCommands ! k) = (if k < 6 then Some (k + 1) else None)
      \<and> (6 \<le> k \<longrightarrow> map_of onCodes (tkCommands ! k) = Some (k - 5))) [0..<12]"
    by code_simp
  then show "map_of offCodes (tkCommands ! k) = (if k < 6 then Some (k + 1) else None)"
    "6 \<le> k \<Longrightarrow> map_of onCodes (tkCommands ! k) = Some (k - 5)"
    using that by (simp_all add: list_all_iff)
qed

lemma distro_thruster_command:
  assumes "busState d = STATE_TOP_LEVEL" and "tripped_off d" and "k < 12"
  shows "\<exists>d'. distro_processData (tkCommands ! k) d = Some d' \<and> ovrReg d' = (if k < 6 then ovrReg d AND NOT (push_bit k 1) else ovrReg d)
    \<and> (\<forall>n\<in>{1..6}. LAT_MOTR d' n = (if n = k + 1 then False else if n + 5 = k then \<not> bit (ovrReg d) (n - 1) else LAT_MOTR d n))"
proof (cases "k < 6")
  case True
  have "distro_processData (tkCommands ! k) d = Some (thrusterOff (k + 1) (d\<lparr>txPtr := 0\<rparr>))"
    using assms(1) distro_codes(1) [OF assms(3)] True by (simp add: distro_processData_def distro_command_def)
  then show ?thesis
    using True assms(2) by (auto simp: thrusterOff_def checkOvrReg_def tripped_off_def bit_and_iff)
next
  case False
  have "distro_processData (tkCommands ! k) d = Some (thrusterOn (k - 5) (d\<lparr>txPtr := 0\<rparr>))"
    using assms(1) distro_codes [OF assms(3)] False by (simp add: distro_processData_def distro_command_def)
  moreover have "n + 5 = k \<longleftrightarrow> n = k - 5" for n using False by linarith
  ultimately show ?thesis
    using False assms(2,3) by (auto simp: thrusterOn_def tripped_off_def and_exp_eq_0_iff_not_bit)
qed

lemma thruster_over_bus:
  assumes "ready other sched s" and "boards other s = rack d4 d3 d2 dd xs"
    and "busState dd = STATE_TOP_LEVEL" and "tripped_off dd"
    and "receives s bs evs" and "well_framed HOST_CMD_THRUSTERS bs" and "unat (bs ! 5) = k"
  shows "\<exists>s' dd'. hostCommand (tortuga other sched) HOST_CMD_THRUSTERS s = Done () s' \<and> tx s' = tx s @ [HOST_REPLY_SUCCESS]
    \<and> rx s' = evs \<and> ready other sched s' \<and> usb s' = usb s \<and> failsafeTripped s' = failsafeTripped s
    \<and> boards other s' = rack d4 d3 d2 dd' xs \<and> ovrReg dd' = (if k < 6 then ovrReg dd AND NOT (push_bit k 1) else ovrReg dd)
    \<and> (\<forall>n\<in>{1..6}. LAT_MOTR dd' n = (if n = k + 1 then False else if n + 5 = k then \<not> bit (ovrReg dd) (n - 1) else LAT_MOTR dd n))"
proof -
  let ?plan = "\<lambda>p. [(tkCommands ! unat (p ! 5 :: byte), SLAVE_ID_THRUSTERS)]"
  have "length bs = 7" "butlast bs ! 5 \<le> 11" using assms(6) by (simp_all add: well_framed_def payloads_def codes)
  then have "bs ! 5 \<le> 11" by (simp add: nth_butlast)
  then have "k < 12" using assms(7) by (simp add: word_le_nat_alt)
  then obtain dd' where dd': "distro_processData (tkCommands ! k) dd = Some dd'"
    "ovrReg dd' = (if k < 6 then ovrReg dd AND NOT (push_bit k 1) else ovrReg dd)"
    "\<forall>n\<in>{1..6}. LAT_MOTR dd' n = (if n = k + 1 then False else if n + 5 = k then \<not> bit (ovrReg dd) (n - 1) else LAT_MOTR dd n)"
    using distro_thruster_command [OF assms(3,4)] by blast
  have f: "feed (tortuga_chips other) (?plan bs) (boards other s) = Some (rack d4 d3 d2 dd' xs)"
    using assms(7) by (simp add: assms(2) SLAVE_ID_THRUSTERS_val feed_boards(4) [OF dd'(1)] del: feed.simps(2))
  have m: "(HOST_CMD_THRUSTERS, ?plan) \<in> set plans" by (simp add: plans_def)
  obtain s' where "hostCommand (tortuga other sched) HOST_CMD_THRUSTERS s = Done () s'" "tx s' = tx s @ [HOST_REPLY_SUCCESS]"
    "rx s' = evs" "ready other sched s'" "usb s' = usb s" "failsafeTripped s' = failsafeTripped s"
    "boards other s' = rack d4 d3 d2 dd' xs"
    using slave_system.plan_fed [OF m assms(5,6) ready_idle [OF assms(1)]] f unfolding tortuga_def boards_def ready_def by blast
  then show ?thesis using dd'(2,3) by blast
qed

section \<open>The overcurrent limits, there and back\<close>

lemma feed_distro:
  "process_all distro_chip bs dd = Some dd' \<Longrightarrow>
     feed (tortuga_chips other) (map (\<lambda>b. (b, SLAVE_ID_THRUSTERS)) bs @ ws) (rack d4 d3 d2 dd xs)
       = feed (tortuga_chips other) ws (rack d4 d3 d2 dd' xs)"
proof (induction bs arbitrary: dd)
  case (Cons b bs)
  then obtain t where t: "distro_processData b dd = Some t" "process_all distro_chip bs t = Some dd'"
    by (auto split: option.splits)
  show ?case using Cons.IH [OF t(2)] by (simp add: SLAVE_ID_THRUSTERS_val feed_boards(4) [OF t(1)] del: feed.simps(2))
qed simp

text \<open>Reading one register of the power distribution board.\<close>

lemma read_distro_register:
  fixes s :: "'x board bus master"
  assumes "ready other sched s" and "boards other s = rack d4 d3 d2 dd xs"
    and "distro_inv dd" and "busState dd = STATE_TOP_LEVEL" and "unat r < 16"
  obtains s' dd' where "\<And>k. must (tortuga other sched) BUS_CMD_READ_REG SLAVE_ID_THRUSTERS s (\<lambda>s.
      must (tortuga other sched) r SLAVE_ID_THRUSTERS s (\<lambda>s. mustRead (tortuga other sched) SLAVE_ID_THRUSTERS 1 s k)) = k s'"
    "block_only s s'" "ready other sched s'" "boards other s' = rack d4 d3 d2 dd' xs" "distro_inv dd'"
    "busState dd' = STATE_TOP_LEVEL" "cfgRegs dd' = cfgRegs dd" "rxBuf s' ! 0 = cfgRegs dd ! unat r" "length (rxBuf s') = 60"
proof -
  have i: "slave_system.idle sched (tortuga_chips other) s" "wf_master s" using assms(1) unfolding ready_def by blast+
  obtain t t' where t: "process_all distro_chip [BUS_CMD_READ_REG, r] dd = Some t" "distro_inv t" "cfgRegs t = cfgRegs dd"
    "draw_block distro_chip t = Some ([cfgRegs dd ! unat r], t')" "distro_inv t'" "busState t' = STATE_TOP_LEVEL" "cfgRegs t' = cfgRegs dd"
    using distro_registers.read_register [OF assms(3-5)] by blast
  obtain a where a: "distro_processData BUS_CMD_READ_REG dd = Some a" "distro_processData r a = Some t"
    using t(1) by (auto split: option.splits)
  have id: "unat SLAVE_ID_THRUSTERS = 3" by (simp add: SLAVE_ID_THRUSTERS_val codes)
  have f: "feed (tortuga_chips other) [(b, SLAVE_ID_THRUSTERS)] (rack d4 d3 d2 dd xs) = Some (rack d4 d3 d2 dd' xs)"
    if "distro_processData b dd = Some dd'" for b dd dd'
    using that by (simp add: SLAVE_ID_THRUSTERS_val feed_boards(4) [OF that] del: feed.simps(2))
  obtain s1 where s1: "\<And>k. must (tortuga other sched) BUS_CMD_READ_REG SLAVE_ID_THRUSTERS s k = k s1" "bus_only s s1"
    "slave_system.idle sched (tortuga_chips other) s1" "boards other s1 = rack d4 d3 d2 a xs"
    using slave_system.must_feed [OF i(1), of BUS_CMD_READ_REG SLAVE_ID_THRUSTERS] f [OF a(1)] assms(2)
    unfolding tortuga_def boards_def by metis
  obtain s2 where s2: "\<And>k. must (tortuga other sched) r SLAVE_ID_THRUSTERS s1 k = k s2" "bus_only s1 s2"
    "slave_system.idle sched (tortuga_chips other) s2" "boards other s2 = rack d4 d3 d2 t xs"
    using slave_system.must_feed [OF s1(3), of r SLAVE_ID_THRUSTERS] f [OF a(2)] s1(4)
    unfolding tortuga_def boards_def by metis
  have wf: "wf_master s2" using s1(2) s2(2) i(2) by (simp add: wf_master_def bus_only_def)
  have "draw_block (tortuga_chips other 3) (Distro_board t) = Some ([cfgRegs dd ! unat r], Distro_board t')"
    by (simp add: draw_block_mount [where put = Distro_board and ?ch0.0 = distro_chip] t(4))
  then have "draw_block (tortuga_chips other (unat SLAVE_ID_THRUSTERS)) (devices (tortuga_chips other) (env s2) ! unat SLAVE_ID_THRUSTERS)
      = Some ([cfgRegs dd ! unat r], Distro_board t')"
    using s2(4) by (simp add: id boards_def)
  then obtain s3 where s3: "\<And>k. mustRead (tortuga other sched) SLAVE_ID_THRUSTERS 1 s2 k = k s3" "block_only s2 s3"
    "slave_system.idle sched (tortuga_chips other) s3" "boards other s3 = rack d4 d3 d2 t' xs" "take 1 (rxBuf s3) = [cfgRegs dd ! unat r]"
    using slave_system.mustRead_draw [OF s2(3) wf, of SLAVE_ID_THRUSTERS "[cfgRegs dd ! unat r]" "Distro_board t'" 1] s2(4)
    unfolding tortuga_def boards_def by (auto simp: id NUM_SLAVES_val)
  have l: "length (rxBuf s3) = 60" using s3(2) wf by (simp add: wf_master_def block_only_def)
  then have "rxBuf s3 ! 0 = cfgRegs dd ! unat r" using s3(5) by (cases "rxBuf s3") simp_all
  moreover have "block_only s s3" using s1(2) s2(2) s3(2) by (auto simp: block_only_def bus_only_def)
  moreover have "ready other sched s3"
    using s3(3) l wf s3(2) unfolding ready_def by (simp add: wf_master_def block_only_def bus_only_def)
  ultimately show thesis
    using that [of s3 t'] s1(1) s2(1) s3(1,4) l t(5-7) by simp
qed

lemma set_limits_over_bus:
  assumes "ready other sched s" and "boards other s = rack d4 d3 d2 dd xs"
    and "distro_inv dd" and "busState dd = STATE_TOP_LEVEL"
    and "receives s bs evs" and "well_framed HOST_CMD_SET_OVRLIMIT bs"
  shows "\<exists>s' dd'. hostCommand (tortuga other sched) HOST_CMD_SET_OVRLIMIT s = Done () s' \<and> tx s' = tx s @ [HOST_REPLY_SUCCESS]
    \<and> rx s' = evs \<and> ready other sched s' \<and> usb s' = usb s \<and> failsafeTripped s' = failsafeTripped s
    \<and> boards other s' = rack d4 d3 d2 dd' xs \<and> distro_inv dd' \<and> busState dd' = STATE_TOP_LEVEL
    \<and> cfgRegs dd' = (cfgRegs dd)[0 := bs ! 0, 1 := bs ! 1]"
proof -
  let ?w = "\<lambda>r v. [BUS_CMD_WRITE_REG, r, v]"
  let ?plan = "\<lambda>p :: byte list. [(BUS_CMD_WRITE_REG, SLAVE_ID_THRUSTERS), (0, SLAVE_ID_THRUSTERS), (p ! 0, SLAVE_ID_THRUSTERS),
     (BUS_CMD_WRITE_REG, SLAVE_ID_THRUSTERS), (1, SLAVE_ID_THRUSTERS), (p ! 1, SLAVE_ID_THRUSTERS)]"
  obtain a where a: "process_all distro_chip (?w 0 (bs ! 0)) dd = Some a" "distro_inv a" "busState a = STATE_TOP_LEVEL"
    "cfgRegs a = (cfgRegs dd)[0 := bs ! 0]"
    using distro_registers.write_register [OF assms(3,4), of 0 "bs ! 0"] by auto
  obtain b where b: "process_all distro_chip (?w 1 (bs ! 1)) a = Some b" "distro_inv b" "busState b = STATE_TOP_LEVEL"
    "cfgRegs b = (cfgRegs dd)[0 := bs ! 0, 1 := bs ! 1]"
    using distro_registers.write_register [OF a(2,3), of 1 "bs ! 1"] a(4) by auto
  have "?plan bs = map (\<lambda>b. (b, SLAVE_ID_THRUSTERS)) (?w 0 (bs ! 0)) @ map (\<lambda>b. (b, SLAVE_ID_THRUSTERS)) (?w 1 (bs ! 1)) @ []"
    by simp
  then have f: "feed (tortuga_chips other) (?plan bs) (boards other s) = Some (rack d4 d3 d2 b xs)"
    by (simp only: assms(2) feed_distro [OF a(1)] feed_distro [OF b(1)] feed.simps(1))
  have m: "(HOST_CMD_SET_OVRLIMIT, ?plan) \<in> set plans" by (simp add: plans_def)
  obtain s1 where "hostCommand (tortuga other sched) HOST_CMD_SET_OVRLIMIT s = Done () s1" "tx s1 = tx s @ [HOST_REPLY_SUCCESS]"
    "rx s1 = evs" "ready other sched s1" "boards other s1 = rack d4 d3 d2 b xs" "usb s1 = usb s" "failsafeTripped s1 = failsafeTripped s"
    using slave_system.plan_fed [OF m assms(5,6) ready_idle [OF assms(1)]] f unfolding tortuga_def boards_def ready_def by blast
  then show ?thesis using b by blast
qed

lemma read_limits_over_bus:
  assumes "ready other sched s" and "boards other s = rack d4 d3 d2 dd xs"
    and "distro_inv dd" and "busState dd = STATE_TOP_LEVEL" and "receives s [HOST_CMD_READ_OVRLIMIT] evs"
    and "x = cfgRegs dd ! 0" and "y = cfgRegs dd ! 1"
  shows "\<exists>s' dd'. hostCommand (tortuga other sched) HOST_CMD_READ_OVRLIMIT s = Done () s'
    \<and> tx s' = tx s @ [HOST_REPLY_OVRLIMIT, x, y, HOST_REPLY_OVRLIMIT + x + y]
    \<and> rx s' = evs \<and> ready other sched s' \<and> usb s' = usb s \<and> failsafeTripped s' = failsafeTripped s
    \<and> boards other s' = rack d4 d3 d2 dd' xs \<and> cfgRegs dd' = cfgRegs dd"
proof -
  let ?E = "tortuga other sched" and ?r = "HOST_REPLY_OVRLIMIT"
  let ?s = "s\<lparr>rx := evs, t1 := uint HOST_CMD_READ_OVRLIMIT\<rparr>"
  have ready1: "ready other sched ?s" "boards other ?s = rack d4 d3 d2 dd xs"
    using assms(1,2) by simp_all
  have zero_one: "unat (0 :: byte) < 16" "unat (1 :: byte) < 16" by simp_all
  obtain s2 d where s2: "\<And>k. must ?E BUS_CMD_READ_REG SLAVE_ID_THRUSTERS ?s (\<lambda>s.
      must ?E 0 SLAVE_ID_THRUSTERS s (\<lambda>s. mustRead ?E SLAVE_ID_THRUSTERS 1 s k)) = k s2"
    "block_only ?s s2" "ready other sched s2" "boards other s2 = rack d4 d3 d2 d xs" "distro_inv d"
    "busState d = STATE_TOP_LEVEL" "cfgRegs d = cfgRegs dd" "rxBuf s2 ! 0 = cfgRegs dd ! unat (0 :: byte)" "length (rxBuf s2) = 60"
    by (rule read_distro_register [OF ready1 assms(3,4) zero_one(1)]) (rule that; assumption)
  let ?s2 = "s2\<lparr>t1 := uint (rxBuf s2 ! 0)\<rparr>"
  have ready2: "ready other sched ?s2" "boards other ?s2 = rack d4 d3 d2 d xs"
    using s2(3,4) by (simp_all add: boards_def)
  obtain s3 d' where s3: "\<And>k. must ?E BUS_CMD_READ_REG SLAVE_ID_THRUSTERS ?s2 (\<lambda>s.
      must ?E 1 SLAVE_ID_THRUSTERS s (\<lambda>s. mustRead ?E SLAVE_ID_THRUSTERS 1 s k)) = k s3"
    "block_only ?s2 s3" "ready other sched s3" "boards other s3 = rack d4 d3 d2 d' xs"
    "distro_inv d'" "busState d' = STATE_TOP_LEVEL" "cfgRegs d' = cfgRegs d" "rxBuf s3 ! 0 = cfgRegs d ! unat (1 :: byte)" "length (rxBuf s3) = 60"
    by (rule read_distro_register [OF ready2 s2(5,6) zero_one(2)]) (rule that; assumption)
  have v: "rxBuf s2 ! 0 = x" "rxBuf s3 ! 0 = y" "t1 s3 = uint x"
    using s2(7,8) s3(2,8) assms(6,7) by (simp_all add: block_only_def bus_only_def)
  have kept: "tx s3 = tx s" "rx s3 = evs" "usb s3 = usb s" "failsafeTripped s3 = failsafeTripped s"
    using s3(2) s2(2) by (simp_all add: block_only_def bus_only_def)
  let ?s3 = "s3\<lparr>rxBuf := (rxBuf s3)[1 := x], tx := tx s @ [?r, x, y, ?r + x + y]\<rparr>"
  have "hostCommand ?E HOST_CMD_READ_OVRLIMIT s = Done () ?s3"
    unfolding hostCommand_lookup(1) [OF command_lookup(11)] host_read_ovrlimit_def echoT1_byte [OF assms(5)] s2(1) Let_def s3(1)
    using s3(9) kept(1) v
    by (simp add: sendByte_def chksum_sum take_Suc_conv_app_nth numeral_2_eq_2 add_ac)
  moreover have "ready other sched ?s3"
    using s3(3,9) unfolding ready_def slave_system.idle_def by (simp add: wf_master_def quiet_def released_def)
  ultimately show ?thesis
    using s3(4,7) s2(7) kept by (intro exI [of _ ?s3] exI [of _ d']) (simp add: boards_def)
qed

end
