(* ===== verification/Vehicle.thy ===== *)
theory Vehicle
  imports System Link
begin

text \<open>
  The whole chain: a call of the driver on the host, the serial line, the master, the wires of the
  bus, and the slave that does it, and back.
\<close>

section \<open>The system at the end of the line\<close>

text \<open>Between two calls: the line is empty, the master waits, and the bus is at rest.\<close>

definition at_ease :: "(nat \<Rightarrow> 'x chip) \<Rightarrow> (nat \<Rightarrow> nat \<Rightarrow> bool) \<Rightarrow> 'x board bus master \<times> byte list \<Rightarrow> bool" where
  "at_ease other sched p \<longleftrightarrow> settled p \<and> ready other sched (fst p)"

lemma ready_addressed [simp]:
  "ready other sched (addressed bs s) = ready other sched s" "boards other (addressed bs s) = boards other s"
  by (simp_all add: ready_def slave_system.idle_def boards_def)

lemma at_ease_receives: "at_ease other sched p \<Longrightarrow> receives (addressed bs (fst p)) bs []"
  by (simp add: at_ease_def settled_def attentive_receives)

text \<open>A packet the system has answered, and the driver reading the answer.\<close>

lemma at_easeI:
  assumes "at_ease other sched p" and "ready other sched s'" and "rx s' = []" and "usb s' = usb (fst p)"
    and "failsafeTripped s' = failsafeTripped (fst p)" and "fst p' = s'" and "snd p' = []"
  shows "at_ease other sched p'"
  using assms by (simp add: at_ease_def settled_def attentive_def ready_def)

lemma acknowledged_success:
  assumes "at_ease other sched p" and "hostCommand E c (addressed bs (fst p)) = Done () s'"
    and "tx s' = tx (fst p) @ [HOST_REPLY_SUCCESS]" and "ready other sched s'" and "rx s' = []" and "usb s' = usb (fst p)"
    and "failsafeTripped s' = failsafeTripped (fst p)"
  obtains p' where "acknowledged (board_port E) (c # bs) p = (SB_OK, p')" "at_ease other sched p'" "fst p' = s'"
proof -
  have w: "port_write (board_port E) (c # bs) p = (s', [HOST_REPLY_SUCCESS])"
    using board_reply [OF _ assms(2,3)] assms(1) by (simp add: at_ease_def)
  then have "snd (port_write (board_port E) (c # bs) p) = HOST_REPLY_SUCCESS # []" by simp
  then obtain p' where p': "acknowledged (board_port E) (c # bs) p = (ackCode HOST_REPLY_SUCCESS, p')" "snd p' = []"
    "fst p' = fst (port_write (board_port E) (c # bs) p)"
    by (rule board.acknowledged_waiting) simp_all
  then have "at_ease other sched p'" using at_easeI [OF assms(1,4-7)] w by simp
  then show thesis using that [of p'] p' w by (simp add: ackCode_def codes)
qed

text \<open>An answer with data: the code, and then the rest of the frame in one \<^verbatim>\<open>read\<close>.\<close>

lemma query_fetched:
  assumes "at_ease other sched p" and "hostCommand E c (addressed [c] (fst p)) = Done () s'"
    and "tx s' = tx (fst p) @ r # bs" and "ready other sched s'" and "rx s' = []" and "usb s' = usb (fst p)"
    and "failsafeTripped s' = failsafeTripped (fst p)" and "length bs = n" and "0 < n" and "buf = c # c # ws"
  obtains p1 p' where "exchange (board_port E) 2 buf p = (r # c # ws, p1)"
    "\<And>off buf. next_bytes (board_port E) off n buf p1 = (overwrite off bs buf, p')"
    "at_ease other sched p'" "fst p' = s'"
proof -
  have w: "port_write (board_port E) (take 2 buf) p = (s', r # bs)"
    using board_reply [OF _ assms(2,3)] assms(1,10) by (simp add: at_ease_def)
  then have "snd (port_write (board_port E) (take 2 buf) p) = r # bs" by simp
  then obtain p1 where p1: "exchange (board_port E) 2 buf p = (buf[0 := r], p1)" "snd p1 = bs" "fst p1 = s'"
    using w by (metis board.exchange_waiting fst_conv)
  let ?p' = "(s', []) :: 'a board bus master \<times> byte list"
  have "next_bytes (board_port E) off n b p1 = (overwrite off bs b, ?p')" for off b
  proof -
    have "p1 = (s', bs)" "bs \<noteq> []" using p1(2,3) assms(8,9) by (auto intro: prod_eqI)
    then show ?thesis unfolding assms(8) [symmetric]
      by (simp add: next_bytes_def readData_def hasData_def board_port_def)
  qed
  moreover have "at_ease other sched ?p'" using at_easeI [OF assms(1,4-7)] by simp
  ultimately show thesis using that [of p1 ?p'] p1(1) assms(10) by simp
qed

section \<open>Depth\<close>

lemma word_at_bytes: "word_at (ucast (drop_bit 8 (v AND 0xFF00)) # ucast (v AND 0xFF) # bs) 0 = uint (ucast v :: word16)"
  for v :: "32 word"
proof (rule bit_eqI)
  fix n
  show "bit (word_at (ucast (drop_bit 8 (v AND 0xFF00)) # ucast (v AND 0xFF) # bs) 0) n = bit (uint (ucast v :: word16)) n"
  proof (cases "n < 16")
    case True
    then have "n \<in> {0, 1, 2, 3, 4, 5, 6, 7, 8, 9, 10, 11, 12, 13, 14, 15}" by (auto simp: numeral_eq_Suc less_Suc_eq)
    then show ?thesis by (auto simp: word_at_def bit_simps)
  next
    case False
    then show ?thesis by (auto simp: word_at_def bit_simps)
  qed
qed

text \<open>
  Property C6.  Reading the depth through the driver gives the low sixteen bits of the average the
  depth slave holds at that moment: through the packet, the master, the wires of the bus (on which
  no two chips ever drive together) and the polling loops of all slaves under any schedule that
  lets each run often enough, and back through the checksums of both ends.  Afterwards everything
  is ready for the next call.  Any sixteen bits come through, although \<^verbatim>\<open>sensorapi.h\<close> promises at most 1023:
  with the ten bits of the converter the average keeps that promise (\<open>depth_of_ten_bits\<close>), but not the
  0x1234 it has before the first conversion.
\<close>

theorem driver_reads_depth:
  assumes "at_ease other sched p" and "boards other (fst p) = rack d4 d3 d2 dd xs"
    and "ic4_inv d4" and "busState d4 = STATE_TOP_LEVEL"
  shows "\<exists>p' d4'. readDepth (board_port (tortuga other sched)) p = (uint (ucast (avgDepth d4) :: word16), p')
    \<and> at_ease other sched p' \<and> \<not> conflict (env (fst p')) \<and> boards other (fst p') = rack d4' d3 d2 dd xs
    \<and> avgDepth d4' = avgDepth d4"
proof -
  let ?E = "tortuga other sched" and ?s = "addressed [HOST_CMD_DEPTH] (fst p)"
  define hi lo where b: "hi = (ucast (drop_bit 8 (avgDepth d4 AND 0xFF00)) :: byte)" "lo = (ucast (avgDepth d4 AND 0xFF) :: byte)"
  have r: "ready other sched ?s" "boards other ?s = rack d4 d3 d2 dd xs" using assms(1,2) by (simp_all add: at_ease_def)
  obtain s' d4' where s': "hostCommand ?E HOST_CMD_DEPTH ?s = Done () s'"
    "tx s' = tx (fst p) @ HOST_REPLY_DEPTH # [hi, lo, HOST_REPLY_DEPTH + hi + lo]" "rx s' = []" "ready other sched s'"
    "\<not> conflict (env s')" "boards other s' = rack d4' d3 d2 dd xs" "avgDepth d4' = avgDepth d4"
    "usb s' = usb (fst p)" "failsafeTripped s' = failsafeTripped (fst p)"
    using depth_over_bus [OF r assms(3,4) at_ease_receives [OF assms(1)] b] by auto
  have three: "length [hi, lo, HOST_REPLY_DEPTH + hi + lo] = 3" "(0 :: nat) < 3" by simp_all
  obtain p1 p' where p': "exchange (board_port ?E) 2 [HOST_CMD_DEPTH, HOST_CMD_DEPTH, 0, 0, 0] p
      = ([HOST_REPLY_DEPTH, HOST_CMD_DEPTH, 0, 0, 0], p1)"
    "\<And>off buf. next_bytes (board_port ?E) off 3 buf p1 = (overwrite off [hi, lo, HOST_REPLY_DEPTH + hi + lo] buf, p')"
    "at_ease other sched p'" "fst p' = s'"
    by (rule query_fetched [OF assms(1) s'(1,2,4,3,8,9) three refl]) (rule that; assumption)
  have "readDepth (board_port ?E) p = (word_at [hi, lo, HOST_REPLY_DEPTH + hi + lo, 0, 0] 0, p')"
    by (simp add: readDepth_def p'(1,2)) (simp add: codes add_ac)
  then show ?thesis using p'(3,4) s'(5-7) word_at_bytes [of "avgDepth d4"] by (auto simp: b)
qed

definition first_port :: "unit board bus master \<times> byte list" where
  "first_port = (first_state [], [])"

lemma first_port_at_ease:
  "at_ease (\<lambda>i. silent_chip) keen first_port"
  "boards (\<lambda>i. silent_chip) (fst first_port) = rack (ic4_start idle_uarts) (ic3_start idle_uarts (replicate 60 0) True)
     (ic2_start idle_uarts) (distro_start False) ((), (), ())"
  using first_state_ready [of "[]"]
  by (simp_all add: first_port_def at_ease_def settled_def attentive_def first_state_def started)

text \<open>The depth before the first conversion of the ADC.\<close>

theorem driver_reads_depth_witness:
  "\<exists>p'. readDepth (board_port (tortuga (\<lambda>i. silent_chip) keen)) first_port = (0x1234, p')"
proof -
  have d: "ic4_inv (ic4_start idle_uarts)" "busState (ic4_start idle_uarts) = STATE_TOP_LEVEL"
    "uint (ucast (avgDepth (ic4_start idle_uarts)) :: word16) = 0x1234"
    using ic4_start_inv by (simp_all add: ic4_start_def STATE_TOP_LEVEL_def)
  show ?thesis using driver_reads_depth [OF first_port_at_ease d(1,2)] unfolding d(3) by blast
qed

section \<open>Thrusters\<close>

text \<open>
  Property C5.  Switching a thruster through the driver succeeds and reaches its pin: the thruster
  named is off, or, if it was to be switched on, it is on unless its overcurrent latch is set; all
  others are as they were, and switching off releases the latch.
\<close>

theorem driver_switches_thruster:
  assumes "at_ease other sched p" and "boards other (fst p) = rack d4 d3 d2 dd xs"
    and "busState dd = STATE_TOP_LEVEL" and "tripped_off dd" and "0 \<le> st" and "st \<le> 11" and "nat st = k"
  shows "\<exists>p' dd'. setThrusterSafety (board_port (tortuga other sched)) st p = (SB_OK, p')
    \<and> at_ease other sched p' \<and> boards other (fst p') = rack d4 d3 d2 dd' xs
    \<and> ovrReg dd' = (if k < 6 then ovrReg dd AND NOT (push_bit k 1) else ovrReg dd)
    \<and> (\<forall>n\<in>{1..6}. LAT_MOTR dd' n = (if n = k + 1 then False else if n + 5 = k then \<not> bit (ovrReg dd) (n - 1) else LAT_MOTR dd n))"
proof -
  let ?E = "tortuga other sched"
  let ?bs = "tkSafety @ [word_of_int st, sum_list tkSafety + word_of_int st + HOST_CMD_THRUSTERS]"
  let ?s = "addressed ?bs (fst p)"
  have r: "ready other sched ?s" "boards other ?s = rack d4 d3 d2 dd xs" using assms(1,2) by (simp_all add: at_ease_def)
  have k: "unat (?bs ! 5) = k" using assms(5-7) by (simp add: tkSafety_def unsigned_of_int take_bit_int_eq_self)
  obtain s' dd' where s': "hostCommand ?E HOST_CMD_THRUSTERS ?s = Done () s'" "tx s' = tx (fst p) @ [HOST_REPLY_SUCCESS]"
    "ready other sched s'" "rx s' = []" "usb s' = usb (fst p)" "failsafeTripped s' = failsafeTripped (fst p)"
    "boards other s' = rack d4 d3 d2 dd' xs" "ovrReg dd' = (if k < 6 then ovrReg dd AND NOT (push_bit k 1) else ovrReg dd)"
    "\<forall>n\<in>{1..6}. LAT_MOTR dd' n = (if n = k + 1 then False else if n + 5 = k then \<not> bit (ovrReg dd) (n - 1) else LAT_MOTR dd n)"
    using thruster_over_bus [OF r assms(3,4) at_ease_receives [OF assms(1)] packet_frames(2) [OF assms(5,6)] k]
    unfolding addressed_simps by blast
  obtain p' where p': "acknowledged (board_port ?E) (HOST_CMD_THRUSTERS # ?bs) p = (SB_OK, p')" "at_ease other sched p'" "fst p' = s'"
    by (rule acknowledged_success [OF assms(1) s'(1-6)])
  have "setThrusterSafety (board_port ?E) st p = acknowledged (board_port ?E) (HOST_CMD_THRUSTERS # ?bs) p"
    using assms(5,6) by (simp add: setThrusterSafety_def tkSafety_def codes board_port_def)
  then show ?thesis using p' s'(7-9) by auto
qed

text \<open>Switching on the first thruster of a vehicle that has just come up.\<close>

theorem driver_switches_thruster_witness:
  "\<exists>p' d. setThrusterSafety (board_port (tortuga (\<lambda>i. silent_chip) keen)) 6 first_port = (SB_OK, p')
     \<and> boards (\<lambda>i. silent_chip) (fst p') ! 3 = Distro_board d \<and> LAT_MOTR d 1 \<and> \<not> LAT_MOTR d 2"
proof -
  let ?d = "distro_start False"
  have d: "busState ?d = STATE_TOP_LEVEL" "tripped_off ?d" "\<not> bit (ovrReg ?d) 0" "\<not> LAT_MOTR ?d 2"
    by (simp_all add: distro_start_def STATE_defs tripped_off_def)
  have six: "(0 :: int) \<le> 6" "(6 :: int) \<le> 11" "nat (6 :: int) = 6" by simp_all
  obtain p' dd where p': "setThrusterSafety (board_port (tortuga (\<lambda>i. silent_chip) keen)) 6 first_port = (SB_OK, p')"
    "boards (\<lambda>i. silent_chip) (fst p') = rack (ic4_start idle_uarts) (ic3_start idle_uarts (replicate 60 0) True) (ic2_start idle_uarts) dd ((), (), ())"
    "\<forall>n\<in>{1..6}. LAT_MOTR dd n = (if n = 6 + 1 then False else if n + 5 = 6 then \<not> bit (ovrReg ?d) (n - 1) else LAT_MOTR ?d n)"
    using driver_switches_thruster [OF first_port_at_ease d(1,2) six] by blast
  have "LAT_MOTR dd 1" "\<not> LAT_MOTR dd 2"
    using bspec [OF p'(3), of 1] bspec [OF p'(3), of 2] d(3,4) by simp_all
  then show ?thesis using p'(1,2) by (intro exI [of _ p'] exI [of _ dd]) simp
qed

section \<open>Overcurrent limits\<close>

text \<open>
  Property C8.  The two overcurrent limits set through the driver are the limits it reads back, and
  the registers of the power distribution board hold them in between.
\<close>

theorem driver_limits_round_trip:
  assumes "at_ease other sched p" and "boards other (fst p) = rack d4 d3 d2 dd xs"
    and "distro_inv dd" and "busState dd = STATE_TOP_LEVEL" and "a \<in> {0..255}" and "b \<in> {0..255}"
  shows "\<exists>p1 p2 dd1. setOvrParams (board_port (tortuga other sched)) a b p = (SB_OK, p1)
    \<and> boards other (fst p1) = rack d4 d3 d2 dd1 xs \<and> cfgRegs dd1 = (cfgRegs dd)[0 := word_of_int a, 1 := word_of_int b]
    \<and> readOvrParams (board_port (tortuga other sched)) p1 = ((SB_OK, Some (a, b)), p2) \<and> at_ease other sched p2"
proof -
  let ?E = "tortuga other sched" and ?r = HOST_REPLY_OVRLIMIT and ?c = HOST_CMD_READ_OVRLIMIT
  define x y where xy: "x = (word_of_int a :: byte)" "y = (word_of_int b :: byte)"
  let ?bs = "[x, y, HOST_CMD_SET_OVRLIMIT + x + y]"
  have r: "ready other sched (addressed ?bs (fst p))" "boards other (addressed ?bs (fst p)) = rack d4 d3 d2 dd xs"
    using assms(1,2) by (simp_all add: at_ease_def)
  obtain s1 dd1 where s1: "hostCommand ?E HOST_CMD_SET_OVRLIMIT (addressed ?bs (fst p)) = Done () s1"
    "tx s1 = tx (fst p) @ [HOST_REPLY_SUCCESS]" "ready other sched s1" "rx s1 = []" "usb s1 = usb (fst p)"
    "failsafeTripped s1 = failsafeTripped (fst p)" "boards other s1 = rack d4 d3 d2 dd1 xs" "distro_inv dd1"
    "busState dd1 = STATE_TOP_LEVEL" "cfgRegs dd1 = (cfgRegs dd)[0 := x, 1 := y]"
    using set_limits_over_bus [OF r assms(3,4) at_ease_receives [OF assms(1)] packet_frames(3) [of x y]]
    by (auto simp: Let_def)
  obtain p1 where p1: "acknowledged (board_port ?E) (HOST_CMD_SET_OVRLIMIT # ?bs) p = (SB_OK, p1)" "at_ease other sched p1" "fst p1 = s1"
    by (rule acknowledged_success [OF assms(1) s1(1-6)])
  have r1: "ready other sched (addressed [?c] (fst p1))" "boards other (addressed [?c] (fst p1)) = rack d4 d3 d2 dd1 xs"
    using s1(3,7) p1(3) by simp_all
  have v: "x = cfgRegs dd1 ! 0" "y = cfgRegs dd1 ! 1" using s1(10) assms(3) by (simp_all add: distro_inv_def)
  obtain s2 where s2: "hostCommand ?E ?c (addressed [?c] (fst p1)) = Done () s2"
    "tx s2 = tx (fst p1) @ ?r # [x, y, ?r + x + y]" "ready other sched s2" "rx s2 = []" "usb s2 = usb (fst p1)"
    "failsafeTripped s2 = failsafeTripped (fst p1)"
    using read_limits_over_bus [OF r1 s1(8,9) at_ease_receives [OF p1(2)] v] by auto
  let ?j = "[junk (board_port ?E) 2, junk (board_port ?E) 3]"
  have three: "length [x, y, ?r + x + y] = 3" "(0 :: nat) < 3" by simp_all
  obtain q p2 where p2: "exchange (board_port ?E) 2 (?c # ?c # ?j) p1 = (?r # ?c # ?j, q)"
    "\<And>off buf. next_bytes (board_port ?E) off 3 buf q = (overwrite off [x, y, ?r + x + y] buf, p2)" "at_ease other sched p2"
    by (rule query_fetched [OF p1(2) s2 three refl]) (rule that; assumption)
  have "uint x = a" "uint y = b" using assms(5,6) by (simp_all add: xy unsigned_of_int take_bit_int_eq_self)
  then have "readOvrParams (board_port ?E) p1 = ((SB_OK, Some (a, b)), p2)"
    by (simp add: readOvrParams_def p2(1,2))
  moreover have "setOvrParams (board_port ?E) a b p = acknowledged (board_port ?E) (HOST_CMD_SET_OVRLIMIT # ?bs) p"
    using assms(5,6) by (simp add: setOvrParams_def xy)
  ultimately show ?thesis
    using p1 p2(3) s1(7,10) by (intro exI [of _ p1] exI [of _ p2] exI [of _ dd1]) (simp add: xy)
qed

theorem driver_limits_round_trip_witness:
  "\<exists>p1 p2. setOvrParams (board_port (tortuga (\<lambda>i. silent_chip) keen)) 200 33 first_port = (SB_OK, p1)
     \<and> readOvrParams (board_port (tortuga (\<lambda>i. silent_chip) keen)) p1 = ((SB_OK, Some (200, 33)), p2)"
proof -
  have d: "distro_inv (distro_start False)" "busState (distro_start False) = STATE_TOP_LEVEL"
    by (simp_all add: distro_start_def distro_inv_def distro_STATE_defs)
  have "200 \<in> {0..255 :: int}" "33 \<in> {0..255 :: int}" by simp_all
  then show ?thesis using driver_limits_round_trip [OF first_port_at_ease d] by blast
qed

section \<open>Text\<close>

text \<open>What the driver makes of a string: sixteen characters of it, filled up with blanks.\<close>

definition sixteen :: "byte list \<Rightarrow> byte list" where
  "sixteen str = overwrite 0 (take 16 (takeWhile (\<lambda>c. c \<noteq> 0) str)) (replicate 16 32)"

lemma sixteen_nth:
  "k < 16 \<Longrightarrow> 0 \<notin> set str \<Longrightarrow> sixteen str ! k = (if k < length str then str ! k else 32)"
proof -
  assume k: "k < 16" and z: "0 \<notin> set str"
  have w: "takeWhile (\<lambda>c. c \<noteq> 0) str = str" using z by (auto simp: takeWhile_eq_all_conv)
  show ?thesis unfolding sixteen_def w using k by (simp add: nth_overwrite min_def)
qed

text \<open>
  Property C7.  Text given to the driver is on the screen: the call succeeds, and once the loop of
  the LCD controller has worked off the refresh, the line asked for shows the characters of the
  string, cut off after sixteen and filled up with blanks; the other boards are as they were.
\<close>

theorem driver_shows_text:
  assumes "at_ease other sched p" and "boards other (fst p) = rack d4 d3 d2 dd xs"
    and "ic2_inv d2" and "busState d2 = STATE_TOP_LEVEL" and "lcdUpdate d2 < 255" and "even (length (pulses d2))"
    and "row \<in> {0, 1}" and "0 \<notin> set str"
  shows "\<exists>p' d2'. displayText (board_port (tortuga other sched)) row (Some str) p = (SB_OK, p')
    \<and> at_ease other sched p' \<and> boards other (fst p') = rack d4 d3 d2' dd xs
    \<and> (\<forall>k<16. screen (refreshAll d2') (place (nat row * 16 + k)) = (if k < length str then str ! k else 32))"
proof -
  let ?E = "tortuga other sched" and ?row = "word_of_int row :: byte" and ?msg = "sixteen str"
  let ?bs = "?row # ?msg @ [sum_list ?msg + ?row + HOST_CMD_PRINTTEXT]"
  have r: "ready other sched (addressed ?bs (fst p))" "boards other (addressed ?bs (fst p)) = rack d4 d3 d2 dd xs"
    using assms(1,2) by (simp_all add: at_ease_def)
  have w: "?row \<le> 1" "length ?msg = 16" "unat ?row = nat row" using assms(7) by (auto simp: sixteen_def)
  obtain s' d2' where s': "hostCommand ?E HOST_CMD_PRINTTEXT (addressed ?bs (fst p)) = Done () s'"
    "tx s' = tx (fst p) @ [HOST_REPLY_SUCCESS]" "ready other sched s'" "rx s' = []" "usb s' = usb (fst p)"
    "failsafeTripped s' = failsafeTripped (fst p)" "boards other s' = rack d4 d3 d2' dd xs"
    "\<forall>k<16. screen (refreshAll d2') (place (unat ?row * 16 + k)) = ?msg ! k"
    using text_over_bus [OF r assms(3-6) at_ease_receives [OF assms(1)] w(1,2)] unfolding addressed_simps by blast
  obtain p' where p': "acknowledged (board_port ?E) (HOST_CMD_PRINTTEXT # ?bs) p = (SB_OK, p')" "at_ease other sched p'" "fst p' = s'"
    by (rule acknowledged_success [OF assms(1) s'(1-6)])
  have "displayText (board_port ?E) row (Some str) p = acknowledged (board_port ?E) (HOST_CMD_PRINTTEXT # ?bs) p"
    using assms(7) by (auto simp: displayText_def sixteen_def codes add_ac)
  then show ?thesis
    using p' s'(7,8) sixteen_nth [OF _ assms(8)] unfolding w(3) by (intro exI [of _ p'] exI [of _ d2']) simp
qed

theorem driver_shows_text_witness:
  "\<exists>p' d. displayText (board_port (tortuga (\<lambda>i. silent_chip) keen)) 1 (Some (map of_char ''Hello'')) first_port = (SB_OK, p')
     \<and> boards (\<lambda>i. silent_chip) (fst p') ! 2 = Lcd_board d
     \<and> screen (refreshAll d) (place 16) = of_char (CHR ''H'') \<and> screen (refreshAll d) (place 21) = 32"
proof -
  let ?d = "ic2_start idle_uarts" and ?str = "map of_char ''Hello'' :: byte list"
  have p: "length (pulses (lcdByte b s)) = length (pulses s) + 2" "length (pulses (lcdPulse s)) = length (pulses s) + 1"
    "pulses (lcdWrite b s) = pulses s" "pulses (setRS v s) = pulses s"
    "lcdUpdate (lcdByte b s) = lcdUpdate s" "lcdUpdate (lcdPulse s) = lcdUpdate s" "lcdUpdate (lcdWrite b s) = lcdUpdate s"
    "lcdUpdate (setRS v s) = lcdUpdate s" "busState (lcdByte b s) = busState s" "busState (lcdPulse s) = busState s"
    "busState (lcdWrite b s) = busState s" "busState (setRS v s) = busState s" for b v s
    by (simp_all add: lcdByte_def lcdPulse_def lcdWrite_def setRS_def Let_def)
  have d: "busState ?d = STATE_TOP_LEVEL" "lcdUpdate ?d < 255" "even (length (pulses ?d))"
    by (simp_all add: ic2_start_def initLCD_def lcdChar_def p Let_def STATE_TOP_LEVEL_def)
  have a: "(1 :: int) \<in> {0, 1}" "0 \<notin> set ?str" by simp_all
  obtain p' d' where p': "displayText (board_port (tortuga (\<lambda>i. silent_chip) keen)) 1 (Some ?str) first_port = (SB_OK, p')"
    "boards (\<lambda>i. silent_chip) (fst p') = rack (ic4_start idle_uarts) (ic3_start idle_uarts (replicate 60 0) True) d' (distro_start False) ((), (), ())"
    "\<forall>k<16. screen (refreshAll d') (place (nat 1 * 16 + k)) = (if k < length ?str then ?str ! k else 32)"
    using driver_shows_text [OF first_port_at_ease ic2_start_inv d a] by blast
  have "screen (refreshAll d') (place 16) = of_char (CHR ''H'')" "screen (refreshAll d') (place 21) = 32"
    using spec [OF p'(3), of 0] spec [OF p'(3), of 5] by simp_all
  then show ?thesis using p'(1,2) by (intro exI [of _ p'] exI [of _ d']) (simp del: list.map)
qed

end
