(* ===== verification/Motor.thy ===== *)
theory Motor
  imports Slave
begin

text \<open>
  The motor board \<^verbatim>\<open>sbr9/motor.c\<close>: it takes speeds and pneumatic commands from the bus, sends the speeds
  to seven motor controllers over I2C, and forwards the pneumatic commands over its serial port.
\<close>

section \<open>State\<close>

definition M_STATE_TOP_LEVEL :: byte where "M_STATE_TOP_LEVEL = 0x00"
definition STATE_SET_MOT_SPEEDS :: byte where "STATE_SET_MOT_SPEEDS = 0x01"
definition STATE_SET_MOT_N :: byte where "STATE_SET_MOT_N = 0x02"
definition STATE_SET_DERPY :: byte where "STATE_SET_DERPY = 0x03"

lemmas M_STATE_defs = M_STATE_TOP_LEVEL_def STATE_SET_MOT_SPEEDS_def STATE_SET_MOT_N_def STATE_SET_DERPY_def

definition I2CSTATE_IDLE :: byte where "I2CSTATE_IDLE = 0x00"
definition I2CSTATE_START :: byte where "I2CSTATE_START = 0x01"
definition I2CSTATE_TRANS :: byte where "I2CSTATE_TRANS = 0x02"
definition I2CSTATE_RX_ADR :: byte where "I2CSTATE_RX_ADR = 0x03"
definition I2CSTATE_REC :: byte where "I2CSTATE_REC = 0x04"
definition I2CSTATE_ACK :: byte where "I2CSTATE_ACK = 0x05"
definition I2CSTATE_STOP :: byte where "I2CSTATE_STOP = 0x06"
definition I2CSTATE_STOPPING_BORKED :: byte where "I2CSTATE_STOPPING_BORKED = 0xFD"
definition I2CSTATE_BORKED :: byte where "I2CSTATE_BORKED = 0xFE"

lemmas I2CSTATE_defs = I2CSTATE_IDLE_def I2CSTATE_START_def I2CSTATE_TRANS_def I2CSTATE_RX_ADR_def I2CSTATE_REC_def
  I2CSTATE_ACK_def I2CSTATE_STOP_def I2CSTATE_STOPPING_BORKED_def I2CSTATE_BORKED_def

definition SHOW_ERR_TIMEOUT :: "32 word" where "SHOW_ERR_TIMEOUT = 10"

text \<open>
  What the firmware asks the I2C hardware to do; \<open>Select i\<close> sets the pins \<^verbatim>\<open>F6\<close> to \<^verbatim>\<open>F8\<close> of the multiplexer,
  behind which all motor controllers have the same address.
\<close>

datatype i2c_op = Select nat | Start | Transmit byte | Receive | Acknowledge bool | Stop_i2c | Reset

text \<open>
  The first group of fields are the variables of the bus and the pneumatics; \<open>uart_line\<close> is what
  has been written to the serial port.  Then the I2C side, with \<open>i2c_line\<close> the operations so far, and
  the pins.
\<close>

record motor =
  m_busState :: byte
  m_nParam :: byte
  m_rxBuf :: "byte list"
  m_txBuf :: "byte list"
  m_txPtr :: nat
  motorSpeed :: "byte list"
  uartBuf :: "byte list"
  uartBufSize :: nat
  uartBufPos :: nat
  sent_start :: bool
  uart_line :: "byte list"
  i2cState :: byte
  i2cBuf :: "byte list"
  i2cPtr :: nat
  packetSize :: nat
  i2c_line :: "i2c_op list"
  LAT_WAH_INH :: bool
  LAT_MRKR1 :: bool
  LAT_MRKR2 :: bool
  LAT_ERR :: bool
  err_reset :: "32 word"

section \<open>Commands of the bus\<close>

definition kill_motors :: "motor \<Rightarrow> motor" where
  "kill_motors s = s\<lparr>motorSpeed := (motorSpeed s)[0 := 0x80, 1 := 0x80, 2 := 0x80, 3 := 0x80, 4 := 0x80, 5 := 0x80, 6 := 0x80]\<rparr>"

text \<open>\<open>None\<close> is an access beyond \<^verbatim>\<open>uartBuf[64]\<close>, whose end nobody watches.\<close>

definition forwardCmd :: "byte \<Rightarrow> motor \<Rightarrow> motor option" where
  "forwardCmd cmd s =
     (let n = uartBufSize s in
      if n + 3 < length (uartBuf s)
      then let s = s\<lparr>uartBuf := (uartBuf s)[n := 0x42, n + 1 := 0x43, n + 2 := cmd]\<rparr>;
               s = s\<lparr>uartBuf := (uartBuf s)[n + 3 := uartBuf s ! n + uartBuf s ! (n + 1) + uartBuf s ! (n + 2)]\<rparr>
           in Some (s\<lparr>uartBufSize := n + 4\<rparr>)
      else None)"

definition forwarded :: "byte list" where
  "forwarded = [BUS_CMD_VOID_PNEU, BUS_CMD_OFF_PNEU, BUS_CMD_FIRE_TORP_1, BUS_CMD_FIRE_TORP_2, BUS_CMD_VOID_TORP_1,
     BUS_CMD_VOID_TORP_2, BUS_CMD_ARM_TORP_1, BUS_CMD_ARM_TORP_2, BUS_CMD_EXT_GRABBER, BUS_CMD_RET_GRABBER,
     BUS_CMD_VOID_GRABBER, BUS_CMD_MARKER1, BUS_CMD_MARKER2]"

definition bad_speed :: "byte \<Rightarrow> bool" where
  "bad_speed b \<longleftrightarrow> b > 0xE6 \<or> b < 0x19"

text \<open>\<^verbatim>\<open>for(i= 0;i < 6;i++)\<close>: the speeds are written one by one, and the first bad one kills all motors.\<close>

fun writeSpeeds :: "nat list \<Rightarrow> motor \<Rightarrow> motor" where
  "writeSpeeds [] s = s"
| "writeSpeeds (i # is) s =
     (if bad_speed (m_rxBuf s ! i) then kill_motors s
      else writeSpeeds is (s\<lparr>motorSpeed := (motorSpeed s)[i := m_rxBuf s ! i]\<rparr>))"

text \<open>\<^verbatim>\<open>rxBuf[nParam++] = data\<close>; the buffer has 256 bytes and \<^verbatim>\<open>nParam\<close> is a byte.\<close>

definition storeParam :: "byte \<Rightarrow> motor \<Rightarrow> motor" where
  "storeParam data s = s\<lparr>m_rxBuf := (m_rxBuf s)[unat (m_nParam s) := data], m_nParam := m_nParam s + 1\<rparr>"

definition motor_command :: "byte \<Rightarrow> motor \<Rightarrow> motor option" where
  "motor_command data s =
     (if data = BUS_CMD_ID
      then Some (s\<lparr>m_txBuf := (m_txBuf s)[0 := 7, 1 := of_char CHR ''M'', 2 := of_char CHR ''T'', 3 := of_char CHR ''R'',
             4 := of_char CHR '' '', 5 := of_char CHR ''P'', 6 := of_char CHR ''N'', 7 := of_char CHR ''U'', 8 := 0]\<rparr>)
      else if data = BUS_CMD_SET_MOT_SPEEDS then Some (s\<lparr>m_nParam := 0, m_busState := STATE_SET_MOT_SPEEDS\<rparr>)
      else if data = BUS_CMD_KILL_MOTORS then Some (kill_motors s)
      else if data = BUS_CMD_SET_MOT_N then Some (s\<lparr>m_nParam := 0, m_busState := STATE_SET_MOT_N\<rparr>)
      else if data = BUS_CMD_MAG_PWR_ON then Some (s\<lparr>LAT_WAH_INH := True\<rparr>)
      else if data = BUS_CMD_MAG_PWR_OFF then Some (s\<lparr>LAT_WAH_INH := False\<rparr>)
      else if data \<in> set forwarded then forwardCmd data s
      else if data = BUS_CMD_SET_DERPY then Some (s\<lparr>m_nParam := 0, m_busState := STATE_SET_DERPY\<rparr>)
      else if data = BUS_CMD_STOP_DERPY then Some (s\<lparr>motorSpeed := (motorSpeed s)[6 := 0x80]\<rparr>)
      else Some s)"

definition motor_processData :: "byte \<Rightarrow> motor \<Rightarrow> motor option" where
  "motor_processData data s =
     (let s = s\<lparr>m_txPtr := 0\<rparr> in
      if m_busState s = M_STATE_TOP_LEVEL then motor_command data s
      else if m_busState s = STATE_SET_MOT_SPEEDS
      then let s = storeParam data s in
           Some (if m_nParam s \<ge> 6 then (writeSpeeds [0..<6] s)\<lparr>m_busState := M_STATE_TOP_LEVEL\<rparr> else s)
      else if m_busState s = STATE_SET_MOT_N
      then let s = storeParam data s in
           Some (if m_nParam s \<ge> 2
                 then if bad_speed (m_rxBuf s ! 1) \<or> m_rxBuf s ! 0 > 5
                      then (kill_motors s)\<lparr>m_busState := M_STATE_TOP_LEVEL\<rparr>
                      else s\<lparr>motorSpeed := (motorSpeed s)[unat (m_rxBuf s ! 0) := m_rxBuf s ! 1],
                             m_busState := M_STATE_TOP_LEVEL\<rparr>
                 else s)
      else if m_busState s = STATE_SET_DERPY
      then Some (if bad_speed data then (kill_motors s)\<lparr>m_busState := M_STATE_TOP_LEVEL\<rparr>
                 else s\<lparr>motorSpeed := (motorSpeed s)[6 := data], m_busState := M_STATE_TOP_LEVEL\<rparr>)
      else Some s)"

text \<open>\<^verbatim>\<open>data = txBuf[txPtr++]\<close>, which nobody checks either.\<close>

definition motor_nextTx :: "motor \<Rightarrow> (byte \<times> motor) option" where
  "motor_nextTx s =
     (if m_txPtr s < length (m_txBuf s) then Some (m_txBuf s ! m_txPtr s, s\<lparr>m_txPtr := m_txPtr s + 1\<rparr>) else None)"

definition motor_chip :: "motor chip" where
  "motor_chip = \<lparr>process = motor_processData, next_tx = motor_nextTx\<rparr>"

lemma motor_chip_simps [simp]: "process motor_chip = motor_processData" "next_tx motor_chip = motor_nextTx"
  by (simp_all add: motor_chip_def)

section \<open>The I2C master\<close>

definition i2c_do :: "i2c_op \<Rightarrow> motor \<Rightarrow> motor" where
  "i2c_do x s = s\<lparr>i2c_line := i2c_line s @ [x]\<rparr>"

definition StartI2C :: "motor \<Rightarrow> motor" where
  "StartI2C s = i2c_do Start (s\<lparr>i2cState := I2CSTATE_START\<rparr>)"

definition StopI2C :: "motor \<Rightarrow> motor" where
  "StopI2C s = i2c_do Stop_i2c (s\<lparr>i2cState := I2CSTATE_STOP\<rparr>)"

definition StopI2C_BORKED :: "motor \<Rightarrow> motor" where
  "StopI2C_BORKED s = i2c_do Stop_i2c (s\<lparr>i2cState := I2CSTATE_STOPPING_BORKED\<rparr>)"

definition BorkedI2C :: "motor \<Rightarrow> motor" where
  "BorkedI2C s = StopI2C_BORKED s"

definition WriteI2C :: "byte \<Rightarrow> motor \<Rightarrow> motor" where
  "WriteI2C b s = i2c_do (Transmit b) s"

text \<open>What an interrupt finds in the registers: \<^verbatim>\<open>wasAckI2C()\<close>, \<^verbatim>\<open>IdleI2C()\<close> and \<^verbatim>\<open>I2CRCV\<close>.\<close>

record i2c_in =
  wasAckI2C :: bool
  IdleI2C :: bool
  I2CRCV :: byte

text \<open>\<open>None\<close> is an access beyond \<^verbatim>\<open>i2cBuf[256]\<close>.\<close>

definition MI2CInterrupt :: "i2c_in \<Rightarrow> motor \<Rightarrow> motor option" where
  "MI2CInterrupt r s =
     (if i2cState s = I2CSTATE_IDLE then Some s
      else if i2cState s = I2CSTATE_START
      then Some (WriteI2C (i2cBuf s ! 0) (s\<lparr>i2cPtr := 1, i2cState := I2CSTATE_TRANS\<rparr>))
      else if i2cState s = I2CSTATE_TRANS
      then if \<not> wasAckI2C r then Some (BorkedI2C s)
           else if i2cPtr s \<ge> packetSize s then Some (StopI2C s)
           else if \<not> IdleI2C r then Some (BorkedI2C s)
           else if i2cPtr s < length (i2cBuf s)
           then Some ((WriteI2C (i2cBuf s ! i2cPtr s) (s\<lparr>i2cPtr := i2cPtr s + 1\<rparr>))\<lparr>i2cState := I2CSTATE_TRANS\<rparr>)
           else None
      else if i2cState s = I2CSTATE_RX_ADR
      then if \<not> wasAckI2C r then Some (BorkedI2C s)
           else Some (i2c_do Receive (s\<lparr>i2cState := I2CSTATE_REC\<rparr>))
      else if i2cState s = I2CSTATE_REC
      then if i2cPtr s < length (i2cBuf s)
           then let s = s\<lparr>i2cBuf := (i2cBuf s)[i2cPtr s := I2CRCV r], i2cPtr := i2cPtr s + 1\<rparr>
                in Some ((i2c_do (Acknowledge (i2cPtr s \<ge> packetSize s)) s)\<lparr>i2cState := I2CSTATE_ACK\<rparr>)
           else None
      else if i2cState s = I2CSTATE_ACK
      then if i2cPtr s \<ge> packetSize s then Some ((StopI2C s)\<lparr>i2cState := I2CSTATE_STOP\<rparr>)
           else Some ((i2c_do Receive s)\<lparr>i2cState := I2CSTATE_REC\<rparr>)
      else if i2cState s = I2CSTATE_STOPPING_BORKED then Some (s\<lparr>i2cState := I2CSTATE_BORKED\<rparr>)
      else if i2cState s = I2CSTATE_STOP then Some (s\<lparr>i2cState := I2CSTATE_IDLE\<rparr>)
      else Some s)"

section \<open>The loop of \<^verbatim>\<open>main\<close>\<close>

definition writeUart :: "byte \<Rightarrow> motor \<Rightarrow> motor" where
  "writeUart b s = s\<lparr>uart_line := uart_line s @ [b]\<rparr>"

definition resetI2C_registers :: "motor \<Rightarrow> motor" where
  "resetI2C_registers s = i2c_do Reset s"

text \<open>
  One byte of the forwarded commands, if the transmitter has room.  \<open>mid\<close> are the bytes the interrupt of
  the bus takes between the test that all is sent and the two assignments that empty the buffer.
\<close>

definition pump :: "bool \<Rightarrow> byte list \<Rightarrow> motor \<Rightarrow> motor option" where
  "pump utxbf mid s =
     (if \<not> utxbf \<and> uartBufPos s < uartBufSize s
      then let s = (if \<not> sent_start s
                    then (writeUart 0xEF (writeUart 0xBE (writeUart 0xAF (writeUart 0xDE s))))\<lparr>sent_start := True\<rparr> else s);
               s = (writeUart (uartBuf s ! uartBufPos s) s)\<lparr>uartBufPos := uartBufPos s + 1\<rparr>
           in if uartBufPos s = uartBufSize s
              then (case process_all motor_chip mid s of
                      None \<Rightarrow> None
                    | Some s \<Rightarrow> Some (s\<lparr>uartBufPos := 0, uartBufSize := 0\<rparr>))
              else Some s
      else Some s)"

definition preparePacket :: "byte \<Rightarrow> motor \<Rightarrow> motor" where
  "preparePacket speed s =
     s\<lparr>packetSize := 4, i2cBuf := (i2cBuf s)[0 := 0x52, 1 := speed, 2 := 0x64, 3 := 0x52 + speed + 0x64]\<rparr>"

text \<open>
  The wait for the I2C interrupts, of which \<open>rs\<close> come before the timer; the value says whether the timer
  ended it.
\<close>

fun waitI2C :: "i2c_in list \<Rightarrow> motor \<Rightarrow> (bool \<times> motor) option" where
  "waitI2C rs s =
     (if i2cState s = I2CSTATE_IDLE \<or> i2cState s = I2CSTATE_BORKED then Some (False, s)
      else case rs of
             [] \<Rightarrow> Some (True, s)
           | r # rs \<Rightarrow> (case MI2CInterrupt r s of None \<Rightarrow> None | Some s \<Rightarrow> waitI2C rs s))"

declare waitI2C.simps [simp del]

text \<open>
  What comes from the I2C hardware and the timer while one packet is sent: the interrupts of the wait, whether the flag
  of the timer is set when it is looked at after a wait that the interrupts ended, and the interrupts that come after
  the wait, before each of the next three places that look at the state machine.
\<close>

record send_in =
  in_wait :: "i2c_in list"
  T1IF :: bool
  after_wait :: "i2c_in list"
  after_timer :: "i2c_in list"
  before_idle :: "i2c_in list"

fun interrupts :: "i2c_in list \<Rightarrow> motor \<Rightarrow> motor option" where
  "interrupts [] s = Some s"
| "interrupts (r # rs) s = (case MI2CInterrupt r s of None \<Rightarrow> None | Some s \<Rightarrow> interrupts rs s)"

text \<open>After the wait: the registers are reset, and an error is shown for a while.\<close>

definition showError :: "motor \<Rightarrow> motor" where
  "showError s =
     (let s = (if i2cState s = I2CSTATE_BORKED
               then resetI2C_registers (s\<lparr>LAT_ERR := True, err_reset := SHOW_ERR_TIMEOUT\<rparr>) else s)
      in if LAT_ERR s then s\<lparr>err_reset := err_reset s - 1, LAT_ERR := err_reset s \<noteq> 0\<rparr> else s)"

definition endSend :: "send_in \<Rightarrow> bool \<Rightarrow> motor \<Rightarrow> motor option" where
  "endSend r timeout s =
     (case interrupts (after_wait r) s of
        None \<Rightarrow> None
      | Some s \<Rightarrow>
          (case interrupts (after_timer r) (if timeout \<or> T1IF r then resetI2C_registers s else s) of
             None \<Rightarrow> None
           | Some s \<Rightarrow>
               (case interrupts (before_idle r) (showError s) of
                  None \<Rightarrow> None
                | Some s \<Rightarrow> Some (resetI2C_registers (s\<lparr>i2cState := I2CSTATE_IDLE\<rparr>)))))"

definition sendSpeed :: "send_in \<Rightarrow> byte \<Rightarrow> motor \<Rightarrow> motor option" where
  "sendSpeed r speed s =
     (case waitI2C (in_wait r) (StartI2C (preparePacket speed s)) of
        None \<Rightarrow> None
      | Some (timeout, s) \<Rightarrow> endSend r timeout s)"

text \<open>
  What comes from outside in one round: the flag of the transmitter, the timer of the markers, the
  bytes of the bus that arrive while the serial port is served and before each motor, and what comes
  while the packet of each motor is sent.  The bytes of the bus and the I2C interrupts touch different variables.
\<close>

record round_in =
  UTXBF :: bool
  T3IF :: bool
  in_pump :: "byte list"
  before_motor :: "nat \<Rightarrow> byte list"
  i2c_ints :: "nat \<Rightarrow> send_in"

fun sendSpeeds :: "round_in \<Rightarrow> byte list \<Rightarrow> nat list \<Rightarrow> motor \<Rightarrow> motor option" where
  "sendSpeeds r activeSpeed [] s = Some s"
| "sendSpeeds r activeSpeed (i # is) s =
     (case process_all motor_chip (before_motor r i) s of
        None \<Rightarrow> None
      | Some s \<Rightarrow> (case sendSpeed (i2c_ints r i) (activeSpeed ! i) (i2c_do (Select i) s) of
                    None \<Rightarrow> None
                  | Some s \<Rightarrow> sendSpeeds r activeSpeed is s))"

definition motor_round :: "round_in \<Rightarrow> motor \<Rightarrow> motor option" where
  "motor_round r s =
     (let activeSpeed = motorSpeed s in
      case pump (UTXBF r) (in_pump r) s of
        None \<Rightarrow> None
      | Some s \<Rightarrow>
          let s = (if T3IF r then s\<lparr>LAT_MRKR1 := True, LAT_MRKR2 := True, LAT_WAH_INH := False\<rparr> else s)
          in sendSpeeds r activeSpeed [0..<7] s)"

text \<open>\<^verbatim>\<open>main\<close> up to the loop; \<open>e\<close> is the local \<^verbatim>\<open>err_reset\<close>, which is not initialised.\<close>

definition motor_start :: "32 word \<Rightarrow> motor" where
  "motor_start e =
     \<lparr>m_busState = M_STATE_TOP_LEVEL, m_nParam = 0, m_rxBuf = replicate 256 0, m_txBuf = replicate 256 0, m_txPtr = 0,
      motorSpeed = replicate 7 0x80, uartBuf = replicate 64 0, uartBufSize = 0, uartBufPos = 0, sent_start = False,
      uart_line = [], i2cState = I2CSTATE_IDLE, i2cBuf = replicate 256 0, i2cPtr = 0, packetSize = 0, i2c_line = [],
      LAT_WAH_INH = False, LAT_MRKR1 = True, LAT_MRKR2 = True, LAT_ERR = False, err_reset = e\<rparr>"

text \<open>\<^verbatim>\<open>dropMarker\<close> is still in the file, but nothing calls it; \<open>True\<close> is \<^verbatim>\<open>WAH_ON\<close>, \<open>False\<close> \<^verbatim>\<open>MRKR_ON\<close>.\<close>

definition motor_dropMarker :: "byte \<Rightarrow> motor \<Rightarrow> motor" where
  "motor_dropMarker n s =
     (if n = 0 then s\<lparr>LAT_WAH_INH := True, LAT_MRKR1 := False\<rparr>
      else if n = 1 then s\<lparr>LAT_WAH_INH := True, LAT_MRKR2 := False\<rparr>
      else s)"

end
