(* ===== verification/MotorBoard.thy ===== *)
theory MotorBoard
  imports Motor
begin

text \<open>
  The motor board in operation: the speeds it keeps and sends are always within the range of the motor
  controllers, a packet of speeds is taken as a whole or stops all motors, and the I2C state machine
  sends whole packets, or a part of one and a stop.
\<close>

section \<open>The invariant\<close>

definition safe_speed :: "byte \<Rightarrow> bool" where
  "safe_speed b \<longleftrightarrow> 0x19 \<le> b \<and> b \<le> 0xE6"

lemma bad_speed_iff: "bad_speed b \<longleftrightarrow> \<not> safe_speed b"
  by (auto simp: bad_speed_def safe_speed_def)

definition motor_ok :: "motor \<Rightarrow> bool" where
  "motor_ok s \<longleftrightarrow> length (motorSpeed s) = 7 \<and> list_all safe_speed (motorSpeed s)
     \<and> length (m_rxBuf s) = 256 \<and> length (uartBuf s) = 64 \<and> length (i2cBuf s) = 256
     \<and> uartBufPos s \<le> uartBufSize s \<and> uartBufSize s \<le> 64
     \<and> (m_busState s = STATE_SET_MOT_SPEEDS \<longrightarrow> m_nParam s < 6)
     \<and> (m_busState s = STATE_SET_MOT_N \<longrightarrow> m_nParam s < 2)"

lemma safe_80 [simp]: "safe_speed 0x80"
  by (simp add: safe_speed_def)

lemma safe_update: "list_all safe_speed xs \<Longrightarrow> safe_speed b \<Longrightarrow> list_all safe_speed (xs[i := b])"
  by (induction xs arbitrary: i) (auto split: nat.split)

lemma seven: "length (xs :: byte list) = 7 \<Longrightarrow> \<exists>a b c d e f g. xs = [a, b, c, d, e, f, g]"
  by (auto simp: numeral_eq_Suc length_Suc_conv)

lemma kill_motors_speeds: "length (motorSpeed s) = 7 \<Longrightarrow> motorSpeed (kill_motors s) = replicate 7 0x80"
  using seven [of "motorSpeed s"] by (auto simp: kill_motors_def numeral_eq_Suc)

text \<open>Nothing but the speeds.\<close>

definition same_but_speeds :: "motor \<Rightarrow> motor \<Rightarrow> bool" where
  "same_but_speeds s t \<longleftrightarrow> t\<lparr>motorSpeed := []\<rparr> = s\<lparr>motorSpeed := []\<rparr>"

lemma same_but_speeds_fields:
  assumes "same_but_speeds s t"
  shows "m_rxBuf t = m_rxBuf s" "m_txBuf t = m_txBuf s" "m_busState t = m_busState s" "m_nParam t = m_nParam s"
    "uartBuf t = uartBuf s" "uartBufSize t = uartBufSize s" "uartBufPos t = uartBufPos s" "i2cBuf t = i2cBuf s"
    "i2c_line t = i2c_line s" "uart_line t = uart_line s" "sent_start t = sent_start s" "i2cState t = i2cState s"
proof -
  note e = arg_cong [OF assms [unfolded same_but_speeds_def]]
  show "m_rxBuf t = m_rxBuf s" using e [of m_rxBuf] by simp
  show "m_txBuf t = m_txBuf s" using e [of m_txBuf] by simp
  show "m_busState t = m_busState s" using e [of m_busState] by simp
  show "m_nParam t = m_nParam s" using e [of m_nParam] by simp
  show "uartBuf t = uartBuf s" using e [of uartBuf] by simp
  show "uartBufSize t = uartBufSize s" using e [of uartBufSize] by simp
  show "uartBufPos t = uartBufPos s" using e [of uartBufPos] by simp
  show "i2cBuf t = i2cBuf s" using e [of i2cBuf] by simp
  show "i2c_line t = i2c_line s" using e [of i2c_line] by simp
  show "uart_line t = uart_line s" using e [of uart_line] by simp
  show "sent_start t = sent_start s" using e [of sent_start] by simp
  show "i2cState t = i2cState s" using e [of i2cState] by simp
qed

lemma kill_motors_same: "same_but_speeds s (kill_motors s)"
  by (simp add: same_but_speeds_def kill_motors_def)

lemma writeSpeeds_same: "same_but_speeds s (writeSpeeds is s)"
  by (induction "is" s rule: writeSpeeds.induct) (auto simp: same_but_speeds_def kill_motors_def)

lemma writeSpeeds_speeds:
  assumes "length (motorSpeed s) = 7" and "distinct is" and "\<forall>i\<in>set is. i < 7"
  shows "motorSpeed (writeSpeeds is s) = (if \<exists>i\<in>set is. bad_speed (m_rxBuf s ! i) then replicate 7 0x80
     else map (\<lambda>i. if i \<in> set is then m_rxBuf s ! i else motorSpeed s ! i) [0..<7])"
  using assms
proof (induction "is" arbitrary: s)
  case Nil
  then show ?case using map_nth [of "motorSpeed s"] by simp
next
  case (Cons i "is")
  then show ?case
    by (auto simp: kill_motors_speeds nth_list_update)
qed

section \<open>Bytes of the bus\<close>

lemma kill_motors_ok: "motor_ok s \<Longrightarrow> motor_ok (kill_motors s)"
  by (simp add: motor_ok_def kill_motors_speeds same_but_speeds_fields [OF kill_motors_same] list_all_length)

lemma forwardCmd_ok: "motor_ok s \<Longrightarrow> forwardCmd c s = Some s' \<Longrightarrow> motor_ok s'"
  by (auto simp: motor_ok_def forwardCmd_def Let_def split: if_splits)

lemma forwardCmd_None: "motor_ok s \<Longrightarrow> forwardCmd c s = None \<longleftrightarrow> uartBufSize s > 60"
  by (auto simp: motor_ok_def forwardCmd_def Let_def)

lemma motor_ok_update [simp]:
  "motor_ok (s\<lparr>m_txPtr := n\<rparr>) = motor_ok s" "motor_ok (s\<lparr>m_txBuf := b\<rparr>) = motor_ok s" "motor_ok (s\<lparr>uart_line := l\<rparr>) = motor_ok s"
  "motor_ok (s\<lparr>sent_start := e\<rparr>) = motor_ok s" "motor_ok (s\<lparr>i2cState := st\<rparr>) = motor_ok s" "motor_ok (s\<lparr>i2cPtr := n\<rparr>) = motor_ok s"
  "motor_ok (s\<lparr>packetSize := n\<rparr>) = motor_ok s" "motor_ok (s\<lparr>i2c_line := ops\<rparr>) = motor_ok s" "motor_ok (s\<lparr>LAT_WAH_INH := e\<rparr>) = motor_ok s"
  "motor_ok (s\<lparr>LAT_MRKR1 := e\<rparr>) = motor_ok s" "motor_ok (s\<lparr>LAT_MRKR2 := e\<rparr>) = motor_ok s" "motor_ok (s\<lparr>LAT_ERR := e\<rparr>) = motor_ok s"
  "motor_ok (s\<lparr>err_reset := w\<rparr>) = motor_ok s"
  by (simp_all add: motor_ok_def)

lemma motor_command_ok: "motor_ok s \<Longrightarrow> m_busState s = M_STATE_TOP_LEVEL \<Longrightarrow> motor_command b s = Some s' \<Longrightarrow> motor_ok s'"
  by (auto simp: motor_command_def kill_motors_ok forwardCmd_ok split: if_splits)
     (auto simp: motor_ok_def safe_update M_STATE_defs)

lemma less_small_byte: "(n :: byte) < 6 \<Longrightarrow> \<not> 6 \<le> n + 1 \<Longrightarrow> n + 1 < 6" "(n :: byte) < 2 \<Longrightarrow> \<not> 2 \<le> n + 1 \<Longrightarrow> n + 1 < 2"
  by (simp_all add: not_le)

lemma storeParam_fields [simp]:
  "motorSpeed (storeParam b s) = motorSpeed s" "m_busState (storeParam b s) = m_busState s" "uartBuf (storeParam b s) = uartBuf s"
  "uartBufSize (storeParam b s) = uartBufSize s" "uartBufPos (storeParam b s) = uartBufPos s" "i2cBuf (storeParam b s) = i2cBuf s"
  "m_nParam (storeParam b s) = m_nParam s + 1" "length (m_rxBuf (storeParam b s)) = length (m_rxBuf s)"
  "m_rxBuf (storeParam b s) = (m_rxBuf s)[unat (m_nParam s) := b]"
  by (simp_all add: storeParam_def)

lemma writeSpeeds_safe:
  assumes "length (motorSpeed s) = 7" and "list_all safe_speed (motorSpeed s)"
  shows "length (motorSpeed (writeSpeeds [0..<6] s)) = 7" "list_all safe_speed (motorSpeed (writeSpeeds [0..<6] s))"
proof -
  note w = writeSpeeds_speeds [OF assms(1), of "[0..<6]"]
  show "length (motorSpeed (writeSpeeds [0..<6] s)) = 7" using w by simp
  show "list_all safe_speed (motorSpeed (writeSpeeds [0..<6] s))"
    using w assms by (auto simp: bad_speed_iff list_all_length)
qed

lemma motor_ok_top: "motor_ok s \<Longrightarrow> motor_ok (s\<lparr>m_busState := M_STATE_TOP_LEVEL\<rparr>)"
  by (simp add: motor_ok_def M_STATE_defs)

lemma motor_processData_ok:
  assumes ok: "motor_ok s" and r: "motor_processData b s = Some s'"
  shows "motor_ok s'"
proof -
  let ?s = "s\<lparr>m_txPtr := 0\<rparr>"
  consider (top) "m_busState s = M_STATE_TOP_LEVEL" | (all) "m_busState s = STATE_SET_MOT_SPEEDS"
    | (one) "m_busState s = STATE_SET_MOT_N" | (derpy) "m_busState s = STATE_SET_DERPY"
    | (other) "m_busState s \<notin> {M_STATE_TOP_LEVEL, STATE_SET_MOT_SPEEDS, STATE_SET_MOT_N, STATE_SET_DERPY}"
    by auto
  then show ?thesis
  proof cases
    case top
    then show ?thesis using r ok motor_command_ok [of ?s b s'] by (simp add: motor_processData_def)
  next
    case all
    then have "s' = (if m_nParam s + 1 \<ge> 6 then (writeSpeeds [0..<6] (storeParam b ?s))\<lparr>m_busState := M_STATE_TOP_LEVEL\<rparr> else storeParam b ?s)"
      using r by (simp add: motor_processData_def M_STATE_defs Let_def)
    then show ?thesis
      using ok all writeSpeeds_safe [of "storeParam b ?s"] same_but_speeds_fields [OF writeSpeeds_same [of "storeParam b ?s" "[0..<6]"]]
      by (auto simp: motor_ok_def M_STATE_defs not_le)
  next
    case one
    let ?t = "storeParam b ?s"
    have "s' = (if m_nParam s + 1 \<ge> 2
        then if bad_speed (m_rxBuf ?t ! 1) \<or> m_rxBuf ?t ! 0 > 5 then (kill_motors ?t)\<lparr>m_busState := M_STATE_TOP_LEVEL\<rparr>
             else ?t\<lparr>motorSpeed := (motorSpeed ?t)[unat (m_rxBuf ?t ! 0) := m_rxBuf ?t ! 1], m_busState := M_STATE_TOP_LEVEL\<rparr>
        else ?t)"
      using r one by (simp add: motor_processData_def M_STATE_defs Let_def)
    then show ?thesis
      using ok one kill_motors_speeds [of ?t] same_but_speeds_fields [OF kill_motors_same [of ?t]]
      by (auto simp: motor_ok_def M_STATE_defs bad_speed_iff safe_update not_le list_all_length [of _ "replicate 7 0x80"])
  next
    case derpy
    then show ?thesis
      using ok r motor_ok_top [OF kill_motors_ok [of ?s]]
      by (auto simp: motor_processData_def M_STATE_defs Let_def bad_speed_iff split: if_splits)
         (simp add: motor_ok_def safe_update M_STATE_defs)
  next
    case other
    then have "s' = ?s" using r by (simp add: motor_processData_def)
    then show ?thesis using ok by simp
  qed
qed

lemma motor_processData_None:
  assumes "motor_ok s"
  shows "motor_processData b s = None \<longleftrightarrow> m_busState s = M_STATE_TOP_LEVEL \<and> b \<in> set forwarded \<and> uartBufSize s > 60"
proof -
  have "motor_command b t = None \<longleftrightarrow> b \<in> set forwarded \<and> forwardCmd b t = None" for t
    by (auto simp: motor_command_def forwarded_def codes)
  then show ?thesis using forwardCmd_None [of "s\<lparr>m_txPtr := 0\<rparr>" b] assms by (simp add: motor_processData_def Let_def)
qed

lemma process_all_ok: "motor_ok s \<Longrightarrow> process_all motor_chip bs s = Some s' \<Longrightarrow> motor_ok s'"
  by (induction bs arbitrary: s) (auto split: option.splits intro: motor_processData_ok)

lemma motor_start_ok: "motor_ok (motor_start e)"
  by (simp add: motor_ok_def motor_start_def M_STATE_defs list_all_length)

text \<open>The six bytes after the command, with everything else they leave alone.\<close>

lemma stored_param:
  assumes "m_busState s = STATE_SET_MOT_SPEEDS" and "m_nParam s = of_nat k" and "k < 5"
  shows "motor_processData b s = Some (storeParam b (s\<lparr>m_txPtr := 0\<rparr>))"
proof -
  have "k \<in> {0, 1, 2, 3, 4}" using assms(3) by auto
  then have "\<not> 6 \<le> m_nParam s + 1" using assms(2) by (auto simp: word_le_nat_alt)
  then show ?thesis using assms(1) by (simp add: motor_processData_def M_STATE_defs Let_def)
qed

lemma stored_last:
  assumes "m_busState s = STATE_SET_MOT_SPEEDS" and "m_nParam s = 5"
  shows "motor_processData b s = Some ((writeSpeeds [0..<6] (storeParam b (s\<lparr>m_txPtr := 0\<rparr>)))\<lparr>m_busState := M_STATE_TOP_LEVEL\<rparr>)"
  using assms by (simp add: motor_processData_def M_STATE_defs Let_def)

lemma six_speeds:
  assumes "motor_ok s" and "m_busState s = M_STATE_TOP_LEVEL" and "length bs = 6"
  obtains s' where "process_all motor_chip (BUS_CMD_SET_MOT_SPEEDS # bs) s = Some s'" "m_busState s' = M_STATE_TOP_LEVEL"
    "motorSpeed s' = (if list_all safe_speed bs then bs @ [motorSpeed s ! 6] else replicate 7 0x80)"
    "uartBuf s' = uartBuf s" "uartBufSize s' = uartBufSize s" "uartBufPos s' = uartBufPos s" "sent_start s' = sent_start s"
proof -
  obtain a b c d e f where bs: "bs = [a, b, c, d, e, f]" using assms(3) by (auto simp: numeral_eq_Suc length_Suc_conv)
  obtain x0 x1 x2 x3 x4 x5 x6 where xs: "motorSpeed s = [x0, x1, x2, x3, x4, x5, x6]"
    using seven [of "motorSpeed s"] assms(1) by (auto simp: motor_ok_def)
  have len: "length (m_rxBuf s) = 256" using assms(1) by (simp add: motor_ok_def)
  define s0 where "s0 = s\<lparr>m_txPtr := 0, m_nParam := 0, m_busState := STATE_SET_MOT_SPEEDS\<rparr>"
  have c0: "motor_processData BUS_CMD_SET_MOT_SPEEDS s = Some s0"
    using assms(2) by (simp add: motor_processData_def motor_command_def s0_def codes)
  let ?st = "\<lambda>b s. storeParam b (s\<lparr>m_txPtr := 0\<rparr>)"
  define t where "t = ?st f (?st e (?st d (?st c (?st b (?st a s0)))))"
  let ?s' = "(writeSpeeds [0..<6] t)\<lparr>m_busState := M_STATE_TOP_LEVEL\<rparr>"
  have all: "process_all motor_chip (BUS_CMD_SET_MOT_SPEEDS # bs) s = Some ?s'"
    by (simp add: c0 bs t_def stored_param [where k = 0] stored_param [where k = 1] stored_param [where k = 2]
        stored_param [where k = 3] stored_param [where k = 4] stored_last s0_def)
  have "m_rxBuf t = (m_rxBuf s)[0 := a, 1 := b, 2 := c, 3 := d, 4 := e, 5 := f]" by (simp add: t_def s0_def)
  then have r: "\<forall>i\<in>{0..<6}. m_rxBuf t ! i = bs ! i"
    using len by (auto simp: bs numeral_eq_Suc less_Suc_eq)
  have m: "motorSpeed t = motorSpeed s" by (simp add: t_def s0_def)
  have "motorSpeed ?s' = (if \<exists>i\<in>{0..<6}. bad_speed (bs ! i) then replicate 7 0x80
      else map (\<lambda>i. if i \<in> {0..<6} then bs ! i else motorSpeed s ! i) [0..<7])"
    using writeSpeeds_speeds [of t "[0..<6]"] r m xs by (simp cong: bex_cong_simp)
  also have "(\<exists>i\<in>{0..<6}. bad_speed (bs ! i)) \<longleftrightarrow> \<not> list_all safe_speed bs"
    using assms(3) by (auto simp: bad_speed_iff list_all_length)
  also have "map (\<lambda>i. if i \<in> {0..<6} then bs ! i else motorSpeed s ! i) [0..<7] = bs @ [motorSpeed s ! 6]"
    by (simp add: bs upt_rec numeral_eq_Suc)
  finally have sp: "motorSpeed ?s' = (if list_all safe_speed bs then bs @ [motorSpeed s ! 6] else replicate 7 0x80)" by auto
  have "uartBuf t = uartBuf s" "uartBufSize t = uartBufSize s" "uartBufPos t = uartBufPos s" "sent_start t = sent_start s"
    by (simp_all add: t_def s0_def storeParam_def)
  then show thesis
    using that [of ?s'] all sp same_but_speeds_fields [OF writeSpeeds_same [of t "[0..<6]"]] by simp
qed

text \<open>
  A packet of six speeds is taken as a whole: if each is within the range of the motor
  controllers they become the speeds of the six motors, and otherwise all seven motors are stopped,
  also those whose speed was good.
\<close>

theorem speeds_all_or_none:
  assumes "motor_ok s" and "m_busState s = M_STATE_TOP_LEVEL" and "length bs = 6"
  shows "\<exists>s'. process_all motor_chip (BUS_CMD_SET_MOT_SPEEDS # bs) s = Some s' \<and> m_busState s' = M_STATE_TOP_LEVEL
    \<and> motorSpeed s' = (if list_all safe_speed bs then bs @ [motorSpeed s ! 6] else replicate 7 0x80)"
  by (rule six_speeds [OF assms]) (intro exI conjI)

theorem speeds_all_or_none_witness:
  "\<exists>s'. process_all motor_chip [BUS_CMD_SET_MOT_SPEEDS, 0x19, 0x80, 0xE6, 0xE7, 0x80, 0x80] (motor_start 0) = Some s'
     \<and> motorSpeed s' = replicate 7 0x80"
proof -
  have s: "motor_ok (motor_start 0)" "m_busState (motor_start 0) = M_STATE_TOP_LEVEL" "length [0x19, 0x80, 0xE6, 0xE7, 0x80, 0x80 :: byte] = 6"
    by (simp_all add: motor_start_ok) (simp add: motor_start_def)
  have "\<not> list_all safe_speed [0x19, 0x80, 0xE6, 0xE7, 0x80, 0x80]" by (simp add: safe_speed_def)
  then show ?thesis using speeds_all_or_none [OF s] unfolding if_not_P [OF \<open>\<not> _\<close>] by blast
qed

section \<open>A packet on the I2C bus\<close>

definition motor_packet :: "byte \<Rightarrow> byte list" where
  "motor_packet v = [0x52, v, 0x64, 0x52 + v + 0x64]"

text \<open>
  What the line got for a packet of speed \<open>v\<close>: \<open>k\<close> of its bytes in their order, and perhaps a stop, with resets in between.
\<close>

definition packet_ops :: "byte \<Rightarrow> nat \<Rightarrow> i2c_op list \<Rightarrow> i2c_op list \<Rightarrow> bool" where
  "packet_ops v k stops ops \<longleftrightarrow> k \<le> 4 \<and> stops \<in> {[], [Stop_i2c]}
     \<and> filter (\<lambda>x. x \<noteq> Reset) ops = map Transmit (take k (motor_packet v)) @ stops"

text \<open>Where the state machine is, on a line that held \<open>L\<close>.\<close>

definition sending :: "i2c_op list \<Rightarrow> byte \<Rightarrow> nat \<Rightarrow> i2c_op list \<Rightarrow> motor \<Rightarrow> bool" where
  "sending L v k stops s \<longleftrightarrow> (\<exists>ops. i2c_line s = L @ Start # ops \<and> packet_ops v k stops ops)
     \<and> packetSize s = 4 \<and> take 4 (i2cBuf s) = motor_packet v \<and> length (i2cBuf s) = 256
     \<and> (i2cState s = I2CSTATE_START \<and> k = 0 \<and> stops = [] \<or> i2cState s = I2CSTATE_TRANS \<and> 1 \<le> k \<and> i2cPtr s = k \<and> stops = []
        \<or> i2cState s \<in> {I2CSTATE_STOP, I2CSTATE_STOPPING_BORKED, I2CSTATE_BORKED, I2CSTATE_IDLE} \<and> stops = [Stop_i2c])"

text \<open>Nothing but the variables of the state machine.\<close>

definition i2c_only :: "motor \<Rightarrow> motor \<Rightarrow> bool" where
  "i2c_only s t \<longleftrightarrow> t\<lparr>i2cState := 0, i2cPtr := 0, i2c_line := []\<rparr> = s\<lparr>i2cState := 0, i2cPtr := 0, i2c_line := []\<rparr>"

text \<open>The line grows, but not by a reset.\<close>

definition grown :: "motor \<Rightarrow> motor \<Rightarrow> bool" where
  "grown s t \<longleftrightarrow> (\<exists>xs. i2c_line t = i2c_line s @ xs \<and> Reset \<notin> set xs)"

lemma grown_refl [simp]: "grown s s"
  by (simp add: grown_def)

lemma grown_trans: "grown s t \<Longrightarrow> grown t u \<Longrightarrow> grown s u"
  by (auto simp: grown_def)

lemma packet_ops_byte:
  assumes "packet_ops v k [] ops" and "k < 4" and "take 4 (i2cBuf s) = motor_packet v"
  shows "packet_ops v (Suc k) [] (ops @ [Transmit (i2cBuf s ! k)])"
proof -
  have "i2cBuf s ! k = motor_packet v ! k" using assms(2,3) by (metis nth_take)
  moreover have "k < length (motor_packet v)" using assms(2) by (simp add: motor_packet_def)
  ultimately show ?thesis using assms(1,2) by (simp add: packet_ops_def take_Suc_conv_app_nth)
qed

lemma packet_ops_more:
  "packet_ops v k [] ops \<Longrightarrow> packet_ops v k [Stop_i2c] (ops @ [Stop_i2c])"
  "packet_ops v k stops (ops @ [Reset]) = packet_ops v k stops ops"
  by (auto simp: packet_ops_def)

lemma interrupt_sends:
  assumes "sending L v k stops s"
  obtains s' k' stops' where "MI2CInterrupt r s = Some s'" "sending L v k' stops' s'" "i2c_only s s'" "grown s s'"
proof -
  have b: "take 4 (i2cBuf s) = motor_packet v" "packetSize s = 4" "length (i2cBuf s) = 256" using assms by (simp_all add: sending_def)
  obtain ops where ops: "i2c_line s = L @ Start # ops" "packet_ops v k stops ops" using assms by (auto simp: sending_def)
  consider (start) "i2cState s = I2CSTATE_START" "k = 0" "stops = []"
    | (trans) "i2cState s = I2CSTATE_TRANS" "1 \<le> k" "i2cPtr s = k" "k \<le> 4" "stops = []"
    | (ends) "i2cState s \<in> {I2CSTATE_STOP, I2CSTATE_STOPPING_BORKED, I2CSTATE_BORKED, I2CSTATE_IDLE}" "stops = [Stop_i2c]"
    using assms by (auto simp: sending_def packet_ops_def)
  then show thesis
  proof cases
    case start
    let ?s = "WriteI2C (i2cBuf s ! 0) (s\<lparr>i2cPtr := 1, i2cState := I2CSTATE_TRANS\<rparr>)"
    have "packet_ops v (Suc 0) [] (ops @ [Transmit (i2cBuf s ! 0)])"
      by (rule packet_ops_byte) (use ops(2) start b(1) in simp_all)
    then have "sending L v (Suc 0) [] ?s" using b ops(1) by (simp add: sending_def WriteI2C_def i2c_do_def)
    moreover have "MI2CInterrupt r s = Some ?s" using start by (simp add: MI2CInterrupt_def I2CSTATE_defs)
    moreover have "i2c_only s ?s" "grown s ?s" by (simp_all add: i2c_only_def grown_def WriteI2C_def i2c_do_def)
    ultimately show ?thesis using that by blast
  next
    case trans
    have o: "packet_ops v k [] ops" using ops(2) trans by simp
    consider (lost) "\<not> (wasAckI2C r \<and> (k = 4 \<or> IdleI2C r))" | (all) "wasAckI2C r" "k = 4" | (next_byte) "wasAckI2C r" "IdleI2C r" "k < 4"
      using trans(4) by fastforce
    then show ?thesis
    proof cases
      case lost
      have "sending L v k [Stop_i2c] (BorkedI2C s)"
        using b ops(1) packet_ops_more(1) [OF o] by (simp add: sending_def BorkedI2C_def StopI2C_BORKED_def i2c_do_def)
      moreover have "MI2CInterrupt r s = Some (BorkedI2C s)"
        using lost trans b(2) by (auto simp: MI2CInterrupt_def I2CSTATE_defs)
      moreover have "i2c_only s (BorkedI2C s)" "grown s (BorkedI2C s)"
        by (simp_all add: i2c_only_def grown_def BorkedI2C_def StopI2C_BORKED_def i2c_do_def)
      ultimately show ?thesis using that by blast
    next
      case all
      have "sending L v k [Stop_i2c] (StopI2C s)"
        using b ops(1) packet_ops_more(1) [OF o] by (simp add: sending_def StopI2C_def i2c_do_def)
      moreover have "MI2CInterrupt r s = Some (StopI2C s)" using all trans b(2) by (simp add: MI2CInterrupt_def I2CSTATE_defs)
      moreover have "i2c_only s (StopI2C s)" "grown s (StopI2C s)" by (simp_all add: i2c_only_def grown_def StopI2C_def i2c_do_def)
      ultimately show ?thesis using that by blast
    next
      case next_byte
      let ?s = "(WriteI2C (i2cBuf s ! i2cPtr s) (s\<lparr>i2cPtr := i2cPtr s + 1\<rparr>))\<lparr>i2cState := I2CSTATE_TRANS\<rparr>"
      have "MI2CInterrupt r s = Some ?s"
        using trans next_byte b by (simp add: MI2CInterrupt_def I2CSTATE_defs)
      moreover have "sending L v (Suc k) [] ?s"
        using b ops(1) trans packet_ops_byte [OF o next_byte(3) b(1)] by (simp add: sending_def WriteI2C_def i2c_do_def)
      moreover have "i2c_only s ?s" "grown s ?s" by (simp_all add: i2c_only_def grown_def WriteI2C_def i2c_do_def)
      ultimately show ?thesis using that by blast
    qed
  next
    case ends
    let ?n = "if i2cState s = I2CSTATE_STOP then I2CSTATE_IDLE
      else if i2cState s = I2CSTATE_STOPPING_BORKED then I2CSTATE_BORKED else i2cState s"
    have "MI2CInterrupt r s = Some (s\<lparr>i2cState := ?n\<rparr>)"
      using ends(1) by (auto simp: MI2CInterrupt_def I2CSTATE_defs)
    moreover have "?n \<in> {I2CSTATE_STOP, I2CSTATE_STOPPING_BORKED, I2CSTATE_BORKED, I2CSTATE_IDLE}" using ends(1) by auto
    then have "sending L v k stops (s\<lparr>i2cState := ?n\<rparr>)" using assms ends(2) by (simp add: sending_def)
    moreover have "i2c_only s (s\<lparr>i2cState := ?n\<rparr>)" "grown s (s\<lparr>i2cState := ?n\<rparr>)" by (simp_all add: i2c_only_def grown_def)
    ultimately show ?thesis using that by blast
  qed
qed

lemma i2c_only_trans: "i2c_only s t \<Longrightarrow> i2c_only t u \<Longrightarrow> i2c_only s u"
  by (simp add: i2c_only_def)

lemma interrupts_send:
  assumes "sending L v k stops s"
  obtains s' k' stops' where "interrupts rs s = Some s'" "sending L v k' stops' s'" "i2c_only s s'" "grown s s'"
  using assms
proof (induction rs arbitrary: s k stops thesis)
  case Nil
  then show ?case by (simp add: i2c_only_def)
next
  case (Cons r rs)
  obtain s1 k1 stops1 where s1: "MI2CInterrupt r s = Some s1" "sending L v k1 stops1 s1" "i2c_only s s1" "grown s s1"
    by (rule interrupt_sends [OF Cons.prems(2)])
  obtain s' k' stops' where s': "interrupts rs s1 = Some s'" "sending L v k' stops' s'" "i2c_only s1 s'" "grown s1 s'"
    by (rule Cons.IH [OF _ s1(2)])
  then show ?case using Cons.prems(1) [of s' k' stops'] s1 i2c_only_trans grown_trans by fastforce
qed

lemma waitI2C_sends:
  assumes "sending L v k stops s"
  obtains b s' k' stops' where "waitI2C rs s = Some (b, s')" "sending L v k' stops' s'" "i2c_only s s'" "grown s s'"
  using assms
proof (induction rs arbitrary: s k stops thesis)
  case Nil
  then show ?case
    using Nil.prems(1) [of False s k stops] Nil.prems(1) [of True s k stops]
    by (cases "i2cState s = I2CSTATE_IDLE \<or> i2cState s = I2CSTATE_BORKED") (simp_all add: waitI2C.simps [of "[]"] i2c_only_def)
next
  case (Cons r rs)
  show ?case
  proof (cases "i2cState s = I2CSTATE_IDLE \<or> i2cState s = I2CSTATE_BORKED")
    case True
    then show ?thesis using Cons.prems by (auto simp: waitI2C.simps [of "r # rs"] i2c_only_def)
  next
    case False
    obtain s1 k1 stops1 where s1: "MI2CInterrupt r s = Some s1" "sending L v k1 stops1 s1" "i2c_only s s1" "grown s s1"
      by (rule interrupt_sends [OF Cons.prems(2)])
    obtain b s' k' stops' where s': "waitI2C rs s1 = Some (b, s')" "sending L v k' stops' s'" "i2c_only s1 s'" "grown s1 s'"
      by (rule Cons.IH [OF _ s1(2)])
    then show ?thesis
      using Cons.prems(1) [of b s' k' stops'] s1(1,3,4) False i2c_only_trans grown_trans by (auto simp: waitI2C.simps [of "r # rs"])
  qed
qed

lemma started_sending:
  assumes "length (i2cBuf s) = 256"
  shows "sending (i2c_line s) v 0 [] (StartI2C (preparePacket v s))"
proof -
  have "take 4 ((i2cBuf s)[0 := 0x52, 1 := v, 2 := 0x64, 3 := 0x52 + v + 0x64]) = motor_packet v"
    by (rule nth_equalityI) (auto simp: motor_packet_def assms nth_list_update less_Suc_eq numeral_eq_Suc)
  then show ?thesis using assms by (simp add: sending_def packet_ops_def StartI2C_def preparePacket_def i2c_do_def)
qed

lemma i2c_only_fields:
  assumes "i2c_only s t"
  shows "motorSpeed t = motorSpeed s"
    "m_busState t = m_busState s"
    "m_nParam t = m_nParam s"
    "m_rxBuf t = m_rxBuf s"
    "uartBuf t = uartBuf s"
    "uartBufSize t = uartBufSize s"
    "uartBufPos t = uartBufPos s"
    "sent_start t = sent_start s"
    "uart_line t = uart_line s"
    "i2cBuf t = i2cBuf s"
    "packetSize t = packetSize s"
    "LAT_ERR t = LAT_ERR s"
    "err_reset t = err_reset s"
proof -
  note e = arg_cong [OF assms [unfolded i2c_only_def]]
  show "motorSpeed t = motorSpeed s" using e [of motorSpeed] by simp
  show "m_busState t = m_busState s" using e [of m_busState] by simp
  show "m_nParam t = m_nParam s" using e [of m_nParam] by simp
  show "m_rxBuf t = m_rxBuf s" using e [of m_rxBuf] by simp
  show "uartBuf t = uartBuf s" using e [of uartBuf] by simp
  show "uartBufSize t = uartBufSize s" using e [of uartBufSize] by simp
  show "uartBufPos t = uartBufPos s" using e [of uartBufPos] by simp
  show "sent_start t = sent_start s" using e [of sent_start] by simp
  show "uart_line t = uart_line s" using e [of uart_line] by simp
  show "i2cBuf t = i2cBuf s" using e [of i2cBuf] by simp
  show "packetSize t = packetSize s" using e [of packetSize] by simp
  show "LAT_ERR t = LAT_ERR s" using e [of LAT_ERR] by simp
  show "err_reset t = err_reset s" using e [of err_reset] by simp
qed

lemma i2c_only_ok: "i2c_only s t \<Longrightarrow> motor_ok s \<Longrightarrow> motor_ok t"
  unfolding motor_ok_def by (simp add: i2c_only_fields)

lemma preparePacket_ok: "motor_ok s \<Longrightarrow> motor_ok (StartI2C (preparePacket v s))"
  by (simp add: motor_ok_def StartI2C_def preparePacket_def i2c_do_def)

text \<open>What a send leaves alone.\<close>

definition bus_side :: "motor \<Rightarrow> byte list \<times> byte \<times> byte \<times> byte list \<times> byte list \<times> nat \<times> nat \<times> bool \<times> byte list" where
  "bus_side s = (motorSpeed s, m_busState s, m_nParam s, m_rxBuf s, uartBuf s, uartBufSize s, uartBufPos s, sent_start s, uart_line s)"

lemma bus_side_i2c: "i2c_only s t \<Longrightarrow> bus_side t = bus_side s"
  using i2c_only_fields [of s t] by (simp add: bus_side_def)

lemma reset_sends [simp]: "sending L v k stops (resetI2C_registers s) = sending L v k stops s"
proof -
  have "(\<exists>ops. i2c_line (resetI2C_registers s) = L @ Start # ops \<and> packet_ops v k stops ops)
      \<longleftrightarrow> (\<exists>ops. i2c_line s = L @ Start # ops \<and> packet_ops v k stops ops)" (is "?l \<longleftrightarrow> ?r")
  proof
    assume ?l
    then obtain ops where o: "i2c_line s @ [Reset] = L @ Start # ops" "packet_ops v k stops ops"
      by (auto simp: resetI2C_registers_def i2c_do_def)
    then obtain ops' where "ops = ops' @ [Reset]" "i2c_line s = L @ Start # ops'"
      by (cases ops rule: rev_cases) (auto simp: append_eq_append_conv2 append_eq_Cons_conv)
    then show ?r using o(2) packet_ops_more(2) by auto
  next
    assume ?r
    then show ?l using packet_ops_more(2) by (auto simp: resetI2C_registers_def i2c_do_def)
  qed
  then show ?thesis by (simp add: sending_def resetI2C_registers_def i2c_do_def)
qed

lemma sending_update [simp]:
  "sending L v k stops (s\<lparr>LAT_ERR := e\<rparr>) = sending L v k stops s" "sending L v k stops (s\<lparr>err_reset := w\<rparr>) = sending L v k stops s"
  by (simp_all add: sending_def)

lemma showError_keeps [simp]:
  "sending L v k stops (showError s) = sending L v k stops s" "motor_ok (showError s) = motor_ok s" "bus_side (showError s) = bus_side s"
  by (simp_all add: showError_def Let_def) (simp_all add: resetI2C_registers_def i2c_do_def bus_side_def)

lemma reset_keeps [simp]: "motor_ok (resetI2C_registers s) = motor_ok s" "bus_side (resetI2C_registers s) = bus_side s"
  by (simp_all add: resetI2C_registers_def i2c_do_def bus_side_def)

lemma endSend_sends:
  assumes "sending L v k stops s" and "motor_ok s"
  obtains s' k' stops' ops where "endSend r b s = Some s'" "i2c_line s' = L @ Start # ops" "packet_ops v k' stops' ops"
    "motor_ok s'" "bus_side s' = bus_side s" "i2cState s' = I2CSTATE_IDLE"
proof -
  obtain s1 k1 stops1 where s1: "interrupts (after_wait r) s = Some s1" "sending L v k1 stops1 s1" "i2c_only s s1"
    by (rule interrupts_send [OF assms(1)])
  let ?s1 = "if b \<or> T1IF r then resetI2C_registers s1 else s1"
  have t1: "sending L v k1 stops1 ?s1" using s1(2) by simp
  obtain s2 k2 stops2 where s2: "interrupts (after_timer r) ?s1 = Some s2" "sending L v k2 stops2 s2" "i2c_only ?s1 s2"
    by (rule interrupts_send [OF t1])
  have t2: "sending L v k2 stops2 (showError s2)" using s2(2) by simp
  obtain s3 k3 stops3 where s3: "interrupts (before_idle r) (showError s2) = Some s3" "sending L v k3 stops3 s3" "i2c_only (showError s2) s3"
    by (rule interrupts_send [OF t2])
  obtain ops where ops: "i2c_line s3 = L @ Start # ops" "packet_ops v k3 stops3 ops" using s3(2) by (auto simp: sending_def)
  have ok: "motor_ok s3" using i2c_only_ok [OF s3(3)] i2c_only_ok [OF s2(3)] i2c_only_ok [OF s1(3)] assms(2) by simp
  have side: "bus_side s3 = bus_side s" using bus_side_i2c [OF s3(3)] bus_side_i2c [OF s2(3)] bus_side_i2c [OF s1(3)] by simp
  let ?s' = "resetI2C_registers (s3\<lparr>i2cState := I2CSTATE_IDLE\<rparr>)"
  have "endSend r b s = Some ?s'" by (simp add: endSend_def s1(1) s2(1) s3(1))
  moreover have "i2c_line ?s' = L @ Start # (ops @ [Reset])" using ops(1) by (simp add: resetI2C_registers_def i2c_do_def)
  moreover have "packet_ops v k3 stops3 (ops @ [Reset])" using ops(2) packet_ops_more(2) by simp
  moreover have "motor_ok ?s'" "bus_side ?s' = bus_side s" using ok side by simp_all (simp add: bus_side_def)
  moreover have "i2cState ?s' = I2CSTATE_IDLE" by (simp add: resetI2C_registers_def i2c_do_def)
  ultimately show thesis by (rule that)
qed

text \<open>Without interrupts after the wait there are only resets.\<close>

definition no_late :: "send_in \<Rightarrow> bool" where
  "no_late r \<longleftrightarrow> after_wait r = [] \<and> after_timer r = [] \<and> before_idle r = []"

lemma endSend_resets: "no_late r \<Longrightarrow> \<exists>s' n. endSend r b s = Some s' \<and> i2c_line s' = i2c_line s @ replicate n Reset"
proof -
  assume l: "no_late r"
  let ?t = "if b \<or> T1IF r then resetI2C_registers s else s"
  let ?s' = "resetI2C_registers ((showError ?t)\<lparr>i2cState := I2CSTATE_IDLE\<rparr>)"
  have r: "\<exists>xs. i2c_line (resetI2C_registers u) = i2c_line u @ xs \<and> set xs \<subseteq> {Reset}" for u
    by (simp add: resetI2C_registers_def i2c_do_def)
  have "\<exists>xs. i2c_line (showError u) = i2c_line u @ xs \<and> set xs \<subseteq> {Reset}" for u
    by (simp add: showError_def Let_def resetI2C_registers_def i2c_do_def)
  then obtain xs where xs: "i2c_line (showError ?t) = i2c_line ?t @ xs" "set xs \<subseteq> {Reset}" by blast
  obtain ys where ys: "i2c_line ?t = i2c_line s @ ys" "set ys \<subseteq> {Reset}" using r [of s] by (cases "b \<or> T1IF r") auto
  obtain zs where zs: "i2c_line ?s' = i2c_line (showError ?t) @ zs" "set zs \<subseteq> {Reset}"
    using r [of "(showError ?t)\<lparr>i2cState := I2CSTATE_IDLE\<rparr>"] by auto
  have "set (ys @ xs @ zs) \<subseteq> {Reset}" using xs(2) ys(2) zs(2) by simp
  then have "ys @ xs @ zs = replicate (length (ys @ xs @ zs)) Reset" by (metis replicate_length_same singletonD subsetD)
  then have "i2c_line ?s' = i2c_line s @ replicate (length (ys @ xs @ zs)) Reset" using xs(1) ys(1) zs(1) by (metis append.assoc)
  moreover have "endSend r b s = Some ?s'" using l by (simp add: endSend_def no_late_def)
  ultimately show ?thesis by blast
qed

lemma sendSpeed_any:
  assumes "motor_ok s"
  obtains s' k stops ops where "sendSpeed r v s = Some s'" "i2c_line s' = i2c_line s @ Start # ops" "packet_ops v k stops ops"
    "motor_ok s'" "bus_side s' = bus_side s" "i2cState s' = I2CSTATE_IDLE"
    "no_late r \<longrightarrow> (\<exists>n. ops = map Transmit (take k (motor_packet v)) @ stops @ replicate n Reset)"
proof -
  let ?s = "StartI2C (preparePacket v s)"
  have "length (i2cBuf s) = 256" using assms by (simp add: motor_ok_def)
  then obtain b t k stops where t: "waitI2C (in_wait r) ?s = Some (b, t)" "sending (i2c_line s) v k stops t" "i2c_only ?s t" "grown ?s t"
    by (rule waitI2C_sends [OF started_sending])
  have ok: "motor_ok t" by (rule i2c_only_ok [OF t(3) preparePacket_ok [OF assms]])
  have side: "bus_side t = bus_side s"
    using bus_side_i2c [OF t(3)] by (simp add: bus_side_def StartI2C_def preparePacket_def i2c_do_def)
  obtain s' k' stops' ops where s': "endSend r b t = Some s'" "i2c_line s' = i2c_line s @ Start # ops" "packet_ops v k' stops' ops"
    "motor_ok s'" "bus_side s' = bus_side t" "i2cState s' = I2CSTATE_IDLE"
    by (rule endSend_sends [OF t(2) ok])
  have e: "sendSpeed r v s = Some s'" by (simp add: sendSpeed_def t(1) s'(1))
  show thesis
  proof (cases "no_late r")
    case False
    then show ?thesis using that [OF e s'(2-4)] s'(5,6) side by simp
  next
    case True
    obtain n where n: "i2c_line s' = i2c_line t @ replicate n Reset" using endSend_resets [OF True, of b t] s'(1) by auto
    obtain xs where xs: "i2c_line t = i2c_line s @ Start # xs" "Reset \<notin> set xs" "packet_ops v k stops xs"
      using t(2,4) by (auto simp: grown_def sending_def StartI2C_def preparePacket_def i2c_do_def)
    have "filter (\<lambda>x. x \<noteq> Reset) xs = xs" using xs(2) by (auto intro: filter_True)
    then have "xs = map Transmit (take k (motor_packet v)) @ stops" using xs(3) by (simp add: packet_ops_def)
    then have l: "ops = (map Transmit (take k (motor_packet v)) @ stops) @ replicate n Reset" using n xs(1) s'(2) by simp
    have "filter (\<lambda>x. x \<noteq> Reset) (replicate n Reset) = []" by (induction n) simp_all
    then have "packet_ops v k stops ops" using xs(3) \<open>xs = _\<close> l by (simp add: packet_ops_def)
    then show ?thesis using that [OF e s'(2) _ s'(4)] s'(5,6) side l by auto
  qed
qed

lemma waitI2C_step:
  "i2cState s \<noteq> I2CSTATE_IDLE \<and> i2cState s \<noteq> I2CSTATE_BORKED \<Longrightarrow> MI2CInterrupt r s = Some s' \<Longrightarrow> waitI2C (r # rs) s = waitI2C rs s'"
  by (simp add: waitI2C.simps [of "r # rs"])

lemma waitI2C_done: "i2cState s = I2CSTATE_IDLE \<Longrightarrow> waitI2C rs s = Some (False, s)"
  by (simp add: waitI2C.simps [of rs])

text \<open>An idle state machine ignores interrupts.\<close>

lemma interrupts_idle: "i2cState s = I2CSTATE_IDLE \<Longrightarrow> interrupts rs s = Some s"
  by (induction rs) (simp_all add: MI2CInterrupt_def)

lemma endSend_idle:
  assumes "i2cState s = I2CSTATE_IDLE"
  obtains s' where "endSend r False s = Some s'" "i2c_line s' = i2c_line s @ Reset # (if T1IF r then [Reset] else [])"
    "LAT_ERR s' \<longrightarrow> LAT_ERR s"
proof -
  let ?t = "if T1IF r then resetI2C_registers s else s"
  have i: "i2cState ?t = I2CSTATE_IDLE" using assms by (simp add: resetI2C_registers_def i2c_do_def)
  then have e: "i2cState (showError ?t) = I2CSTATE_IDLE" "i2c_line (showError ?t) = i2c_line ?t" "LAT_ERR (showError ?t) \<longrightarrow> LAT_ERR ?t"
    by (auto simp: showError_def Let_def I2CSTATE_defs split: if_splits)
  let ?s' = "resetI2C_registers ((showError ?t)\<lparr>i2cState := I2CSTATE_IDLE\<rparr>)"
  have "endSend r False s = Some ?s'" by (simp add: endSend_def interrupts_idle [OF assms] interrupts_idle [OF i] interrupts_idle [OF e(1)])
  then show thesis by (rule that) (use e(2,3) in \<open>auto simp: resetI2C_registers_def i2c_do_def split: if_splits\<close>)
qed

lemma sendSpeed_acked:
  assumes "motor_ok s" and "6 \<le> length (in_wait r)" and "\<forall>x\<in>set (in_wait r). wasAckI2C x \<and> IdleI2C x"
  obtains s' where "sendSpeed r v s = Some s'"
    "i2c_line s' = i2c_line s @ Start # map Transmit (motor_packet v) @ Stop_i2c # Reset # (if T1IF r then [Reset] else [])"
    "LAT_ERR s' \<longrightarrow> LAT_ERR s"
proof -
  define rs where "rs = in_wait r"
  note assms = assms(1) assms(2,3) [folded rs_def]
  obtain r1 r2 r3 r4 r5 r6 rest where rs: "rs = r1 # r2 # r3 # r4 # r5 # r6 # rest"
    using assms(2) by (auto simp: Suc_le_length_iff numeral_eq_Suc)
  let ?s0 = "StartI2C (preparePacket v s)"
  have len: "length (i2cBuf s) = 256" using assms(1) by (simp add: motor_ok_def)
  define tr :: "nat \<Rightarrow> motor \<Rightarrow> motor" where "tr k u = u\<lparr>i2cPtr := k, i2cState := I2CSTATE_TRANS, i2c_line := i2c_line s @ Start # map Transmit (take k (motor_packet v))\<rparr>" for k u
  have i: "MI2CInterrupt r ?s0 = Some (tr 1 ?s0)" for r
    using len by (simp add: MI2CInterrupt_def tr_def StartI2C_def preparePacket_def i2c_do_def WriteI2C_def I2CSTATE_defs motor_packet_def)
  have n: "MI2CInterrupt r (tr k ?s0) = Some (tr (Suc k) ?s0)" if "r \<in> set rs" "k \<in> {1, 2, 3}" for r k
    using that len assms(3)
    by (auto simp: MI2CInterrupt_def tr_def StartI2C_def preparePacket_def i2c_do_def WriteI2C_def I2CSTATE_defs motor_packet_def numeral_eq_Suc)
  have f: "MI2CInterrupt r (tr 4 ?s0) = Some (StopI2C (tr 4 ?s0))" if "r \<in> set rs" for r
    using that assms(3) by (simp add: MI2CInterrupt_def tr_def StartI2C_def preparePacket_def i2c_do_def I2CSTATE_defs)
  have st: "i2cState ?s0 = I2CSTATE_START" "i2cState (tr k ?s0) = I2CSTATE_TRANS" "i2cState (StopI2C u) = I2CSTATE_STOP" for k u
    by (simp_all add: tr_def StartI2C_def StopI2C_def i2c_do_def)
  have stop: "MI2CInterrupt r (StopI2C u) = Some ((StopI2C u)\<lparr>i2cState := I2CSTATE_IDLE\<rparr>)" for r u
    by (simp add: MI2CInterrupt_def StopI2C_def i2c_do_def I2CSTATE_defs)
  have r: "{r1, r2, r3, r4, r5, r6} \<subseteq> set rs" by (auto simp: rs)
  have "waitI2C rs ?s0 = waitI2C (r2 # r3 # r4 # r5 # r6 # rest) (tr 1 ?s0)"
    unfolding rs by (rule waitI2C_step [OF _ i]) (simp add: st I2CSTATE_defs)
  also have "\<dots> = waitI2C (r3 # r4 # r5 # r6 # rest) (tr (Suc 1) ?s0)"
    by (rule waitI2C_step [OF _ n]) (use r in \<open>auto simp: st I2CSTATE_defs\<close>)
  also have "\<dots> = waitI2C (r4 # r5 # r6 # rest) (tr (Suc (Suc 1)) ?s0)"
    by (rule waitI2C_step [OF _ n]) (use r in \<open>auto simp: st I2CSTATE_defs\<close>)
  also have "\<dots> = waitI2C (r5 # r6 # rest) (tr (Suc (Suc (Suc 1))) ?s0)"
    by (rule waitI2C_step [OF _ n]) (use r in \<open>auto simp: st I2CSTATE_defs\<close>)
  also have "Suc (Suc (Suc 1)) = 4" by simp
  also have "waitI2C (r5 # r6 # rest) (tr 4 ?s0) = waitI2C (r6 # rest) (StopI2C (tr 4 ?s0))"
    by (rule waitI2C_step [OF _ f]) (use r in \<open>auto simp: st I2CSTATE_defs\<close>)
  also have "\<dots> = waitI2C rest ((StopI2C (tr 4 ?s0))\<lparr>i2cState := I2CSTATE_IDLE\<rparr>)"
    by (rule waitI2C_step [OF _ stop]) (simp add: st I2CSTATE_defs)
  also have "\<dots> = Some (False, (StopI2C (tr 4 ?s0))\<lparr>i2cState := I2CSTATE_IDLE\<rparr>)" by (rule waitI2C_done) simp
  finally have w: "sendSpeed r v s = endSend r False ((StopI2C (tr 4 ?s0))\<lparr>i2cState := I2CSTATE_IDLE\<rparr>)"
    by (simp add: sendSpeed_def rs_def)
  have "i2cState ((StopI2C (tr 4 ?s0))\<lparr>i2cState := I2CSTATE_IDLE\<rparr>) = I2CSTATE_IDLE" by simp
  then show thesis
    by (rule endSend_idle [of _ r])
      (rule that, auto simp: w i2c_do_def StopI2C_def tr_def motor_packet_def StartI2C_def preparePacket_def)
qed

text \<open>
  Property C22.  A speed on its way to a motor controller, whatever the interrupts report and whenever they come, before
  or after the wait has ended: the line gets a start, a beginning of the packet with address, speed, \<^verbatim>\<open>0x64\<close> and checksum,
  and after it at most one stop; what else is done to the I2C hardware are resets, which come last if no interrupt comes
  late.  The board goes on with the next motor, and its other state is untouched.  If every byte is acknowledged and the
  six interrupts come before the timer, the packet is whole and no error is shown.
\<close>

theorem motor_packet_sent:
  assumes "motor_ok s"
  shows "\<exists>s' k stops ops. sendSpeed r v s = Some s' \<and> i2c_line s' = i2c_line s @ Start # ops
    \<and> k \<le> 4 \<and> stops \<in> {[], [Stop_i2c]} \<and> filter (\<lambda>x. x \<noteq> Reset) ops = map Transmit (take k (motor_packet v)) @ stops
    \<and> (no_late r \<longrightarrow> (\<exists>n. ops = map Transmit (take k (motor_packet v)) @ stops @ replicate n Reset))
    \<and> i2cState s' = I2CSTATE_IDLE \<and> bus_side s' = bus_side s
    \<and> (6 \<le> length (in_wait r) \<and> (\<forall>x\<in>set (in_wait r). wasAckI2C x \<and> IdleI2C x) \<longrightarrow>
         ops = map Transmit (motor_packet v) @ Stop_i2c # Reset # (if T1IF r then [Reset] else []) \<and> (LAT_ERR s' \<longrightarrow> LAT_ERR s))"
proof -
  obtain s' k stops ops where s': "sendSpeed r v s = Some s'" "i2c_line s' = i2c_line s @ Start # ops" "packet_ops v k stops ops"
    "bus_side s' = bus_side s" "i2cState s' = I2CSTATE_IDLE"
    "no_late r \<longrightarrow> (\<exists>n. ops = map Transmit (take k (motor_packet v)) @ stops @ replicate n Reset)"
    by (rule sendSpeed_any [OF assms])
  have "ops = map Transmit (motor_packet v) @ Stop_i2c # Reset # (if T1IF r then [Reset] else []) \<and> (LAT_ERR s' \<longrightarrow> LAT_ERR s)"
    if acked: "6 \<le> length (in_wait r)" "\<forall>x\<in>set (in_wait r). wasAckI2C x \<and> IdleI2C x"
  proof -
    obtain t where "sendSpeed r v s = Some t"
      "i2c_line t = i2c_line s @ Start # map Transmit (motor_packet v) @ Stop_i2c # Reset # (if T1IF r then [Reset] else [])"
      "LAT_ERR t \<longrightarrow> LAT_ERR s"
      by (rule sendSpeed_acked [OF assms acked])
    then show ?thesis using s'(1,2) by simp
  qed
  then show ?thesis
    by (rule_tac x = s' in exI, rule_tac x = k in exI, rule_tac x = stops in exI, rule_tac x = ops in exI)
      (use s' in \<open>simp add: packet_ops_def\<close>)
qed

abbreviation prompt_send :: send_in where
  "prompt_send \<equiv> \<lparr>in_wait = replicate 6 \<lparr>wasAckI2C = True, IdleI2C = True, I2CRCV = 0\<rparr>, T1IF = False, after_wait = [],
     after_timer = [], before_idle = []\<rparr>"

theorem motor_packet_sent_witness:
  "\<exists>s'. sendSpeed prompt_send 0x90 (motor_start 0) = Some s'
     \<and> i2c_line s' = [Start, Transmit 0x52, Transmit 0x90, Transmit 0x64, Transmit 0x46, Stop_i2c, Reset]"
proof -
  have m: "motor_packet 0x90 = [0x52, 0x90, 0x64, 0x46]" by (simp add: motor_packet_def)
  have "i2c_line (motor_start 0) = []" by (simp add: motor_start_def)
  then show ?thesis
    unfolding m [symmetric] using motor_packet_sent [OF motor_start_ok [of 0], where r = prompt_send and v = "0x90"]
    by (auto simp: m)
qed

section \<open>A round of the loop\<close>

text \<open>
  Traffic on the I2C bus that consists of packets, whole or broken off, each to one of the seven motor controllers and
  with a speed in its range.
\<close>

inductive traffic :: "i2c_op list \<Rightarrow> bool" where
  traffic_Nil: "traffic []"
| traffic_send: "traffic L \<Longrightarrow> i < 7 \<Longrightarrow> 0x19 \<le> v \<Longrightarrow> v \<le> 0xE6 \<Longrightarrow> packet_ops v k stops ops \<Longrightarrow>
    traffic (L @ Select i # Start # ops)"

definition in_use :: "motor \<Rightarrow> bool" where
  "in_use s \<longleftrightarrow> motor_ok s \<and> traffic (i2c_line s)"

lemma motor_processData_line: "motor_processData b s = Some s' \<Longrightarrow> i2c_line s' = i2c_line s"
  using same_but_speeds_fields(9) [OF writeSpeeds_same [of "storeParam b (s\<lparr>m_txPtr := 0\<rparr>)" "[0..<6]"]]
  by (auto simp: motor_processData_def motor_command_def forwardCmd_def Let_def kill_motors_def storeParam_def split: if_splits)

lemma in_use_byte: "in_use s \<Longrightarrow> motor_processData b s = Some s' \<Longrightarrow> in_use s'"
  using motor_processData_line [of b s s'] motor_processData_ok [of s b s'] by (simp add: in_use_def)

lemma in_use_bytes: "in_use s \<Longrightarrow> process_all motor_chip bs s = Some s' \<Longrightarrow> in_use s'"
  by (induction bs arbitrary: s) (auto split: option.splits intro: in_use_byte)

lemma in_use_send:
  assumes "in_use s" and "safe_speed v" and "i < 7" and "sendSpeed r v (i2c_do (Select i) s) = Some s'"
  shows "in_use s'" and "uartBufSize s' = uartBufSize s"
proof -
  have "motor_ok (i2c_do (Select i) s)" using assms(1) by (simp add: in_use_def i2c_do_def)
  then obtain k stops ops where o: "i2c_line s' = i2c_line (i2c_do (Select i) s) @ Start # ops" "packet_ops v k stops ops" "motor_ok s'"
    "bus_side s' = bus_side (i2c_do (Select i) s)"
    using assms(4) by (rule_tac sendSpeed_any [of "i2c_do (Select i) s" r v]) auto
  have "i2c_line s' = i2c_line s @ Select i # Start # ops" using o(1) by (simp add: i2c_do_def)
  moreover have "0x19 \<le> v" "v \<le> 0xE6" using assms(2) by (simp_all add: safe_speed_def)
  ultimately show "in_use s'" using assms(1,3) o(2,3) traffic_send by (simp add: in_use_def)
  show "uartBufSize s' = uartBufSize s" using o(4) by (simp add: bus_side_def i2c_do_def)
qed

text \<open>How many bytes the commands among \<open>bs\<close> that are for the pneumatics board would put into the buffer, if all were commands.\<close>

definition to_forward :: "byte list \<Rightarrow> nat" where
  "to_forward bs = 4 * length (filter (\<lambda>b. b \<in> set forwarded) bs)"

lemma to_forward_simps [simp]:
  "to_forward [] = 0" "to_forward (b # bs) = (if b \<in> set forwarded then 4 else 0) + to_forward bs"
  "to_forward (bs @ cs) = to_forward bs + to_forward cs"
  by (simp_all add: to_forward_def)

lemma processData_size:
  assumes "motor_processData b s = Some s'"
  shows "uartBufSize s' \<le> uartBufSize s + to_forward [b]"
proof -
  have "uartBufSize (writeSpeeds [0..<6] t) = uartBufSize t" for t
    using same_but_speeds_fields [OF writeSpeeds_same [of t "[0..<6]"]] by simp
  then show ?thesis
    using assms
    by (auto simp: motor_processData_def motor_command_def forwardCmd_def Let_def kill_motors_def storeParam_def split: if_splits)
qed

lemma process_all_size:
  assumes "in_use s"
  shows "case process_all motor_chip bs s of None \<Rightarrow> 64 < uartBufSize s + to_forward bs
    | Some s' \<Rightarrow> uartBufSize s' \<le> uartBufSize s + to_forward bs"
  using assms
proof (induction bs arbitrary: s)
  case (Cons b bs)
  show ?case
  proof (cases "motor_processData b s")
    case None
    then have "b \<in> set forwarded" "uartBufSize s > 60" using motor_processData_None [of s b] Cons.prems by (auto simp: in_use_def)
    then show ?thesis using None by simp
  next
    case (Some t)
    have "in_use t" by (rule in_use_byte [OF Cons.prems Some])
    then show ?thesis using Cons.IH [of t] processData_size [OF Some] Some by (auto split: option.splits)
  qed
qed simp

lemma sends_run:
  assumes "in_use s" and "list_all safe_speed speeds" and "length speeds = 7" and "\<forall>i\<in>set is. i < 7"
  shows "case sendSpeeds r speeds is s of None \<Rightarrow> 64 < uartBufSize s + to_forward (concat (map (before_motor r) is))
    | Some s' \<Rightarrow> in_use s'"
  using assms(1,4)
proof (induction "is" arbitrary: s)
  case (Cons i "is")
  note bytes = process_all_size [OF Cons.prems(1), of "before_motor r i"]
  show ?case
  proof (cases "process_all motor_chip (before_motor r i) s")
    case None
    then show ?thesis using bytes by simp
  next
    case (Some t)
    have t: "in_use t" by (rule in_use_bytes [OF Cons.prems(1) Some])
    have "motor_ok (i2c_do (Select i) t)" using t by (simp add: in_use_def i2c_do_def)
    then obtain u where u: "sendSpeed (i2c_ints r i) (speeds ! i) (i2c_do (Select i) t) = Some u" by (rule sendSpeed_any)
    have v: "safe_speed (speeds ! i)" "i < 7" using Cons.prems(2) assms(2,3) by (simp_all add: list_all_length)
    note k = in_use_send [OF t v u]
    have "\<forall>i\<in>set is. i < 7" using Cons.prems(2) by simp
    then show ?thesis using Cons.IH [OF k(1)] k(2) bytes Some u by (auto split: option.splits)
  qed
qed simp

lemma in_use_update:
  "in_use (s\<lparr>uart_line := l\<rparr>) = in_use s" "in_use (s\<lparr>sent_start := e\<rparr>) = in_use s" "in_use (s\<lparr>LAT_WAH_INH := e\<rparr>) = in_use s"
  "in_use (s\<lparr>LAT_MRKR1 := e\<rparr>) = in_use s" "in_use (s\<lparr>LAT_MRKR2 := e\<rparr>) = in_use s"
  by (simp_all add: in_use_def)

lemma pump_run:
  assumes "in_use s"
  shows "case pump full mid s of None \<Rightarrow> 64 < uartBufSize s + to_forward mid
    | Some s' \<Rightarrow> in_use s' \<and> uartBufSize s' \<le> uartBufSize s + to_forward mid"
proof (cases "\<not> full \<and> uartBufPos s < uartBufSize s")
  case False
  then show ?thesis using assms by (auto simp: pump_def)
next
  case True
  define t where "t = (if \<not> sent_start s
      then (writeUart 0xEF (writeUart 0xBE (writeUart 0xAF (writeUart 0xDE s))))\<lparr>sent_start := True\<rparr> else s)"
  define u where "u = (writeUart (uartBuf t ! uartBufPos t) t)\<lparr>uartBufPos := uartBufPos t + 1\<rparr>"
  have t: "in_use t" "uartBufPos t = uartBufPos s" "uartBufSize t = uartBufSize s"
    using assms(1) by (simp_all add: t_def writeUart_def in_use_update)
  then have u: "in_use u" "uartBufSize u = uartBufSize s" using True by (simp_all add: u_def writeUart_def in_use_def motor_ok_def)
  have p: "pump full mid s = (if uartBufPos u = uartBufSize u
      then (case process_all motor_chip mid u of None \<Rightarrow> None | Some v \<Rightarrow> Some (v\<lparr>uartBufPos := 0, uartBufSize := 0\<rparr>)) else Some u)"
    using True by (auto simp: pump_def Let_def t_def u_def split: option.splits)
  have "in_use (v\<lparr>uartBufPos := 0, uartBufSize := 0\<rparr>)" if "process_all motor_chip mid u = Some v" for v
    using in_use_bytes [OF u(1) that] by (simp add: in_use_def motor_ok_def)
  then show ?thesis
    using p u process_all_size [OF u(1), of mid] by (auto split: option.splits)
qed

lemma round_run:
  assumes "in_use s"
  shows "case motor_round r s of None \<Rightarrow> 64 < uartBufSize s + to_forward (in_pump r @ concat (map (before_motor r) [0..<7]))
    | Some s' \<Rightarrow> in_use s'"
proof (cases "pump (UTXBF r) (in_pump r) s")
  case None
  then show ?thesis using pump_run [OF assms, where full = "UTXBF r" and mid = "in_pump r"] by (simp add: motor_round_def)
next
  case (Some t)
  let ?u = "if T3IF r then t\<lparr>LAT_MRKR1 := True, LAT_MRKR2 := True, LAT_WAH_INH := False\<rparr> else t"
  have t: "in_use ?u" "uartBufSize ?u \<le> uartBufSize s + to_forward (in_pump r)"
    using pump_run [OF assms, where full = "UTXBF r" and mid = "in_pump r"] Some by (simp_all add: in_use_update)
  have l: "list_all safe_speed (motorSpeed s)" "length (motorSpeed s) = 7" using assms by (simp_all add: in_use_def motor_ok_def)
  have m: "motor_round r s = sendSpeeds r (motorSpeed s) [0..<7] ?u" using Some by (simp add: motor_round_def Let_def)
  have "\<forall>i\<in>set [0..<7]. i < 7" by simp
  note u = sends_run [OF t(1) l this, of r, folded m]
  show ?thesis
  proof (cases "motor_round r s")
    case None
    then have "64 < uartBufSize ?u + to_forward (concat (map (before_motor r) [0..<7]))" using u by simp
    then show ?thesis unfolding None to_forward_simps(3) option.case using t(2) by linarith
  next
    case (Some s')
    then show ?thesis using u by simp
  qed
qed

lemma in_use_round: "in_use s \<Longrightarrow> motor_round r s = Some s' \<Longrightarrow> in_use s'"
  using round_run [of s r] by simp

text \<open>The life of the board: bytes of the bus and rounds of its loop.\<close>

datatype motor_event = Bus byte | Round round_in

fun motor_run :: "motor_event list \<Rightarrow> motor \<Rightarrow> motor option" where
  "motor_run [] s = Some s"
| "motor_run (Bus b # es) s = (case motor_processData b s of None \<Rightarrow> None | Some s \<Rightarrow> motor_run es s)"
| "motor_run (Round r # es) s = (case motor_round r s of None \<Rightarrow> None | Some s \<Rightarrow> motor_run es s)"

lemma in_use_run: "in_use s \<Longrightarrow> motor_run es s = Some s' \<Longrightarrow> in_use s'"
  by (induction es s rule: motor_run.induct)
     (auto split: option.splits intro: in_use_round in_use_byte)

text \<open>
  Property C23.  Whatever bytes come over the bus, in whatever order and between whichever steps of the
  loop, and whatever the I2C hardware reports and whenever: no motor is ever told a speed out of its range, neither
  in the table of speeds nor on the I2C line, where each packet goes to one of the seven controllers.  A byte of the
  bus makes the board leave an array if and only if it is a pneumatic command when more than 60 of the 64 bytes of the
  buffer for the pneumatics board are waiting; a round of the loop, with its I2C interrupts, does so only if the
  pneumatic commands that come during the round are too many for what is left of that buffer.
\<close>

theorem motor_speeds_safe:
  assumes "motor_run es (motor_start e) = Some s"
  shows "length (motorSpeed s) = 7 \<and> (\<forall>i<7. 0x19 \<le> motorSpeed s ! i \<and> motorSpeed s ! i \<le> 0xE6) \<and> traffic (i2c_line s)
    \<and> (motor_processData b s = None \<longleftrightarrow> m_busState s = M_STATE_TOP_LEVEL \<and> b \<in> set forwarded \<and> uartBufSize s > 60)
    \<and> (motor_round r s = None \<longrightarrow>
         64 < uartBufSize s + 4 * length (filter (\<lambda>b. b \<in> set forwarded) (in_pump r @ concat (map (before_motor r) [0..<7]))))"
proof -
  have "in_use (motor_start e)"
    by (simp add: in_use_def motor_start_ok) (simp add: motor_start_def traffic_Nil)
  then have s: "in_use s" by (rule in_use_run [OF _ assms])
  have "64 < uartBufSize s + 4 * length (filter (\<lambda>b. b \<in> set forwarded) (in_pump r @ concat (map (before_motor r) [0..<7])))"
    if "motor_round r s = None"
    using round_run [OF s, of r] unfolding that to_forward_def by (simp del: upt_rec_numeral)
  then show ?thesis
    using s motor_processData_None [of s b] by (simp add: in_use_def motor_ok_def list_all_length safe_speed_def del: upt_rec_numeral)
qed

theorem motor_speeds_safe_witness:
  "traffic (i2c_line (the (motor_run [Bus BUS_CMD_SET_DERPY, Bus 0xE7] (motor_start 0))))"
proof -
  let ?s = "(motor_start 0)\<lparr>m_txPtr := 0, m_nParam := 0, m_busState := STATE_SET_DERPY\<rparr>"
  have a: "motor_processData BUS_CMD_SET_DERPY (motor_start 0) = Some ?s"
    by (simp add: motor_processData_def motor_command_def motor_start_def forwarded_def codes)
  have b: "motor_processData 0xE7 ?s = Some ((kill_motors (?s\<lparr>m_txPtr := 0\<rparr>))\<lparr>m_busState := M_STATE_TOP_LEVEL\<rparr>)"
    by (simp add: motor_processData_def M_STATE_defs bad_speed_def Let_def)
  obtain s where s: "motor_run [Bus BUS_CMD_SET_DERPY, Bus 0xE7] (motor_start 0) = Some s" by (simp add: a b del: motor_start_def)
  then show ?thesis using motor_speeds_safe [OF s] by simp
qed

end
