(* ===== verification/Pneumatics.thy ===== *)
theory Pneumatics
  imports BusCodes
begin

text \<open>
  The board that switches the valves of the torpedoes, the grabber and the marker droppers,
  \<^verbatim>\<open>sbr9/pneumatics_control.c\<close>.  Packets of four bytes come over a serial line from the motor board.
  They put commands for pairs of valves into a table with a count of 20 ms steps; a timer interrupt
  counts down and switches the valves.
\<close>

section \<open>State\<close>

datatype PairCommand = PCMD_FILL | PCMD_VOID | PCMD_OFF

record CmdEnt =
  ent_count :: int
  ent_cmd :: PairCommand
  ent_pair :: byte

definition CMDCOUNT :: nat where "CMDCOUNT = 48"
definition VALIDBITS :: nat where "VALIDBITS = CMDCOUNT div 16"

lemma table_size [simp]: "VALIDBITS = 3" "CMDCOUNT = 48"
  by (simp_all add: VALIDBITS_def CMDCOUNT_def)

text \<open>
  \<open>FILL_PAIR n\<close> and \<open>VOID_PAIR n\<close> are the relays \<^verbatim>\<open>FILL_PAIR_0\<close> to \<^verbatim>\<open>FILL_PAIR_11\<close> and \<^verbatim>\<open>VOID_PAIR_0\<close> to
  \<^verbatim>\<open>VOID_PAIR_11\<close>; \<open>said\<close> are the bytes written to the serial line.  \<open>syncs\<close> and \<open>buff\<close> say where \<^verbatim>\<open>main\<close> waits
  for the next byte: the bytes of the start sequence it has seen, and those of a packet.
\<close>

record pneu =
  cmds :: "CmdEnt list"
  cmdValid :: "word16 list"
  FILL_PAIR :: "nat \<Rightarrow> bool"
  VOID_PAIR :: "nat \<Rightarrow> bool"
  marker1_ext :: bool
  marker2_ext :: bool
  said :: "byte list"
  syncs :: nat
  buff :: "byte list"

definition say :: "string \<Rightarrow> pneu \<Rightarrow> pneu" where
  "say str s = s\<lparr>said := said s @ map of_char str\<rparr>"

section \<open>Valves\<close>

text \<open>\<^verbatim>\<open>if(FILL_PAIR_n == RELAY_ON) FILL_PAIR_n = RELAY_OFF; VOID_PAIR_n = RELAY_ON;\<close> for the pairs 0 to 11.\<close>

definition voidPair :: "byte \<Rightarrow> pneu \<Rightarrow> pneu" where
  "voidPair pair s =
     (if pair \<le> 11
      then let s = (if FILL_PAIR s (unat pair) then s\<lparr>FILL_PAIR := (FILL_PAIR s)(unat pair := False)\<rparr> else s)
           in s\<lparr>VOID_PAIR := (VOID_PAIR s)(unat pair := True)\<rparr>
      else s)"

definition fillPair :: "byte \<Rightarrow> pneu \<Rightarrow> pneu" where
  "fillPair pair s =
     (if pair \<le> 11
      then let s = (if VOID_PAIR s (unat pair) then s\<lparr>VOID_PAIR := (VOID_PAIR s)(unat pair := False)\<rparr> else s)
           in s\<lparr>FILL_PAIR := (FILL_PAIR s)(unat pair := True)\<rparr>
      else s)"

definition turnOff :: "byte \<Rightarrow> pneu \<Rightarrow> pneu" where
  "turnOff pair s =
     (if pair \<le> 11
      then s\<lparr>VOID_PAIR := (VOID_PAIR s)(unat pair := False), FILL_PAIR := (FILL_PAIR s)(unat pair := False)\<rparr>
      else s)"

definition handleCmd :: "PairCommand \<Rightarrow> byte \<Rightarrow> pneu \<Rightarrow> pneu" where
  "handleCmd cmd pair s =
     (case cmd of PCMD_FILL \<Rightarrow> fillPair pair s | PCMD_VOID \<Rightarrow> voidPair pair s | PCMD_OFF \<Rightarrow> turnOff pair s)"

definition voidAll :: "pneu \<Rightarrow> pneu" where
  "voidAll s = fold voidPair (map of_nat [0..<12]) (s\<lparr>cmdValid := replicate VALIDBITS 0\<rparr>)"

definition offAll :: "pneu \<Rightarrow> pneu" where
  "offAll s = fold turnOff (map of_nat [0..<12]) (s\<lparr>cmdValid := replicate VALIDBITS 0\<rparr>)"

section \<open>The table of commands\<close>

text \<open>The body of the inner loop of the interrupt, for the mask \<^verbatim>\<open>curf\<close> with bit \<open>k\<close>.\<close>

definition countDown :: "nat \<Rightarrow> nat \<Rightarrow> pneu \<Rightarrow> pneu" where
  "countDown i k s =
     (let curf = push_bit k 1; j = i * 16 + k in
      if cmdValid s ! i AND curf \<noteq> 0
      then let s = s\<lparr>cmds := (cmds s)[j := (cmds s ! j)\<lparr>ent_count := ent_count (cmds s ! j) - 1\<rparr>]\<rparr>
           in if ent_count (cmds s ! j) \<le> 0
              then let s = handleCmd (ent_cmd (cmds s ! j)) (ent_pair (cmds s ! j)) s
                   in s\<lparr>cmdValid := (cmdValid s)[i := cmdValid s ! i AND NOT curf]\<rparr>
              else s
      else s)"

definition pneu_T1Interrupt :: "pneu \<Rightarrow> pneu" where
  "pneu_T1Interrupt s =
     fold (\<lambda>i s. if cmdValid s ! i = 0 then s else fold (countDown i) [0..<16] s) [0..<VALIDBITS] s"

text \<open>
  \<^verbatim>\<open>addCmd\<close>: commands for the pair that would come no earlier are taken out, and the first free place
  is looked for.  The inner loop, over the bits \<open>k\<close> of one word of the mask, stops early.
\<close>

fun scanWord :: "byte \<Rightarrow> int \<Rightarrow> nat \<Rightarrow> nat list \<Rightarrow> nat option \<times> pneu \<Rightarrow> nat option \<times> pneu" where
  "scanWord pair c i [] (firstInv, s) = (firstInv, s)"
| "scanWord pair c i (k # ks) (firstInv, s) =
     (let curf = push_bit k 1; j = 16 * i + k in
      if firstInv = None \<or> cmdValid s ! i AND NOT (curf - 1) \<noteq> 0
      then let s = (if cmdValid s ! i AND curf \<noteq> 0 \<and> ent_pair (cmds s ! j) = pair \<and> ent_count (cmds s ! j) \<ge> c
                    then s\<lparr>cmdValid := (cmdValid s)[i := cmdValid s ! i AND NOT curf]\<rparr> else s);
               firstInv = (if firstInv = None \<and> cmdValid s ! i AND curf = 0 then Some j else firstInv)
           in scanWord pair c i ks (firstInv, s)
      else (firstInv, s))"

definition scanTable :: "byte \<Rightarrow> int \<Rightarrow> pneu \<Rightarrow> nat option \<times> pneu" where
  "scanTable pair c s =
     fold (\<lambda>i (firstInv, s). if cmdValid s ! i = 0 \<and> firstInv \<noteq> None then (firstInv, s)
                            else scanWord pair c i [0..<16] (firstInv, s)) [0..<VALIDBITS] (None, s)"

definition addCmd :: "PairCommand \<Rightarrow> byte \<Rightarrow> int \<Rightarrow> pneu \<Rightarrow> pneu" where
  "addCmd cmd pair c s =
     (case scanTable pair c s of
        (None, s) \<Rightarrow> say ''NSPC'' s
      | (Some firstInv, s) \<Rightarrow>
          let s = s\<lparr>cmds := (cmds s)[firstInv := \<lparr>ent_count = c, ent_cmd = cmd, ent_pair = pair\<rparr>]\<rparr>;
              i = firstInv div 16; j = firstInv mod 16
          in s\<lparr>cmdValid := (cmdValid s)[i := cmdValid s ! i OR push_bit j 1]\<rparr>)"

section \<open>Pistons\<close>

definition PIST_EXT :: "byte list" where "PIST_EXT = [2, 3, 4, 5, 8, 9]"
definition PIST_RET :: "byte list" where "PIST_RET = [0, 1, 6, 7, 10, 11]"

definition GRABBER_1_PIST :: nat where "GRABBER_1_PIST = 0"
definition GRABBER_2_PIST :: nat where "GRABBER_2_PIST = 1"
definition MARKER_1_PIST :: nat where "MARKER_1_PIST = 2"
definition MARKER_2_PIST :: nat where "MARKER_2_PIST = 3"
definition TORP_1_PIST :: nat where "TORP_1_PIST = 4"
definition TORP_2_PIST :: nat where "TORP_2_PIST = 5"

lemmas pistons = PIST_EXT_def PIST_RET_def GRABBER_1_PIST_def GRABBER_2_PIST_def MARKER_1_PIST_def
  MARKER_2_PIST_def TORP_1_PIST_def TORP_2_PIST_def

text \<open>What the two functions share: \<open>first\<close> is voided while \<open>second\<close> is filled, and filled again at the end.\<close>

definition movePiston :: "byte \<Rightarrow> byte \<Rightarrow> pneu \<Rightarrow> pneu" where
  "movePiston first second s =
     (let s = addCmd PCMD_VOID first 1 s;
          s = addCmd PCMD_FILL second 2 s;
          s = addCmd PCMD_OFF second 500 s;
          s = addCmd PCMD_FILL first 501 s
      in addCmd PCMD_OFF first 551 s)"

definition extendPiston :: "nat \<Rightarrow> pneu \<Rightarrow> pneu" where
  "extendPiston piston s =
     (if piston < length PIST_EXT then movePiston (PIST_RET ! piston) (PIST_EXT ! piston) s else s)"

definition retractPiston :: "nat \<Rightarrow> pneu \<Rightarrow> pneu" where
  "retractPiston piston s =
     (if piston < length PIST_EXT then movePiston (PIST_EXT ! piston) (PIST_RET ! piston) s else s)"

section \<open>Packets\<close>

text \<open>A packet of the vehicle: \<^verbatim>\<open>BC\<close> and the code of a command of the bus.\<close>

definition busCommand :: "byte \<Rightarrow> pneu \<Rightarrow> pneu" where
  "busCommand c s =
     (if c = BUS_CMD_FIRE_TORP_1 then retractPiston TORP_1_PIST s
      else if c = BUS_CMD_FIRE_TORP_2 then retractPiston TORP_2_PIST s
      else if c = BUS_CMD_VOID_TORP_1
      then addCmd PCMD_VOID (PIST_RET ! TORP_1_PIST) 1 (addCmd PCMD_VOID (PIST_EXT ! TORP_1_PIST) 1 s)
      else if c = BUS_CMD_VOID_TORP_2
      then addCmd PCMD_VOID (PIST_RET ! TORP_2_PIST) 1 (addCmd PCMD_VOID (PIST_EXT ! TORP_2_PIST) 1 s)
      else if c = BUS_CMD_ARM_TORP_1 then extendPiston TORP_1_PIST s
      else if c = BUS_CMD_ARM_TORP_2 then extendPiston TORP_2_PIST s
      else if c = BUS_CMD_EXT_GRABBER then extendPiston GRABBER_2_PIST (extendPiston GRABBER_1_PIST s)
      else if c = BUS_CMD_RET_GRABBER then retractPiston GRABBER_2_PIST (retractPiston GRABBER_1_PIST s)
      else if c = BUS_CMD_VOID_GRABBER
      then let s = addCmd PCMD_VOID (PIST_EXT ! GRABBER_1_PIST) 1 s;
               s = addCmd PCMD_VOID (PIST_RET ! GRABBER_1_PIST) 1 s;
               s = addCmd PCMD_VOID (PIST_EXT ! GRABBER_2_PIST) 1 s
           in addCmd PCMD_VOID (PIST_RET ! GRABBER_2_PIST) 1 s
      else if c = BUS_CMD_MARKER1
      then let s = (if marker1_ext s then retractPiston MARKER_1_PIST s else extendPiston MARKER_1_PIST s)
           in s\<lparr>marker1_ext := \<not> marker1_ext s\<rparr>
      else if c = BUS_CMD_MARKER2
      then let s = (if marker2_ext s then retractPiston MARKER_2_PIST s else extendPiston MARKER_2_PIST s)
           in s\<lparr>marker2_ext := \<not> marker2_ext s\<rparr>
      else if c = BUS_CMD_VOID_PNEU then voidAll s
      else if c = BUS_CMD_OFF_PNEU then offAll s
      else say ''NPAR'' s)"

definition packet :: "byte list \<Rightarrow> pneu \<Rightarrow> pneu" where
  "packet b s =
     (if b ! 3 \<noteq> b ! 0 + b ! 1 + b ! 2 then say ''NCHK'' s
      else let s = say ''K'' s; c = b ! 2 in
           if take 3 b = map of_char ''VA!'' then voidAll s
           else if take 2 b = map of_char ''VO'' then if c > 11 then say ''NPAR'' s else addCmd PCMD_VOID c 1 s
           else if take 2 b = map of_char ''FL'' then if c > 11 then say ''NPAR'' s else addCmd PCMD_FILL c 1 s
           else if take 2 b = map of_char ''EX'' then if c > 5 then say ''NPAR'' s else extendPiston (unat c) s
           else if take 2 b = map of_char ''RT'' then if c > 5 then say ''NPAR'' s else retractPiston (unat c) s
           else if take 2 b = map of_char ''TO'' then if c > 11 then say ''NPAR'' s else addCmd PCMD_OFF c 1 s
           else if take 3 b = map of_char ''OFF'' then offAll s
           else if take 2 b = map of_char ''BC'' then busCommand c s
           else say ''NCMD'' s)"

text \<open>The start sequence: a byte that does not fit throws \<^verbatim>\<open>main\<close> back to the first one.\<close>

definition syncByte :: "byte \<Rightarrow> pneu \<Rightarrow> pneu" where
  "syncByte b s =
     (let k = syncs s;
          s = (if k = 0 then say [CHR ''G'', CHR 0x0A] s else s)
      in if b \<noteq> [0xDE, 0xAF, 0xBE, 0xEF] ! k then s\<lparr>syncs := 0\<rparr>
         else let s = say ([''DE'', ''AF'', ''BE'', ''EF''] ! k) s;
                  s = s\<lparr>syncs := k + 1\<rparr>
              in if syncs s = 4 then say ''K'' s else s)"

text \<open>One byte that \<^verbatim>\<open>main\<close> takes from the serial line.\<close>

definition pneu_byte :: "byte \<Rightarrow> pneu \<Rightarrow> pneu" where
  "pneu_byte b s =
     (if syncs s < 4 then syncByte b s
      else let s = s\<lparr>buff := buff s @ [b]\<rparr>
           in if length (buff s) = 4 then packet (buff s) (s\<lparr>buff := []\<rparr>) else s)"

text \<open>\<^verbatim>\<open>main\<close> up to the first wait.  The table itself is not initialised: \<open>old\<close>.\<close>

definition pneu_start :: "CmdEnt list \<Rightarrow> pneu" where
  "pneu_start old =
     \<lparr>cmds = old, cmdValid = replicate VALIDBITS 0, FILL_PAIR = (\<lambda>n. False), VOID_PAIR = (\<lambda>n. False),
      marker1_ext = True, marker2_ext = True, said = map of_char ''PNEU'', syncs = 0, buff = []\<rparr>"

text \<open>What happens to the board: a byte arrives, or the timer strikes.\<close>

datatype pneu_event = Rx byte | Tick

fun pneu_step :: "pneu_event \<Rightarrow> pneu \<Rightarrow> pneu" where
  "pneu_step (Rx b) s = pneu_byte b s"
| "pneu_step Tick s = pneu_T1Interrupt s"

end
