(* ===== verification/PneuTable.thy ===== *)
theory PneuTable
  imports Pneumatics
begin

text \<open>
  What the table of commands of the pneumatics board means: for every pair an agenda, and the position
  of its valves.  The table with its bit masks implements adding to the agenda and the passing of a
  step of the timer.
\<close>

section \<open>Entries in use\<close>

definition live :: "pneu \<Rightarrow> nat \<Rightarrow> bool" where
  "live s j \<longleftrightarrow> j < CMDCOUNT \<and> bit (cmdValid s ! (j div 16)) (j mod 16)"

definition sized :: "pneu \<Rightarrow> bool" where
  "sized s \<longleftrightarrow> length (cmds s) = CMDCOUNT \<and> length (cmdValid s) = VALIDBITS"

lemma word_zero: "(w :: word16) = 0 \<longleftrightarrow> (\<forall>n<16. \<not> bit w n)"
  by (auto intro: bit_word_eqI)

lemma curf_bit: "(w :: word16) AND 2 ^ k = 0 \<longleftrightarrow> \<not> bit w k"
  by (simp add: and_exp_eq_0_iff_not_bit)

lemma rest_bits: "(w :: word16) AND NOT (2 ^ k - 1) = 0 \<longleftrightarrow> (\<forall>n. k \<le> n \<and> n < 16 \<longrightarrow> \<not> bit w n)"
  by (auto simp: word_zero mask_eq_exp_minus_1 [symmetric] bit_simps not_less)

lemma split_index: "k < 16 \<Longrightarrow> (16 * i + k) div 16 = i \<and> (16 * i + k) mod 16 = (k :: nat)"
  "k < 16 \<Longrightarrow> j div 16 = i \<Longrightarrow> j mod 16 = k \<longleftrightarrow> j = 16 * i + (k :: nat)"
  "k < 16 \<Longrightarrow> i < 3 \<Longrightarrow> 16 * i + k < (48 :: nat)"
proof -
  show "j mod 16 = k \<longleftrightarrow> j = 16 * i + k" if "j div 16 = i"
    using mult_div_mod_eq [of 16 j] that by linarith
qed auto

lemma live_clear:
  assumes "sized s" and "k < 16" and "i < 3"
  shows "live (s\<lparr>cmdValid := (cmdValid s)[i := cmdValid s ! i AND NOT (2 ^ k)]\<rparr>) j \<longleftrightarrow> live s j \<and> j \<noteq> 16 * i + k"
  using assms split_index(2) [OF assms(2), of j i]
  by (cases "j div 16 = i") (auto simp: live_def sized_def nth_list_update bit_simps)

lemma live_set:
  assumes "sized s" and "k < 16" and "i < 3"
  shows "live (s\<lparr>cmdValid := (cmdValid s)[i := cmdValid s ! i OR 2 ^ k]\<rparr>) j \<longleftrightarrow> live s j \<or> j = 16 * i + k"
  using assms split_index(2) [OF assms(2), of j i]
  by (cases "j div 16 = i") (auto simp: live_def sized_def nth_list_update bit_simps)

lemma live_bit: "k < 16 \<Longrightarrow> i < 3 \<Longrightarrow> cmdValid s ! i AND 2 ^ k = 0 \<longleftrightarrow> \<not> live s (16 * i + k)"
  by (simp add: live_def curf_bit)

lemma live_rest: "i < 3 \<Longrightarrow> cmdValid s ! i AND NOT (2 ^ k - 1) = 0 \<longleftrightarrow> (\<forall>n. k \<le> n \<and> n < 16 \<longrightarrow> \<not> live s (16 * i + n))"
  by (auto simp: rest_bits live_def)

lemma live_word: "i < 3 \<Longrightarrow> cmdValid s ! i = 0 \<longleftrightarrow> (\<forall>n<16. \<not> live s (16 * i + n))"
  by (auto simp: word_zero live_def)

lemma live_update [simp]:
  "live (s\<lparr>cmds := x\<rparr>) = live s" "live (s\<lparr>said := b\<rparr>) = live s" "live (s\<lparr>buff := b\<rparr>) = live s" "live (s\<lparr>syncs := n\<rparr>) = live s"
  "live (s\<lparr>marker1_ext := e\<rparr>) = live s" "live (s\<lparr>marker2_ext := e\<rparr>) = live s"
  by (simp_all add: live_def fun_eq_iff)

section \<open>The scan\<close>

text \<open>An entry that a command for \<open>pair\<close> after \<open>c\<close> steps replaces.\<close>

definition later :: "byte \<Rightarrow> int \<Rightarrow> CmdEnt \<Rightarrow> bool" where
  "later pair c e \<longleftrightarrow> ent_pair e = pair \<and> ent_count e \<ge> c"

text \<open>The scan only changes the mask: from \<open>s\<close> to \<open>t\<close> with what it takes out among \<open>J\<close>.\<close>

definition scanned :: "byte \<Rightarrow> int \<Rightarrow> nat set \<Rightarrow> pneu \<Rightarrow> pneu \<Rightarrow> bool" where
  "scanned pair c J s t \<longleftrightarrow> t = s\<lparr>cmdValid := cmdValid t\<rparr> \<and> sized t
     \<and> (\<forall>j. live t j \<longleftrightarrow> live s j \<and> \<not> (j \<in> J \<and> later pair c (cmds s ! j)))"

definition place_found :: "nat option \<Rightarrow> nat option \<Rightarrow> nat set \<Rightarrow> pneu \<Rightarrow> bool" where
  "place_found f f' J t \<longleftrightarrow>
     (case f of Some j \<Rightarrow> f' = Some j
      | None \<Rightarrow> (case f' of None \<Rightarrow> \<forall>j\<in>J. live t j | Some j \<Rightarrow> j < CMDCOUNT \<and> \<not> live t j))"

lemma scanned_cmds: "scanned pair c J s t \<Longrightarrow> cmds t = cmds s"
  unfolding scanned_def by (metis pneu.select_convs(1) pneu.surjective pneu.update_convs(2))

lemma scanned_none: "sized s \<Longrightarrow> (\<forall>j\<in>J. \<not> live s j) \<Longrightarrow> scanned pair c J s s"
  by (auto simp: scanned_def)

lemma scanned_trans:
  "scanned pair c J s t \<Longrightarrow> scanned pair c K t u \<Longrightarrow> scanned pair c (J \<union> K) s u"
  using scanned_cmds [of pair c J s t] unfolding scanned_def
  by (metis (no_types, lifting) Un_iff pneu.surjective pneu.update_convs(2))

lemma place_found_trans:
  assumes "place_found f f' J t" and "place_found f' f'' K u" and "scanned pair c K t u" and "J \<inter> K = {}"
  shows "place_found f f'' (J \<union> K) u"
  using assms by (auto simp: place_found_def scanned_def split: option.splits)

lemma scanWord_scans:
  assumes "sized s" and "i < 3" and "k \<le> 16"
  obtains f' t where "scanWord pair c i [k..<16] (f, s) = (f', t)"
    "scanned pair c {16 * i + k..<16 * i + 16} s t" "place_found f f' {16 * i + k..<16 * i + 16} t"
  using assms
proof (induction "16 - k" arbitrary: k f s thesis)
  case 0
  then show ?case by (auto simp: scanned_def place_found_def split: option.split)
next
  case (Suc d)
  then have k: "k < 16" "[k..<16] = k # [Suc k..<16]" "d = 16 - Suc k" "Suc k \<le> 16" by (simp_all add: upt_conv_Cons)
  let ?j = "16 * i + k"
  have J: "{?j..<16 * i + 16} = {?j} \<union> {16 * i + Suc k..<16 * i + 16}" using k(1) by auto
  show ?case
  proof (cases "f = None \<or> (\<exists>n. k \<le> n \<and> n < 16 \<and> live s (16 * i + n))")
    case False
    have "\<not> live s j" if "j \<in> {?j..<16 * i + 16}" for j
    proof -
      have "j = 16 * i + (j - 16 * i)" "k \<le> j - 16 * i" "j - 16 * i < 16" using that by auto
      then show ?thesis using False by metis
    qed
    then have "scanned pair c {?j..<16 * i + 16} s s" using Suc.prems(2) by (intro scanned_none) auto
    then show ?thesis using False Suc.prems(1) [of f s] k live_rest [OF Suc.prems(3), of s k]
      by (auto simp: place_found_def)
  next
    case True
    let ?out = "live s ?j \<and> later pair c (cmds s ! ?j)"
    define u where "u = (if ?out then s\<lparr>cmdValid := (cmdValid s)[i := cmdValid s ! i AND NOT (2 ^ k)]\<rparr> else s)"
    define g where "g = (if f = None \<and> \<not> live u ?j then Some ?j else f)"
    have u: "sized u" "scanned pair c {?j} s u"
      using Suc.prems(2) live_clear [OF Suc.prems(2) k(1) Suc.prems(3)] by (auto simp: u_def sized_def scanned_def)
    have g: "place_found f g {?j} u"
      using split_index(3) [OF k(1) Suc.prems(3)] by (auto simp: place_found_def g_def split: option.split)
    obtain f' t where t: "scanWord pair c i [Suc k..<16] (g, u) = (f', t)"
      "scanned pair c {16 * i + Suc k..<16 * i + 16} u t" "place_found g f' {16 * i + Suc k..<16 * i + 16} t"
      using Suc.hyps(1) [OF k(3) _ u(1) Suc.prems(3) k(4)] by blast
    have "scanWord pair c i [k..<16] (f, s) = scanWord pair c i [Suc k..<16] (g, u)"
      using True live_rest [OF Suc.prems(3), of s k] live_bit [OF k(1) Suc.prems(3)]
      by (auto simp: k(2) Let_def u_def g_def later_def)
    then show ?thesis
      using Suc.prems(1) [of f' t] t scanned_trans [OF u(2) t(2)] place_found_trans [OF g t(3) t(2)] unfolding J by simp
  qed
qed

lemma scanTable_scans:
  assumes "sized s"
  obtains f t where "scanTable pair c s = (f, t)" "scanned pair c {..<CMDCOUNT} s t" "place_found None f {..<CMDCOUNT} t"
proof -
  let ?step = "\<lambda>i (f, s). if cmdValid s ! i = 0 \<and> f \<noteq> None then (f, s) else scanWord pair c i [0..<16] (f, s)"
  have one: "\<exists>f' t. ?step i (f, s) = (f', t) \<and> scanned pair c {16 * i..<16 * i + 16} s t
      \<and> place_found f f' {16 * i..<16 * i + 16} t" if "sized s" "i < 3" for i f s
  proof (cases "cmdValid s ! i = 0 \<and> f \<noteq> None")
    case True
    have "\<not> live s j" if "j \<in> {16 * i..<16 * i + 16}" for j
    proof -
      have "j = 16 * i + (j - 16 * i)" "j - 16 * i < 16" using that by auto
      then show ?thesis using True live_word [OF \<open>i < 3\<close>, of s] by metis
    qed
    then show ?thesis using True \<open>sized s\<close> scanned_none [of s "{16 * i..<16 * i + 16}"] by (auto simp: place_found_def)
  next
    case False
    then show ?thesis by (simp only: prod.case if_False) (rule scanWord_scans [OF that, of 0 pair c f], auto)
  qed
  have "\<exists>f t. fold ?step [0..<n] (None, s) = (f, t) \<and> sized t \<and> scanned pair c {..<16 * n} s t
      \<and> place_found None f {..<16 * n} t" if "n \<le> 3" for n
    using that
  proof (induction n)
    case 0
    then show ?case using assms by (auto simp: scanned_def place_found_def)
  next
    case (Suc n)
    then obtain f t where t: "fold ?step [0..<n] (None, s) = (f, t)" "sized t" "scanned pair c {..<16 * n} s t"
      "place_found None f {..<16 * n} t" by auto
    obtain f' u where u: "?step n (f, t) = (f', u)" "scanned pair c {16 * n..<16 * n + 16} t u"
      "place_found f f' {16 * n..<16 * n + 16} u"
      using one [OF t(2), of n f] Suc.prems by auto
    have J: "{..<16 * Suc n} = {..<16 * n} \<union> {16 * n..<16 * n + 16}" "{..<16 * n} \<inter> {16 * n..<16 * n + 16} = {}" by auto
    have "fold ?step [0..<Suc n] (None, s) = (f', u)" using t(1) u(1) by simp
    then show ?case
      using scanned_trans [OF t(3) u(2)] place_found_trans [OF t(4) u(3,2) J(2)] unfolding J(1)
      by (auto simp: scanned_def)
  qed
  from this [of 3] show thesis using that by (auto simp: scanTable_def)
qed

end
