(* ===== verification/PneuAgenda.thy ===== *)
theory PneuAgenda
  imports PneuTable
begin

text \<open>
  An agenda for each pair of valves and the position it is in: the abstract meaning of the table, and
  the operations of the board as operations on agendas.
\<close>

section \<open>Agendas\<close>

text \<open>\<open>todo a p t\<close> is the command for the pair \<open>p\<close> that comes after \<open>t\<close> steps of the timer.\<close>

record agenda =
  todo :: "byte \<Rightarrow> int \<Rightarrow> PairCommand option"
  position :: "byte \<Rightarrow> PairCommand"

definition put :: "PairCommand \<Rightarrow> byte \<Rightarrow> int \<Rightarrow> agenda \<Rightarrow> agenda" where
  "put x p c a = a\<lparr>todo := (todo a)(p := (\<lambda>t. if t < c then todo a p t else if t = c then Some x else None))\<rparr>"

definition elapse :: "agenda \<Rightarrow> agenda" where
  "elapse a = \<lparr>todo = (\<lambda>p t. if t \<ge> 1 then todo a p (t + 1) else None),
     position = (\<lambda>p. case todo a p 1 of None \<Rightarrow> position a p | Some x \<Rightarrow> x)\<rparr>"

definition everything :: "PairCommand \<Rightarrow> agenda \<Rightarrow> agenda" where
  "everything x a = \<lparr>todo = (\<lambda>p t. None), position = (\<lambda>p. if p \<le> 11 then x else position a p)\<rparr>"

section \<open>The agenda of the table\<close>

definition table_ok :: "pneu \<Rightarrow> bool" where
  "table_ok s \<longleftrightarrow> sized s
     \<and> (\<forall>j. live s j \<longrightarrow> ent_pair (cmds s ! j) \<le> 11 \<and> 1 \<le> ent_count (cmds s ! j) \<and> ent_count (cmds s ! j) \<le> 551)
     \<and> (\<forall>i j. live s i \<and> live s j \<and> ent_pair (cmds s ! i) = ent_pair (cmds s ! j)
          \<and> ent_count (cmds s ! i) = ent_count (cmds s ! j) \<longrightarrow> i = j)"

definition positionOf :: "pneu \<Rightarrow> byte \<Rightarrow> PairCommand" where
  "positionOf s p =
     (if FILL_PAIR s (unat p) then PCMD_FILL else if VOID_PAIR s (unat p) then PCMD_VOID else PCMD_OFF)"

definition todoOf :: "pneu \<Rightarrow> byte \<Rightarrow> int \<Rightarrow> PairCommand option" where
  "todoOf s p t =
     map_of (map (\<lambda>j. ((ent_pair (cmds s ! j), ent_count (cmds s ! j)), ent_cmd (cmds s ! j)))
       (filter (live s) [0..<CMDCOUNT])) (p, t)"

definition agendaOf :: "pneu \<Rightarrow> agenda" where
  "agendaOf s = \<lparr>todo = todoOf s, position = positionOf s\<rparr>"

text \<open>The entry for \<open>p\<close> after \<open>t\<close> steps.\<close>

definition entry :: "pneu \<Rightarrow> nat \<Rightarrow> byte \<Rightarrow> int \<Rightarrow> bool" where
  "entry s j p t \<longleftrightarrow> live s j \<and> ent_pair (cmds s ! j) = p \<and> ent_count (cmds s ! j) = t"

lemma live_less: "live s j \<Longrightarrow> j < CMDCOUNT"
  by (simp add: live_def)

lemma entry_unique: "table_ok s \<Longrightarrow> entry s i p t \<Longrightarrow> entry s j p t \<Longrightarrow> i = j"
  by (auto simp: table_ok_def entry_def)

lemma todoOf_Some:
  assumes "table_ok s" and "entry s j p t"
  shows "todoOf s p t = Some (ent_cmd (cmds s ! j))"
proof -
  let ?f = "\<lambda>j. ((ent_pair (cmds s ! j), ent_count (cmds s ! j)), ent_cmd (cmds s ! j))"
  have "inj_on (\<lambda>j. (ent_pair (cmds s ! j), ent_count (cmds s ! j))) {j. live s j}"
    using assms(1) by (auto simp: table_ok_def inj_on_def)
  then have "distinct (map fst (map ?f (filter (live s) [0..<CMDCOUNT])))"
    by (simp add: distinct_map o_def) (erule inj_on_subset, auto)
  then show ?thesis
    using assms(2) live_less [of s j] unfolding todoOf_def entry_def by (intro map_of_is_SomeI) auto
qed

lemma todoOf_None: "(\<And>j. \<not> entry s j p t) \<Longrightarrow> todoOf s p t = None"
  unfolding todoOf_def entry_def map_of_eq_None_iff by force

lemma todoOf_cases:
  assumes "table_ok s"
  obtains j where "entry s j p t" "todoOf s p t = Some (ent_cmd (cmds s ! j))"
  | "\<And>j. \<not> entry s j p t" "todoOf s p t = None"
  using todoOf_Some [OF assms] todoOf_None by metis

text \<open>A table whose entries are given determines the agenda.\<close>

lemma todoOf_eqI:
  assumes "table_ok s" and "\<And>p t j. entry s j p t \<Longrightarrow> f p t = Some (ent_cmd (cmds s ! j))"
    and "\<And>p t. (\<And>j. \<not> entry s j p t) \<Longrightarrow> f p t = None"
  shows "todoOf s = f"
  by (intro ext) (metis assms todoOf_cases)

section \<open>Switching valves\<close>

lemma positionOf_update [simp]:
  "positionOf (s\<lparr>cmds := x\<rparr>) = positionOf s" "positionOf (s\<lparr>cmdValid := v\<rparr>) = positionOf s"
  "positionOf (s\<lparr>said := b\<rparr>) = positionOf s" "positionOf (s\<lparr>buff := b\<rparr>) = positionOf s"
  "positionOf (s\<lparr>syncs := n\<rparr>) = positionOf s" "positionOf (s\<lparr>marker1_ext := e\<rparr>) = positionOf s"
  "positionOf (s\<lparr>marker2_ext := e\<rparr>) = positionOf s"
  by (simp_all add: positionOf_def fun_eq_iff)

lemma handled_position:
  "positionOf (fillPair q s) p = (if p = q \<and> q \<le> 11 then PCMD_FILL else positionOf s p)"
  "positionOf (voidPair q s) p = (if p = q \<and> q \<le> 11 then PCMD_VOID else positionOf s p)"
  "positionOf (turnOff q s) p = (if p = q \<and> q \<le> 11 then PCMD_OFF else positionOf s p)"
  using unsigned_word_eqI [of p q, where ?'a = nat]
  by (auto simp: positionOf_def fillPair_def voidPair_def turnOff_def)

lemma handleCmd_position: "positionOf (handleCmd x q s) p = (if p = q \<and> q \<le> 11 then x else positionOf s p)"
  by (cases x) (simp_all add: handleCmd_def handled_position)

text \<open>Switching a valve leaves the table and the rest alone.\<close>

definition table_of :: "pneu \<Rightarrow> CmdEnt list \<times> word16 list" where
  "table_of s = (cmds s, cmdValid s)"

definition rest_of :: "pneu \<Rightarrow> bool \<times> bool \<times> byte list \<times> nat \<times> byte list" where
  "rest_of s = (marker1_ext s, marker2_ext s, said s, syncs s, buff s)"

lemma rest_of_update [simp]: "rest_of (s\<lparr>cmds := x\<rparr>) = rest_of s" "rest_of (s\<lparr>cmdValid := v\<rparr>) = rest_of s"
  by (simp_all add: rest_of_def)

lemma handled_table [simp]:
  "cmds (fillPair q s) = cmds s" "cmds (voidPair q s) = cmds s" "cmds (turnOff q s) = cmds s"
  "cmdValid (fillPair q s) = cmdValid s" "cmdValid (voidPair q s) = cmdValid s" "cmdValid (turnOff q s) = cmdValid s"
  "rest_of (fillPair q s) = rest_of s" "rest_of (voidPair q s) = rest_of s" "rest_of (turnOff q s) = rest_of s"
  by (simp_all add: fillPair_def voidPair_def turnOff_def Let_def rest_of_def)

lemma handleCmd_table [simp]:
  "cmds (handleCmd x q s) = cmds s" "cmdValid (handleCmd x q s) = cmdValid s" "rest_of (handleCmd x q s) = rest_of s"
  by (cases x; simp add: handleCmd_def)+

section \<open>Adding a command\<close>

definition room :: "pneu \<Rightarrow> bool" where
  "room s \<longleftrightarrow> (\<exists>j<CMDCOUNT. \<not> live s j)"

lemma addCmd_eq:
  assumes "sized s" and "room s"
  obtains i t where "addCmd x p c s = t\<lparr>cmds := (cmds s)[i := \<lparr>ent_count = c, ent_cmd = x, ent_pair = p\<rparr>],
      cmdValid := (cmdValid t)[i div 16 := cmdValid t ! (i div 16) OR 2 ^ (i mod 16)]\<rparr>"
    "scanned p c {..<CMDCOUNT} s t" "i < CMDCOUNT" "\<not> live t i"
proof -
  obtain f t where t: "scanTable p c s = (f, t)" "scanned p c {..<CMDCOUNT} s t" "place_found None f {..<CMDCOUNT} t"
    by (rule scanTable_scans [OF assms(1)])
  obtain i where i: "f = Some i" "i < CMDCOUNT" "\<not> live t i"
    using t(2,3) assms(2) by (cases f) (auto simp: place_found_def scanned_def room_def)
  show thesis
    by (rule that [OF _ t(2) i(2,3)]) (simp add: addCmd_def t(1) i(1) Let_def scanned_cmds [OF t(2)])
qed

lemma addCmd_entries:
  assumes "sized s" and "room s"
  obtains i where "sized (addCmd x p c s)" "rest_of (addCmd x p c s) = rest_of s"
    "positionOf (addCmd x p c s) = positionOf s" "i < CMDCOUNT" "cmds (addCmd x p c s) ! i = \<lparr>ent_count = c, ent_cmd = x, ent_pair = p\<rparr>"
    "\<And>j. j \<noteq> i \<Longrightarrow> cmds (addCmd x p c s) ! j = cmds s ! j" "live (addCmd x p c s) i"
    "live s i \<Longrightarrow> later p c (cmds s ! i)"
    "\<And>j. j \<noteq> i \<Longrightarrow> live (addCmd x p c s) j \<longleftrightarrow> live s j \<and> \<not> later p c (cmds s ! j)"
proof -
  obtain i t where t: "addCmd x p c s = t\<lparr>cmds := (cmds s)[i := \<lparr>ent_count = c, ent_cmd = x, ent_pair = p\<rparr>],
      cmdValid := (cmdValid t)[i div 16 := cmdValid t ! (i div 16) OR 2 ^ (i mod 16)]\<rparr>"
    "scanned p c {..<CMDCOUNT} s t" "i < CMDCOUNT" "\<not> live t i"
    by (rule addCmd_eq [OF assms, of x p c])
  have st: "sized t" "cmds t = cmds s" "rest_of t = rest_of s" "positionOf t = positionOf s"
  proof -
    have e: "t = s\<lparr>cmdValid := cmdValid t\<rparr>" "sized t" using t(2) by (simp_all add: scanned_def)
    show "sized t" by (rule e(2))
    show "cmds t = cmds s" "rest_of t = rest_of s" "positionOf t = positionOf s"
      by (subst e(1), simp add: rest_of_def)+
  qed
  have i: "i mod 16 < 16" "i div 16 < 3" "16 * (i div 16) + i mod 16 = i" using t(3) by auto
  have l: "live (addCmd x p c s) j \<longleftrightarrow> live t j \<or> j = i" for j
    using live_set [OF st(1) i(1,2), of j] i(3) unfolding t(1) by (simp add: live_def)
  have lt: "live t j \<longleftrightarrow> live s j \<and> \<not> later p c (cmds s ! j)" for j
    using t(2) live_less [of s j] by (auto simp: scanned_def)
  show thesis
  proof (rule that [of i])
    show "sized (addCmd x p c s)" using st(1) assms(1) by (simp add: t(1) sized_def)
    show "rest_of (addCmd x p c s) = rest_of s" using st(3) by (simp add: t(1) rest_of_def)
    show "positionOf (addCmd x p c s) = positionOf s" using st(4) by (simp add: t(1))
    show "cmds (addCmd x p c s) ! i = \<lparr>ent_count = c, ent_cmd = x, ent_pair = p\<rparr>"
      using t(3) assms(1) by (simp add: t(1) sized_def)
  qed (use t(3,4) l lt in \<open>simp_all add: t(1)\<close>)
qed

lemma table_okI:
  assumes "sized s" and "\<And>j p t. entry s j p t \<Longrightarrow> p \<le> 11 \<and> 1 \<le> t \<and> t \<le> 551"
    and "\<And>i j p t. entry s i p t \<Longrightarrow> entry s j p t \<Longrightarrow> i = j"
  shows "table_ok s"
  using assms unfolding table_ok_def entry_def by blast

lemma entry_ranges: "table_ok s \<Longrightarrow> entry s j p t \<Longrightarrow> p \<le> 11 \<and> 1 \<le> t \<and> t \<le> 551"
  by (auto simp: table_ok_def entry_def)

lemma addCmd_refines:
  assumes "table_ok s" and "room s" and "p \<le> 11" and "1 \<le> c" and "c \<le> 551"
  shows "table_ok (addCmd x p c s)" and "agendaOf (addCmd x p c s) = put x p c (agendaOf s)"
    and "rest_of (addCmd x p c s) = rest_of s"
proof -
  let ?s = "addCmd x p c s"
  obtain i where i: "sized ?s" "rest_of ?s = rest_of s" "positionOf ?s = positionOf s" "i < CMDCOUNT"
    "cmds ?s ! i = \<lparr>ent_count = c, ent_cmd = x, ent_pair = p\<rparr>" and other: "\<And>j. j \<noteq> i \<Longrightarrow> cmds ?s ! j = cmds s ! j"
    and lv: "live ?s i"
    and gone: "live s i \<Longrightarrow> later p c (cmds s ! i)" and still: "\<And>j. j \<noteq> i \<Longrightarrow> live ?s j \<longleftrightarrow> live s j \<and> \<not> later p c (cmds s ! j)"
    using addCmd_entries [of s x p c] assms(1,2) by (metis table_ok_def)
  have e: "entry ?s j q t = (if j = i then q = p \<and> t = c else entry s j q t \<and> \<not> (q = p \<and> t \<ge> c))" for j q t
    using i(5) lv other [of j] still [of j] by (auto simp: entry_def later_def)
  show ok: "table_ok ?s"
    by (rule table_okI [OF i(1)]) (use assms(3-5) entry_ranges [OF assms(1)] entry_unique [OF assms(1)] in \<open>auto simp: e split: if_splits\<close>)
  have "todoOf ?s = (todoOf s)(p := (\<lambda>t. if t < c then todoOf s p t else if t = c then Some x else None))" (is "_ = ?f")
  proof (rule todoOf_eqI [OF ok])
    show "?f q t = Some (ent_cmd (cmds ?s ! j))" if "entry ?s j q t" for q t j
      using that i(5) other [of j] todoOf_Some [OF assms(1), of j q t] by (auto simp: e split: if_splits)
    show "?f q t = None" if "\<And>j. \<not> entry ?s j q t" for q t
    proof -
      have "\<not> (q = p \<and> t = c)" using that [of i] by (auto simp: e)
      moreover have "\<not> entry s j q t" if "\<not> (q = p \<and> t \<ge> c)" for j
      proof (cases "j = i")
        case True
        then show ?thesis using that gone by (auto simp: entry_def later_def)
      next
        case False
        then show ?thesis using \<open>\<And>j. \<not> entry ?s j q t\<close> [of j] that unfolding e by auto
      qed
      ultimately show ?thesis using todoOf_None [of s q t] by auto
    qed
  qed
  then show "agendaOf ?s = put x p c (agendaOf s)" using i(3) by (simp add: agendaOf_def put_def cong: if_cong)
  show "rest_of ?s = rest_of s" by (rule i(2))
qed

section \<open>A step of the timer\<close>

text \<open>The interrupt after the first \<open>m\<close> entries.\<close>

definition counted :: "pneu \<Rightarrow> nat \<Rightarrow> pneu \<Rightarrow> bool" where
  "counted s m t \<longleftrightarrow> sized t \<and> rest_of t = rest_of s
     \<and> (\<forall>j. live t j \<longleftrightarrow> live s j \<and> \<not> (j < m \<and> ent_count (cmds s ! j) \<le> 1))
     \<and> (\<forall>j<CMDCOUNT. cmds t ! j = (if j < m \<and> live s j
          then (cmds s ! j)\<lparr>ent_count := ent_count (cmds s ! j) - 1\<rparr> else cmds s ! j))
     \<and> (\<forall>p. (\<forall>j<m. entry s j p 1 \<longrightarrow> positionOf t p = ent_cmd (cmds s ! j))
          \<and> ((\<forall>j<m. \<not> entry s j p 1) \<longrightarrow> positionOf t p = positionOf s p))"

lemma countDown_dead: "\<not> live s (16 * i + k) \<Longrightarrow> k < 16 \<Longrightarrow> i < 3 \<Longrightarrow> countDown i k s = s"
  using live_bit [of k i s] by (simp add: countDown_def)

lemma countDown_live:
  assumes "live s j" and "sized s" and "i = j div 16" and "k = j mod 16"
  defines "e \<equiv> (cmds s ! j)\<lparr>ent_count := ent_count (cmds s ! j) - 1\<rparr>"
  obtains t where "countDown i k s = t" "sized t" "rest_of t = rest_of s" "cmds t = (cmds s)[j := e]"
    "\<And>n. live t n \<longleftrightarrow> live s n \<and> \<not> (n = j \<and> ent_count e \<le> 0)"
    "\<And>p. positionOf t p = (if ent_count e \<le> 0 \<and> p = ent_pair e \<and> p \<le> 11 then ent_cmd e else positionOf s p)"
proof -
  have j: "i * 16 + k = j" "k < 16" "i < 3" "16 * i + k = j" "j < length (cmds s)"
    using assms(2-4) live_less [OF assms(1)] by (auto simp: sized_def)
  have c: "cmdValid s ! i AND 2 ^ k \<noteq> 0" using live_bit [OF j(2,3), of s] assms(1) j(4) by simp
  let ?u = "s\<lparr>cmds := (cmds s)[j := e]\<rparr>"
  let ?h = "handleCmd (ent_cmd e) (ent_pair e) ?u"
  have d: "countDown i k s = (if ent_count e \<le> 0 then ?h\<lparr>cmdValid := (cmdValid ?h)[i := cmdValid ?h ! i AND NOT (2 ^ k)]\<rparr> else ?u)"
    unfolding countDown_def Let_def j(1) e_def using c j(5) by simp
  have z: "sized ?h" using assms(2) by (simp add: sized_def)
  have l: "live ?h n = live s n" for n by (simp add: live_def)
  let ?t = "if ent_count e \<le> 0 then ?h\<lparr>cmdValid := (cmdValid ?h)[i := cmdValid ?h ! i AND NOT (2 ^ k)]\<rparr> else ?u"
  show thesis
  proof (rule that [OF d])
    show "sized ?t" using assms(2) z by (simp add: sized_def)
    show "rest_of ?t = rest_of s" "cmds ?t = (cmds s)[j := e]" by simp_all
    show "live ?t n \<longleftrightarrow> live s n \<and> \<not> (n = j \<and> ent_count e \<le> 0)" for n
      using live_clear [OF z j(2,3), of n] unfolding j(4) l by simp
    show "positionOf ?t p = (if ent_count e \<le> 0 \<and> p = ent_pair e \<and> p \<le> 11 then ent_cmd e else positionOf s p)" for p
      by (auto simp: handleCmd_position)
  qed
qed

lemma counted_start: "sized s \<Longrightarrow> counted s 0 s"
  by (simp add: counted_def)

lemma counted_step:
  assumes "table_ok s" and "counted s m t" and "m < CMDCOUNT"
  shows "counted s (Suc m) (countDown (m div 16) (m mod 16) t)"
proof -
  have t: "sized t" "rest_of t = rest_of s" "live t m \<longleftrightarrow> live s m" "cmds t ! m = cmds s ! m"
    using assms(2,3) by (simp_all add: counted_def)
  have less: "j < Suc m \<longleftrightarrow> j < m \<or> j = m" for j by auto
  show ?thesis
  proof (cases "live s m")
    case False
    have "countDown (m div 16) (m mod 16) t = t"
      using False t(3) assms(3) by (intro countDown_dead) auto
    then show ?thesis using assms(2) False by (auto simp: counted_def less entry_def)
  next
    case True
    let ?e = "(cmds s ! m)\<lparr>ent_count := ent_count (cmds s ! m) - 1\<rparr>"
    have lv: "live t m" using True t(3) by simp
    obtain u where u: "countDown (m div 16) (m mod 16) t = u" "sized u" "rest_of u = rest_of t" "cmds u = (cmds t)[m := ?e]"
      "\<And>n. live u n \<longleftrightarrow> live t n \<and> \<not> (n = m \<and> ent_count ?e \<le> 0)"
      "\<And>p. positionOf u p = (if ent_count ?e \<le> 0 \<and> p = ent_pair ?e \<and> p \<le> 11 then ent_cmd ?e else positionOf t p)"
      using countDown_live [OF lv t(1) refl refl] unfolding t(4) by blast
    have e: "entry s m p 1 \<longleftrightarrow> ent_count ?e \<le> 0 \<and> p = ent_pair ?e \<and> p \<le> 11" for p
      using assms(1) True by (auto simp: entry_def table_ok_def)
    have "counted s (Suc m) u" unfolding counted_def
    proof (intro conjI allI impI)
      show "sized u" "rest_of u = rest_of s" using u(2,3) t(2) by simp_all
      show "live u j \<longleftrightarrow> live s j \<and> \<not> (j < Suc m \<and> ent_count (cmds s ! j) \<le> 1)" for j
        using assms(2) u(5) by (auto simp: counted_def less)
      show "cmds u ! j = (if j < Suc m \<and> live s j then (cmds s ! j)\<lparr>ent_count := ent_count (cmds s ! j) - 1\<rparr> else cmds s ! j)"
        if "j < CMDCOUNT" for j
        using assms(2) True that t(1) by (cases "j = m") (auto simp: counted_def u(4) less sized_def)
      show "positionOf u p = ent_cmd (cmds s ! j)" if "j < Suc m" "entry s j p 1" for p j
      proof (cases "j = m")
        case True
        then show ?thesis using that(2) e [of p] u(6) [of p] by auto
      next
        case False
        then have "\<not> entry s m p 1" using entry_unique [OF assms(1) that(2)] by auto
        then have "positionOf u p = positionOf t p" using u(6) [of p] unfolding e by auto
        then show ?thesis using False that assms(2) by (auto simp: counted_def less)
      qed
      show "positionOf u p = positionOf s p" if "\<forall>j<Suc m. \<not> entry s j p 1" for p
      proof -
        have "positionOf u p = positionOf t p" using u(6) [of p] that e [of p] by auto
        then show ?thesis using that assms(2) by (auto simp: counted_def less)
      qed
    qed
    then show ?thesis by (simp add: u(1))
  qed
qed

lemma fold_words: "fold (\<lambda>i. fold (\<lambda>k. f (w * i + k)) [0..<w]) [0..<n] s = fold f [0..<w * n] s"
proof (induction n)
  case (Suc n)
  have "[0..<w * Suc n] = [0..<w * n] @ map (\<lambda>k. w * n + k) [0..<w]"
    by (rule nth_equalityI) (auto simp: nth_append simp del: upt_Suc)
  then show ?case using Suc by (simp add: fold_map o_def)
qed simp

lemma T1Interrupt_slots:
  assumes "sized s"
  shows "pneu_T1Interrupt s = fold (\<lambda>j. countDown (j div 16) (j mod 16)) [0..<CMDCOUNT] s"
proof -
  have z: "fold (countDown i) ks s = s" if "\<forall>k\<in>set ks. \<not> live s (16 * i + k)" "\<forall>k\<in>set ks. k < 16" "i < 3" for ks i s
    using that by (induction ks) (simp_all add: countDown_dead)
  have "(if cmdValid s ! i = 0 then s else fold (countDown i) [0..<16] s) = fold (countDown i) [0..<16] s" if "i < 3" for i s
    using live_word [OF that, of s] z [of "[0..<16]" s i] that by auto
  then have "pneu_T1Interrupt s = fold (\<lambda>i. fold (countDown i) [0..<16]) [0..<3] s"
    unfolding pneu_T1Interrupt_def table_size by (intro fold_cong) auto
  also have "\<dots> = fold (\<lambda>i. fold (\<lambda>k. countDown ((16 * i + k) div 16) ((16 * i + k) mod 16)) [0..<16]) [0..<3] s"
    by (intro fold_cong ext refl) (auto intro!: fold_cong)
  also have "\<dots> = fold (\<lambda>j. countDown (j div 16) (j mod 16)) [0..<CMDCOUNT] s"
    using fold_words [of "\<lambda>j. countDown (j div 16) (j mod 16)" 16 3 s] by (simp only: table_size) simp
  finally show ?thesis .
qed

lemma T1Interrupt_counted: "table_ok s \<Longrightarrow> counted s CMDCOUNT (pneu_T1Interrupt s)"
proof -
  assume ok: "table_ok s"
  then have z: "sized s" by (simp add: table_ok_def)
  have "counted s m (fold (\<lambda>j. countDown (j div 16) (j mod 16)) [0..<m] s)" if "m \<le> CMDCOUNT" for m
    using that by (induction m) (use counted_start [OF z] counted_step [OF ok] in auto)
  then show ?thesis unfolding T1Interrupt_slots [OF z] by simp
qed

lemma T1Interrupt_refines:
  assumes "table_ok s"
  shows "table_ok (pneu_T1Interrupt s)" and "agendaOf (pneu_T1Interrupt s) = elapse (agendaOf s)"
    and "rest_of (pneu_T1Interrupt s) = rest_of s"
proof -
  let ?t = "pneu_T1Interrupt s"
  have c: "counted s CMDCOUNT ?t" by (rule T1Interrupt_counted [OF assms])
  have e: "entry ?t j p u \<longleftrightarrow> entry s j p (u + 1) \<and> 1 \<le> u" for j p u
    using c live_less [of s j] by (auto simp: entry_def counted_def)
  show ok: "table_ok ?t"
  proof (rule table_okI)
    show "sized ?t" using c by (simp add: counted_def)
  qed (use entry_ranges [OF assms] entry_unique [OF assms] in \<open>fastforce simp: e\<close>)+
  have "todoOf ?t = (\<lambda>p u. if u \<ge> 1 then todoOf s p (u + 1) else None)"
  proof (rule todoOf_eqI [OF ok])
    show "(if u \<ge> 1 then todoOf s p (u + 1) else None) = Some (ent_cmd (cmds ?t ! j))" if "entry ?t j p u" for p u j
      using that c todoOf_Some [OF assms, of j p "u + 1"] live_less [of s j] by (auto simp: e counted_def entry_def)
    show "(if u \<ge> 1 then todoOf s p (u + 1) else None) = None" if "\<And>j. \<not> entry ?t j p u" for p u
      using that todoOf_None [of s p "u + 1"] by (auto simp: e)
  qed
  moreover have "positionOf ?t p = (case todoOf s p 1 of None \<Rightarrow> positionOf s p | Some x \<Rightarrow> x)" for p
    using c live_less by (cases rule: todoOf_cases [OF assms, of p 1]) (auto simp: counted_def entry_def)
  ultimately show "agendaOf ?t = elapse (agendaOf s)"
    by (simp add: agendaOf_def elapse_def fun_eq_iff cong: if_cong option.case_cong)
  show "rest_of ?t = rest_of s" using c by (simp add: counted_def)
qed

section \<open>All valves at once\<close>

lemma pairs_12: "p \<in> set (map of_nat [0..<12]) \<longleftrightarrow> (p :: byte) \<le> 11"
proof -
  have "p \<le> 11 \<longleftrightarrow> unat p < 12" unfolding word_le_nat_alt by auto
  then show ?thesis by (auto simp: image_iff unat_of_nat intro: bexI [of _ "unat p"])
qed

lemma fold_valves:
  assumes "\<And>q s p. positionOf (f q s) p = (if p = q \<and> q \<le> 11 then x else positionOf s p)"
    and "\<And>q s. cmdValid (f q s) = cmdValid s" and "\<And>q s. cmds (f q s) = cmds s" and "\<And>q s. rest_of (f q s) = rest_of s"
  shows "positionOf (fold f qs s) p = (if p \<in> set qs \<and> p \<le> 11 then x else positionOf s p)
    \<and> cmdValid (fold f qs s) = cmdValid s \<and> cmds (fold f qs s) = cmds s \<and> rest_of (fold f qs s) = rest_of s"
  by (induction qs arbitrary: s) (auto simp: assms)

lemma cleared_refines:
  assumes "table_ok s" and "cmds t = cmds s" and "cmdValid t = replicate VALIDBITS 0"
    and "\<And>p. positionOf t p = (if p \<le> 11 then x else positionOf s p)"
  shows "table_ok t" and "agendaOf t = everything x (agendaOf s)"
proof -
  have d: "\<not> live t j" for j using assms(3) by (auto simp: live_def nth_replicate)
  have "sized t" using assms(1-3) by (simp add: table_ok_def sized_def)
  then show ok: "table_ok t" using d by (intro table_okI) (auto simp: entry_def)
  have "todoOf t = (\<lambda>p u. None)" by (rule todoOf_eqI [OF ok]) (use d in \<open>auto simp: entry_def\<close>)
  then show "agendaOf t = everything x (agendaOf s)" using assms(4) by (auto simp: agendaOf_def everything_def)
qed

lemma All_refines:
  assumes "table_ok s"
  shows "table_ok (voidAll s)" and "agendaOf (voidAll s) = everything PCMD_VOID (agendaOf s)" and "rest_of (voidAll s) = rest_of s"
    and "table_ok (offAll s)" and "agendaOf (offAll s) = everything PCMD_OFF (agendaOf s)" and "rest_of (offAll s) = rest_of s"
proof -
  let ?qs = "map of_nat [0..<12] :: byte list" and ?s = "s\<lparr>cmdValid := replicate VALIDBITS 0\<rparr>"
  have q: "p \<in> set ?qs \<and> p \<le> 11 \<longleftrightarrow> p \<le> 11" for p using pairs_12 [of p] by blast
  note v = fold_valves [where f = voidPair and x = PCMD_VOID and qs = ?qs and s = ?s, unfolded q, folded voidAll_def]
  note o = fold_valves [where f = turnOff and x = PCMD_OFF and qs = ?qs and s = ?s, unfolded q, folded offAll_def]
  show "table_ok (voidAll s)" "agendaOf (voidAll s) = everything PCMD_VOID (agendaOf s)"
    by (rule cleared_refines [OF assms, where x = PCMD_VOID]; use v in \<open>simp add: handled_position\<close>)+
  show "table_ok (offAll s)" "agendaOf (offAll s) = everything PCMD_OFF (agendaOf s)"
    by (rule cleared_refines [OF assms, where x = PCMD_OFF]; use o in \<open>simp add: handled_position\<close>)+
  show "rest_of (voidAll s) = rest_of s" "rest_of (offAll s) = rest_of s"
    using v o by (simp_all add: handled_position)
qed

end
