(* ===== verification/PneuRun.thy ===== *)
theory PneuRun
  imports PneuAgenda
begin

text \<open>
  The pneumatics board in operation: whatever arrives and however often the timer strikes, the table of
  commands means an agenda and never runs full, and no pair of valves is filled and voided at once.
\<close>

section \<open>Room in the table\<close>

text \<open>No pair has more than three commands ahead of it.\<close>

definition few :: "agenda \<Rightarrow> bool" where
  "few a \<longleftrightarrow> (\<forall>p. card (dom (todo a p)) \<le> 3)"

lemma todoOf_dom: "table_ok s \<Longrightarrow> dom (todoOf s p) \<subseteq> {1..551}"
proof
  fix t assume ok: "table_ok s" and t: "t \<in> dom (todoOf s p)"
  from t show "t \<in> {1..551}"
    by (cases rule: todoOf_cases [OF ok, of p t]) (use entry_ranges [OF ok] in auto)
qed

lemma todoOf_finite: "table_ok s \<Longrightarrow> finite (dom (todoOf s p))"
  by (meson finite_atLeastAtMost_int finite_subset todoOf_dom)

lemma entries_bounded:
  assumes "table_ok s" and "few (agendaOf s)"
  shows "card {j. live s j} \<le> 36"
proof -
  let ?P = "{p :: byte. p \<le> 11}" and ?f = "\<lambda>j. (ent_pair (cmds s ! j), ent_count (cmds s ! j))"
  have P: "?P = set (map of_nat [0..<12])" using pairs_12 by blast
  then have c: "card ?P \<le> 12" "finite ?P" using card_length [of "map of_nat [0..<12] :: byte list"] by simp_all
  let ?D = "SIGMA p:?P. dom (todoOf s p)"
  have f: "finite ?D" using c(2) todoOf_finite [OF assms(1)] by auto
  have "?f j \<in> ?D" if "live s j" for j
    using that todoOf_Some [OF assms(1), of j] assms(1) by (auto simp: entry_def table_ok_def)
  then have "card {j. live s j} \<le> card ?D"
    using assms(1) f by (intro card_inj_on_le [of ?f]) (auto simp: inj_on_def table_ok_def)
  also have "\<dots> = (\<Sum>p\<in>?P. card (dom (todoOf s p)))"
    using c(2) todoOf_finite [OF assms(1)] by (intro card_SigmaI) auto
  also have "\<dots> \<le> (\<Sum>p\<in>?P. 3)"
    using assms(2) by (intro sum_mono) (auto simp: few_def agendaOf_def)
  also have "\<dots> \<le> 36" using c(1) by simp
  finally show ?thesis .
qed

lemma bounded_room: "table_ok s \<Longrightarrow> few (agendaOf s) \<Longrightarrow> room s"
proof (rule ccontr)
  assume "table_ok s" "few (agendaOf s)" "\<not> room s"
  then have "{..<CMDCOUNT} \<subseteq> {j. live s j}" by (auto simp: room_def)
  moreover have "finite {j. live s j}" by (rule finite_subset [of _ "{..<CMDCOUNT}"]) (auto simp: live_def)
  ultimately have "CMDCOUNT \<le> card {j. live s j}" by (metis card_lessThan card_mono)
  then show False using entries_bounded [OF \<open>table_ok s\<close> \<open>few (agendaOf s)\<close>] by simp
qed

section \<open>Operations on the agenda\<close>

lemma put_todo: "todo (put x p c a) q t = (if q = p then if t < c then todo a p t else if t = c then Some x else None else todo a q t)"
  by (simp add: put_def)

lemma put_position [simp]: "position (put x p c a) = position a"
  by (simp add: put_def)

lemma dom_put: "dom (todo (put x p c a) q) = (if q = p then insert c {t \<in> dom (todo a p). t < c} else dom (todo a q))"
  by (auto simp: put_todo dom_def split: if_splits)

lemma few_put:
  assumes "few a" and "{t \<in> dom (todo a p). t < c} \<subseteq> {u, v}"
  shows "few (put x p c a)"
proof -
  have "card (insert c {t \<in> dom (todo a p). t < c}) \<le> card {c, u, v}" using assms(2) by (intro card_mono) auto
  also have "\<dots> \<le> 3" by (simp add: card_insert_if)
  finally show ?thesis using assms(1) by (simp add: few_def dom_put)
qed

lemma few_elapse:
  assumes "few a" and "\<And>p. finite (dom (todo a p))"
  shows "few (elapse a)"
proof -
  have "card (dom (todo (elapse a) p)) \<le> 3" for p
  proof -
    have "dom (todo (elapse a) p) \<subseteq> (\<lambda>t. t - 1) ` dom (todo a p)"
      by (force simp: elapse_def split: if_splits)
    then have "card (dom (todo (elapse a) p)) \<le> card (dom (todo a p))"
      using assms(2) by (metis card_image_le card_mono finite_imageI order_trans)
    then show ?thesis using assms(1) by (simp add: few_def) (metis order_trans)
  qed
  then show ?thesis by (simp add: few_def)
qed

lemma few_everything: "few (everything x a)"
  by (simp add: few_def everything_def dom_def)

text \<open>The five commands of a piston.\<close>

definition moves :: "byte \<Rightarrow> byte \<Rightarrow> agenda \<Rightarrow> agenda" where
  "moves first second a =
     put PCMD_OFF first 551 (put PCMD_FILL first 501 (put PCMD_OFF second 500
       (put PCMD_FILL second 2 (put PCMD_VOID first 1 a))))"

section \<open>The board keeps its table in order\<close>

definition in_order :: "pneu \<Rightarrow> bool" where
  "in_order s \<longleftrightarrow> table_ok s \<and> few (agendaOf s)"

text \<open>The operation \<open>f\<close> of the board does \<open>g\<close> to the agenda and nothing else.\<close>

definition does :: "(pneu \<Rightarrow> pneu) \<Rightarrow> (agenda \<Rightarrow> agenda) \<Rightarrow> pneu \<Rightarrow> bool" where
  "does f g s \<longleftrightarrow> in_order (f s) \<and> agendaOf (f s) = g (agendaOf s) \<and> rest_of (f s) = rest_of s"

lemma does_trans: "does f g s \<Longrightarrow> does f' g' (f s) \<Longrightarrow> does (\<lambda>s. f' (f s)) (\<lambda>a. g' (g a)) s"
  by (simp add: does_def)

lemma addCmd_does:
  assumes "in_order s" and "p \<le> 11" and "1 \<le> c" and "c \<le> 551" and "{t \<in> dom (todoOf s p). t < c} \<subseteq> {u, v}"
  shows "does (addCmd x p c) (put x p c) s"
proof -
  have s: "table_ok s" "room s" "few (agendaOf s)" using assms(1) bounded_room by (auto simp: in_order_def)
  have "few (put x p c (agendaOf s))" by (rule few_put [OF s(3), of p c u v]) (use assms(5) in \<open>simp add: agendaOf_def\<close>)
  then show ?thesis using addCmd_refines [OF s(1,2) assms(2-4), of x] by (simp add: does_def in_order_def)
qed

lemma addCmd_first_does:
  assumes "in_order s" and "p \<le> 11"
  shows "does (addCmd x p 1) (put x p 1) s"
  by (rule addCmd_does [OF assms, of 1 0 0]) (use todoOf_dom [of s p] assms(1) in \<open>auto simp: in_order_def\<close>)

lemma movePiston_does:
  assumes "in_order s" and "first \<le> 11" and "second \<le> 11" and "first \<noteq> second"
  shows "does (movePiston first second) (moves first second) s"
proof -
  define s1 where "s1 = addCmd PCMD_VOID first 1 s"
  define s2 where "s2 = addCmd PCMD_FILL second 2 s1"
  define s3 where "s3 = addCmd PCMD_OFF second 500 s2"
  define s4 where "s4 = addCmd PCMD_FILL first 501 s3"
  have t: "todoOf u = todo (agendaOf u)" for u by (simp add: agendaOf_def)
  have pos: "in_order u \<Longrightarrow> t \<in> dom (todo (agendaOf u) p) \<Longrightarrow> 1 \<le> t" for u t p
    using todoOf_dom [of u p] by (auto simp: in_order_def agendaOf_def)
  have d1: "does (addCmd PCMD_VOID first 1) (put PCMD_VOID first 1) s" by (rule addCmd_first_does [OF assms(1,2)])
  then have s1: "in_order s1" "agendaOf s1 = put PCMD_VOID first 1 (agendaOf s)" by (simp_all add: does_def s1_def)
  have d2: "does (addCmd PCMD_FILL second 2) (put PCMD_FILL second 2) s1"
    by (rule addCmd_does [OF s1(1) assms(3), of 2 1 1]) (use pos [OF s1(1), of _ second] in \<open>force simp: t\<close>)+
  then have s2: "in_order s2" "agendaOf s2 = put PCMD_FILL second 2 (agendaOf s1)" by (simp_all add: does_def s2_def)
  have early: "{t \<in> dom (todo (agendaOf s1) second). t < 2} \<subseteq> {1}" using pos [OF s1(1), of _ second] by force
  have d3: "does (addCmd PCMD_OFF second 500) (put PCMD_OFF second 500) s2"
    by (rule addCmd_does [OF s2(1) assms(3), of 500 1 2])
       (use early in \<open>simp_all add: t s2(2) dom_put\<close>, auto)
  then have s3: "in_order s3" "agendaOf s3 = put PCMD_OFF second 500 (agendaOf s2)" by (simp_all add: does_def s3_def)
  have a3: "dom (todo (agendaOf s3) first) = {1}"
    using assms(4) pos [OF assms(1), of _ first] by (force simp: s3(2) s2(2) s1(2) dom_put)
  have d4: "does (addCmd PCMD_FILL first 501) (put PCMD_FILL first 501) s3"
    by (rule addCmd_does [OF s3(1) assms(2), of 501 1 1]) (simp_all add: t a3, auto)
  then have s4: "in_order s4" "agendaOf s4 = put PCMD_FILL first 501 (agendaOf s3)" by (simp_all add: does_def s4_def)
  have d5: "does (addCmd PCMD_OFF first 551) (put PCMD_OFF first 551) s4"
    by (rule addCmd_does [OF s4(1) assms(2), of 551 1 501]) (simp_all add: t s4(2) dom_put a3, auto)
  show ?thesis
    using d1 d2 d3 d4 d5
    by (simp add: does_def movePiston_def moves_def Let_def s1_def [symmetric] s2_def [symmetric] s3_def [symmetric] s4_def [symmetric])
qed

lemma in_order_update [simp]:
  "in_order (s\<lparr>said := b\<rparr>) = in_order s" "in_order (s\<lparr>buff := b\<rparr>) = in_order s" "in_order (s\<lparr>syncs := n\<rparr>) = in_order s"
  "in_order (s\<lparr>marker1_ext := e\<rparr>) = in_order s" "in_order (s\<lparr>marker2_ext := e\<rparr>) = in_order s"
  by (simp_all add: in_order_def table_ok_def sized_def agendaOf_def todoOf_def [abs_def])

lemma in_order_say [simp]: "in_order (say str s) = in_order s"
  by (simp add: say_def)

lemma in_order_addCmd: "in_order s \<Longrightarrow> p \<le> 11 \<Longrightarrow> in_order (addCmd x p 1 s)"
  using addCmd_first_does [of s p x] by (simp add: does_def)

lemma piston_pairs:
  assumes "k < 6"
  shows "PIST_EXT ! k \<le> 11" and "PIST_RET ! k \<le> 11" and "PIST_EXT ! k \<noteq> PIST_RET ! k"
proof -
  have "k \<in> {0, 1, 2, 3, 4, 5}" using assms by auto
  then show "PIST_EXT ! k \<le> 11" "PIST_RET ! k \<le> 11" "PIST_EXT ! k \<noteq> PIST_RET ! k" by (auto simp: pistons)
qed

lemma pistons_do:
  assumes "in_order s" and "k < 6"
  shows "does (extendPiston k) (moves (PIST_RET ! k) (PIST_EXT ! k)) s"
    and "does (retractPiston k) (moves (PIST_EXT ! k) (PIST_RET ! k)) s"
proof -
  have "length PIST_EXT = 6" by (simp add: PIST_EXT_def)
  then show "does (extendPiston k) (moves (PIST_RET ! k) (PIST_EXT ! k)) s" "does (retractPiston k) (moves (PIST_EXT ! k) (PIST_RET ! k)) s"
    using movePiston_does [OF assms(1) piston_pairs(2,1) [OF assms(2)] piston_pairs(3) [OF assms(2), symmetric]]
      movePiston_does [OF assms(1) piston_pairs(1,2,3) [OF assms(2)]] assms(2)
    by (simp_all add: does_def extendPiston_def retractPiston_def)
qed

lemma in_order_pistons: "in_order s \<Longrightarrow> in_order (extendPiston k s)" "in_order s \<Longrightarrow> in_order (retractPiston k s)"
proof -
  assume s: "in_order s"
  show "in_order (extendPiston k s)" "in_order (retractPiston k s)"
    using pistons_do [OF s, of k] s by (cases "k < 6"; simp add: does_def extendPiston_def retractPiston_def PIST_EXT_def)+
qed

lemma in_order_All: "in_order s \<Longrightarrow> in_order (voidAll s)" "in_order s \<Longrightarrow> in_order (offAll s)"
  by (simp_all add: in_order_def All_refines few_everything)

lemma in_order_tick: "in_order s \<Longrightarrow> in_order (pneu_T1Interrupt s)"
  using few_elapse [of "agendaOf s"] todoOf_finite [of s] by (simp add: in_order_def T1Interrupt_refines) (simp add: agendaOf_def)

lemmas in_orders = in_order_addCmd in_order_pistons in_order_All

lemma in_order_busCommand: "in_order s \<Longrightarrow> in_order (busCommand c s)"
  by (simp add: busCommand_def Let_def in_orders piston_pairs pistons)

lemma in_order_packet: "in_order s \<Longrightarrow> in_order (packet b s)"
  by (simp add: packet_def Let_def in_orders in_order_busCommand not_less)

lemma in_order_step: "in_order s \<Longrightarrow> in_order (pneu_step e s)"
  by (cases e) (simp_all add: pneu_byte_def syncByte_def Let_def in_order_packet in_order_tick)

lemma start_in_order: "length old = CMDCOUNT \<Longrightarrow> in_order (pneu_start old)"
proof -
  assume l: "length old = CMDCOUNT"
  have d: "\<not> live (pneu_start old) j" for j by (simp add: live_def pneu_start_def nth_replicate)
  have ok: "table_ok (pneu_start old)" using l d by (intro table_okI) (auto simp: sized_def pneu_start_def entry_def)
  have "todoOf (pneu_start old) = (\<lambda>p t. None)" by (rule todoOf_eqI [OF ok]) (use d in \<open>auto simp: entry_def\<close>)
  then show ?thesis using ok by (simp add: in_order_def few_def agendaOf_def dom_def)
qed

definition pneu_reachable :: "pneu \<Rightarrow> bool" where
  "pneu_reachable s \<longleftrightarrow> (\<exists>old evs. length old = CMDCOUNT \<and> s = fold pneu_step evs (pneu_start old))"

lemma reachable_in_order: "pneu_reachable s \<Longrightarrow> in_order s"
proof -
  have "in_order s \<Longrightarrow> in_order (fold pneu_step evs s)" for evs s
    by (induction evs arbitrary: s) (simp_all add: in_order_step)
  then show "pneu_reachable s \<Longrightarrow> in_order s" using start_in_order by (auto simp: pneu_reachable_def)
qed

section \<open>The table is an agenda\<close>

text \<open>
  Property C19.  Whatever bytes came and however often the timer struck, the table of 48 commands with
  its bit masks is an agenda without a limit: a step of the timer moves every agenda on by one and
  puts the valves where the commands due say, a new command takes out those for its pair that come no
  earlier and none else, a piston gets its five commands, the two emergency commands clear everything.
  At most 36 places are ever in use, so the complaint about a full table is never sent.
\<close>

theorem table_is_agenda:
  assumes "pneu_reachable s" and "p \<le> 11" and "1 \<le> c" and "c \<le> 551" and "k < 6"
  shows "agendaOf (pneu_T1Interrupt s) = elapse (agendaOf s)
    \<and> agendaOf (addCmd x p c s) = put x p c (agendaOf s) \<and> said (addCmd x p c s) = said s
    \<and> agendaOf (extendPiston k s) = moves (PIST_RET ! k) (PIST_EXT ! k) (agendaOf s) \<and> said (extendPiston k s) = said s
    \<and> agendaOf (retractPiston k s) = moves (PIST_EXT ! k) (PIST_RET ! k) (agendaOf s) \<and> said (retractPiston k s) = said s
    \<and> agendaOf (voidAll s) = everything PCMD_VOID (agendaOf s) \<and> agendaOf (offAll s) = everything PCMD_OFF (agendaOf s)
    \<and> card {j. live s j} \<le> 36"
proof -
  have s: "in_order s" by (rule reachable_in_order [OF assms(1)])
  then have t: "table_ok s" "room s" "few (agendaOf s)" using bounded_room by (simp_all add: in_order_def)
  show ?thesis
    using T1Interrupt_refines [OF t(1)] addCmd_refines [OF t(1,2) assms(2-4), of x] pistons_do [OF s assms(5)] All_refines [OF t(1)]
      entries_bounded [OF t(1,3)] by (simp add: does_def rest_of_def)
qed

lemma start_reachable: "length old = CMDCOUNT \<Longrightarrow> pneu_reachable (pneu_start old)"
  unfolding pneu_reachable_def by (rule exI [of _ old], rule exI [of _ "[]"]) simp

abbreviation no_entry :: CmdEnt where
  "no_entry \<equiv> \<lparr>ent_count = 0, ent_cmd = PCMD_OFF, ent_pair = 0\<rparr>"

theorem table_is_agenda_witness:
  "todo (agendaOf (addCmd PCMD_FILL 3 7 (pneu_start (replicate 48 no_entry)))) 3 7 = Some PCMD_FILL"
  using table_is_agenda [OF start_reachable [of "replicate 48 no_entry"], of 3 7 0 PCMD_FILL] by (simp add: put_def)

section \<open>Valves are never filled and voided at once\<close>

definition exclusive :: "pneu \<Rightarrow> bool" where
  "exclusive s \<longleftrightarrow> (\<forall>n. \<not> (FILL_PAIR s n \<and> VOID_PAIR s n))"

lemma fold_keeps: "P s \<Longrightarrow> (\<And>x s. P s \<Longrightarrow> P (f x s)) \<Longrightarrow> P (fold f xs s)"
  by (induction xs arbitrary: s) simp_all

lemma scanWord_relays:
  "FILL_PAIR (snd (scanWord p c i ks r)) = FILL_PAIR (snd r) \<and> VOID_PAIR (snd (scanWord p c i ks r)) = VOID_PAIR (snd r)"
  by (induction p c i ks r rule: scanWord.induct) (simp_all add: Let_def)

lemma scanTable_relays:
  "FILL_PAIR (snd (scanTable p c s)) = FILL_PAIR s \<and> VOID_PAIR (snd (scanTable p c s)) = VOID_PAIR s"
  unfolding scanTable_def
  by (rule fold_keeps [where P = "\<lambda>r. FILL_PAIR (snd r) = FILL_PAIR s \<and> VOID_PAIR (snd r) = VOID_PAIR s"])
     (auto simp: scanWord_relays split: prod.split)

lemma exclusive_addCmd: "exclusive (addCmd x p c s) = exclusive s"
  using scanTable_relays [of p c s]
  by (cases "scanTable p c s"; cases "fst (scanTable p c s)") (simp_all add: addCmd_def exclusive_def say_def Let_def)

lemma exclusive_handle:
  "exclusive s \<Longrightarrow> exclusive (fillPair q s)" "exclusive s \<Longrightarrow> exclusive (voidPair q s)" "exclusive s \<Longrightarrow> exclusive (turnOff q s)"
  by (auto simp: exclusive_def fillPair_def voidPair_def turnOff_def Let_def)

lemma exclusive_update [simp]:
  "exclusive (s\<lparr>cmds := x\<rparr>) = exclusive s" "exclusive (s\<lparr>cmdValid := v\<rparr>) = exclusive s" "exclusive (s\<lparr>said := b\<rparr>) = exclusive s"
  "exclusive (s\<lparr>buff := b\<rparr>) = exclusive s" "exclusive (s\<lparr>syncs := n\<rparr>) = exclusive s"
  "exclusive (s\<lparr>marker1_ext := e\<rparr>) = exclusive s" "exclusive (s\<lparr>marker2_ext := e\<rparr>) = exclusive s" "exclusive (say str s) = exclusive s"
  by (simp_all add: exclusive_def say_def)

lemma exclusive_handleCmd: "exclusive s \<Longrightarrow> exclusive (handleCmd x q s)"
  by (cases x) (simp_all add: handleCmd_def exclusive_handle)

lemma exclusive_All: "exclusive s \<Longrightarrow> exclusive (voidAll s)" "exclusive s \<Longrightarrow> exclusive (offAll s)"
  unfolding voidAll_def offAll_def by (rule fold_keeps; simp add: exclusive_handle)+

lemma exclusive_countDown: "exclusive s \<Longrightarrow> exclusive (countDown i k s)"
  by (simp add: countDown_def Let_def exclusive_handleCmd)

lemma exclusive_tick: "exclusive s \<Longrightarrow> exclusive (pneu_T1Interrupt s)"
  unfolding pneu_T1Interrupt_def
proof (erule fold_keeps)
  fix i s assume "exclusive s"
  then have "exclusive (fold (countDown i) [0..<16] s)" by (rule fold_keeps) (rule exclusive_countDown)
  then show "exclusive (if cmdValid s ! i = 0 then s else fold (countDown i) [0..<16] s)" using \<open>exclusive s\<close> by simp
qed

lemma exclusive_pistons: "exclusive (extendPiston k s) = exclusive s" "exclusive (retractPiston k s) = exclusive s"
  by (simp_all add: extendPiston_def retractPiston_def movePiston_def Let_def exclusive_addCmd)

lemmas exclusives = exclusive_addCmd exclusive_pistons exclusive_All exclusive_tick

lemma exclusive_packet: "exclusive s \<Longrightarrow> exclusive (packet b s)"
  by (simp add: packet_def busCommand_def Let_def exclusives)

lemma exclusive_step: "exclusive s \<Longrightarrow> exclusive (pneu_step e s)"
  by (cases e) (simp_all add: pneu_byte_def syncByte_def Let_def exclusive_packet exclusives)

text \<open>
  Property C20.  Whatever arrives, good packets or noise, and however often the timer strikes, no pair
  of valves is ever filled and voided at the same time.
\<close>

theorem valves_exclusive:
  "\<not> (FILL_PAIR (fold pneu_step evs (pneu_start old)) n \<and> VOID_PAIR (fold pneu_step evs (pneu_start old)) n)"
proof -
  have "exclusive (pneu_start old)" by (simp add: exclusive_def pneu_start_def)
  then have "exclusive (fold pneu_step evs (pneu_start old))" by (rule fold_keeps) (rule exclusive_step)
  then show ?thesis by (simp add: exclusive_def)
qed

section \<open>A piston in time\<close>

lemma elapse_todo: "todo ((elapse ^^ n) a) p t = (if n = 0 then todo a p t else if t \<ge> 1 then todo a p (t + int n) else None)"
  by (induction n arbitrary: t) (simp_all add: elapse_def add_ac)

lemma elapse_position:
  assumes "todo a p t = Some x" and "1 \<le> t" and "t \<le> int n" and "\<And>u. t < u \<Longrightarrow> u \<le> int n \<Longrightarrow> todo a p u = None"
  shows "position ((elapse ^^ n) a) p = x"
  using assms
proof (induction n)
  case (Suc n)
  have e: "position ((elapse ^^ Suc n) a) p = (case todo a p (int n + 1) of None \<Rightarrow> position ((elapse ^^ n) a) p | Some x \<Rightarrow> x)"
    by (simp add: elapse_def elapse_todo add_ac)
  show ?case
  proof (cases "t = int n + 1")
    case True
    then show ?thesis using Suc.prems(1) e by simp
  next
    case False
    then have "todo a p (int n + 1) = None" using Suc.prems(3,4) by simp
    then show ?thesis using False Suc e by simp
  qed
qed simp

lemma ticks_agenda: "in_order s \<Longrightarrow> agendaOf (fold pneu_step (replicate n Tick) s) = (elapse ^^ n) (agendaOf s)"
proof (induction n arbitrary: s)
  case (Suc n)
  then show ?case using in_order_tick [of s] T1Interrupt_refines(2) [of s] by (simp add: in_order_def funpow_swap1)
qed simp

lemma ticks_rest: "in_order s \<Longrightarrow> rest_of (fold pneu_step (replicate n Tick) s) = rest_of s"
proof (induction n arbitrary: s)
  case (Suc n)
  then show ?case using in_order_tick [of s] T1Interrupt_refines(3) [of s] by (simp add: in_order_def)
qed simp

text \<open>
  What the five commands of a piston make of the commands for its two pairs, \<open>first\<close> and \<open>second\<close>, and where they put
  the two pairs after \<open>n\<close> steps: \<open>old\<close> is where the pair would be without them.
\<close>

definition first_todo :: "(int \<Rightarrow> PairCommand option) \<Rightarrow> int \<Rightarrow> PairCommand option" where
  "first_todo f t =
     (if t < 1 then f t else if t = 1 then Some PCMD_VOID else if t = 501 then Some PCMD_FILL
      else if t = 551 then Some PCMD_OFF else None)"

definition second_todo :: "(int \<Rightarrow> PairCommand option) \<Rightarrow> int \<Rightarrow> PairCommand option" where
  "second_todo f t = (if t < 2 then f t else if t = 2 then Some PCMD_FILL else if t = 500 then Some PCMD_OFF else None)"

definition first_at :: "nat \<Rightarrow> PairCommand \<Rightarrow> PairCommand" where
  "first_at n old =
     (if n < 1 then old else if n < 501 then PCMD_VOID else if n < 551 then PCMD_FILL else PCMD_OFF)"

definition second_at :: "nat \<Rightarrow> PairCommand \<Rightarrow> PairCommand" where
  "second_at n old = (if n < 2 then old else if n < 500 then PCMD_FILL else PCMD_OFF)"

lemma moves_todo:
  assumes "first \<noteq> second"
  shows "todo (moves first second a) p = (if p = first then first_todo (todo a p)
    else if p = second then second_todo (todo a p) else todo a p)"
  using assms by (auto simp: moves_def put_todo first_todo_def second_todo_def fun_eq_iff)

lemma moves_position [simp]: "position (moves first second a) = position a"
  by (simp add: moves_def)

text \<open>Several pistons at once.\<close>

definition all_moves :: "(byte \<times> byte) list \<Rightarrow> agenda \<Rightarrow> agenda" where
  "all_moves ms = fold (\<lambda>(first, second). moves first second) ms"

lemma all_moves_todo:
  assumes "distinct (map fst ms @ map snd ms)"
  shows "todo (all_moves ms a) p = (if p \<in> fst ` set ms then first_todo (todo a p)
    else if p \<in> snd ` set ms then second_todo (todo a p) else todo a p)"
  using assms
proof (induction ms arbitrary: a)
  case Nil
  then show ?case by (simp add: all_moves_def)
next
  case (Cons m ms)
  obtain first second where m: "m = (first, second)" by force
  have d: "distinct (map fst ms @ map snd ms)" "first \<noteq> second" "first \<notin> fst ` set ms" "first \<notin> snd ` set ms"
    "second \<notin> fst ` set ms" "second \<notin> snd ` set ms"
    using Cons.prems by (auto simp: m)
  have "all_moves (m # ms) a = all_moves ms (moves first second a)" by (simp add: all_moves_def m)
  then show ?case using Cons.IH [OF d(1)] d(2-6) moves_todo [OF d(2), of a p] by (auto simp: m)
qed

lemma all_moves_position [simp]: "position (all_moves ms a) = position a"
  by (induction ms arbitrary: a) (auto simp: all_moves_def)

lemma elapse_local:
  assumes "\<And>t. t \<le> int n \<Longrightarrow> todo a p t = todo b p t" and "position a p = position b p"
  shows "position ((elapse ^^ n) a) p = position ((elapse ^^ n) b) p"
  using assms(1)
proof (induction n)
  case (Suc n)
  have e: "position (elapse d) p = (case todo d p 1 of None \<Rightarrow> position d p | Some x \<Rightarrow> x)" for d by (simp add: elapse_def)
  have "todo ((elapse ^^ n) a) p 1 = todo ((elapse ^^ n) b) p 1" using Suc.prems by (simp add: elapse_todo)
  then show ?case using Suc by (simp add: e split: option.split)
qed (simp add: assms(2))

lemma all_moves_in_time:
  assumes "distinct (map fst ms @ map snd ms)"
  shows "position ((elapse ^^ n) (all_moves ms a)) p = (let old = position ((elapse ^^ n) a) p in
    if p \<in> fst ` set ms then first_at n old else if p \<in> snd ` set ms then second_at n old else old)"
proof -
  let ?a = "all_moves ms a"
  note t = all_moves_todo [OF assms, of a p]
  consider (first) "p \<in> fst ` set ms" | (second) "p \<notin> fst ` set ms" "p \<in> snd ` set ms" | (other) "p \<notin> fst ` set ms" "p \<notin> snd ` set ms"
    by blast
  then show ?thesis
  proof cases
    case first
    then have f: "todo ?a p = first_todo (todo a p)" using t by simp
    show ?thesis
      using elapse_position [of ?a p 1 PCMD_VOID n] elapse_position [of ?a p 501 PCMD_FILL n] elapse_position [of ?a p 551 PCMD_OFF n]
        elapse_local [of n ?a p a] f first by (auto simp: first_todo_def first_at_def)
  next
    case second
    then have f: "todo ?a p = second_todo (todo a p)" using t by simp
    show ?thesis
      using elapse_position [of ?a p 2 PCMD_FILL n] elapse_position [of ?a p 500 PCMD_OFF n]
        elapse_local [of n ?a p a] f second by (auto simp: second_todo_def second_at_def)
  next
    case other
    then show ?thesis using elapse_local [of n ?a p a] t by simp
  qed
qed

text \<open>
  The packets that move pistons, without their checksum, and the pairs they void first and fill first: the commands of
  the motor board after the letters \<^verbatim>\<open>BC\<close>, of which a marker goes the way it did not go the last time, and the letters
  \<^verbatim>\<open>EX\<close> and \<^verbatim>\<open>RT\<close> with the number of a piston.
\<close>

definition piston_packets :: "pneu \<Rightarrow> (byte list \<times> (byte \<times> byte) list) list" where
  "piston_packets s =
     [([0x42, 0x43, BUS_CMD_FIRE_TORP_1], [(8, 10)]), ([0x42, 0x43, BUS_CMD_FIRE_TORP_2], [(9, 11)]),
      ([0x42, 0x43, BUS_CMD_ARM_TORP_1], [(10, 8)]), ([0x42, 0x43, BUS_CMD_ARM_TORP_2], [(11, 9)]),
      ([0x42, 0x43, BUS_CMD_EXT_GRABBER], [(0, 2), (1, 3)]), ([0x42, 0x43, BUS_CMD_RET_GRABBER], [(2, 0), (3, 1)]),
      ([0x42, 0x43, BUS_CMD_MARKER1], [if marker1_ext s then (4, 6) else (6, 4)]),
      ([0x42, 0x43, BUS_CMD_MARKER2], [if marker2_ext s then (5, 7) else (7, 5)]),
      ([0x45, 0x58, 0], [(0, 2)]), ([0x45, 0x58, 1], [(1, 3)]), ([0x45, 0x58, 2], [(6, 4)]),
      ([0x45, 0x58, 3], [(7, 5)]), ([0x45, 0x58, 4], [(10, 8)]), ([0x45, 0x58, 5], [(11, 9)]),
      ([0x52, 0x54, 0], [(2, 0)]), ([0x52, 0x54, 1], [(3, 1)]), ([0x52, 0x54, 2], [(4, 6)]),
      ([0x52, 0x54, 3], [(5, 7)]), ([0x52, 0x54, 4], [(8, 10)]), ([0x52, 0x54, 5], [(9, 11)])]"

definition checked :: "byte list \<Rightarrow> byte list" where
  "checked bs = bs @ [sum_list bs]"

lemma packet_taken:
  assumes "syncs s = 4" and "buff s = []" and "length bs = 3"
  shows "fold pneu_step (map Rx (checked bs)) s = packet (checked bs) s"
proof -
  obtain x y z where bs: "bs = [x, y, z]" using assms(3) by (auto simp: numeral_3_eq_3 length_Suc_conv)
  show ?thesis using assms(1,2) by (cases s) (simp add: bs checked_def pneu_byte_def)
qed

text \<open>What a packet does to the agenda and to the two markers.\<close>

definition carries :: "(pneu \<Rightarrow> pneu) \<Rightarrow> (byte \<times> byte) list \<Rightarrow> pneu \<Rightarrow> bool" where
  "carries f ms s \<longleftrightarrow> in_order (f s) \<and> agendaOf (f s) = all_moves ms (agendaOf s)"

lemma carries_pistons:
  assumes "in_order s" and "k < 6"
  shows "carries (extendPiston k) [(PIST_RET ! k, PIST_EXT ! k)] s" and "carries (retractPiston k) [(PIST_EXT ! k, PIST_RET ! k)] s"
  using pistons_do [OF assms] by (simp_all add: carries_def does_def all_moves_def)

lemma carries_two: "carries f ms s \<Longrightarrow> carries g ns (f s) \<Longrightarrow> carries (\<lambda>s. g (f s)) (ms @ ns) s"
  by (simp add: carries_def all_moves_def)

lemma agendaOf_update [simp]:
  "agendaOf (s\<lparr>said := b\<rparr>) = agendaOf s" "agendaOf (s\<lparr>marker1_ext := e\<rparr>) = agendaOf s" "agendaOf (s\<lparr>marker2_ext := e\<rparr>) = agendaOf s"
  "agendaOf (say str s) = agendaOf s"
  by (simp_all add: say_def agendaOf_def todoOf_def [abs_def])

lemma markers_kept:
  assumes "in_order s" and "k < 6"
  shows "marker1_ext (extendPiston k s) = marker1_ext s" "marker2_ext (extendPiston k s) = marker2_ext s"
    "marker1_ext (retractPiston k s) = marker1_ext s" "marker2_ext (retractPiston k s) = marker2_ext s"
  using pistons_do [OF assms] by (simp_all add: does_def rest_of_def)

lemma grabber_carries:
  assumes "in_order s"
  shows "carries (\<lambda>s. extendPiston 1 (extendPiston 0 s)) [(0, 2), (1, 3)] s"
    and "carries (\<lambda>s. retractPiston 1 (retractPiston 0 s)) [(2, 0), (3, 1)] s"
proof -
  have k: "(0 :: nat) < 6" "(1 :: nat) < 6" by simp_all
  show "carries (\<lambda>s. extendPiston 1 (extendPiston 0 s)) [(0, 2), (1, 3)] s"
    using carries_two [OF carries_pistons(1) [OF assms k(1)] carries_pistons(1) [OF in_order_pistons(1) [OF assms] k(2)]]
    by (simp add: pistons)
  show "carries (\<lambda>s. retractPiston 1 (retractPiston 0 s)) [(2, 0), (3, 1)] s"
    using carries_two [OF carries_pistons(2) [OF assms k(1)] carries_pistons(2) [OF in_order_pistons(2) [OF assms] k(2)]]
    by (simp add: pistons)
qed

lemma packet_kinds:
  "packet (checked [0x42, 0x43, c]) s = busCommand c (say ''K'' s)"
  "c \<le> 5 \<Longrightarrow> packet (checked [0x45, 0x58, c]) s = extendPiston (unat c) (say ''K'' s)"
  "c \<le> 5 \<Longrightarrow> packet (checked [0x52, 0x54, c]) s = retractPiston (unat c) (say ''K'' s)"
  by (simp_all add: packet_def checked_def Let_def add.assoc not_less)

text \<open>The packet as operations on pistons.\<close>

lemma piston_commands:
  "busCommand BUS_CMD_FIRE_TORP_1 s = retractPiston 4 s" "busCommand BUS_CMD_FIRE_TORP_2 s = retractPiston 5 s"
  "busCommand BUS_CMD_ARM_TORP_1 s = extendPiston 4 s" "busCommand BUS_CMD_ARM_TORP_2 s = extendPiston 5 s"
  "busCommand BUS_CMD_EXT_GRABBER s = extendPiston 1 (extendPiston 0 s)"
  "busCommand BUS_CMD_RET_GRABBER s = retractPiston 1 (retractPiston 0 s)"
  "busCommand BUS_CMD_MARKER1 s =
     (let t = if marker1_ext s then retractPiston 2 s else extendPiston 2 s in t\<lparr>marker1_ext := \<not> marker1_ext t\<rparr>)"
  "busCommand BUS_CMD_MARKER2 s =
     (let t = if marker2_ext s then retractPiston 3 s else extendPiston 3 s in t\<lparr>marker2_ext := \<not> marker2_ext t\<rparr>)"
  by (simp_all add: busCommand_def Let_def codes GRABBER_1_PIST_def GRABBER_2_PIST_def MARKER_1_PIST_def MARKER_2_PIST_def
      TORP_1_PIST_def TORP_2_PIST_def)

definition moved :: "byte list \<Rightarrow> (byte \<times> byte) list \<Rightarrow> pneu \<Rightarrow> pneu \<Rightarrow> bool" where
  "moved bs ms s t \<longleftrightarrow> in_order t \<and> agendaOf t = all_moves ms (agendaOf s)
     \<and> marker1_ext t = (marker1_ext s \<noteq> (bs = [0x42, 0x43, BUS_CMD_MARKER1]))
     \<and> marker2_ext t = (marker2_ext s \<noteq> (bs = [0x42, 0x43, BUS_CMD_MARKER2]))"

lemma moved_carries:
  assumes "carries f ms (say ''K'' s)" and "marker1_ext (f (say ''K'' s)) = marker1_ext s" and "marker2_ext (f (say ''K'' s)) = marker2_ext s"
    and "t = f (say ''K'' s)" and "bs \<noteq> [0x42, 0x43, BUS_CMD_MARKER1]" and "bs \<noteq> [0x42, 0x43, BUS_CMD_MARKER2]"
  shows "moved bs ms s t"
  using assms by (simp add: moved_def carries_def)

lemma single_moved:
  assumes "in_order s" and "k < 6" and "bs \<noteq> [0x42, 0x43, BUS_CMD_MARKER1]" and "bs \<noteq> [0x42, 0x43, BUS_CMD_MARKER2]"
  shows "moved bs [(PIST_RET ! k, PIST_EXT ! k)] s (extendPiston k (say ''K'' s))"
    and "moved bs [(PIST_EXT ! k, PIST_RET ! k)] s (retractPiston k (say ''K'' s))"
proof -
  have s: "in_order (say ''K'' s)" "marker1_ext (say ''K'' s) = marker1_ext s" "marker2_ext (say ''K'' s) = marker2_ext s"
    using assms(1) by simp_all (simp_all add: say_def)
  show "moved bs [(PIST_RET ! k, PIST_EXT ! k)] s (extendPiston k (say ''K'' s))"
    by (rule moved_carries [OF carries_pistons(1) [OF s(1) assms(2)] _ _ refl assms(3,4)]) (simp_all add: markers_kept [OF s(1) assms(2)] s)
  show "moved bs [(PIST_EXT ! k, PIST_RET ! k)] s (retractPiston k (say ''K'' s))"
    by (rule moved_carries [OF carries_pistons(2) [OF s(1) assms(2)] _ _ refl assms(3,4)]) (simp_all add: markers_kept [OF s(1) assms(2)] s)
qed

lemma marker_moved:
  assumes "in_order s"
  shows "moved [0x42, 0x43, BUS_CMD_MARKER1] [if marker1_ext s then (4, 6) else (6, 4)] s (packet (checked [0x42, 0x43, BUS_CMD_MARKER1]) s)"
    and "moved [0x42, 0x43, BUS_CMD_MARKER2] [if marker2_ext s then (5, 7) else (7, 5)] s (packet (checked [0x42, 0x43, BUS_CMD_MARKER2]) s)"
proof -
  have m: "marker1_ext (say ''K'' s) = marker1_ext s" "marker2_ext (say ''K'' s) = marker2_ext s" by (simp_all add: say_def)
  have k: "(2 :: nat) < 6" "(3 :: nat) < 6" "[] \<noteq> [0x42, 0x43, BUS_CMD_MARKER1]" "[] \<noteq> [0x42, 0x43, BUS_CMD_MARKER2]" by simp_all
  note e = single_moved [OF assms k(1,3,4)] single_moved [OF assms k(2,3,4)]
  have d: "BUS_CMD_MARKER1 \<noteq> BUS_CMD_MARKER2" by (simp add: codes)
  show "moved [0x42, 0x43, BUS_CMD_MARKER1] [if marker1_ext s then (4, 6) else (6, 4)] s (packet (checked [0x42, 0x43, BUS_CMD_MARKER1]) s)"
    using e(1,2) d unfolding packet_kinds piston_commands m Let_def by (auto simp: moved_def pistons)
  show "moved [0x42, 0x43, BUS_CMD_MARKER2] [if marker2_ext s then (5, 7) else (7, 5)] s (packet (checked [0x42, 0x43, BUS_CMD_MARKER2]) s)"
    using e(3,4) d unfolding packet_kinds piston_commands m Let_def by (auto simp: moved_def pistons)
qed

lemma grabber_moved:
  assumes "in_order s"
  shows "moved [0x42, 0x43, BUS_CMD_EXT_GRABBER] [(0, 2), (1, 3)] s (packet (checked [0x42, 0x43, BUS_CMD_EXT_GRABBER]) s)"
    and "moved [0x42, 0x43, BUS_CMD_RET_GRABBER] [(2, 0), (3, 1)] s (packet (checked [0x42, 0x43, BUS_CMD_RET_GRABBER]) s)"
proof -
  have s: "in_order (say ''K'' s)" "marker1_ext (say ''K'' s) = marker1_ext s" "marker2_ext (say ''K'' s) = marker2_ext s"
    using assms(1) by simp_all (simp_all add: say_def)
  have k: "(0 :: nat) < 6" "(1 :: nat) < 6" by simp_all
  note t = in_order_pistons(1) [OF s(1), of 0] in_order_pistons(2) [OF s(1), of 0]
  have n: "[0x42, 0x43, BUS_CMD_EXT_GRABBER] \<noteq> [0x42, 0x43, BUS_CMD_MARKER1]" "[0x42, 0x43, BUS_CMD_EXT_GRABBER] \<noteq> [0x42, 0x43, BUS_CMD_MARKER2]"
    "[0x42, 0x43, BUS_CMD_RET_GRABBER] \<noteq> [0x42, 0x43, BUS_CMD_MARKER1]" "[0x42, 0x43, BUS_CMD_RET_GRABBER] \<noteq> [0x42, 0x43, BUS_CMD_MARKER2]"
    by (simp_all add: codes)
  show "moved [0x42, 0x43, BUS_CMD_EXT_GRABBER] [(0, 2), (1, 3)] s (packet (checked [0x42, 0x43, BUS_CMD_EXT_GRABBER]) s)"
    unfolding packet_kinds piston_commands
    by (rule moved_carries [OF grabber_carries(1) [OF s(1)] _ _ refl n(1,2)])
      (simp_all add: markers_kept(1,2) [OF t(1) k(2)] markers_kept(1,2) [OF s(1) k(1)] s(2,3) del: One_nat_def)
  show "moved [0x42, 0x43, BUS_CMD_RET_GRABBER] [(2, 0), (3, 1)] s (packet (checked [0x42, 0x43, BUS_CMD_RET_GRABBER]) s)"
    unfolding packet_kinds piston_commands
    by (rule moved_carries [OF grabber_carries(2) [OF s(1)] _ _ refl n(3,4)])
      (simp_all add: markers_kept(3,4) [OF t(2) k(2)] markers_kept(3,4) [OF s(1) k(1)] s(2,3) del: One_nat_def)
qed

lemma lettered_moved:
  assumes "in_order s" and "c \<le> 5"
  shows "moved [0x45, 0x58, c] [(PIST_RET ! unat c, PIST_EXT ! unat c)] s (packet (checked [0x45, 0x58, c]) s)"
    and "moved [0x52, 0x54, c] [(PIST_EXT ! unat c, PIST_RET ! unat c)] s (packet (checked [0x52, 0x54, c]) s)"
proof -
  have k: "unat c < 6" using assms(2) by (simp add: word_le_nat_alt)
  show "moved [0x45, 0x58, c] [(PIST_RET ! unat c, PIST_EXT ! unat c)] s (packet (checked [0x45, 0x58, c]) s)"
    unfolding packet_kinds(2) [OF assms(2)] by (rule single_moved(1) [OF assms(1) k]) simp_all
  show "moved [0x52, 0x54, c] [(PIST_EXT ! unat c, PIST_RET ! unat c)] s (packet (checked [0x52, 0x54, c]) s)"
    unfolding packet_kinds(3) [OF assms(2)] by (rule single_moved(2) [OF assms(1) k]) simp_all
qed

lemma torpedo_moved:
  assumes "in_order s"
  shows "moved [0x42, 0x43, BUS_CMD_FIRE_TORP_1] [(8, 10)] s (packet (checked [0x42, 0x43, BUS_CMD_FIRE_TORP_1]) s)"
    and "moved [0x42, 0x43, BUS_CMD_FIRE_TORP_2] [(9, 11)] s (packet (checked [0x42, 0x43, BUS_CMD_FIRE_TORP_2]) s)"
    and "moved [0x42, 0x43, BUS_CMD_ARM_TORP_1] [(10, 8)] s (packet (checked [0x42, 0x43, BUS_CMD_ARM_TORP_1]) s)"
    and "moved [0x42, 0x43, BUS_CMD_ARM_TORP_2] [(11, 9)] s (packet (checked [0x42, 0x43, BUS_CMD_ARM_TORP_2]) s)"
proof -
  have k: "(4 :: nat) < 6" "(5 :: nat) < 6" by simp_all
  note e = single_moved [OF assms]
  have d: "c \<in> {BUS_CMD_FIRE_TORP_1, BUS_CMD_FIRE_TORP_2, BUS_CMD_ARM_TORP_1, BUS_CMD_ARM_TORP_2} \<Longrightarrow>
      [0x42, 0x43, c] \<noteq> [0x42, 0x43, BUS_CMD_MARKER1] \<and> [0x42, 0x43, c] \<noteq> [0x42, 0x43, BUS_CMD_MARKER2]" for c
    by (auto simp: codes)
  show "moved [0x42, 0x43, BUS_CMD_FIRE_TORP_1] [(8, 10)] s (packet (checked [0x42, 0x43, BUS_CMD_FIRE_TORP_1]) s)"
    using e(2) [OF k(1), of "[0x42, 0x43, BUS_CMD_FIRE_TORP_1]"] d unfolding packet_kinds piston_commands by (simp add: pistons)
  show "moved [0x42, 0x43, BUS_CMD_FIRE_TORP_2] [(9, 11)] s (packet (checked [0x42, 0x43, BUS_CMD_FIRE_TORP_2]) s)"
    using e(2) [OF k(2), of "[0x42, 0x43, BUS_CMD_FIRE_TORP_2]"] d unfolding packet_kinds piston_commands by (simp add: pistons)
  show "moved [0x42, 0x43, BUS_CMD_ARM_TORP_1] [(10, 8)] s (packet (checked [0x42, 0x43, BUS_CMD_ARM_TORP_1]) s)"
    using e(1) [OF k(1), of "[0x42, 0x43, BUS_CMD_ARM_TORP_1]"] d unfolding packet_kinds piston_commands by (simp add: pistons)
  show "moved [0x42, 0x43, BUS_CMD_ARM_TORP_2] [(11, 9)] s (packet (checked [0x42, 0x43, BUS_CMD_ARM_TORP_2]) s)"
    using e(1) [OF k(2), of "[0x42, 0x43, BUS_CMD_ARM_TORP_2]"] d unfolding packet_kinds piston_commands by (simp add: pistons)
qed

lemma packet_moves:
  assumes "in_order s" and "(bs, ms) \<in> set (piston_packets s)"
  shows "moved bs ms s (packet (checked bs) s)" and "length bs = 3" and "distinct (map fst ms @ map snd ms)"
proof -
  have c: "(0 :: byte) \<le> 5" "(1 :: byte) \<le> 5" "(2 :: byte) \<le> 5" "(3 :: byte) \<le> 5" "(4 :: byte) \<le> 5" "(5 :: byte) \<le> 5" by simp_all
  note l = lettered_moved [OF assms(1)]
  have "list_all (\<lambda>(bs, ms). moved bs ms s (packet (checked bs) s) \<and> length bs = 3 \<and> distinct (map fst ms @ map snd ms)) (piston_packets s)"
    using torpedo_moved [OF assms(1)] grabber_moved [OF assms(1)] marker_moved [OF assms(1)]
      l [OF c(1)] l [OF c(2)] l [OF c(3)] l [OF c(4)] l [OF c(5)] l [OF c(6)]
    unfolding piston_packets_def list.pred_inject prod.case by (simp add: pistons)
  then show "moved bs ms s (packet (checked bs) s)" "length bs = 3" "distinct (map fst ms @ map snd ms)"
    using assms(2) unfolding list_all_iff by blast+
qed

text \<open>
  Property C21.  A good packet that moves a piston or the two of the grabber, from the motor board or with the letters
  \<^verbatim>\<open>EX\<close> and \<^verbatim>\<open>RT\<close>, moves it as long as no other packet comes: its first pair of valves is voided one step of the timer
  later, filled after 501 and closed after 551; its second pair is filled after two and closed after 500; and at no
  other step does either pair move, but for a command that the second had for the very next step.  Whatever the table
  held before, every other pair is at every step where it would have been without the packet, and a marker remembers
  which way it went.
\<close>

theorem piston_in_time:
  assumes "pneu_reachable s" and "syncs s = 4" and "buff s = []" and "(bs, ms) \<in> set (piston_packets s)"
    and "s' = fold pneu_step (map Rx (checked bs) @ replicate n Tick) s" and "old = positionOf (fold pneu_step (replicate n Tick) s)"
  shows "positionOf s' p =
      (if p \<in> fst ` set ms
       then if n < 1 then old p else if n < 501 then PCMD_VOID else if n < 551 then PCMD_FILL else PCMD_OFF
       else if p \<in> snd ` set ms then if n < 2 then old p else if n < 500 then PCMD_FILL else PCMD_OFF
       else old p)
    \<and> marker1_ext s' = (marker1_ext s \<noteq> (bs = [0x42, 0x43, BUS_CMD_MARKER1]))
    \<and> marker2_ext s' = (marker2_ext s \<noteq> (bs = [0x42, 0x43, BUS_CMD_MARKER2]))"
proof -
  have s: "in_order s" by (rule reachable_in_order [OF assms(1)])
  note c = packet_moves [OF s assms(4)]
  have b: "in_order (packet (checked bs) s)" "agendaOf (packet (checked bs) s) = all_moves ms (agendaOf s)"
    using c(1) by (simp_all add: moved_def)
  have s': "s' = fold pneu_step (replicate n Tick) (packet (checked bs) s)"
    by (simp add: assms(5) packet_taken [OF assms(2,3) c(2)])
  have p: "positionOf u q = position (agendaOf u) q" for u q by (simp add: agendaOf_def)
  have "positionOf s' p = (let old = old p in if p \<in> fst ` set ms then first_at n old else if p \<in> snd ` set ms then second_at n old else old)"
    unfolding s' assms(6) p ticks_agenda [OF b(1)] ticks_agenda [OF s] b(2) by (rule all_moves_in_time [OF c(3)])
  moreover have "marker1_ext s' = marker1_ext (packet (checked bs) s)" "marker2_ext s' = marker2_ext (packet (checked bs) s)"
    using ticks_rest [OF b(1), of n] by (simp_all add: s' rest_of_def)
  ultimately show ?thesis using c(1) by (simp add: moved_def first_at_def second_at_def Let_def)
qed

text \<open>The first marker, half a second after the start sequence and the packet.\<close>

definition synced_board :: pneu where
  "synced_board = fold pneu_step (map Rx [0xDE, 0xAF, 0xBE, 0xEF]) (pneu_start (replicate 48 no_entry))"

lemma synced_board: "pneu_reachable synced_board" "syncs synced_board = 4" "buff synced_board = []" "marker1_ext synced_board"
proof -
  show "pneu_reachable synced_board"
    unfolding pneu_reachable_def synced_board_def by (rule exI [of _ "replicate 48 no_entry"], rule exI [of _ "map Rx [0xDE, 0xAF, 0xBE, 0xEF]"]) simp
  show "syncs synced_board = 4" "buff synced_board = []" "marker1_ext synced_board"
    by code_simp+
qed

theorem piston_in_time_witness:
  "positionOf (fold pneu_step (map Rx [0x42, 0x43, BUS_CMD_MARKER1, 0x85 + BUS_CMD_MARKER1] @ replicate 25 Tick) synced_board) 6 = PCMD_FILL
   \<and> \<not> marker1_ext (fold pneu_step (map Rx [0x42, 0x43, BUS_CMD_MARKER1, 0x85 + BUS_CMD_MARKER1] @ replicate 25 Tick) synced_board)"
proof -
  let ?bs = "[0x42, 0x43, BUS_CMD_MARKER1]"
  have t: "(?bs, [(4, 6)]) \<in> set (piston_packets synced_board)" using synced_board(4) by (simp add: piston_packets_def)
  have "checked ?bs = ?bs @ [0x85 + BUS_CMD_MARKER1]" by (simp add: checked_def codes)
  then show ?thesis
    using piston_in_time [OF synced_board(1-3) t refl refl, of 25 6] synced_board(4) by simp
qed

end
