(* ===== verification/Balancer.thy ===== *)
theory Balancer
  imports SlaveCore
begin

text \<open>
  The battery balancer \<^verbatim>\<open>sbr9/balancer.c\<close>, built as the file is, with \<^verbatim>\<open>BBR3\<close>: the switches of the six
  batteries, the power kill with the water sensor, the measurements of the loop of \<^verbatim>\<open>main\<close>, and the lamp
  that warns of a low battery.  The board has no serial ports (\<^verbatim>\<open>HAS_UART\<close> is not defined for it).
\<close>

section \<open>State\<close>

definition BATT_COUNT :: nat where "BATT_COUNT = 6"
definition BATT_ON :: bool where "BATT_ON = True"
definition BATT_ENABLE :: bool where "BATT_ENABLE = False"
definition PWRKILL_ON :: bool where "PWRKILL_ON = False"
definition BB_LED_ON :: bool where "BB_LED_ON = False"
definition BB_IHISTORY_SIZE :: nat where "BB_IHISTORY_SIZE = 32"

lemmas levels = BATT_ON_def BATT_ENABLE_def PWRKILL_ON_def BB_LED_ON_def

text \<open>
  \<open>IN_BATT n\<close> and \<open>BATT_CTL n\<close> are the pins \<^verbatim>\<open>IN_BATT1\<close> to \<^verbatim>\<open>IN_BATT6\<close> and \<^verbatim>\<open>LAT_BATT1_CTL\<close> to \<^verbatim>\<open>LAT_BATT6_CTL\<close>.
  The enable bits of the two change notifications come next, then the measurements and the history of the
  current sensors, the state of the lamp, and the locals of \<^verbatim>\<open>main\<close>.
\<close>

record balancer = core +
  IN_BATT :: "nat \<Rightarrow> bool"
  IN_WTRSEN :: bool
  BATT_CTL :: "nat \<Rightarrow> bool"
  LAT_PWRKILL :: bool
  WATER_CN_BIT :: bool
  LED_BATTLOW :: bool
  bb_temp :: byte
  vBatt :: "word16 list"
  iBatt :: "word16 list"
  iHistory :: "word16 list list"
  battlowState :: byte
  battlowEnabled :: byte
  PR3 :: word16
  bb_writeIndex :: byte
  bb_errCount :: byte

section \<open>Commands of the master\<close>

text \<open>The case labels that come once per battery.\<close>

definition battOffCodes :: "(byte \<times> nat) list" where
  "battOffCodes = [(BUS_CMD_BATT1_OFF, 1), (BUS_CMD_BATT2_OFF, 2), (BUS_CMD_BATT3_OFF, 3), (BUS_CMD_BATT4_OFF, 4),
     (BUS_CMD_BATT5_OFF, 5), (BUS_CMD_BATT6_OFF, 6)]"

definition battOnCodes :: "(byte \<times> nat) list" where
  "battOnCodes = [(BUS_CMD_BATT1_ON, 1), (BUS_CMD_BATT2_ON, 2), (BUS_CMD_BATT3_ON, 3), (BUS_CMD_BATT4_ON, 4),
     (BUS_CMD_BATT5_ON, 5), (BUS_CMD_BATT6_ON, 6)]"

text \<open>\<^verbatim>\<open>if(pin n) txBuf[1] |= 1 << (n-1);\<close> for the six batteries.\<close>

definition gather :: "(nat \<Rightarrow> bool) \<Rightarrow> byte" where
  "gather pin = fold (\<lambda>n t. if pin n then t OR push_bit (n - 1) 1 else t) [6, 5, 4, 3, 2, 1] 0"

definition boardStatus :: "balancer \<Rightarrow> byte" where
  "boardStatus s = gather (\<lambda>n. IN_BATT s n = BATT_ON) OR (if \<not> IN_WTRSEN s then 0x80 else 0)"

definition battState :: "balancer \<Rightarrow> byte" where
  "battState s = gather (\<lambda>n. BATT_CTL s n = BATT_ENABLE)"

definition extPower :: "balancer \<Rightarrow> balancer" where
  "extPower s = s\<lparr>BATT_CTL := (BATT_CTL s)(6 := BATT_ENABLE, 5 := \<not> BATT_ENABLE, 1 := \<not> BATT_ENABLE,
     2 := \<not> BATT_ENABLE, 3 := \<not> BATT_ENABLE, 4 := \<not> BATT_ENABLE)\<rparr>"

definition intPower :: "balancer \<Rightarrow> balancer" where
  "intPower s = s\<lparr>BATT_CTL := (BATT_CTL s)(1 := BATT_ENABLE, 2 := BATT_ENABLE, 3 := BATT_ENABLE,
     4 := BATT_ENABLE, 5 := BATT_ENABLE, 6 := \<not> BATT_ENABLE)\<rparr>"

text \<open>\<^verbatim>\<open>t = v[i]; txBuf[2*i+1] = t >> 8; txBuf[2*i+2] = t & 0xFF;\<close> for the first \<open>n\<close> entries.\<close>

definition putWords :: "nat \<Rightarrow> word16 list \<Rightarrow> balancer \<Rightarrow> balancer" where
  "putWords n ts s =
     fold (\<lambda>i s. putTx (2 * i + 2) (ucast (ts ! i AND 0xFF)) (putTx (2 * i + 1) (ucast (drop_bit 8 (ts ! i))) s)) [0..<n] s"

definition balancer_command :: "byte \<Rightarrow> balancer \<Rightarrow> balancer" where
  "balancer_command data s =
     (case map_of battOffCodes data of Some n \<Rightarrow> s\<lparr>BATT_CTL := (BATT_CTL s)(n := \<not> BATT_ENABLE)\<rparr> | None \<Rightarrow>
      case map_of battOnCodes data of Some n \<Rightarrow> s\<lparr>BATT_CTL := (BATT_CTL s)(n := BATT_ENABLE)\<rparr> | None \<Rightarrow>
      if data = BUS_CMD_PING then putTx 0 0 s
      else if data = BUS_CMD_ID then putString ''BAL WTR PWR'' s
      else if data = BUS_CMD_READ_REG then expect STATE_READ_CMD s
      else if data = BUS_CMD_WRITE_REG then expect STATE_WRITE_CMD s
      else if data = BUS_CMD_SETSPEED_U1 then expect STATE_SETSPEED_U1 s
      else if data = BUS_CMD_SETSPEED_U2 then expect STATE_SETSPEED_U2 s
      else if data = BUS_CMD_BOARDSTATUS then putTx 1 (boardStatus s) (putTx 0 1 s)
      else if data = BUS_CMD_TEMP then putTx 1 (bb_temp s) (putTx 0 1 s)
      else if data = BUS_CMD_EXTPOWER then extPower s
      else if data = BUS_CMD_INTPOWER then intPower s
      else if data = BUS_CMD_HARDKILL then s\<lparr>LAT_PWRKILL := PWRKILL_ON\<rparr>
      else if data = BUS_CMD_BATTSTATE then putTx 1 (battState s) (putTx 0 1 s)
      else if data = BUS_CMD_BATTVOLTAGE then putWords (BATT_COUNT + 1) (vBatt s) (putTx 0 14 s)
      else if data = BUS_CMD_BATTCURRENT then putWords BATT_COUNT (iBatt s) (putTx 0 12 s)
      else s)"

text \<open>There is no case for the two states of the serial ports: a byte in them is ignored.\<close>

definition balancer_processData :: "byte \<Rightarrow> balancer \<Rightarrow> balancer option" where
  "balancer_processData data s =
     (let s = s\<lparr>txPtr := 0\<rparr> in
      if busState s = STATE_TOP_LEVEL then Some (balancer_command data s)
      else if busState s = STATE_READ_CMD then readRegArg data s
      else if busState s = STATE_WRITE_CMD then writeRegArg data s
      else Some s)"

definition balancer_chip :: "balancer chip" where
  "balancer_chip = \<lparr>process = balancer_processData, next_tx = nextTx\<rparr>"

lemma balancer_chip_simps [simp]: "process balancer_chip = balancer_processData" "next_tx balancer_chip = nextTx"
  by (simp_all add: balancer_chip_def)

definition balancer_checkBus :: "bool \<Rightarrow> bool \<Rightarrow> byte \<Rightarrow> balancer slave \<Rightarrow> balancer slave" where
  "balancer_checkBus = checkBus balancer_chip"

section \<open>Water\<close>

text \<open>\<^verbatim>\<open>_CNInterrupt\<close>, before it looks at the bus.\<close>

definition water_CNInterrupt :: "balancer \<Rightarrow> balancer" where
  "water_CNInterrupt s = (if WATER_CN_BIT s \<and> \<not> IN_WTRSEN s then s\<lparr>LAT_PWRKILL := PWRKILL_ON\<rparr> else s)"

text \<open>Both are there, but nothing calls them: the call in \<^verbatim>\<open>initCN\<close> is a comment.\<close>

definition enableWaterInterrupt :: "balancer \<Rightarrow> balancer" where
  "enableWaterInterrupt s = s\<lparr>WATER_CN_BIT := True\<rparr>"

definition disableWaterInterrupt :: "balancer \<Rightarrow> balancer" where
  "disableWaterInterrupt s = s\<lparr>WATER_CN_BIT := False\<rparr>"

section \<open>The lamp\<close>

text \<open>\<^verbatim>\<open>long vb\<close>: a 16-bit voltage less 24500, times three, is far from the bounds of 32 bits.\<close>

definition battlowOffTime :: "balancer \<Rightarrow> int \<times> balancer" where
  "battlowOffTime s =
     (let vb = uint (vBatt s ! 6) - 24500;
          vb = (if vb \<le> 0 then 1 else vb) * 3
      in if vb > 9000 then (50, s\<lparr>battlowEnabled := 0\<rparr>) else (vb, s\<lparr>battlowEnabled := 1\<rparr>))"

definition bb_T3Interrupt :: "balancer \<Rightarrow> balancer" where
  "bb_T3Interrupt s =
     (let s = s\<lparr>LED_BATTLOW := \<not> BB_LED_ON\<rparr> in
      if battlowState s = 0
      then let s = s\<lparr>battlowState := 1\<rparr>;
               s = (if battlowEnabled s = 1 then s\<lparr>LED_BATTLOW := BB_LED_ON\<rparr> else s)
           in s\<lparr>PR3 := 200\<rparr>
      else let s = s\<lparr>battlowState := 0, LED_BATTLOW := \<not> BB_LED_ON\<rparr>;
               (t, s) = battlowOffTime s
           in s\<lparr>PR3 := word_of_int t\<rparr>)"

section \<open>The loop of \<^verbatim>\<open>main\<close>\<close>

text \<open>
  What a round gets from outside: the byte of \<^verbatim>\<open>readTemp\<close>, the channels of the ADC, and the two
  floating-point conversions \<^verbatim>\<open>applyCalibration\<close>.
\<close>

record bb_inputs =
  bb_reading :: byte
  bb_adc :: "byte \<Rightarrow> word16"
  bb_calV :: "word16 \<Rightarrow> word16"
  bb_calI :: "word16 \<Rightarrow> word16"

definition bb_vADCs :: "byte list" where
  "bb_vADCs = [0x0B, 0x09, 0x07, 0x03, 0x05, 0x0F, 0x0D]"

definition bb_iADCs :: "byte list" where
  "bb_iADCs = [0x0C, 0x0A, 0x08, 0x06, 0x04, 0x0E]"

definition bb_avgRow :: "nat \<Rightarrow> balancer \<Rightarrow> word16" where
  "bb_avgRow r s = of_nat (sum_list (map (\<lambda>i. unat (iHistory s ! r ! i)) [0..<BB_IHISTORY_SIZE]) div 2 ^ 5)"

definition bb_temperature :: "byte \<Rightarrow> balancer \<Rightarrow> balancer" where
  "bb_temperature reading s =
     (if reading = 255
      then if bb_errCount s < 10 then s\<lparr>bb_errCount := bb_errCount s + 1\<rparr> else s\<lparr>bb_temp := 255\<rparr>
      else s\<lparr>bb_errCount := 0, bb_temp := reading\<rparr>)"

definition bb_voltages :: "bb_inputs \<Rightarrow> balancer \<Rightarrow> balancer" where
  "bb_voltages inp s =
     fold (\<lambda>i s. s\<lparr>vBatt := (vBatt s)[i := bb_calV inp (bb_adc inp (bb_vADCs ! i))]\<rparr>) [0..<BATT_COUNT + 1] s"

definition bb_sample :: "(byte \<Rightarrow> word16) \<Rightarrow> balancer \<Rightarrow> balancer" where
  "bb_sample f s =
     (let s = fold (\<lambda>i s. s\<lparr>iHistory := (iHistory s)[i := (iHistory s ! i)[unat (bb_writeIndex s) := f (bb_iADCs ! i)]]\<rparr>)
                [0..<BATT_COUNT] s;
          s = s\<lparr>bb_writeIndex := bb_writeIndex s + 1\<rparr>
      in if unat (bb_writeIndex s) \<ge> BB_IHISTORY_SIZE then s\<lparr>bb_writeIndex := 0\<rparr> else s)"

definition bb_currents :: "bb_inputs \<Rightarrow> balancer \<Rightarrow> balancer" where
  "bb_currents inp s = fold (\<lambda>i s. s\<lparr>iBatt := (iBatt s)[i := bb_calI inp (bb_avgRow i s)]\<rparr>) [0..<BATT_COUNT] s"

definition balancer_round :: "bb_inputs \<Rightarrow> balancer \<Rightarrow> balancer" where
  "balancer_round inp s =
     bb_currents inp (bb_sample (bb_adc inp) (bb_voltages inp (bb_temperature (bb_reading inp) s)))"

text \<open>
  The state when \<^verbatim>\<open>main\<close> reaches its loop: all batteries are on, the power is not killed.  \<open>pins\<close> are the
  battery inputs and \<open>dry\<close> the water sensor.
\<close>

definition balancer_start :: "(nat \<Rightarrow> bool) \<Rightarrow> bool \<Rightarrow> balancer" where
  "balancer_start pins dry =
     \<lparr>busState = 0, nParam = 0, p1 = 0, txPtr = 0, txBuf = replicate 60 0, cfgRegs = replicate 16 65,
      IN_BATT = pins, IN_WTRSEN = dry, BATT_CTL = (\<lambda>n. BATT_ENABLE), LAT_PWRKILL = \<not> PWRKILL_ON, WATER_CN_BIT = False,
      LED_BATTLOW = \<not> BB_LED_ON, bb_temp = 255, vBatt = replicate 7 0, iBatt = replicate 6 0,
      iHistory = replicate 6 (replicate 32 0), battlowState = 0, battlowEnabled = 1, PR3 = 100,
      bb_writeIndex = 0, bb_errCount = 0\<rparr>"

end
