(* ===== verification/BalancerBoard.thy ===== *)
theory BalancerBoard
  imports Balancer Registers
begin

text \<open>
  What the battery balancer keeps: its buffers, the power kill, and the averages of the currents.  It
  fulfils the contract of a slave with registers.
\<close>

section \<open>A well-formed state\<close>

definition balancer_inv :: "balancer \<Rightarrow> bool" where
  "balancer_inv s \<longleftrightarrow> core_inv 60 s \<and> length (vBatt s) = 7 \<and> length (iBatt s) = 6
    \<and> length (iHistory s) = 6 \<and> list_all (\<lambda>r. length r = 32) (iHistory s) \<and> unat (bb_writeIndex s) < 32"

text \<open>What no command touches.\<close>

definition bb_side :: "balancer \<Rightarrow> (nat \<Rightarrow> bool) \<times> bool \<times> bool \<times> byte \<times> word16 list \<times> word16 list \<times> word16 list list \<times> byte" where
  "bb_side s = (IN_BATT s, IN_WTRSEN s, WATER_CN_BIT s, bb_temp s, vBatt s, iBatt s, iHistory s, bb_writeIndex s)"

lemma bb_side_core [simp]:
  "bb_side (putTx i b s) = bb_side s" "bb_side (putBytes i bs s) = bb_side s" "bb_side (expect st s) = bb_side s"
  "bb_side (putString str s) = bb_side s" "bb_side (s\<lparr>txPtr := p\<rparr>) = bb_side s" "bb_side (s\<lparr>BATT_CTL := c\<rparr>) = bb_side s"
  "bb_side (s\<lparr>LAT_PWRKILL := k\<rparr>) = bb_side s"
proof -
  show t: "bb_side (putTx i b s) = bb_side s" for i b s by (simp add: bb_side_def putTx_def)
  show b: "bb_side (putBytes i bs s) = bb_side s" for i bs s by (induction i bs s rule: putBytes.induct) (simp_all add: t)
  show "bb_side (expect st s) = bb_side s" "bb_side (putString str s) = bb_side s" "bb_side (s\<lparr>txPtr := p\<rparr>) = bb_side s"
    "bb_side (s\<lparr>BATT_CTL := c\<rparr>) = bb_side s" "bb_side (s\<lparr>LAT_PWRKILL := k\<rparr>) = bb_side s"
    by (simp_all add: expect_def putString_def t b) (simp_all add: bb_side_def)
qed

lemma putTx_keeps [simp]:
  "LAT_PWRKILL (putTx i b s) = LAT_PWRKILL s" "busState (putTx i b s) = busState s" "BATT_CTL (putTx i b s) = BATT_CTL s"
  by (simp_all add: putTx_def)

lemma putWords_keeps [simp]:
  "core_inv n (putWords k ts s) = core_inv n s" "bb_side (putWords k ts s) = bb_side s"
  "LAT_PWRKILL (putWords k ts s) = LAT_PWRKILL s" "busState (putWords k ts s) = busState s" "BATT_CTL (putWords k ts s) = BATT_CTL s"
proof -
  define step where "step i = (\<lambda>s :: balancer. putTx (2 * i + 2) (ucast (ts ! i AND 0xFF)) (putTx (2 * i + 1) (ucast (drop_bit 8 (ts ! i))) s))" for i
  have "core_inv n (fold step is s) = core_inv n s \<and> bb_side (fold step is s) = bb_side s
      \<and> LAT_PWRKILL (fold step is s) = LAT_PWRKILL s \<and> busState (fold step is s) = busState s
      \<and> BATT_CTL (fold step is s) = BATT_CTL s" for "is"
    by (induction "is" arbitrary: s) (simp_all add: step_def)
  moreover have "putWords k ts s = fold step [0..<k] s" by (simp add: putWords_def step_def [abs_def])
  ultimately show "core_inv n (putWords k ts s) = core_inv n s" "bb_side (putWords k ts s) = bb_side s"
    "LAT_PWRKILL (putWords k ts s) = LAT_PWRKILL s" "busState (putWords k ts s) = busState s" "BATT_CTL (putWords k ts s) = BATT_CTL s"
    by simp_all
qed

lemma core_pins [simp]: "core_inv n (s\<lparr>BATT_CTL := c\<rparr>) = core_inv n s" "core_inv n (s\<lparr>LAT_PWRKILL := k\<rparr>) = core_inv n s"
  by (simp_all add: core_inv_def)

lemma balancer_command_keeps:
  assumes "core_inv 60 s"
  shows "core_inv 60 (balancer_command b s)" and "bb_side (balancer_command b s) = bb_side s"
proof -
  have "core_inv 60 (expect st s)" if "st \<in> {STATE_READ_CMD, STATE_WRITE_CMD, STATE_SETSPEED_U1, STATE_SETSPEED_U2}" for st
    using that by (auto intro: expect_inv [OF assms] simp: STATE_defs)
  then show "core_inv 60 (balancer_command b s)" "bb_side (balancer_command b s) = bb_side s"
    using assms unfolding balancer_command_def extPower_def intPower_def
    by (cases "map_of battOffCodes b"; cases "map_of battOnCodes b"; simp add: putString_def)+
qed

lemma core_PWRKILL [simp]:
  "LAT_PWRKILL (putBytes i bs s) = LAT_PWRKILL s" "LAT_PWRKILL (expect st s) = LAT_PWRKILL s"
  "LAT_PWRKILL (putString str s) = LAT_PWRKILL s"
proof -
  show b: "LAT_PWRKILL (putBytes i bs s) = LAT_PWRKILL s" for i bs s by (induction i bs s rule: putBytes.induct) simp_all
  show "LAT_PWRKILL (expect st s) = LAT_PWRKILL s" "LAT_PWRKILL (putString str s) = LAT_PWRKILL s"
    by (simp_all add: expect_def putString_def b)
qed

lemma balancer_command_kill: "LAT_PWRKILL (balancer_command b s) = (if b = BUS_CMD_HARDKILL then PWRKILL_ON else LAT_PWRKILL s)"
proof -
  have off: "map_of battOffCodes BUS_CMD_HARDKILL = None" "map_of battOnCodes BUS_CMD_HARDKILL = None"
    by (simp_all add: battOffCodes_def battOnCodes_def codes)
  show ?thesis
  proof (cases "b = BUS_CMD_HARDKILL")
    case True
    then show ?thesis unfolding balancer_command_def by (simp add: off) (simp add: codes)
  next
    case False
    then show ?thesis unfolding balancer_command_def extPower_def intPower_def
      by (cases "map_of battOffCodes b"; cases "map_of battOnCodes b"; simp)
  qed
qed

text \<open>One byte of the master.\<close>

lemma regArgs_keep:
  assumes "readRegArg b s = Some t \<or> writeRegArg b s = Some t"
  shows "bb_side t = bb_side s" and "LAT_PWRKILL t = LAT_PWRKILL s"
proof -
  have "bb_side t = bb_side s \<and> LAT_PWRKILL t = LAT_PWRKILL s"
    using assms by (auto simp: readRegArg_def writeRegArg_def countParam_def putTx_def bb_side_def Let_def split: if_splits)
  then show "bb_side t = bb_side s" "LAT_PWRKILL t = LAT_PWRKILL s" by simp_all
qed

lemma balancer_byte:
  assumes "balancer_inv s" and "balancer_processData b s = Some s'"
  shows "balancer_inv s'" and "bb_side s' = bb_side s"
    and "LAT_PWRKILL s' = (if busState s = STATE_TOP_LEVEL \<and> b = BUS_CMD_HARDKILL then PWRKILL_ON else LAT_PWRKILL s)"
proof -
  let ?s = "s\<lparr>txPtr := 0\<rparr>"
  have i: "core_inv 60 ?s" using assms(1) by (simp add: balancer_inv_def)
  have k: "core_inv 60 s' \<and> bb_side s' = bb_side ?s
      \<and> LAT_PWRKILL s' = (if busState s = STATE_TOP_LEVEL \<and> b = BUS_CMD_HARDKILL then PWRKILL_ON else LAT_PWRKILL ?s)"
    using assms(2) i balancer_command_keeps [OF i] balancer_command_kill [of b ?s] regArgs_keep [of b ?s s']
      readRegArg_inv [OF i] writeRegArg_inv [OF i]
    by (auto simp: balancer_processData_def Let_def STATE_defs split: if_splits)
  then show "bb_side s' = bb_side s" by simp
  then show "balancer_inv s'" using k assms(1) by (simp add: balancer_inv_def bb_side_def)
  show "LAT_PWRKILL s' = (if busState s = STATE_TOP_LEVEL \<and> b = BUS_CMD_HARDKILL then PWRKILL_ON else LAT_PWRKILL s)"
    using k by simp
qed

interpretation balancer_registers: register_slave balancer_chip balancer_inv "\<lambda>s. s\<lparr>txPtr := 0\<rparr>"
proof unfold_locales
  show "balancer_inv s \<Longrightarrow> process balancer_chip b s = Some s' \<Longrightarrow> balancer_inv s'" for s b s'
    using balancer_byte(1) by simp
  show "balancer_inv (s\<lparr>txPtr := i\<rparr>) = balancer_inv s" for s i by (simp add: balancer_inv_def)
  show "balancer_inv s \<Longrightarrow> length (cfgRegs s) = 16 \<and> 1 < length (txBuf s) \<and> (busState s = STATE_WRITE_CMD \<longrightarrow> nParam s \<le> 1)" for s
    by (simp add: balancer_inv_def core_inv_def)
qed (simp_all add: balancer_processData_def balancer_command_def battOffCodes_def battOnCodes_def STATE_defs codes Let_def)

section \<open>One round of the loop\<close>

text \<open>The part of the state the commands and the pins live in.\<close>

definition bb_control :: "balancer \<Rightarrow> byte \<times> byte \<times> byte \<times> byte \<times> byte list \<times> byte list \<times> (nat \<Rightarrow> bool) \<times> bool \<times> (nat \<Rightarrow> bool) \<times> bool \<times> bool" where
  "bb_control s = (busState s, nParam s, p1 s, txPtr s, txBuf s, cfgRegs s, IN_BATT s, IN_WTRSEN s, BATT_CTL s, LAT_PWRKILL s, WATER_CN_BIT s)"

lemma voltages_round:
  "bb_control (bb_voltages inp s) = bb_control s \<and> iHistory (bb_voltages inp s) = iHistory s \<and> iBatt (bb_voltages inp s) = iBatt s
    \<and> bb_writeIndex (bb_voltages inp s) = bb_writeIndex s \<and> length (vBatt (bb_voltages inp s)) = length (vBatt s)"
proof -
  have "bb_control (fold (\<lambda>i s. s\<lparr>vBatt := (vBatt s)[i := f i]\<rparr>) is s) = bb_control s
      \<and> iHistory (fold (\<lambda>i s. s\<lparr>vBatt := (vBatt s)[i := f i]\<rparr>) is s) = iHistory s
      \<and> iBatt (fold (\<lambda>i s. s\<lparr>vBatt := (vBatt s)[i := f i]\<rparr>) is s) = iBatt s
      \<and> bb_writeIndex (fold (\<lambda>i s. s\<lparr>vBatt := (vBatt s)[i := f i]\<rparr>) is s) = bb_writeIndex s
      \<and> length (vBatt (fold (\<lambda>i s. s\<lparr>vBatt := (vBatt s)[i := f i]\<rparr>) is s)) = length (vBatt s)" for f and "is" :: "nat list"
    by (induction "is" arbitrary: s) (simp_all add: bb_control_def)
  from this [of "\<lambda>i. bb_calV inp (bb_adc inp (bb_vADCs ! i))"] show ?thesis unfolding bb_voltages_def .
qed

lemma temperature_round:
  "bb_control (bb_temperature r s) = bb_control s \<and> iHistory (bb_temperature r s) = iHistory s \<and> iBatt (bb_temperature r s) = iBatt s
    \<and> bb_writeIndex (bb_temperature r s) = bb_writeIndex s \<and> vBatt (bb_temperature r s) = vBatt s"
  by (simp add: bb_temperature_def bb_control_def)

lemma upto6: "[0..<6] = [0, 1, 2, 3, 4, 5 :: nat]"
  by (simp add: upt_conv_Cons)

lemma currents_round:
  "bb_control (bb_currents inp s) = bb_control s \<and> iHistory (bb_currents inp s) = iHistory s \<and> vBatt (bb_currents inp s) = vBatt s
    \<and> bb_writeIndex (bb_currents inp s) = bb_writeIndex s \<and> length (iBatt (bb_currents inp s)) = length (iBatt s)"
  "length (iBatt s) = 6 \<Longrightarrow> i < 6 \<Longrightarrow> iBatt (bb_currents inp s) ! i = bb_calI inp (bb_avgRow i s)"
proof -
  have a: "bb_avgRow r (s\<lparr>iBatt := v\<rparr>) = bb_avgRow r s" for r v by (simp add: bb_avgRow_def)
  have c: "bb_currents inp s = s\<lparr>iBatt := (iBatt s)[0 := bb_calI inp (bb_avgRow 0 s), 1 := bb_calI inp (bb_avgRow 1 s),
      2 := bb_calI inp (bb_avgRow 2 s), 3 := bb_calI inp (bb_avgRow 3 s), 4 := bb_calI inp (bb_avgRow 4 s), 5 := bb_calI inp (bb_avgRow 5 s)]\<rparr>"
    by (simp add: bb_currents_def BATT_COUNT_def upto6 a)
  show "bb_control (bb_currents inp s) = bb_control s \<and> iHistory (bb_currents inp s) = iHistory s \<and> vBatt (bb_currents inp s) = vBatt s
    \<and> bb_writeIndex (bb_currents inp s) = bb_writeIndex s \<and> length (iBatt (bb_currents inp s)) = length (iBatt s)"
    by (simp add: c bb_control_def)
  show "iBatt (bb_currents inp s) ! i = bb_calI inp (bb_avgRow i s)" if "length (iBatt s) = 6" "i < 6"
    using that by (auto simp: c nth_list_update less_Suc_eq numeral_eq_Suc)
qed

lemma sample_round:
  "bb_control (bb_sample f s) = bb_control s \<and> iBatt (bb_sample f s) = iBatt s \<and> vBatt (bb_sample f s) = vBatt s"
  "unat (bb_writeIndex s) < 32 \<Longrightarrow> unat (bb_writeIndex (bb_sample f s)) = Suc (unat (bb_writeIndex s)) mod 32"
  "length (iHistory s) = 6 \<Longrightarrow> iHistory (bb_sample f s) = map (\<lambda>i. (iHistory s ! i)[unat (bb_writeIndex s) := f (bb_iADCs ! i)]) [0..<6]"
proof -
  let ?step = "\<lambda>i (s :: balancer). s\<lparr>iHistory := (iHistory s)[i := (iHistory s ! i)[unat (bb_writeIndex s) := f (bb_iADCs ! i)]]\<rparr>"
  have "bb_control (fold ?step is s) = bb_control s \<and> iBatt (fold ?step is s) = iBatt s \<and> vBatt (fold ?step is s) = vBatt s
      \<and> bb_writeIndex (fold ?step is s) = bb_writeIndex s" for "is"
    by (induction "is" arbitrary: s) (simp_all add: bb_control_def)
  note step = this [of "[0..<6]"]
  show "bb_control (bb_sample f s) = bb_control s \<and> iBatt (bb_sample f s) = iBatt s \<and> vBatt (bb_sample f s) = vBatt s"
    using step by (simp add: bb_sample_def BATT_COUNT_def Let_def bb_control_def del: upt_rec_numeral)
  show "unat (bb_writeIndex (bb_sample f s)) = Suc (unat (bb_writeIndex s)) mod 32" if "unat (bb_writeIndex s) < 32"
  proof -
    have "unat (bb_writeIndex s + 1) = Suc (unat (bb_writeIndex s))" using that by (simp add: unat_word_ariths)
    then show ?thesis
      using that step
      by (cases "unat (bb_writeIndex s) = 31") (simp_all add: bb_sample_def BATT_COUNT_def BB_IHISTORY_SIZE_def Let_def del: upt_rec_numeral)
  qed
  have "length h = 6 \<Longrightarrow> fold (\<lambda>i h. h[i := (h ! i)[w := g i]]) [0..<6] h = map (\<lambda>i. (h ! i)[w := g i]) [0..<6]" for h :: "word16 list list" and w g
    by (auto simp: upto6 numeral_eq_Suc length_Suc_conv)
  moreover have "iHistory (fold ?step is s) = fold (\<lambda>i h. h[i := (h ! i)[unat (bb_writeIndex s) := f (bb_iADCs ! i)]]) is (iHistory s)" for "is"
    by (induction "is" arbitrary: s) simp_all
  ultimately show "iHistory (bb_sample f s) = map (\<lambda>i. (iHistory s ! i)[unat (bb_writeIndex s) := f (bb_iADCs ! i)]) [0..<6]"
    if "length (iHistory s) = 6"
    using that by (simp add: bb_sample_def BATT_COUNT_def Let_def del: upt_rec_numeral)
qed

lemma round_control: "bb_control (balancer_round inp s) = bb_control s"
  using temperature_round voltages_round sample_round(1) currents_round(1) by (metis balancer_round_def)

section \<open>The averages\<close>

text \<open>The samples in a row of the history, the oldest first.\<close>

definition bb_window :: "nat \<Rightarrow> balancer \<Rightarrow> word16 list" where
  "bb_window i s = drop (unat (bb_writeIndex s)) (iHistory s ! i) @ take (unat (bb_writeIndex s)) (iHistory s ! i)"

lemma rotated_store:
  assumes "w < length xs"
  shows "drop (Suc w mod length xs) (xs[w := x]) @ take (Suc w mod length xs) (xs[w := x]) = tl (drop w xs @ take w xs) @ [x]"
proof -
  have d: "drop w xs = xs ! w # drop (Suc w) xs" using assms by (simp add: Cons_nth_drop_Suc)
  show ?thesis
  proof (cases "Suc w = length xs")
    case True
    have "take (Suc w) (xs[w := x]) = take w xs @ [x]" using assms by (simp add: take_Suc_conv_app_nth)
    then show ?thesis using True d by simp
  next
    case False
    then have "Suc w < length xs" using assms by simp
    then show ?thesis using d by (simp add: take_Suc_conv_app_nth)
  qed
qed

lemma round_parts:
  fixes inp :: bb_inputs
  assumes "balancer_inv s"
  defines "s' \<equiv> balancer_round inp s"
  shows "balancer_inv s'" and "i < 6 \<Longrightarrow> bb_window i s' = tl (bb_window i s) @ [bb_adc inp (bb_iADCs ! i)]"
    and "i < 6 \<Longrightarrow> iBatt s' ! i = bb_calI inp (bb_avgRow i s')"
proof -
  let ?t = "bb_voltages inp (bb_temperature (bb_reading inp) s)"
  let ?u = "bb_sample (bb_adc inp) ?t"
  have s': "s' = bb_currents inp ?u" by (simp add: s'_def balancer_round_def)
  have t: "iHistory ?t = iHistory s" "bb_writeIndex ?t = bb_writeIndex s" "iBatt ?t = iBatt s" "length (vBatt ?t) = length (vBatt s)"
    using temperature_round [of "bb_reading inp" s] voltages_round [of inp "bb_temperature (bb_reading inp) s"] by simp_all
  have i: "length (iHistory s) = 6" "unat (bb_writeIndex s) < 32" "list_all (\<lambda>r. length r = 32) (iHistory s)"
    "length (iBatt s) = 6" "length (vBatt s) = 7" "core_inv 60 s"
    using assms(1) by (simp_all add: balancer_inv_def)
  have u: "iHistory ?u = map (\<lambda>i. (iHistory s ! i)[unat (bb_writeIndex s) := bb_adc inp (bb_iADCs ! i)]) [0..<6]"
    "unat (bb_writeIndex ?u) = Suc (unat (bb_writeIndex s)) mod 32" "iBatt ?u = iBatt s" "vBatt ?u = vBatt ?t"
    using sample_round [where s = ?t and f = "bb_adc inp"] t i by simp_all
  have v: "iHistory s' = iHistory ?u" "bb_writeIndex s' = bb_writeIndex ?u" "length (iBatt s') = 6" "vBatt s' = vBatt ?u"
    using currents_round(1) [of inp ?u] u i by (simp_all add: s')
  have rows: "length (iHistory s ! j) = 32" if "j < 6" for j using i(1,3) that by (simp add: list_all_length)
  have "core_inv 60 s'"
    using round_control [of inp s] i(6) unfolding s'_def bb_control_def core_inv_def by simp
  then show "balancer_inv s'"
    using v u t i rows by (simp add: balancer_inv_def list_all_iff del: upt_rec_numeral)
  show "bb_window i s' = tl (bb_window i s) @ [bb_adc inp (bb_iADCs ! i)]" if "i < 6"
    using rotated_store [of "unat (bb_writeIndex s)" "iHistory s ! i" "bb_adc inp (bb_iADCs ! i)"] that i(2) rows [OF that]
    by (simp add: bb_window_def v u del: upt_rec_numeral)
  show "iBatt s' ! i = bb_calI inp (bb_avgRow i s')" if "i < 6"
    using currents_round(2) [of ?u i inp] that u(3) i(4) v(1) by (simp add: s' bb_avgRow_def)
qed

lemma avgRow_window:
  assumes "balancer_inv s" and "i < 6"
  shows "bb_avgRow i s = of_nat (sum_list (map unat (bb_window i s)) div 32)" and "length (bb_window i s) = 32"
proof -
  have l: "length (iHistory s ! i) = 32" "unat (bb_writeIndex s) < 32" using assms by (simp_all add: balancer_inv_def list_all_length)
  have "map (\<lambda>k. unat (iHistory s ! i ! k)) [0..<32] = map unat (iHistory s ! i)"
    using l(1) by (intro nth_equalityI) (simp_all del: upt_rec_numeral)
  moreover have "sum_list (map unat (iHistory s ! i)) = sum_list (map unat (bb_window i s))"
    by (metis (no_types, lifting) add.commute append_take_drop_id bb_window_def map_append sum_list_append)
  ultimately show "bb_avgRow i s = of_nat (sum_list (map unat (bb_window i s)) div 32)"
    by (simp add: bb_avgRow_def BB_IHISTORY_SIZE_def del: upt_rec_numeral)
  show "length (bb_window i s) = 32" using l by (simp add: bb_window_def)
qed

lemma rounds_window:
  assumes "balancer_inv s" and "i < 6"
  shows "balancer_inv (fold balancer_round ins s)
    \<and> bb_window i (fold balancer_round ins s) = drop (length ins) (bb_window i s @ map (\<lambda>inp. bb_adc inp (bb_iADCs ! i)) ins)"
proof (induction ins rule: rev_induct)
  case Nil
  then show ?case using assms(1) by simp
next
  case (snoc inp ins)
  let ?t = "fold balancer_round ins s" and ?f = "\<lambda>inp. bb_adc inp (bb_iADCs ! i)"
  have d: "k < length W \<Longrightarrow> tl (drop k W) @ [x] = drop (Suc k) (W @ [x])" for k W and x :: word16
    by (simp add: drop_Suc tl_drop)
  have "length ins < length (bb_window i s @ map ?f ins)" using avgRow_window(2) [OF assms] by simp
  then have "tl (drop (length ins) (bb_window i s @ map ?f ins)) @ [?f inp] = drop (length (ins @ [inp])) (bb_window i s @ map ?f (ins @ [inp]))"
    by (simp only: d length_append_singleton map_append list.map append_assoc)
  moreover have "balancer_inv ?t" "bb_window i ?t = drop (length ins) (bb_window i s @ map ?f ins)" using snoc by blast+
  ultimately show ?case
    using round_parts(1,2) [of ?t, where inp = inp] assms(2) by simp
qed

text \<open>
  Property C18.  The current of a battery is the calibrated mean of the last 32 samples of its sensor,
  whatever number of rounds the loop has done and wherever the ring of its history starts.
\<close>

theorem currents_are_averages:
  assumes "balancer_inv s" and "ins \<noteq> []" and "i < 6"
    and "ws = drop (length ins) (bb_window i s @ map (\<lambda>inp. bb_adc inp (bb_iADCs ! i)) ins)"
  shows "length ws = 32 \<and> iBatt (fold balancer_round ins s) ! i = bb_calI (last ins) (of_nat (sum_list (map unat ws) div 32))"
proof -
  obtain inp ins' where ins: "ins = ins' @ [inp]" using assms(2) by (cases ins rule: rev_cases) auto
  let ?t = "fold balancer_round ins' s"
  have t: "balancer_inv ?t" using rounds_window [OF assms(1,3)] by blast
  have "iBatt (balancer_round inp ?t) ! i = bb_calI inp (bb_avgRow i (balancer_round inp ?t))"
    by (rule round_parts(3) [OF t assms(3)])
  then show ?thesis
    using rounds_window [OF assms(1,3), of ins] avgRow_window [of "fold balancer_round ins s", OF _ assms(3)] assms(4)
    by (simp add: ins)
qed

lemma balancer_start_inv: "balancer_inv (balancer_start pins dry)"
  by (simp add: balancer_inv_def balancer_start_def core_inv_def list_all_iff)

text \<open>Thirty-two rounds with the same current.\<close>

theorem currents_are_averages_witness:
  "iBatt (fold balancer_round (replicate 32 \<lparr>bb_reading = 20, bb_adc = (\<lambda>c. 700), bb_calV = (\<lambda>v. v), bb_calI = (\<lambda>v. 2 * v)\<rparr>)
     (balancer_start (\<lambda>n. True) True)) ! 2 = 1400"
proof -
  let ?inp = "\<lparr>bb_reading = 20, bb_adc = (\<lambda>c. 700), bb_calV = (\<lambda>v. v), bb_calI = (\<lambda>v. 2 * v)\<rparr> :: bb_inputs"
  have r: "replicate 32 ?inp \<noteq> []" "(2 :: nat) < 6" by simp_all
  have "drop (length (replicate 32 ?inp)) (bb_window 2 (balancer_start (\<lambda>n. True) True) @ map (\<lambda>inp. bb_adc inp (bb_iADCs ! 2)) (replicate 32 ?inp))
      = replicate 32 700"
    using avgRow_window(2) [OF balancer_start_inv r(2), of "\<lambda>n. True" True] by simp
  then show ?thesis
    using currents_are_averages [OF balancer_start_inv r refl, of "\<lambda>n. True" True] by (simp add: sum_list_replicate)
qed

section \<open>The power kill\<close>

text \<open>What happens to the board: a byte of the master, a round of the loop, a change of its pins, the two interrupts.\<close>

datatype bb_event = BB_Byte byte | BB_Round bb_inputs | BB_Pins "nat \<Rightarrow> bool" bool | BB_Change | BB_Timer

fun bb_step :: "bb_event \<Rightarrow> balancer \<Rightarrow> balancer option" where
  "bb_step (BB_Byte b) s = balancer_processData b s"
| "bb_step (BB_Round inp) s = Some (balancer_round inp s)"
| "bb_step (BB_Pins batt dry) s = Some (s\<lparr>IN_BATT := batt, IN_WTRSEN := dry\<rparr>)"
| "bb_step BB_Change s = Some (water_CNInterrupt s)"
| "bb_step BB_Timer s = Some (bb_T3Interrupt s)"

fun bb_run :: "bb_event list \<Rightarrow> balancer \<Rightarrow> balancer option" where
  "bb_run [] s = Some s"
| "bb_run (e # es) s = (case bb_step e s of None \<Rightarrow> None | Some s \<Rightarrow> bb_run es s)"

lemma timer_keeps:
  "balancer_inv (bb_T3Interrupt s) = balancer_inv s" "LAT_PWRKILL (bb_T3Interrupt s) = LAT_PWRKILL s"
  "WATER_CN_BIT (bb_T3Interrupt s) = WATER_CN_BIT s"
  by (simp_all add: bb_T3Interrupt_def battlowOffTime_def Let_def) (simp add: balancer_inv_def core_inv_def)

lemma bb_step_kill:
  assumes "balancer_inv s" and "\<not> WATER_CN_BIT s" and "bb_step e s = Some s'"
  shows "balancer_inv s' \<and> \<not> WATER_CN_BIT s'
    \<and> LAT_PWRKILL s' = (if e = BB_Byte BUS_CMD_HARDKILL \<and> busState s = STATE_TOP_LEVEL then PWRKILL_ON else LAT_PWRKILL s)"
proof (cases e)
  case (BB_Byte b)
  then show ?thesis
    using balancer_byte [OF assms(1), of b s'] assms(2,3) by (auto simp: bb_side_def)
next
  case (BB_Round inp)
  then show ?thesis
    using round_parts(1) [OF assms(1), of inp] round_control [of inp s] assms(2,3) by (auto simp: bb_control_def)
next
  case (BB_Pins batt dry)
  then show ?thesis using assms by (auto simp: balancer_inv_def core_inv_def)
next
  case BB_Change
  then show ?thesis using assms by (auto simp: water_CNInterrupt_def)
next
  case BB_Timer
  then show ?thesis using assms timer_keeps [of s] by auto
qed

lemma bb_run_kill:
  assumes "balancer_inv s" and "\<not> WATER_CN_BIT s" and "bb_run es s = Some s'"
  shows "balancer_inv s' \<and> \<not> WATER_CN_BIT s' \<and> (LAT_PWRKILL s = PWRKILL_ON \<longrightarrow> LAT_PWRKILL s' = PWRKILL_ON)
    \<and> (BB_Byte BUS_CMD_HARDKILL \<notin> set es \<longrightarrow> LAT_PWRKILL s' = LAT_PWRKILL s)"
  using assms
proof (induction es arbitrary: s)
  case (Cons e es)
  obtain t where t: "bb_step e s = Some t" "bb_run es t = Some s'" using Cons.prems(3) by (auto split: option.splits)
  note step = bb_step_kill [OF Cons.prems(1,2) t(1)]
  show ?case using Cons.IH [OF _ _ t(2)] step by (cases "e = BB_Byte BUS_CMD_HARDKILL") (auto split: if_splits)
qed simp

text \<open>
  The power kill, whatever the board measures, however often its interrupts come and
  whatever bytes the master sends: without the kill command the power stays on, also when the
  water sensor reports water, because its interrupt is never enabled; the command kills the power, and
  nothing turns it on again.
\<close>

theorem power_kill_is_final:
  assumes "bb_run es (balancer_start pins dry) = Some s"
  shows "(BB_Byte BUS_CMD_HARDKILL \<notin> set es \<longrightarrow> LAT_PWRKILL s \<noteq> PWRKILL_ON \<and> LAT_PWRKILL (water_CNInterrupt (s\<lparr>IN_WTRSEN := False\<rparr>)) \<noteq> PWRKILL_ON)
    \<and> (busState s = STATE_TOP_LEVEL \<longrightarrow> (\<exists>t. balancer_processData BUS_CMD_HARDKILL s = Some t \<and> LAT_PWRKILL t = PWRKILL_ON
         \<and> (\<forall>es' u. bb_run es' t = Some u \<longrightarrow> LAT_PWRKILL u = PWRKILL_ON)))"
proof -
  have "\<not> WATER_CN_BIT (balancer_start pins dry)" "LAT_PWRKILL (balancer_start pins dry) \<noteq> PWRKILL_ON"
    by (simp_all add: balancer_start_def)
  then have s: "balancer_inv s" "\<not> WATER_CN_BIT s" "BB_Byte BUS_CMD_HARDKILL \<notin> set es \<longrightarrow> LAT_PWRKILL s \<noteq> PWRKILL_ON"
    using bb_run_kill [OF balancer_start_inv _ assms] by auto
  have "\<exists>t. balancer_processData BUS_CMD_HARDKILL s = Some t \<and> LAT_PWRKILL t = PWRKILL_ON
      \<and> (\<forall>es' u. bb_run es' t = Some u \<longrightarrow> LAT_PWRKILL u = PWRKILL_ON)" if top: "busState s = STATE_TOP_LEVEL"
  proof -
    obtain t where t: "bb_step (BB_Byte BUS_CMD_HARDKILL) s = Some t"
      using balancer_registers.crashes_iff [OF s(1), of BUS_CMD_HARDKILL] top by (auto simp: STATE_defs)
    have "balancer_inv t" "\<not> WATER_CN_BIT t" "LAT_PWRKILL t = PWRKILL_ON" using bb_step_kill [OF s(1,2) t] top by auto
    then show ?thesis using t bb_run_kill [of t] by (intro exI [of _ t]) auto
  qed
  then show ?thesis using s by (simp add: water_CNInterrupt_def)
qed

theorem power_kill_is_final_witness:
  "LAT_PWRKILL (the (bb_run [BB_Pins (\<lambda>n. True) False, BB_Change] (balancer_start (\<lambda>n. True) True))) \<noteq> PWRKILL_ON"
proof -
  obtain s where s: "bb_run [BB_Pins (\<lambda>n. True) False, BB_Change] (balancer_start (\<lambda>n. True) True) = Some s" by simp
  then show ?thesis using power_kill_is_final [OF s] by (simp add: codes)
qed

end
