(* ===== verification/Blackfin.thy ===== *)
theory Blackfin
  imports Registers
begin

text \<open>
  The board between the bus and the Blackfin processor that runs the sonar, \<^verbatim>\<open>sbr9/bfin.c\<close>: the receiver of
  the sonar packets, the reset line of the processor and \<^verbatim>\<open>processData\<close>.  It answers as the slave
  \<^verbatim>\<open>IRQ_SONAR\<close>; \<^verbatim>\<open>HAS_UART\<close> is not defined for it.
\<close>

section \<open>State\<close>

text \<open>\<open>BF_held\<close>: the reset pin is an output, at 0; the processor is stopped.\<close>

record bfin = core +
  sonarBuf :: "byte list"
  sonarRxBuf :: "byte list"
  portalMode :: bool
  fCount :: byte
  sonarPtr :: nat
  BF_held :: bool
  OC3RS :: byte
  LED_GREEN :: bool
  LED_YELLOW :: bool

section \<open>Sonar packets\<close>

definition bfin_actLight :: "nat \<Rightarrow> bfin \<Rightarrow> bfin" where
  "bfin_actLight l s =
     (if \<not> portalMode s then (if l = 0 then s\<lparr>LED_GREEN := True\<rparr> else s\<lparr>LED_YELLOW := True\<rparr>) else s)"

definition bfin_T2Interrupt :: "bfin \<Rightarrow> bfin" where
  "bfin_T2Interrupt s = (if \<not> portalMode s then s\<lparr>LED_GREEN := False, LED_YELLOW := False\<rparr> else s)"

text \<open>The body of the loop of the interrupt for one byte.\<close>

definition sonarByte :: "byte \<Rightarrow> bfin \<Rightarrow> bfin" where
  "sonarByte t s =
     (let s = bfin_actLight 0 s;
          s = (if sonarPtr s < SONAR_PACKET_LEN
               then s\<lparr>sonarRxBuf := (sonarRxBuf s)[sonarPtr s := t], sonarPtr := sonarPtr s + 1\<rparr> else s);
          s = (if sonarPtr s = SONAR_PACKET_LEN then s\<lparr>sonarBuf := take SONAR_PACKET_LEN (sonarRxBuf s)\<rparr> else s)
      in if t = 0xFF
         then let s = s\<lparr>fCount := fCount s + 1\<rparr> in if fCount s \<ge> 6 then s\<lparr>sonarPtr := 0\<rparr> else s
         else s\<lparr>fCount := 0\<rparr>)"

text \<open>\<open>ts\<close> are the bytes that wait in the receiver; in portal mode one of them sets the pulse width.\<close>

definition U2RXInterrupt :: "byte list \<Rightarrow> bfin \<Rightarrow> bfin" where
  "U2RXInterrupt ts s = (if portalMode s then s\<lparr>OC3RS := hd ts\<rparr> else fold sonarByte ts s)"

section \<open>Commands of the master\<close>

definition bfin_command :: "byte \<Rightarrow> bfin \<Rightarrow> bfin" where
  "bfin_command data s =
     (if data = BUS_CMD_PING then putTx 0 0 s
      else if data = BUS_CMD_ID then putString ''Blackfin Board'' s
      else if data = BUS_CMD_READ_REG then expect STATE_READ_CMD s
      else if data = BUS_CMD_WRITE_REG then expect STATE_WRITE_CMD s
      else if data = BUS_CMD_SETSPEED_U1 then expect STATE_SETSPEED_U1 s
      else if data = BUS_CMD_SETSPEED_U2 then expect STATE_SETSPEED_U2 s
      else if data = BUS_CMD_BFRESET then let s = s\<lparr>BF_held := True\<rparr> in s\<lparr>BF_held := False\<rparr>
      else if data = BUS_CMD_BFIN_STOP then s\<lparr>BF_held := True\<rparr>
      else if data = BUS_CMD_BFIN_START then s\<lparr>BF_held := False\<rparr>
      else if data = BUS_CMD_SONAR
      then putTx 0 (of_nat SONAR_PACKET_LEN) (fold (\<lambda>i s. putTx (i + 1) (sonarBuf s ! i) s) [0..<SONAR_PACKET_LEN] s)
      else s)"

definition bfin_processData :: "byte \<Rightarrow> bfin \<Rightarrow> bfin option" where
  "bfin_processData data s =
     (let s = s\<lparr>txPtr := 0\<rparr> in
      if busState s = STATE_TOP_LEVEL then Some (bfin_command data s)
      else if busState s = STATE_READ_CMD then readRegArg data s
      else if busState s = STATE_WRITE_CMD then writeRegArg data s
      else Some s)"

definition bfin_chip :: "bfin chip" where
  "bfin_chip = \<lparr>process = bfin_processData, next_tx = nextTx\<rparr>"

lemma bfin_chip_simps [simp]: "process bfin_chip = bfin_processData" "next_tx bfin_chip = nextTx"
  by (simp_all add: bfin_chip_def)

definition bfin_checkBus :: "bool \<Rightarrow> bool \<Rightarrow> byte \<Rightarrow> bfin slave \<Rightarrow> bfin slave" where
  "bfin_checkBus = checkBus bfin_chip"

text \<open>
  The state when \<^verbatim>\<open>main\<close> reaches its loop.  The jumper decides about the portal mode, in which the
  processor runs; otherwise it is held until a command starts it.  \<^verbatim>\<open>sonarBuf\<close> is cleared, the registers
  are as the linker left them.
\<close>

definition bfin_start :: "bool \<Rightarrow> bfin" where
  "bfin_start jumper =
     \<lparr>busState = 0, nParam = 0, p1 = 0, txPtr = 0, txBuf = replicate 30 0, cfgRegs = replicate 16 0,
      sonarBuf = replicate SONAR_PACKET_LEN 0, sonarRxBuf = replicate SONAR_PACKET_LEN 0, portalMode = jumper,
      fCount = 0, sonarPtr = 0, BF_held = (\<not> jumper), OC3RS = (if jumper then 128 else 0),
      LED_GREEN = True, LED_YELLOW = jumper\<rparr>"

section \<open>What the operations preserve\<close>

definition bfin_inv :: "bfin \<Rightarrow> bool" where
  "bfin_inv s \<longleftrightarrow> core_inv 30 s \<and> length (sonarBuf s) = SONAR_PACKET_LEN \<and> length (sonarRxBuf s) = SONAR_PACKET_LEN
    \<and> sonarPtr s \<le> SONAR_PACKET_LEN"

lemma bfin_start_inv: "bfin_inv (bfin_start jumper)"
  by (simp add: bfin_inv_def bfin_start_def core_inv_def SONAR_PACKET_LEN_val)

lemma sonarByte_inv: "bfin_inv s \<Longrightarrow> bfin_inv (sonarByte t s)"
  by (auto simp: sonarByte_def bfin_actLight_def bfin_inv_def core_inv_def Let_def)

lemma fold_sonarByte_inv: "bfin_inv s \<Longrightarrow> bfin_inv (fold sonarByte ts s)"
  by (induction ts arbitrary: s) (simp_all add: sonarByte_inv)

definition sonar_side :: "bfin \<Rightarrow> byte list \<times> byte list \<times> nat" where
  "sonar_side s = (sonarBuf s, sonarRxBuf s, sonarPtr s)"

lemma sonar_side_core [simp]:
  "sonar_side (putTx i b s) = sonar_side s" "sonar_side (putBytes i bs s) = sonar_side s" "sonar_side (expect st s) = sonar_side s"
  "sonar_side (putString str s) = sonar_side s" "sonar_side (s\<lparr>txPtr := p\<rparr>) = sonar_side s" "sonar_side (s\<lparr>BF_held := h\<rparr>) = sonar_side s"
proof -
  show t: "sonar_side (putTx i b s) = sonar_side s" for i b s by (simp add: sonar_side_def putTx_def)
  show b: "sonar_side (putBytes i bs s) = sonar_side s" for i bs s by (induction i bs s rule: putBytes.induct) (simp_all add: t)
  show "sonar_side (expect st s) = sonar_side s" "sonar_side (putString str s) = sonar_side s" "sonar_side (s\<lparr>txPtr := p\<rparr>) = sonar_side s"
    "sonar_side (s\<lparr>BF_held := h\<rparr>) = sonar_side s"
    by (simp_all add: expect_def putString_def t b) (simp_all add: sonar_side_def)
qed

lemma bfin_command_keeps:
  assumes "core_inv 30 s"
  shows "core_inv 30 (bfin_command b s)" and "sonar_side (bfin_command b s) = sonar_side s"
proof -
  have "core_inv 30 (expect st s)" if "st \<in> {STATE_READ_CMD, STATE_WRITE_CMD, STATE_SETSPEED_U1, STATE_SETSPEED_U2}" for st
    using that by (auto intro: expect_inv [OF assms] simp: STATE_defs)
  moreover have "core_inv 30 (fold (\<lambda>i s. putTx (i + 1) (sonarBuf s ! i) s) is s) \<and>
      sonar_side (fold (\<lambda>i s. putTx (i + 1) (sonarBuf s ! i) s) is s) = sonar_side s" if "core_inv 30 s" for "is" s
    using that by (induction "is" arbitrary: s) simp_all
  moreover have "core_inv 30 (s\<lparr>BF_held := h\<rparr>) = core_inv 30 s" for h by (simp add: core_inv_def)
  ultimately show "core_inv 30 (bfin_command b s)" "sonar_side (bfin_command b s) = sonar_side s"
    using assms unfolding bfin_command_def Let_def by (simp_all add: putString_def)
qed

lemma bfin_processData_inv:
  assumes "bfin_inv s" and "bfin_processData b s = Some s'"
  shows "bfin_inv s'" and "sonar_side s' = sonar_side s"
proof -
  let ?s = "s\<lparr>txPtr := 0\<rparr>"
  have i: "core_inv 30 ?s" using assms(1) by (simp add: bfin_inv_def)
  have regs: "sonar_side t = sonar_side ?s" if "readRegArg b ?s = Some t \<or> writeRegArg b ?s = Some t" for t
    using that by (auto simp: readRegArg_def writeRegArg_def countParam_def putTx_def sonar_side_def Let_def split: if_splits)
  have "core_inv 30 s' \<and> sonar_side s' = sonar_side ?s"
    using assms(2) i bfin_command_keeps [OF i] regs readRegArg_inv [OF i] writeRegArg_inv [OF i]
    by (auto simp: bfin_processData_def Let_def split: if_splits)
  then show "sonar_side s' = sonar_side s" "bfin_inv s'" using assms(1) by (simp_all add: bfin_inv_def sonar_side_def)
qed

interpretation bfin_registers: register_slave bfin_chip bfin_inv "\<lambda>s. s\<lparr>txPtr := 0\<rparr>"
proof unfold_locales
  show "bfin_inv s \<Longrightarrow> process bfin_chip b s = Some s' \<Longrightarrow> bfin_inv s'" for s b s'
    using bfin_processData_inv(1) by simp
  show "bfin_inv (s\<lparr>txPtr := i\<rparr>) = bfin_inv s" for s i by (simp add: bfin_inv_def)
  show "bfin_inv s \<Longrightarrow> length (cfgRegs s) = 16 \<and> 1 < length (txBuf s) \<and> (busState s = STATE_WRITE_CMD \<longrightarrow> nParam s \<le> 1)" for s
    by (simp add: bfin_inv_def core_inv_def)
qed (simp_all add: bfin_processData_def bfin_command_def STATE_defs codes Let_def)

end
