(* ===== verification/Sonar.thy ===== *)
theory Sonar
  imports Blackfin "HOL-Library.Sublist"
begin

text \<open>
  How the Blackfin board finds the packets of the sonar in a stream of bytes: six bytes 0xFF in a row
  start one, however the bytes are spread over interrupts.
\<close>

section \<open>Bytes without a start sequence\<close>

text \<open>\<open>no_start k bs\<close>: after \<open>k\<close> bytes 0xFF no run of six is completed in \<open>bs\<close>.\<close>

fun no_start :: "nat \<Rightarrow> byte list \<Rightarrow> bool" where
  "no_start k [] = True"
| "no_start k (b # bs) = (if b = 0xFF then Suc k < 6 \<and> no_start (Suc k) bs else no_start 0 bs)"

lemma sublist_across:
  assumes "b \<notin> set xs"
  shows "sublist xs (ys @ b # zs) \<longleftrightarrow> sublist xs ys \<or> sublist xs zs"
proof
  have p: "xs' = []" if "prefix xs' (b # zs)" "set xs' \<subseteq> set xs" for xs'
    using that assms by (cases xs') auto
  assume "sublist xs (ys @ b # zs)"
  then consider "sublist xs ys" | "sublist xs (b # zs)" | u v where "xs = u @ v" "suffix u ys" "prefix v (b # zs)"
    unfolding sublist_append by blast
  then show "sublist xs ys \<or> sublist xs zs"
  proof cases
    case 2
    then show ?thesis using p [of xs] by (auto simp: sublist_Cons_right)
  next
    case 3
    then show ?thesis using p [of v] by (auto dest: suffix_imp_sublist)
  qed simp
qed (auto simp: sublist_append sublist_Cons_right)

lemma no_start_sublist: "k < 6 \<Longrightarrow> no_start k bs \<longleftrightarrow> \<not> sublist (replicate 6 0xFF) (replicate k 0xFF @ bs)"
proof (induction bs arbitrary: k)
  case Nil
  have "\<not> sublist (replicate 6 (0xFF :: byte)) (replicate k 0xFF)"
    using Nil by (auto dest: sublist_length_le)
  then show ?case by simp
next
  case (Cons b bs)
  show ?case
  proof (cases "b = 0xFF")
    case True
    have m: "replicate k 0xFF @ 0xFF # bs = replicate (Suc k) 0xFF @ bs" by (simp add: replicate_append_same [symmetric])
    show ?thesis
    proof (cases "Suc k < 6")
      case True
      then show ?thesis using \<open>b = 0xFF\<close> Cons.IH [of "Suc k"] by (simp only: m no_start.simps if_True True simp_thms)
    next
      case False
      then have "Suc k = 6" using Cons.prems by simp
      then have "sublist (replicate 6 0xFF) (replicate k 0xFF @ b # bs)"
        unfolding \<open>b = 0xFF\<close> m by (simp only: prefix_imp_sublist prefix_def) auto
      then show ?thesis using False \<open>b = 0xFF\<close> by simp
    qed
  next
    case False
    then have "b \<notin> set (replicate 6 (0xFF :: byte))" by simp
    moreover have "\<not> sublist (replicate 6 (0xFF :: byte)) (replicate k 0xFF)"
      using Cons.prems by (auto dest: sublist_length_le)
    ultimately show ?thesis using False Cons.IH [of 0] sublist_across [of b "replicate 6 0xFF" "replicate k 0xFF" bs] by simp
  qed
qed

section \<open>The receiver\<close>

lemma sonarByte_plain:
  assumes "bfin_inv s" and "\<not> portalMode s" and "fCount s = of_nat k" and "t = 0xFF \<longrightarrow> Suc k < 6"
  defines "s' \<equiv> sonarByte t s"
  shows "bfin_inv s'" and "\<not> portalMode s'" and "fCount s' = of_nat (if t = 0xFF then Suc k else 0)"
    and "sonarPtr s' = min SONAR_PACKET_LEN (Suc (sonarPtr s))"
    and "take SONAR_PACKET_LEN (take (sonarPtr s') (sonarRxBuf s') @ bs) = take SONAR_PACKET_LEN (take (sonarPtr s) (sonarRxBuf s) @ t # bs)"
    and "sonarPtr s' = SONAR_PACKET_LEN \<Longrightarrow> sonarBuf s' = sonarRxBuf s'"
proof -
  let ?n = SONAR_PACKET_LEN
  have i: "length (sonarRxBuf s) = ?n" "sonarPtr s \<le> ?n" using assms(1) by (simp_all add: bfin_inv_def)
  have six: "\<not> 6 \<le> (of_nat (Suc k) :: byte)" if "t = 0xFF"
    using assms(4) that by (simp add: word_le_nat_alt unat_of_nat take_bit_nat_def del: of_nat_Suc)
  show "bfin_inv s'" unfolding s'_def by (rule sonarByte_inv [OF assms(1)])
  show "\<not> portalMode s'" using assms(2) by (simp add: s'_def sonarByte_def bfin_actLight_def Let_def)
  show "fCount s' = of_nat (if t = 0xFF then Suc k else 0)"
    using assms(2,3) by (simp add: s'_def sonarByte_def bfin_actLight_def Let_def add.commute)
  have six': "t = 0xFF \<Longrightarrow> \<not> 6 \<le> fCount s + 1" using six assms(3) by (simp add: add.commute)
  have f: "sonarPtr s' = (if sonarPtr s < ?n then sonarPtr s + 1 else sonarPtr s)"
    "sonarRxBuf s' = (if sonarPtr s < ?n then (sonarRxBuf s)[sonarPtr s := t] else sonarRxBuf s)"
    "sonarPtr s' = ?n \<Longrightarrow> sonarBuf s' = take ?n (sonarRxBuf s')"
    using assms(2) six' i(2) by (cases "t = 0xFF"; auto simp: s'_def sonarByte_def bfin_actLight_def Let_def)+
  show "sonarPtr s' = min ?n (Suc (sonarPtr s))" using f(1) i(2) by auto
  show "take ?n (take (sonarPtr s') (sonarRxBuf s') @ bs) = take ?n (take (sonarPtr s) (sonarRxBuf s) @ t # bs)"
    using f(1,2) i by (cases "sonarPtr s < ?n") (simp_all add: take_Suc_conv_app_nth)
  show "sonarPtr s' = ?n \<Longrightarrow> sonarBuf s' = sonarRxBuf s'" using f(2,3) i by (simp split: if_splits)
qed

text \<open>As long as no start sequence comes, the bytes fill the packet, and it stays when it is full.\<close>

lemma plain_bytes:
  assumes "bfin_inv s" and "\<not> portalMode s" and "fCount s = of_nat k" and "no_start k bs" and "bs \<noteq> []"
    and "SONAR_PACKET_LEN \<le> sonarPtr s + length bs"
  shows "sonarBuf (fold sonarByte bs s) = take SONAR_PACKET_LEN (take (sonarPtr s) (sonarRxBuf s) @ bs)"
  using assms
proof (induction bs arbitrary: s k)
  case (Cons t bs)
  let ?n = SONAR_PACKET_LEN and ?t = "sonarByte t s"
  have ff: "t = 0xFF \<longrightarrow> Suc k < 6" using Cons.prems(4) by (simp split: if_splits)
  note t = sonarByte_plain [OF Cons.prems(1-3) ff]
  show ?case
  proof (cases "bs = []")
    case True
    have full: "sonarPtr ?t = ?n" using t(4) Cons.prems(6) True by simp
    have l: "length (sonarRxBuf ?t) = ?n" using t(1) by (simp add: bfin_inv_def)
    show ?thesis using t(5) [where bs = "[]"] t(6) [OF full] full l True by simp
  next
    case False
    have p: "?n \<le> sonarPtr ?t + length bs" using t(4) Cons.prems(6) by simp
    have "no_start (if t = 0xFF then Suc k else 0) bs" using Cons.prems(4) by (simp split: if_splits)
    then have "sonarBuf (fold sonarByte bs ?t) = take ?n (take (sonarPtr ?t) (sonarRxBuf ?t) @ bs)"
      using Cons.IH [OF t(1-3) _ False p] by blast
    then show ?thesis using t(5) [where bs = bs] by simp
  qed
qed simp

lemma start_bytes:
  assumes "bfin_inv s" and "\<not> portalMode s" and "fCount s = of_nat k" and "k + n < 256" and "6 \<le> k + n" and "0 < n"
  shows "bfin_inv (fold sonarByte (replicate n 0xFF) s) \<and> \<not> portalMode (fold sonarByte (replicate n 0xFF) s)
    \<and> fCount (fold sonarByte (replicate n 0xFF) s) = of_nat (k + n) \<and> sonarPtr (fold sonarByte (replicate n 0xFF) s) = 0"
  using assms
proof (induction n arbitrary: s k)
  case (Suc n)
  let ?t = "sonarByte 0xFF s"
  have t: "bfin_inv ?t" "\<not> portalMode ?t" "fCount ?t = of_nat (Suc k)" "6 \<le> Suc k \<Longrightarrow> sonarPtr ?t = 0"
  proof -
    have "6 \<le> (of_nat (Suc k) :: byte)" if "6 \<le> Suc k"
      using that Suc.prems(4) by (simp add: word_le_nat_alt unat_of_nat take_bit_nat_def del: of_nat_Suc)
    then show "6 \<le> Suc k \<Longrightarrow> sonarPtr ?t = 0"
      using Suc.prems(2,3) by (simp add: sonarByte_def bfin_actLight_def Let_def add.commute)
    show "bfin_inv ?t" by (rule sonarByte_inv [OF Suc.prems(1)])
    show "\<not> portalMode ?t" "fCount ?t = of_nat (Suc k)"
      using Suc.prems(2,3) by (simp_all add: sonarByte_def bfin_actLight_def Let_def add.commute)
  qed
  show ?case
  proof (cases "n = 0")
    case True
    then show ?thesis using t Suc.prems by simp
  next
    case False
    then show ?thesis using Suc.IH [OF t(1-3)] Suc.prems by simp
  qed
qed simp

lemma interrupts_bytes:
  "\<not> portalMode s \<Longrightarrow> fold U2RXInterrupt chunks s = fold sonarByte (concat chunks) s"
proof (induction chunks arbitrary: s)
  case (Cons ts chunks)
  have "portalMode (fold sonarByte bs s) = portalMode s" for bs s
    by (induction bs arbitrary: s) (simp_all add: sonarByte_def bfin_actLight_def Let_def)
  then show ?case using Cons by (simp add: U2RXInterrupt_def)
qed simp

section \<open>What the master reads\<close>

lemma fold_putTx:
  assumes "length (txBuf s) = 30" and "n < 30"
  shows "txBuf (fold (\<lambda>i s. putTx (i + 1) (sonarBuf s ! i) s) [0..<n] s) ! 0 = txBuf s ! 0
    \<and> (\<forall>k<n. txBuf (fold (\<lambda>i s. putTx (i + 1) (sonarBuf s ! i) s) [0..<n] s) ! Suc k = sonarBuf s ! k)
    \<and> length (txBuf (fold (\<lambda>i s. putTx (i + 1) (sonarBuf s ! i) s) [0..<n] s)) = 30
    \<and> sonarBuf (fold (\<lambda>i s. putTx (i + 1) (sonarBuf s ! i) s) [0..<n] s) = sonarBuf s
    \<and> txPtr (fold (\<lambda>i s. putTx (i + 1) (sonarBuf s ! i) s) [0..<n] s) = txPtr s
    \<and> busState (fold (\<lambda>i s. putTx (i + 1) (sonarBuf s ! i) s) [0..<n] s) = busState s"
  using assms(2)
proof (induction n)
  case 0
  then show ?case using assms(1) by simp
next
  case (Suc n)
  then show ?case using assms(1) by (auto simp: putTx_def nth_list_update less_Suc_eq)
qed

lemma draw_tx:
  assumes "txPtr s = of_nat i" and "i + n \<le> length (txBuf s)" and "length (txBuf s) \<le> 255" and "next_tx ch = nextTx"
  shows "draw ch n s = Some (map (\<lambda>k. txBuf s ! (i + k)) [0..<n], s\<lparr>txPtr := of_nat (i + n)\<rparr>)"
  using assms
proof (induction n arbitrary: s i)
  case (Suc n)
  have "unat (of_nat i :: byte) = i" using Suc.prems(2,3) by (simp add: unat_of_nat take_bit_nat_def)
  then have "nextTx s = Some (txBuf s ! i, s\<lparr>txPtr := of_nat (Suc i)\<rparr>)"
    using Suc.prems(1-3) by (simp add: nextTx_def add.commute)
  moreover have "map (\<lambda>k. txBuf s ! (i + k)) [0..<Suc n] = txBuf s ! i # map (\<lambda>k. txBuf s ! (Suc i + k)) [0..<n]"
    by (simp add: upt_conv_Cons map_Suc_upt [symmetric] del: upt_Suc)
  ultimately show ?case
    using Suc.IH [of "s\<lparr>txPtr := of_nat (Suc i)\<rparr>" "Suc i"] Suc.prems by simp
qed simp

lemma sonar_command:
  assumes "bfin_inv s" and "busState s = STATE_TOP_LEVEL"
  shows "\<exists>d d'. bfin_processData BUS_CMD_SONAR s = Some d \<and> draw_block bfin_chip d = Some (sonarBuf s, d')
    \<and> sonarBuf d' = sonarBuf s \<and> busState d' = STATE_TOP_LEVEL"
proof -
  let ?s = "s\<lparr>txPtr := 0\<rparr>"
  let ?t = "fold (\<lambda>i s. putTx (i + 1) (sonarBuf s ! i) s) [0..<22] ?s"
  let ?d = "putTx 0 22 ?t"
  have l: "length (txBuf ?s) = 30" "length (sonarBuf s) = 22"
    using assms(1) by (simp_all add: bfin_inv_def core_inv_def SONAR_PACKET_LEN_val)
  have t: "txBuf ?t ! Suc k = sonarBuf s ! k" if "k < 22" for k using fold_putTx [OF l(1), of 22] that by simp
  have u: "length (txBuf ?t) = 30" "sonarBuf ?t = sonarBuf s" "txPtr ?t = 0" "busState ?t = STATE_TOP_LEVEL"
    using fold_putTx [OF l(1), of 22] assms(2) by simp_all
  have p: "bfin_processData BUS_CMD_SONAR s = Some ?d"
    using assms(2) by (simp add: bfin_processData_def bfin_command_def codes SONAR_PACKET_LEN_val Let_def del: upt_rec_numeral)
  have n: "next_tx bfin_chip ?d = Some (22, ?d\<lparr>txPtr := 1\<rparr>)"
    using u by (simp add: nextTx_def putTx_def)
  have "draw bfin_chip 22 (?d\<lparr>txPtr := of_nat 1\<rparr>) = Some (map (\<lambda>k. txBuf (?d\<lparr>txPtr := of_nat 1\<rparr>) ! (1 + k)) [0..<22], ?d\<lparr>txPtr := of_nat (1 + 22)\<rparr>)"
    using draw_tx [of "?d\<lparr>txPtr := of_nat 1\<rparr>" 1 22 bfin_chip] u by (simp add: putTx_def del: upt_rec_numeral)
  moreover have "map (\<lambda>k. txBuf (?d\<lparr>txPtr := of_nat 1\<rparr>) ! (1 + k)) [0..<22] = sonarBuf s"
    using t u l by (intro nth_equalityI) (simp_all add: putTx_def del: upt_rec_numeral)
  ultimately have "draw_block bfin_chip ?d = Some (sonarBuf s, ?d\<lparr>txPtr := 23\<rparr>)"
    unfolding draw_block_def n by (simp del: upt_rec_numeral)
  then show ?thesis using p u by (intro exI [of _ ?d] exI [of _ "?d\<lparr>txPtr := 23\<rparr>"]) (simp add: putTx_def del: upt_rec_numeral)
qed

text \<open>
  Property C17.  After at least six bytes 0xFF, a packet of 22 bytes that neither begins with 0xFF nor
  contains six of them in a row is what the board holds, however the bytes are spread over interrupts
  and whatever was received before; it stays through all further bytes up to the next start sequence,
  and it is the block the master reads when it asks for the sonar.
\<close>

theorem sonar_packet_received:
  assumes "bfin_inv s" and "\<not> portalMode s" and "fCount s = 0" and "6 \<le> n" and "n \<le> 255"
    and "length p = SONAR_PACKET_LEN" and "hd p \<noteq> 0xFF" and "\<not> sublist (replicate 6 0xFF) (p @ r)"
    and "concat chunks = replicate n 0xFF @ p @ r" and "busState s = STATE_TOP_LEVEL"
  shows "sonarBuf (fold U2RXInterrupt chunks s) = p
    \<and> (\<exists>d d'. bfin_processData BUS_CMD_SONAR (fold U2RXInterrupt chunks s) = Some d \<and> draw_block bfin_chip d = Some (p, d'))"
proof -
  let ?u = "fold sonarByte (replicate n 0xFF) s"
  have z: "fCount s = of_nat 0" "0 + n < 256" "6 \<le> 0 + n" "0 < n" using assms(3-5) by simp_all
  have u: "bfin_inv ?u" "\<not> portalMode ?u" "fCount ?u = of_nat n" "sonarPtr ?u = 0"
    using start_bytes [OF assms(1,2) z] by simp_all
  obtain b p' where p: "p = b # p'" "b \<noteq> 0xFF" using assms(6,7) by (cases p) (simp_all add: SONAR_PACKET_LEN_val)
  have "no_start 0 (p @ r)" using no_start_sublist [of 0 "p @ r"] assms(8) by simp
  then have "no_start n (p @ r)" using p by simp
  moreover have "p @ r \<noteq> []" "SONAR_PACKET_LEN \<le> sonarPtr ?u + length (p @ r)" using assms(6) p by simp_all
  ultimately have f: "sonarBuf (fold sonarByte (p @ r) ?u) = p"
    using plain_bytes [OF u(1-3), where bs = "p @ r"] u(4) assms(6) by (simp del: fold_append fold_replicate)
  have e: "fold U2RXInterrupt chunks s = fold sonarByte (p @ r) ?u"
    using interrupts_bytes [OF assms(2)] assms(9) by simp
  have "busState (fold sonarByte bs s) = busState s" for bs s
    by (induction bs arbitrary: s) (simp_all add: sonarByte_def bfin_actLight_def Let_def)
  then have "busState (fold sonarByte (p @ r) ?u) = STATE_TOP_LEVEL" using assms(10) by (simp del: fold_append fold_replicate)
  then show ?thesis
    using sonar_command [OF fold_sonarByte_inv [OF u(1)], of "p @ r"] f e by auto
qed

theorem sonar_packet_received_witness:
  "sonarBuf (fold U2RXInterrupt [[0xFF, 0xFF, 0xFF, 0xFF], [0xFF, 0xFF, 7, 0xFF], replicate 20 9, [1, 2]] (bfin_start False)) = [7, 0xFF] @ replicate 20 9"
proof -
  let ?p = "[7, 0xFF] @ replicate 20 9 :: byte list" and ?r = "[1, 2] :: byte list"
  let ?c = "[[0xFF, 0xFF, 0xFF, 0xFF], [0xFF, 0xFF, 7, 0xFF], replicate 20 9, [1, 2]] :: byte list list"
  have s: "bfin_inv (bfin_start False)" "\<not> portalMode (bfin_start False)" "fCount (bfin_start False) = 0"
    "busState (bfin_start False) = STATE_TOP_LEVEL"
    by (rule bfin_start_inv) (simp_all add: bfin_start_def STATE_defs)
  have "no_start 0 (?p @ ?r)" by code_simp
  then have p: "\<not> sublist (replicate 6 0xFF) (?p @ ?r)" using no_start_sublist [of 0 "?p @ ?r"] by simp
  have n: "6 \<le> (6 :: nat)" "6 \<le> (255 :: nat)" "length ?p = SONAR_PACKET_LEN" "hd ?p \<noteq> 0xFF" "concat ?c = replicate 6 0xFF @ ?p @ ?r"
    by (simp, simp, simp add: SONAR_PACKET_LEN_val, simp, simp add: eval_nat_numeral)
  show ?thesis using sonar_packet_received [OF s(1-3) n(1-4) p n(5) s(4)] by blast
qed

end
