(* ===== verification/Vessel.thy ===== *)
theory Vessel
  imports Vehicle MotorBoard PneuRun BalancerBoard Sonar
begin

text \<open>
  All seven slaves with the code of their boards: to the four of \<open>System\<close> come the battery balancer, the
  Blackfin board and the motor board, and behind the serial line of the motor board the pneumatics board.
  Calls of the driver are followed to what they do there.
\<close>

section \<open>The other three boards\<close>

datatype other_board = Balancer_board balancer | Sonar_board bfin | Motor_board motor

definition other_chips :: "nat \<Rightarrow> other_board chip" where
  "other_chips i =
     (if i = unat IRQ_BALANCER then mount Balancer_board (\<lambda>x. case x of Balancer_board d \<Rightarrow> Some d | _ \<Rightarrow> None) balancer_chip
      else if i = unat IRQ_SONAR then mount Sonar_board (\<lambda>x. case x of Sonar_board d \<Rightarrow> Some d | _ \<Rightarrow> None) bfin_chip
      else mount Motor_board (\<lambda>x. case x of Motor_board d \<Rightarrow> Some d | _ \<Rightarrow> None) motor_chip)"

text \<open>The bus with its seven slaves.\<close>

abbreviation vessel :: "(nat \<Rightarrow> nat \<Rightarrow> bool) \<Rightarrow> other_board board bus bus_env" where
  "vessel sched \<equiv> tortuga other_chips sched"

lemma other_process [simp]:
  "process (other_chips 4) b (Balancer_board bb) = map_option Balancer_board (balancer_processData b bb)"
  "process (other_chips 5) b (Sonar_board bf) = map_option Sonar_board (bfin_processData b bf)"
  "process (other_chips 6) b (Motor_board m) = map_option Motor_board (motor_processData b m)"
  by (simp_all add: other_chips_def mount_def board_numbers)

lemma other_next_tx [simp]:
  "next_tx (other_chips 4) (Balancer_board bb) = map_option (map_prod id Balancer_board) (nextTx bb)"
  "next_tx (other_chips 5) (Sonar_board bf) = map_option (map_prod id Sonar_board) (nextTx bf)"
  "next_tx (other_chips 6) (Motor_board m) = map_option (map_prod id Motor_board) (motor_nextTx m)"
  by (simp_all add: other_chips_def mount_def board_numbers)

text \<open>The seven boards, and a byte for one of the last three.\<close>

definition fleet :: "ic4 \<Rightarrow> ic3 \<Rightarrow> ic2 \<Rightarrow> distro \<Rightarrow> balancer \<Rightarrow> bfin \<Rightarrow> motor \<Rightarrow> other_board board list" where
  "fleet d4 d3 d2 dd bb bf m = rack d4 d3 d2 dd (Balancer_board bb, Sonar_board bf, Motor_board m)"

lemma feed_fleet:
  "balancer_processData b bb = Some bb' \<Longrightarrow>
     feed (tortuga_chips other_chips) ((b, IRQ_BALANCER) # ws) (fleet d4 d3 d2 dd bb bf m)
       = feed (tortuga_chips other_chips) ws (fleet d4 d3 d2 dd bb' bf m)"
  "bfin_processData b bf = Some bf' \<Longrightarrow>
     feed (tortuga_chips other_chips) ((b, IRQ_SONAR) # ws) (fleet d4 d3 d2 dd bb bf m)
       = feed (tortuga_chips other_chips) ws (fleet d4 d3 d2 dd bb bf' m)"
  "motor_processData b m = Some m' \<Longrightarrow>
     feed (tortuga_chips other_chips) ((b, IRQ_MOTOR) # ws) (fleet d4 d3 d2 dd bb bf m)
       = feed (tortuga_chips other_chips) ws (fleet d4 d3 d2 dd bb bf m')"
  by (simp_all add: board_numbers fleet_def rack_def)

section \<open>A call and its plan\<close>

text \<open>A call that waits for success, and whose frame the master carries out as the table of plans says.\<close>

lemma plan_acknowledged:
  assumes "at_ease other sched p" and "(c, plan) \<in> set plans" and "well_framed c bs"
    and "feed (tortuga_chips other) (plan bs) (boards other (fst p)) = Some ds"
  obtains p' where "acknowledged (board_port (tortuga other sched)) (c # bs) p = (SB_OK, p')" "at_ease other sched p'"
    "boards other (fst p') = ds"
proof -
  have r: "ready other sched (addressed bs (fst p))" "boards other (addressed bs (fst p)) = boards other (fst p)"
    using assms(1) by (simp_all add: at_ease_def)
  obtain s' where s': "hostCommand (tortuga other sched) c (addressed bs (fst p)) = Done () s'"
    "tx s' = tx (fst p) @ [HOST_REPLY_SUCCESS]" "rx s' = []" "ready other sched s'" "usb s' = usb (fst p)"
    "failsafeTripped s' = failsafeTripped (fst p)" "boards other s' = ds"
    using slave_system.plan_fed [OF assms(2) at_ease_receives [OF assms(1)] assms(3) ready_idle [OF r(1)], of ds] assms(4) r(2)
    unfolding tortuga_def boards_def ready_def by auto
  obtain p' where "acknowledged (board_port (tortuga other sched)) (c # bs) p = (SB_OK, p')" "at_ease other sched p'" "fst p' = s'"
    by (rule acknowledged_success [OF assms(1) s'(1,2,4,3,5,6)])
  then show thesis using that s'(7) by simp
qed

lemma well_framed_plain: "plain c \<Longrightarrow> map_of payloads c = None \<Longrightarrow> well_framed c [c]"
  by (simp add: well_framed_def plain_def)

section \<open>A vehicle that has just been switched on\<close>

lemma power_up_ready:
  assumes "length ds = 7"
  shows "ready other keen (started (power_up ((!) ds)) evs)" and "boards other (started (power_up ((!) ds)) evs) = ds"
    and "at_ease other keen (started (power_up ((!) ds)) [], [])"
proof -
  have p: "prompt keen" by (auto simp: prompt_def keen_def intro: exI [of _ 0])
  show r: "ready other keen (started (power_up ((!) ds)) evs)" for evs
    unfolding ready_def slave_system.idle_def
    using p power_up_rest(1) by (simp add: started) (simp add: started_def)
  have "devices (tortuga_chips other) (power_up ((!) ds)) = map ((!) ds) [0..<length ds]"
    using power_up_rest(2) assms by metis
  then show "boards other (started (power_up ((!) ds)) evs) = ds"
    unfolding map_nth boards_def by (simp add: started_def)
  show "at_ease other keen (started (power_up ((!) ds)) [], [])"
    using r [of "[]"] by (simp add: at_ease_def settled_def attentive_def started)
qed

definition new_fleet :: "other_board board list" where
  "new_fleet = fleet (ic4_start idle_uarts) (ic3_start idle_uarts (replicate 60 0) True) (ic2_start idle_uarts)
     (distro_start False) (balancer_start (\<lambda>n. True) True) (bfin_start False) (motor_start 0)"

definition new_port :: "other_board board bus master \<times> byte list" where
  "new_port = (started (power_up ((!) new_fleet)) [], [])"

lemma new_port:
  "at_ease other_chips keen new_port"
  "boards other_chips (fst new_port) = fleet (ic4_start idle_uarts) (ic3_start idle_uarts (replicate 60 0) True) (ic2_start idle_uarts)
     (distro_start False) (balancer_start (\<lambda>n. True) True) (bfin_start False) (motor_start 0)"
proof -
  have "length new_fleet = 7" by (simp add: new_fleet_def fleet_def rack_def)
  then show "at_ease other_chips keen new_port"
    "boards other_chips (fst new_port) = fleet (ic4_start idle_uarts) (ic3_start idle_uarts (replicate 60 0) True) (ic2_start idle_uarts)
     (distro_start False) (balancer_start (\<lambda>n. True) True) (bfin_start False) (motor_start 0)"
    unfolding new_port_def by (simp_all add: power_up_ready) (simp add: new_fleet_def)
qed

section \<open>The power kill\<close>

text \<open>
  Property C11.  A hard kill through the driver is carried out and is final: the call succeeds, the
  balancer has cut the power, and nothing that happens to the balancer afterwards, no byte, no
  measurement, no water and no timer, switches it on again; the other boards are as they were.
\<close>

theorem driver_hard_kills:
  assumes "at_ease other_chips sched p" and "boards other_chips (fst p) = fleet d4 d3 d2 dd bb bf m"
    and "balancer_inv bb" and "busState bb = STATE_TOP_LEVEL" and "\<not> WATER_CN_BIT bb"
  shows "\<exists>p' bb'. hardKill (board_port (vessel sched)) p = (SB_OK, p') \<and> at_ease other_chips sched p'
    \<and> boards other_chips (fst p') = fleet d4 d3 d2 dd bb' bf m
    \<and> (\<forall>es u. bb_run es bb' = Some u \<longrightarrow> LAT_PWRKILL u = PWRKILL_ON)"
proof -
  obtain bb' where bb': "balancer_processData BUS_CMD_HARDKILL bb = Some bb'"
    using balancer_registers.crashes_iff [OF assms(3), of BUS_CMD_HARDKILL] assms(4) by (auto simp: STATE_defs)
  then have e: "bb_step (BB_Byte BUS_CMD_HARDKILL) bb = Some bb'" by simp
  have k: "balancer_inv bb'" "\<not> WATER_CN_BIT bb'" "LAT_PWRKILL bb' = PWRKILL_ON"
    using bb_step_kill [OF assms(3,5) e] assms(4) by auto
  let ?plan = "\<lambda>p :: byte list. [(BUS_CMD_HARDKILL, SLAVE_ID_HARDKILL)]"
  have plan: "(HOST_CMD_HARDKILL, ?plan) \<in> set plans" by (simp add: plans_def)
  have "feed (tortuga_chips other_chips) (?plan hkSafety) (boards other_chips (fst p)) = Some (fleet d4 d3 d2 dd bb' bf m)"
    by (simp add: assms(2) SLAVE_ID_HARDKILL_val feed_fleet(1) [OF bb'] del: feed.simps(2))
  then obtain p' where p': "acknowledged (board_port (vessel sched)) (HOST_CMD_HARDKILL # hkSafety) p = (SB_OK, p')"
    "at_ease other_chips sched p'" "boards other_chips (fst p') = fleet d4 d3 d2 dd bb' bf m"
    by (rule plan_acknowledged [OF assms(1) plan packet_frames(1)])
  have "hardKill (board_port (vessel sched)) p = acknowledged (board_port (vessel sched)) (HOST_CMD_HARDKILL # hkSafety) p"
    by (simp add: hardKill_def hkSafety_def codes)
  then show ?thesis using p' k bb_run_kill [of bb'] by (intro exI [of _ p'] exI [of _ bb']) auto
qed

theorem driver_hard_kills_witness:
  "\<exists>p' bb. hardKill (board_port (vessel keen)) new_port = (SB_OK, p')
     \<and> boards other_chips (fst p') ! 4 = Other_board (Balancer_board bb) \<and> LAT_PWRKILL bb = PWRKILL_ON"
proof -
  let ?b = "balancer_start (\<lambda>n. True) True"
  have b: "balancer_inv ?b" "busState ?b = STATE_TOP_LEVEL" "\<not> WATER_CN_BIT ?b"
    by (simp_all add: balancer_start_inv) (simp_all add: balancer_start_def STATE_defs)
  obtain p' bb where p': "hardKill (board_port (vessel keen)) new_port = (SB_OK, p')"
    "boards other_chips (fst p') = fleet (ic4_start idle_uarts) (ic3_start idle_uarts (replicate 60 0) True) (ic2_start idle_uarts)
       (distro_start False) bb (bfin_start False) (motor_start 0)"
    "\<forall>es u. bb_run es bb = Some u \<longrightarrow> LAT_PWRKILL u = PWRKILL_ON"
    using driver_hard_kills [OF new_port b] by blast
  have "bb_run [] bb = Some bb" by simp
  then have "LAT_PWRKILL bb = PWRKILL_ON" using p'(3) by blast
  then show ?thesis using p'(1,2) by (intro exI [of _ p'] exI [of _ bb]) (simp add: fleet_def rack_def)
qed

end
