(* ===== verification/Torpedo.thy ===== *)
theory Torpedo
  imports Vessel
begin

text \<open>
  A pneumatic command on its way from the motor board to the valves: the buffer of forwarded commands, the
  rounds of the loop that empty it into the serial line, and the pneumatics board at the end of the line.
\<close>

section \<open>The buffer and the serial line\<close>

text \<open>What still waits in the buffer.\<close>

definition pending :: "motor \<Rightarrow> byte list" where
  "pending s = drop (uartBufPos s) (take (uartBufSize s) (uartBuf s))"

definition start_sequence :: "byte list" where
  "start_sequence = [0xDE, 0xAF, 0xBE, 0xEF]"

text \<open>A round in which the bus is silent; \<open>chances\<close> counts the rounds in which the transmitter has room.\<close>

definition quiet_round :: "round_in \<Rightarrow> bool" where
  "quiet_round r \<longleftrightarrow> in_pump r = [] \<and> (\<forall>i. before_motor r i = [])"

definition chances :: "round_in list \<Rightarrow> nat" where
  "chances rs = length (filter (\<lambda>r. \<not> UTXBF r) rs)"

lemma bus_side_fields:
  assumes "bus_side s = bus_side t"
  shows "uart_line s = uart_line t" "sent_start s = sent_start t" "pending s = pending t"
  using assms by (simp_all add: bus_side_def pending_def)

lemma pending_Nil: "motor_ok s \<Longrightarrow> pending s = [] \<longleftrightarrow> uartBufPos s = uartBufSize s"
  by (auto simp: pending_def motor_ok_def)

lemma pump_silent:
  assumes "motor_ok s"
  obtains s' where "pump full [] s = Some s'" "motor_ok s'" "motorSpeed s' = motorSpeed s" "i2c_line s' = i2c_line s"
    "full \<or> pending s = [] \<Longrightarrow> s' = s"
    "\<not> full \<Longrightarrow> pending s \<noteq> [] \<Longrightarrow>
       uart_line s' = uart_line s @ (if sent_start s then [] else start_sequence) @ [hd (pending s)]
       \<and> sent_start s' \<and> pending s' = tl (pending s)"
proof (cases "\<not> full \<and> uartBufPos s < uartBufSize s")
  case False
  then have "pump full [] s = Some s" "full \<or> pending s = []"
    using pending_Nil [OF assms] assms by (auto simp: pump_def motor_ok_def)
  then show thesis using that [of s] assms by metis
next
  case True
  have l: "length (uartBuf s) = 64" "uartBufSize s \<le> 64" using assms by (simp_all add: motor_ok_def)
  have c: "pending s = uartBuf s ! uartBufPos s # drop (Suc (uartBufPos s)) (take (uartBufSize s) (uartBuf s))"
    using True l by (simp add: pending_def Cons_nth_drop_Suc [symmetric])
  define t where "t = s\<lparr>uart_line := uart_line s @ (if sent_start s then [] else start_sequence) @ [hd (pending s)],
      sent_start := True, uartBufPos := Suc (uartBufPos s)\<rparr>"
  define u where "u = (if Suc (uartBufPos s) = uartBufSize s then t\<lparr>uartBufPos := 0, uartBufSize := 0\<rparr> else t)"
  have "pump full [] s = Some u"
    using True by (cases "sent_start s") (simp_all add: pump_def writeUart_def u_def t_def c start_sequence_def Let_def)
  moreover have "motor_ok u" "motorSpeed u = motorSpeed s" "i2c_line u = i2c_line s"
    using assms True by (auto simp: u_def t_def motor_ok_def)
  moreover have "uart_line u = uart_line s @ (if sent_start s then [] else start_sequence) @ [hd (pending s)]" "sent_start u"
    by (simp_all add: u_def t_def)
  moreover have "pending u = tl (pending s)"
    using l by (auto simp: u_def t_def pending_def drop_Suc tl_drop)
  ultimately show thesis using that [of u] True c by simp
qed

lemma sends_silent:
  assumes "quiet_round r" and "motor_ok s"
  obtains s' where "sendSpeeds r vs is s = Some s'" "motor_ok s'" "bus_side s' = bus_side s"
proof -
  have "\<exists>s'. sendSpeeds r vs is s = Some s' \<and> motor_ok s' \<and> bus_side s' = bus_side s"
    using assms(2)
  proof (induction "is" arbitrary: s)
    case (Cons i "is")
    have "motor_ok (i2c_do (Select i) s)" "bus_side (i2c_do (Select i) s) = bus_side s"
      using Cons.prems by (simp_all add: i2c_do_def bus_side_def)
    then obtain t where t: "sendSpeed (i2c_ints r i) (vs ! i) (i2c_do (Select i) s) = Some t" "motor_ok t" "bus_side t = bus_side s"
      using sendSpeed_any [of "i2c_do (Select i) s" "i2c_ints r i" "vs ! i"] by metis
    then show ?case using Cons.IH [of t] assms(1) by (simp add: quiet_round_def)
  qed simp
  then show thesis using that by blast
qed

lemma round_silent:
  assumes "quiet_round r" and "motor_ok s"
  obtains s' where "motor_round r s = Some s'" "motor_ok s'"
    "UTXBF r \<or> pending s = [] \<Longrightarrow> uart_line s' = uart_line s \<and> sent_start s' = sent_start s \<and> pending s' = pending s"
    "\<not> UTXBF r \<Longrightarrow> pending s \<noteq> [] \<Longrightarrow>
       uart_line s' = uart_line s @ (if sent_start s then [] else start_sequence) @ [hd (pending s)]
       \<and> sent_start s' \<and> pending s' = tl (pending s)"
proof -
  obtain t where t: "pump (UTXBF r) [] s = Some t" "motor_ok t" "motorSpeed t = motorSpeed s"
    "UTXBF r \<or> pending s = [] \<Longrightarrow> t = s"
    "\<not> UTXBF r \<Longrightarrow> pending s \<noteq> [] \<Longrightarrow>
       uart_line t = uart_line s @ (if sent_start s then [] else start_sequence) @ [hd (pending s)]
       \<and> sent_start t \<and> pending t = tl (pending s)"
    using pump_silent [OF assms(2)] by metis
  let ?u = "if T3IF r then t\<lparr>LAT_MRKR1 := True, LAT_MRKR2 := True, LAT_WAH_INH := False\<rparr> else t"
  have u: "motor_ok ?u" "bus_side ?u = bus_side t" using t(2) by (simp_all add: bus_side_def)
  obtain s' where s': "sendSpeeds r (motorSpeed s) [0..<7] ?u = Some s'" "motor_ok s'" "bus_side s' = bus_side ?u"
    by (rule sends_silent [OF assms(1) u(1)])
  have "motor_round r s = Some s'"
    using t(1) s'(1) assms(1) by (simp add: motor_round_def quiet_round_def Let_def)
  moreover have "uart_line s' = uart_line t" "sent_start s' = sent_start t" "pending s' = pending t"
    using bus_side_fields [of s' t] s'(3) u(2) by simp_all
  ultimately show thesis using that [of s'] s'(2) t(4,5) by auto
qed

text \<open>
  As many rounds as the buffer has bytes, whatever comes between them, send it off, with the start sequence
  in front if nothing was ever sent.
\<close>

lemma rounds_silent:
  assumes "motor_ok s" and "list_all quiet_round rs"
  shows "\<exists>s'. motor_run (map Round rs) s = Some s' \<and> motor_ok s'
    \<and> uart_line s' = uart_line s @ (if sent_start s \<or> chances rs = 0 \<or> pending s = [] then [] else start_sequence)
         @ take (chances rs) (pending s)
    \<and> pending s' = drop (chances rs) (pending s)"
  using assms
proof (induction rs arbitrary: s)
  case Nil
  then show ?case by (simp add: chances_def)
next
  case (Cons r rs)
  obtain t where t: "motor_round r s = Some t" "motor_ok t"
    "UTXBF r \<or> pending s = [] \<Longrightarrow> uart_line t = uart_line s \<and> sent_start t = sent_start s \<and> pending t = pending s"
    "\<not> UTXBF r \<Longrightarrow> pending s \<noteq> [] \<Longrightarrow>
       uart_line t = uart_line s @ (if sent_start s then [] else start_sequence) @ [hd (pending s)]
       \<and> sent_start t \<and> pending t = tl (pending s)"
    using round_silent [of r s] Cons.prems by auto
  obtain s' where s': "motor_run (map Round rs) t = Some s'" "motor_ok s'"
    "uart_line s' = uart_line t @ (if sent_start t \<or> chances rs = 0 \<or> pending t = [] then [] else start_sequence)
       @ take (chances rs) (pending t)"
    "pending s' = drop (chances rs) (pending t)"
    using Cons.IH [OF t(2)] Cons.prems(2) by auto
  have c: "chances (r # rs) = (if UTXBF r then chances rs else Suc (chances rs))" by (simp add: chances_def)
  show ?case
  proof (cases "UTXBF r \<or> pending s = []")
    case True
    then show ?thesis using t(1) t(3) [OF True] s' by (intro exI [of _ s']) (auto simp: c)
  next
    case False
    then show ?thesis
      using t(1,4) s' by (intro exI [of _ s']) (cases "pending s"; simp add: c)
  qed
qed

lemma forwarded_pending:
  assumes "motor_ok s" and "m_busState s = M_STATE_TOP_LEVEL" and "c \<in> set forwarded" and "uartBufSize s = 0"
  obtains s' where "motor_processData c s = Some s'" "motor_ok s'" "pending s' = checked [0x42, 0x43, c]"
    "uart_line s' = uart_line s" "sent_start s' = sent_start s"
proof -
  obtain s' where s': "motor_processData c s = Some s'"
    using motor_processData_None [OF assms(1), of c] assms(4) by (cases "motor_processData c s") auto
  have "motor_command c t = forwardCmd c t" for t using assms(3) by (auto simp: motor_command_def forwarded_def codes)
  then have f: "forwardCmd c (s\<lparr>m_txPtr := 0\<rparr>) = Some s'" using s' assms(2) by (simp add: motor_processData_def)
  have l: "length (uartBuf s) = 64" "uartBufPos s = 0" using assms(1,4) by (simp_all add: motor_ok_def)
  obtain a b d e rest where u: "uartBuf s = a # b # d # e # rest"
    using l(1) by (auto simp: numeral_eq_Suc length_Suc_conv)
  have "pending s' = checked [0x42, 0x43, c]" "uart_line s' = uart_line s" "sent_start s' = sent_start s"
    using f l assms(4) by (auto simp: forwardCmd_def pending_def checked_def u Let_def add.assoc split: if_splits)
  then show thesis using that s' motor_processData_ok [OF assms(1) s'] by blast
qed

section \<open>At the other end of the line\<close>

lemma start_taken:
  assumes "in_order v" and "syncs v = 0"
  shows "in_order (fold pneu_step (map Rx start_sequence) v)" "agendaOf (fold pneu_step (map Rx start_sequence) v) = agendaOf v"
    "syncs (fold pneu_step (map Rx start_sequence) v) = 4" "buff (fold pneu_step (map Rx start_sequence) v) = buff v"
proof -
  let ?v = "fold pneu_step (map Rx start_sequence) v"
  show "in_order ?v"
    using assms(1) in_order_step by (rule fold_keeps)
  have "table_of ?v = table_of v \<and> FILL_PAIR ?v = FILL_PAIR v \<and> VOID_PAIR ?v = VOID_PAIR v \<and> syncs ?v = 4 \<and> buff ?v = buff v"
    using assms(2) by (simp add: start_sequence_def pneu_byte_def syncByte_def say_def Let_def table_of_def)
  then show "agendaOf ?v = agendaOf v" "syncs ?v = 4" "buff ?v = buff v"
    by (simp_all add: agendaOf_def todoOf_def [abs_def] positionOf_def [abs_def] table_of_def live_def [abs_def] cong del: if_weak_cong)
qed

text \<open>The valves after the bytes the motor board sends for a piston, and a while.\<close>

lemma piston_line:
  assumes "pneu_reachable v" and "buff v = []" and "syncs v = (if awake then 4 else 0)"
    and "\<And>u. (bs, [(first, second)]) \<in> set (piston_packets u)"
    and "line = (if awake then [] else start_sequence) @ checked bs"
  shows "positionOf (fold pneu_step (map Rx line @ replicate n Tick) v) first
      = first_at n (positionOf (fold pneu_step (replicate n Tick) v) first)"
    and "positionOf (fold pneu_step (map Rx line @ replicate n Tick) v) second
      = second_at n (positionOf (fold pneu_step (replicate n Tick) v) second)"
proof -
  define u where "u = fold pneu_step (map Rx (if awake then [] else start_sequence)) v"
  have v: "in_order v" by (rule reachable_in_order [OF assms(1)])
  have u: "in_order u" "agendaOf u = agendaOf v" "syncs u = 4" "buff u = []"
    using start_taken [OF v] v assms(2,3) by (auto simp: u_def)
  note c = packet_moves [OF u(1) assms(4)]
  have b: "in_order (packet (checked bs) u)" "agendaOf (packet (checked bs) u) = all_moves [(first, second)] (agendaOf v)"
    using c(1) u(2) by (simp_all add: moved_def)
  have "fold pneu_step (map Rx line) v = fold pneu_step (map Rx (checked bs)) u"
    by (simp add: assms(5) u_def)
  then have p: "fold pneu_step (map Rx line) v = packet (checked bs) u" using packet_taken [OF u(3,4) c(2)] by simp
  have q: "positionOf w x = position (agendaOf w) x" for w x by (simp add: agendaOf_def)
  have n: "second \<noteq> first" using c(3) by auto
  show "positionOf (fold pneu_step (map Rx line @ replicate n Tick) v) first
      = first_at n (positionOf (fold pneu_step (replicate n Tick) v) first)"
    "positionOf (fold pneu_step (map Rx line @ replicate n Tick) v) second
      = second_at n (positionOf (fold pneu_step (replicate n Tick) v) second)"
    unfolding fold_append o_apply p q ticks_agenda [OF b(1)] ticks_agenda [OF v] b(2) all_moves_in_time [OF c(3)]
    using n by (simp_all add: Let_def)
qed

section \<open>A torpedo\<close>

text \<open>
  Property C10.  Firing a torpedo, from the call of the driver to the valves: the call succeeds, the
  motor board is left with the command in its buffer, and once its loop has found room in the transmitter
  four times, whatever the I2C bus does in the meantime, the bytes on its serial line make the pneumatics
  board void the one side of the piston and fill the other for ten seconds, close the other and fill the one for a
  second, and close it.  Before these steps of the timer the valves are where they would have been.
\<close>

theorem driver_fires_torpedo:
  assumes "at_ease other_chips sched p" and "boards other_chips (fst p) = fleet d4 d3 d2 dd bb bf m"
    and "motor_ok m" and "m_busState m = M_STATE_TOP_LEVEL" and "uartBufSize m = 0"
    and "pneu_reachable v" and "buff v = []" and "syncs v = (if sent_start m then 4 else 0)"
    and "n = 1 \<or> n = 2" and "list_all quiet_round rs" and "4 \<le> chances rs"
    and "old = positionOf (fold pneu_step (replicate k Tick) v)"
  shows "\<exists>p' m1 m2 line. fireTorpedo (board_port (vessel sched)) n p = (SB_OK, p') \<and> at_ease other_chips sched p'
    \<and> boards other_chips (fst p') = fleet d4 d3 d2 dd bb bf m1 \<and> motor_run (map Round rs) m1 = Some m2
    \<and> uart_line m2 = uart_line m @ line
    \<and> positionOf (fold pneu_step (map Rx line @ replicate k Tick) v) (7 + n)
        = (if k < 1 then old (7 + n) else if k < 501 then PCMD_VOID else if k < 551 then PCMD_FILL else PCMD_OFF)
    \<and> positionOf (fold pneu_step (map Rx line @ replicate k Tick) v) (9 + n)
        = (if k < 2 then old (9 + n) else if k < 500 then PCMD_FILL else PCMD_OFF)"
proof -
  define h c where hc: "h = (if n = 1 then HOST_CMD_FIRE_TORP_1 else HOST_CMD_FIRE_TORP_2)"
    "c = (if n = 1 then BUS_CMD_FIRE_TORP_1 else BUS_CMD_FIRE_TORP_2)"
  have c: "c \<in> set forwarded" "\<And>u. ([0x42, 0x43, c], [(7 + n, 9 + n)]) \<in> set (piston_packets u)"
    using assms(9) by (auto simp: hc forwarded_def piston_packets_def)
  obtain m1 where m1: "motor_processData c m = Some m1" "motor_ok m1" "pending m1 = checked [0x42, 0x43, c]"
    "uart_line m1 = uart_line m" "sent_start m1 = sent_start m"
    by (rule forwarded_pending [OF assms(3,4) c(1) assms(5)])
  let ?plan = "\<lambda>p :: byte list. [(c, SLAVE_ID_TORPEDO)]"
  have plan: "(h, ?plan) \<in> set plans" using assms(9) by (auto simp: hc plans_def)
  have w: "well_framed h [h]" using assms(9) by (auto simp: hc well_framed_plain no_payload_commands plain_commands)
  have "feed (tortuga_chips other_chips) (?plan [h]) (boards other_chips (fst p)) = Some (fleet d4 d3 d2 dd bb bf m1)"
    by (simp add: assms(2) SLAVE_ID_TORPEDO_val feed_fleet(3) [OF m1(1)] del: feed.simps(2))
  then obtain p' where p': "acknowledged (board_port (vessel sched)) (h # [h]) p = (SB_OK, p')"
    "at_ease other_chips sched p'" "boards other_chips (fst p') = fleet d4 d3 d2 dd bb bf m1"
    by (rule plan_acknowledged [OF assms(1) plan w])
  have f: "fireTorpedo (board_port (vessel sched)) n p = (SB_OK, p')"
    using p'(1) assms(9) by (auto simp: fireTorpedo_def hc)
  let ?line = "(if sent_start m then [] else start_sequence) @ checked [0x42, 0x43, c]"
  have "pending m1 \<noteq> []" "length (checked [0x42, 0x43, c]) = 4" using m1(3) by (simp_all add: checked_def)
  then obtain m2 where m2: "motor_run (map Round rs) m1 = Some m2" "uart_line m2 = uart_line m @ ?line"
    using rounds_silent [OF m1(2) assms(10)] assms(11) m1(3-5) by auto
  show ?thesis
    using piston_line [OF assms(6-8) c(2) refl, of k] f p'(2,3) m2 unfolding assms(12) first_at_def second_at_def by blast
qed

text \<open>The first torpedo of a vehicle that has just come up, half a second after the packet.\<close>

theorem driver_fires_torpedo_witness:
  "\<exists>p' m1 m2. fireTorpedo (board_port (vessel keen)) 1 new_port = (SB_OK, p')
     \<and> boards other_chips (fst p') ! 6 = Other_board (Motor_board m1)
     \<and> motor_run (map Round (replicate 4 \<lparr>UTXBF = False, T3IF = False, in_pump = [], before_motor = (\<lambda>i. []), i2c_ints = (\<lambda>i. prompt_send)\<rparr>)) m1 = Some m2
     \<and> positionOf (fold pneu_step (map Rx (uart_line m2) @ replicate 25 Tick) (pneu_start (replicate 48 no_entry))) 10 = PCMD_FILL"
proof -
  let ?m = "motor_start 0" and ?v = "pneu_start (replicate 48 no_entry)"
  let ?rs = "replicate 4 \<lparr>UTXBF = False, T3IF = False, in_pump = [], before_motor = (\<lambda>i. []), i2c_ints = (\<lambda>i. prompt_send)\<rparr>"
  have m: "m_busState ?m = M_STATE_TOP_LEVEL" "uartBufSize ?m = 0" "uart_line ?m = []" "\<not> sent_start ?m"
    by (simp_all add: motor_start_def)
  have v: "pneu_reachable ?v" "buff ?v = []" "syncs ?v = (if sent_start ?m then 4 else 0)"
    by (simp_all add: start_reachable CMDCOUNT_def m) (simp_all add: pneu_start_def)
  have r: "list_all quiet_round ?rs" "4 \<le> chances ?rs" by (simp_all add: quiet_round_def chances_def list_all_iff)
  have n: "(1 :: byte) = 1 \<or> (1 :: byte) = 2" by simp
  have z: "(if (25 :: nat) < 2 then q else if (25 :: nat) < 500 then PCMD_FILL else PCMD_OFF) = PCMD_FILL" for q by simp
  obtain p' m1 m2 line where p': "fireTorpedo (board_port (vessel keen)) 1 new_port = (SB_OK, p')"
    "boards other_chips (fst p') = fleet (ic4_start idle_uarts) (ic3_start idle_uarts (replicate 60 0) True) (ic2_start idle_uarts)
       (distro_start False) (balancer_start (\<lambda>n. True) True) (bfin_start False) m1"
    "motor_run (map Round ?rs) m1 = Some m2" "uart_line m2 = uart_line ?m @ line"
    "positionOf (fold pneu_step (map Rx line @ replicate 25 Tick) ?v) (9 + 1) = PCMD_FILL"
    using driver_fires_torpedo [OF new_port motor_start_ok m(1,2) v n r refl, of 25] unfolding z by blast
  have "positionOf (fold pneu_step (map Rx (uart_line m2) @ replicate 25 Tick) ?v) 10 = PCMD_FILL"
    using p'(5) unfolding p'(4) m(3) append_Nil by (simp del: replicate.simps)
  then show ?thesis using p'(1-3) by (intro exI [of _ p'] exI [of _ m1] exI [of _ m2]) (simp add: fleet_def rack_def)
qed

end
