(* ===== verification/Speeds.thy ===== *)
theory Speeds
  imports Torpedo
begin

text \<open>
  The speeds of the six thrusters, from the call of the driver to the motor board, which tells them to the
  motor controllers, and to the power distribution board, which derives its current limits from them.
\<close>

section \<open>Speeds as bytes\<close>

definition thruster_code :: "int \<Rightarrow> byte" where
  "thruster_code v = (let q = scaled v in word_of_int (if q < 0 then 127 + q else 128 + q))"

lemma word_cat_bigEndian:
  "word_cat (word_of_int (drop_bit 8 v) :: byte) (word_of_int (v AND 0xFF) :: byte) = (word_of_int v :: word16)"
proof (rule bit_word_eqI)
  fix n assume "n < LENGTH(16)"
  have "n - 8 + 8 = n" if "8 \<le> n" using that by simp
  moreover have "bit (0xFF :: int) n \<longleftrightarrow> n < 8"
    using bit_mask_iff [of 8 n, where 'a = int] by (simp add: mask_eq_exp_minus_1)
  ultimately show "bit (word_cat (word_of_int (drop_bit 8 v) :: byte) (word_of_int (v AND 0xFF) :: byte) :: word16) n = bit (word_of_int v :: word16) n"
    using \<open>n < LENGTH(16)\<close>
    by (cases "n < 8") (auto simp: bit_word_cat_iff bit_word_of_int_iff bit_simps)
qed

lemma bigEndian_speed:
  assumes "\<bar>v\<bar> < 32768"
  shows "convertSpeed (bigEndian v ! 0) (bigEndian v ! 1) = thruster_code v"
    and "distroSpeed (bigEndian v ! 0) (bigEndian v ! 1) = word_of_int (\<bar>v\<bar> div 2)"
proof -
  have b: "bigEndian v = [word_of_int (drop_bit 8 v), word_of_int (v AND 0xFF)]" by (simp add: bigEndian_def)
  have s: "sint (word_of_int v :: word16) = v" if "\<bar>v\<bar> < 32768" for v using that by (simp add: int_word_sint)
  show "convertSpeed (bigEndian v ! 0) (bigEndian v ! 1) = thruster_code v"
    using s [OF assms] by (simp add: convertSpeed_spec speed16_def b word_cat_bigEndian thruster_code_def)
  have a: "(if (word_of_int v :: word16) <s 0 then - word_of_int v else word_of_int v) = (word_of_int \<bar>v\<bar> :: word16)"
    using s [OF assms] by (auto simp: word_sless_alt)
  have "sint (signed_drop_bit 1 (word_of_int \<bar>v\<bar> :: word16)) = \<bar>v\<bar> div 2"
    using s [of "\<bar>v\<bar>"] assms by (simp add: sint_signed_drop_bit_eq drop_bit_eq_div)
  then have "signed_drop_bit 1 (word_of_int \<bar>v\<bar> :: word16) = word_of_int (\<bar>v\<bar> div 2)"
    using scast_eq [of "signed_drop_bit 1 (word_of_int \<bar>v\<bar> :: word16)", where 'a = 16] by simp
  then have "(ucast (signed_drop_bit 1 (word_of_int \<bar>v\<bar> :: word16)) :: byte) = word_of_int (\<bar>v\<bar> div 2)"
    by (simp add: ucast_down_wi is_down)
  then show "distroSpeed (bigEndian v ! 0) (bigEndian v ! 1) = word_of_int (\<bar>v\<bar> div 2)"
    unfolding distroSpeed_def Let_def chunk_eq b nth_Cons_0 nth_Cons_Suc One_nat_def word_cat_bigEndian a
    by (simp only: One_nat_def)
qed

lemma thruster_code_safe:
  assumes "\<bar>v\<bar> \<le> 1023"
  shows "safe_speed (thruster_code v)"
proof -
  have b: "- 101 \<le> scaled v" "scaled v \<le> 101"
    using scaled_mono [of "- 1023" v] scaled_mono [of v 1023] assms by (simp_all add: scaled_def)
  define u where "u = (if scaled v < 0 then 127 + scaled v else 128 + scaled v)"
  have "26 \<le> u" "u \<le> 229" using b by (auto simp: u_def)
  then have "uint (word_of_int u :: byte) = u" by (simp add: uint_word_of_int)
  then show ?thesis
    using \<open>26 \<le> u\<close> \<open>u \<le> 229\<close> by (simp add: safe_speed_def thruster_code_def Let_def flip: u_def) (simp add: word_le_def)
qed

section \<open>The two loops of the master\<close>

definition motor_writes :: "(byte \<times> byte) list \<Rightarrow> (byte \<times> byte) list" where
  "motor_writes hls = map (\<lambda>(h, l). (convertSpeed h l, SLAVE_ID_MOTOR)) hls"

definition distro_writes :: "(byte \<times> byte) list \<Rightarrow> (byte \<times> byte) list" where
  "distro_writes hls = map (\<lambda>(h, l). (distroSpeed h l, SLAVE_ID_THRUSTERS)) hls"

lemma setspeed_framed: "well_framed HOST_CMD_SETSPEED bs \<longleftrightarrow> length bs = 13 \<and> summed HOST_CMD_SETSPEED bs"
proof -
  have "HOST_CMD_SETSPEED \<noteq> HOST_CMD_SYNC" "HOST_CMD_SETSPEED \<noteq> HOST_CMD_HARDKILL" by (simp_all add: codes)
  then show ?thesis by (auto simp: well_framed_def summed_payloads)
qed

context bus_contract
begin

lemma motorSpeedLoop_feed:
  assumes "idle s" and "\<And>k. k < length hls \<Longrightarrow> (rxBuf s ! (i + 2 * k), rxBuf s ! (i + 2 * k + 1)) = hls ! k"
    and "feed ch (motor_writes hls) (devs (env s)) = Some ds"
  shows "\<exists>s'. motorSpeedLoop E i (length hls) s = Done () s' \<and> bus_only s s' \<and> idle s' \<and> devs (env s') = ds"
  using assms
proof (induction hls arbitrary: i s)
  case (Cons x hls)
  have "motor_writes (x # hls) = [(convertSpeed (rxBuf s ! i) (rxBuf s ! (i + 1)), SLAVE_ID_MOTOR)] @ motor_writes hls"
    using Cons.prems(2) [of 0] by (cases x) (simp add: motor_writes_def)
  then obtain d1 where d1: "feed ch [(convertSpeed (rxBuf s ! i) (rxBuf s ! (i + 1)), SLAVE_ID_MOTOR)] (devs (env s)) = Some d1"
    "feed ch (motor_writes hls) d1 = Some ds"
    using Cons.prems(3) by (auto simp only: feed_append split: option.splits)
  obtain t where t: "busWriteByte E (convertSpeed (rxBuf s ! i) (rxBuf s ! (i + 1))) SLAVE_ID_MOTOR s = Done 0 t"
    "bus_only s t" "idle t" "devs (env t) = d1"
    using busWriteByte_feed [OF Cons.prems(1) d1(1)] by blast
  have "(rxBuf t ! (i + 2 + 2 * k), rxBuf t ! (i + 2 + 2 * k + 1)) = hls ! k" if "k < length hls" for k
    using Cons.prems(2) [of "Suc k"] t(2) that by (simp add: bus_only_def)
  then obtain s' where "motorSpeedLoop E (i + 2) (length hls) t = Done () s'" "bus_only t s'" "idle s'" "devs (env s') = ds"
    using Cons.IH [of t "i + 2"] t(3,4) d1(2) by auto
  then show ?case using t(1,2) by (auto intro: bus_only_trans)
qed (auto simp: motor_writes_def)

lemma distroSpeedLoop_feed:
  assumes "idle s" and "\<And>k. k < length hls \<Longrightarrow> (rxBuf s ! (2 * (i + k)), rxBuf s ! (2 * (i + k) + 1)) = hls ! k"
    and "feed ch (distro_writes hls) (devs (env s)) = Some ds"
  shows "\<exists>s'. distroSpeedLoop E i (length hls) s = Done () s' \<and> bus_only s s' \<and> idle s' \<and> devs (env s') = ds"
  using assms
proof (induction hls arbitrary: i s)
  case (Cons x hls)
  have "distro_writes (x # hls) = [(distroSpeed (rxBuf s ! (2 * i)) (rxBuf s ! (2 * i + 1)), SLAVE_ID_THRUSTERS)] @ distro_writes hls"
    using Cons.prems(2) [of 0] by (cases x) (simp add: distro_writes_def)
  then obtain d1 where d1: "feed ch [(distroSpeed (rxBuf s ! (2 * i)) (rxBuf s ! (2 * i + 1)), SLAVE_ID_THRUSTERS)] (devs (env s)) = Some d1"
    "feed ch (distro_writes hls) d1 = Some ds"
    using Cons.prems(3) by (auto simp only: feed_append split: option.splits)
  obtain t where t: "busWriteByte E (distroSpeed (rxBuf s ! (2 * i)) (rxBuf s ! (2 * i + 1))) SLAVE_ID_THRUSTERS s = Done 0 t"
    "bus_only s t" "idle t" "devs (env t) = d1"
    using busWriteByte_feed [OF Cons.prems(1) d1(1)] by blast
  have "(rxBuf t ! (2 * (Suc i + k)), rxBuf t ! (2 * (Suc i + k) + 1)) = hls ! k" if "k < length hls" for k
    using Cons.prems(2) [of "Suc k"] t(2) that by (simp add: bus_only_def)
  then obtain s' where "distroSpeedLoop E (Suc i) (length hls) t = Done () s'" "bus_only t s'" "idle s'" "devs (env s') = ds"
    using Cons.IH [of t "Suc i"] t(3,4) d1(2) by auto
  then show ?case using t(1,2) by (auto intro: bus_only_trans)
qed (auto simp: distro_writes_def)

text \<open>The whole command, when no slave fails.\<close>

lemma setspeed_feed:
  assumes "idle s" and "receives s bs evs" and "well_framed HOST_CMD_SETSPEED bs"
    and "length hls = 6" and "\<And>k. k < 6 \<Longrightarrow> (bs ! (2 * k), bs ! (2 * k + 1)) = hls ! k"
    and "feed ch ((BUS_CMD_SET_MOT_SPEEDS, SLAVE_ID_MOTOR) # motor_writes hls
           @ (BUS_CMD_MOTRSPEEDS, SLAVE_ID_THRUSTERS) # distro_writes hls) (devs (env s)) = Some ds"
  shows "\<exists>s'. hostCommand E HOST_CMD_SETSPEED s = Done () s' \<and> tx s' = tx s @ [HOST_REPLY_SUCCESS] \<and> rx s' = evs
    \<and> idle s' \<and> devs (env s') = ds \<and> wf_master s' \<and> usb s' = usb s \<and> failsafeTripped s' = failsafeTripped s
    \<and> timer1 s' = startTimer 21972"
proof -
  let ?s = "(setMotorFailsafe s)\<lparr>rx := evs, rxBuf := overwrite 0 bs (rxBuf s), t1 := 0\<rparr>"
  have bs: "length bs = 13" "summed HOST_CMD_SETSPEED bs"
    using assms(3) by (simp_all add: setspeed_framed)
  have s: "wf_master s" "\<not> failsafeTripped s" using assms(2) by (simp_all add: receives_def)
  have r: "recvRange E 0 13 (setMotorFailsafe s) = Done () ((setMotorFailsafe s)\<lparr>rx := evs, rxBuf := overwrite 0 bs (rxBuf s)\<rparr>)"
    using recvRange_bytes [of "setMotorFailsafe s" bs evs 13 E 0] assms(2) bs(1) by (simp add: setMotorFailsafe_def receives_def)
  have "chksum (overwrite 0 bs (rxBuf s)) 12 HOST_CMD_SETSPEED = overwrite 0 bs (rxBuf s) ! 12"
    using bs chksum_overwrite [of bs 12 "rxBuf s"] s(1) by (simp add: summed_def wf_master_def)
  then have h: "hostCommand E HOST_CMD_SETSPEED s =
     on (busWriteByte E BUS_CMD_SET_MOT_SPEEDS SLAVE_ID_MOTOR ?s) (\<lambda>_ s.
     on (motorSpeedLoop E 0 6 s) (\<lambda>_ s.
     on (busWriteByte E BUS_CMD_MOTRSPEEDS SLAVE_ID_THRUSTERS s) (\<lambda>r s.
     on (if r = 0 then distroSpeedLoop E 0 6 s else Done () (s\<lparr>t1 := t1 s + 1\<rparr>)) (\<lambda>_ s.
     if t1 s = 0 then sendByte HOST_REPLY_SUCCESS s else sendByte HOST_REPLY_FAILURE s))))"
    unfolding hostCommand_lookup(1) [OF command_lookup(29)] host_setspeed_def r on_Done by (simp add: Let_def)
  have "feed ch ([(BUS_CMD_SET_MOT_SPEEDS, SLAVE_ID_MOTOR)] @ motor_writes hls @ [(BUS_CMD_MOTRSPEEDS, SLAVE_ID_THRUSTERS)] @ distro_writes hls)
      (devs (env s)) = Some ds" using assms(6) by simp
  then obtain d1 d2 d3 where d: "feed ch [(BUS_CMD_SET_MOT_SPEEDS, SLAVE_ID_MOTOR)] (devs (env ?s)) = Some d1"
    "feed ch (motor_writes hls) d1 = Some d2" "feed ch [(BUS_CMD_MOTRSPEEDS, SLAVE_ID_THRUSTERS)] d2 = Some d3"
    "feed ch (distro_writes hls) d3 = Some ds"
    by (auto simp only: feed_append setMotorFailsafe_def split: option.splits) auto
  have i: "idle ?s" using assms(1) by (simp add: idle_def quiet_def released_def setMotorFailsafe_def)
  obtain t where t: "busWriteByte E BUS_CMD_SET_MOT_SPEEDS SLAVE_ID_MOTOR ?s = Done 0 t" "bus_only ?s t" "idle t" "devs (env t) = d1"
    using busWriteByte_feed [OF i d(1)] by blast
  have b: "(overwrite 0 bs (rxBuf s) ! (2 * k), overwrite 0 bs (rxBuf s) ! (2 * k + 1)) = hls ! k" if "k < 6" for k
    using assms(5) [OF that] bs(1) s(1) that by (simp add: nth_overwrite wf_master_def)
  have "(rxBuf t ! (0 + 2 * k), rxBuf t ! (0 + 2 * k + 1)) = hls ! k" if "k < length hls" for k
    using b [of k] t(2) that assms(4) by (simp add: bus_only_def)
  then obtain u where u: "motorSpeedLoop E 0 6 t = Done () u" "bus_only t u" "idle u" "devs (env u) = d2"
    using motorSpeedLoop_feed [OF t(3), of hls 0] d(2) t(4) assms(4) by auto
  obtain v where v: "busWriteByte E BUS_CMD_MOTRSPEEDS SLAVE_ID_THRUSTERS u = Done 0 v" "bus_only u v" "idle v" "devs (env v) = d3"
    using busWriteByte_feed [OF u(3)] d(3) u(4) by blast
  have "(rxBuf v ! (2 * (0 + k)), rxBuf v ! (2 * (0 + k) + 1)) = hls ! k" if "k < length hls" for k
    using b [of k] t(2) u(2) v(2) that assms(4) by (simp add: bus_only_def)
  then obtain w where w: "distroSpeedLoop E 0 6 v = Done () w" "bus_only v w" "idle w" "devs (env w) = ds"
    using distroSpeedLoop_feed [OF v(3), of hls 0] d(4) v(4) assms(4) by auto
  have all: "bus_only ?s w" using t(2) u(2) v(2) w(2) by (blast intro: bus_only_trans)
  let ?w = "w\<lparr>tx := tx w @ [HOST_REPLY_SUCCESS]\<rparr>"
  have "hostCommand E HOST_CMD_SETSPEED s = Done () ?w"
    using all by (simp add: h t(1) u(1) v(1) w(1) sendByte_def bus_only_def)
  moreover have "tx ?w = tx s @ [HOST_REPLY_SUCCESS]" "rx ?w = evs" "usb ?w = usb s" "timer1 ?w = startTimer 21972"
    "failsafeTripped ?w = failsafeTripped s" "wf_master ?w"
    using all s by (simp_all add: bus_only_def setMotorFailsafe_def wf_master_def)
  moreover have "idle ?w" "devs (env ?w) = ds" using w(3,4) by (simp_all add: idle_def quiet_def released_def)
  ultimately show ?thesis by blast
qed

end

section \<open>What the two boards do with them\<close>

lemma feed_motor:
  "process_all motor_chip bs m = Some m' \<Longrightarrow>
     feed (tortuga_chips other_chips) (map (\<lambda>b. (b, SLAVE_ID_MOTOR)) bs @ ws) (fleet d4 d3 d2 dd bb bf m)
       = feed (tortuga_chips other_chips) ws (fleet d4 d3 d2 dd bb bf m')"
proof (induction bs arbitrary: m)
  case (Cons b bs)
  then obtain t where t: "motor_processData b m = Some t" "process_all motor_chip bs t = Some m'"
    by (auto split: option.splits)
  show ?case using Cons.IH [OF t(2)] by (simp add: SLAVE_ID_MOTOR_val feed_fleet(3) [OF t(1)] del: feed.simps(2))
qed simp

lemma speed_stored:
  assumes "busState s = STATE_MOTRSPEEDS" and "nParam s = of_nat k" and "k < 5" and "length (mSpeeds s) = 6"
  shows "distro_processData b s = Some (s\<lparr>txPtr := 0, mSpeeds := (mSpeeds s)[k := b], nParam := of_nat (Suc k)\<rparr>)"
proof -
  have "k \<in> {0, 1, 2, 3, 4}" using assms(3) by auto
  then show ?thesis using assms(1,2,4) by (auto simp: distro_processData_def motrSpeedArg_def distro_STATE_defs Let_def)
qed

lemma six_limits:
  assumes "distro_inv s" and "busState s = STATE_TOP_LEVEL" and "length bs = 6"
  obtains s' where "process_all distro_chip (BUS_CMD_MOTRSPEEDS # bs) s = Some s'" "mSpeeds s' = bs" "busState s' = STATE_TOP_LEVEL"
proof -
  obtain a b c d e f where bs: "bs = [a, b, c, d, e, f]" using assms(3) by (auto simp: numeral_eq_Suc length_Suc_conv)
  have l: "length (mSpeeds s) = 6" using assms(1) by (simp add: distro_inv_def)
  then obtain x0 x1 x2 x3 x4 x5 where xs: "mSpeeds s = [x0, x1, x2, x3, x4, x5]" by (auto simp: numeral_eq_Suc length_Suc_conv)
  let ?s = "s\<lparr>txPtr := 0, nParam := 0, busState := STATE_MOTRSPEEDS\<rparr>"
  have c0: "distro_processData BUS_CMD_MOTRSPEEDS s = Some ?s"
    using assms(2) by (simp add: distro_processData_def distro_command_def expect_def offCodes_def onCodes_def barOffCodes_def barOnCodes_def
        distro_STATE_defs codes)
  have last: "distro_processData f t = Some (t\<lparr>txPtr := 0, mSpeeds := (mSpeeds t)[5 := f], nParam := 0, busState := STATE_TOP_LEVEL\<rparr>)"
    if "busState t = STATE_MOTRSPEEDS" "nParam t = 5" "length (mSpeeds t) = 6" for t
    using that by (simp add: distro_processData_def motrSpeedArg_def distro_STATE_defs Let_def)
  have "\<exists>s'. process_all distro_chip (BUS_CMD_MOTRSPEEDS # bs) s = Some s' \<and> mSpeeds s' = bs \<and> busState s' = STATE_TOP_LEVEL"
    by (simp add: c0 bs xs speed_stored [where k = 0] speed_stored [where k = 1] speed_stored [where k = 2]
        speed_stored [where k = 3] speed_stored [where k = 4] last)
  then show thesis using that by blast
qed

text \<open>A round of the motor board whose controllers acknowledge, each packet before the timer: each gets its speed.\<close>

definition obedient :: "round_in \<Rightarrow> bool" where
  "obedient r \<longleftrightarrow> quiet_round r \<and> (\<forall>i. 6 \<le> length (in_wait (i2c_ints r i)) \<and> \<not> T1IF (i2c_ints r i)
     \<and> (\<forall>x\<in>set (in_wait (i2c_ints r i)). wasAckI2C x \<and> IdleI2C x))"

definition told :: "nat \<Rightarrow> byte \<Rightarrow> i2c_op list" where
  "told i v = Select i # Start # map Transmit (motor_packet v) @ [Stop_i2c, Reset]"

lemma sends_told:
  assumes "obedient r" and "motor_ok s"
  shows "\<exists>s'. sendSpeeds r vs is s = Some s' \<and> i2c_line s' = i2c_line s @ concat (map (\<lambda>i. told i (vs ! i)) is)"
  using assms(2)
proof (induction "is" arbitrary: s)
  case (Cons i "is")
  let ?s = "i2c_do (Select i) s" and ?rs = "i2c_ints r i"
  have ok: "motor_ok ?s" using Cons.prems by (simp add: i2c_do_def)
  have r: "6 \<le> length (in_wait ?rs)" "\<forall>x\<in>set (in_wait ?rs). wasAckI2C x \<and> IdleI2C x" "before_motor r i = []" "\<not> T1IF ?rs"
    using assms(1) by (simp_all add: obedient_def quiet_round_def)
  obtain t where t: "sendSpeed ?rs (vs ! i) ?s = Some t"
    "i2c_line t = i2c_line ?s @ Start # map Transmit (motor_packet (vs ! i)) @ [Stop_i2c, Reset]"
    by (rule sendSpeed_acked [OF ok r(1,2), of "vs ! i"]) (rule that, simp_all add: r(4))
  have "motor_ok t" using sendSpeed_any [OF ok, of ?rs "vs ! i"] t(1) by auto
  then show ?case using Cons.IH [of t] t r(3) by (auto simp: told_def i2c_do_def)
qed simp

lemma round_told:
  assumes "obedient r" and "motor_ok s"
  shows "\<exists>s'. motor_round r s = Some s' \<and> i2c_line s' = i2c_line s @ concat (map (\<lambda>i. told i (motorSpeed s ! i)) [0..<7])"
proof -
  obtain t where t: "pump (UTXBF r) [] s = Some t" "motor_ok t" "i2c_line t = i2c_line s"
    using pump_silent [OF assms(2)] by metis
  let ?u = "if T3IF r then t\<lparr>LAT_MRKR1 := True, LAT_MRKR2 := True, LAT_WAH_INH := False\<rparr> else t"
  have "motor_ok ?u" "i2c_line ?u = i2c_line s" using t by simp_all
  then obtain s' where "sendSpeeds r (motorSpeed s) [0..<7] ?u = Some s'"
    "i2c_line s' = i2c_line s @ concat (map (\<lambda>i. told i (motorSpeed s ! i)) [0..<7])"
    using sends_told [OF assms(1), of ?u "motorSpeed s" "[0..<7]"] by (auto simp del: upt_rec_numeral)
  then show ?thesis
    using t(1) assms(1) by (simp add: motor_round_def obedient_def quiet_round_def Let_def del: upt_rec_numeral)
qed

section \<open>Six speeds\<close>

text \<open>
  Property C9.  Speeds set through the driver, each of magnitude at most 1023 as the vehicle sends
  them: the call succeeds and restarts the failsafe of the master, the motor board holds the codes of the
  six speeds and tells them, in a round whose controllers acknowledge, to the six thrusters, and the
  power distribution board holds half of each magnitude, of which it keeps the low eight bits only.
\<close>

theorem driver_sets_speeds:
  assumes "at_ease other_chips sched p" and "boards other_chips (fst p) = fleet d4 d3 d2 dd bb bf m"
    and "motor_ok m" and "m_busState m = M_STATE_TOP_LEVEL" and "distro_inv dd" and "busState dd = STATE_TOP_LEVEL"
    and "\<forall>v\<in>set [s1, s2, s3, s4, s5, s6]. \<bar>v\<bar> \<le> 1023" and "obedient r"
  shows "\<exists>p' dd' m1 m2. setSpeeds (board_port (vessel sched)) s1 s2 s3 s4 s5 s6 p = (SB_OK, p') \<and> at_ease other_chips sched p'
    \<and> timer1 (fst p') = startTimer 21972 \<and> boards other_chips (fst p') = fleet d4 d3 d2 dd' bb bf m1
    \<and> mSpeeds dd' = map (\<lambda>v. word_of_int (\<bar>v\<bar> div 2)) [s1, s2, s3, s4, s5, s6]
    \<and> motorSpeed m1 = map thruster_code [s1, s2, s3, s4, s5, s6] @ [motorSpeed m ! 6]
    \<and> motor_round r m1 = Some m2
    \<and> i2c_line m2 = i2c_line m1 @ concat (map (\<lambda>i. told i (motorSpeed m1 ! i)) [0..<7])"
proof -
  let ?vs = "[s1, s2, s3, s4, s5, s6]" and ?E = "vessel sched"
  define hls where "hls = map (\<lambda>v. (bigEndian v ! 0, bigEndian v ! 1)) ?vs"
  define pay where "pay = bigEndian s1 @ bigEndian s2 @ bigEndian s3 @ bigEndian s4 @ bigEndian s5 @ bigEndian s6"
  let ?bs = "pay @ [sum_list pay + HOST_CMD_SETSPEED]"
  have v: "\<bar>v\<bar> < 32768" if "v \<in> set ?vs" for v using assms(7) that by fastforce
  have l: "length pay = 12" by (simp add: pay_def bigEndian_def)
  have w: "well_framed HOST_CMD_SETSPEED ?bs" using l by (simp add: setspeed_framed summed_def)
  have hl: "length hls = 6" by (simp add: hls_def)
  have b: "(?bs ! (2 * k), ?bs ! (2 * k + 1)) = hls ! k" if "k < 6" for k
  proof -
    have "k \<in> {0, 1, 2, 3, 4, 5}" using that by auto
    then show ?thesis by (auto simp: pay_def hls_def bigEndian_def)
  qed
  have mw: "motor_writes hls = map (\<lambda>b. (b, SLAVE_ID_MOTOR)) (map thruster_code ?vs)"
    using bigEndian_speed(1) [OF v] by (simp add: motor_writes_def hls_def)
  have dw: "distro_writes hls = map (\<lambda>b. (b, SLAVE_ID_THRUSTERS)) (map (\<lambda>v. word_of_int (\<bar>v\<bar> div 2)) ?vs)"
    using bigEndian_speed(2) [OF v] by (simp add: distro_writes_def hls_def)
  have six: "length (map thruster_code ?vs) = 6" "length (map (\<lambda>v. word_of_int (\<bar>v\<bar> div 2) :: byte) ?vs) = 6" by simp_all
  have safe: "list_all safe_speed (map thruster_code ?vs)" using assms(7) by (simp add: thruster_code_safe)
  obtain m1 where m1: "process_all motor_chip (BUS_CMD_SET_MOT_SPEEDS # map thruster_code ?vs) m = Some m1"
    "motorSpeed m1 = map thruster_code ?vs @ [motorSpeed m ! 6]"
    using six_speeds [OF assms(3,4) six(1)] safe by auto
  obtain dd' where dd': "process_all distro_chip (BUS_CMD_MOTRSPEEDS # map (\<lambda>v. word_of_int (\<bar>v\<bar> div 2)) ?vs) dd = Some dd'"
    "mSpeeds dd' = map (\<lambda>v. word_of_int (\<bar>v\<bar> div 2)) ?vs"
    using six_limits [OF assms(5,6) six(2)] by blast
  have f: "feed (tortuga_chips other_chips) ((BUS_CMD_SET_MOT_SPEEDS, SLAVE_ID_MOTOR) # motor_writes hls
           @ (BUS_CMD_MOTRSPEEDS, SLAVE_ID_THRUSTERS) # distro_writes hls) (fleet d4 d3 d2 dd bb bf m) = Some (fleet d4 d3 d2 dd' bb bf m1)"
    unfolding mw dw using feed_motor [OF m1(1)] feed_distro [OF dd'(1), of other_chips "[]"]
    by (simp add: fleet_def)
  have r: "ready other_chips sched (addressed ?bs (fst p))" "boards other_chips (addressed ?bs (fst p)) = fleet d4 d3 d2 dd bb bf m"
    using assms(1,2) by (simp_all add: at_ease_def)
  note f' = f [folded r(2), unfolded boards_def]
  obtain s' where s': "hostCommand ?E HOST_CMD_SETSPEED (addressed ?bs (fst p)) = Done () s'"
    "tx s' = tx (fst p) @ [HOST_REPLY_SUCCESS]" "rx s' = []" "ready other_chips sched s'" "usb s' = usb (fst p)"
    "failsafeTripped s' = failsafeTripped (fst p)" "boards other_chips s' = fleet d4 d3 d2 dd' bb bf m1" "timer1 s' = startTimer 21972"
    using slave_system.setspeed_feed [OF ready_idle [OF r(1)] at_ease_receives [OF assms(1)] w hl b f']
    unfolding tortuga_def boards_def ready_def by auto
  obtain p' where p': "acknowledged (board_port ?E) (HOST_CMD_SETSPEED # ?bs) p = (SB_OK, p')" "at_ease other_chips sched p'" "fst p' = s'"
    by (rule acknowledged_success [OF assms(1) s'(1,2,4,3,5,6)])
  have c: "setSpeeds (board_port ?E) s1 s2 s3 s4 s5 s6 p = (SB_OK, p')"
    using p'(1) by (simp add: setSpeeds_def pay_def Let_def add_ac)
  have "motor_ok m1" by (rule process_all_ok [OF assms(3) m1(1)])
  then obtain m2 where m2: "motor_round r m1 = Some m2"
    "i2c_line m2 = i2c_line m1 @ concat (map (\<lambda>i. told i (motorSpeed m1 ! i)) [0..<7])"
    using round_told [OF assms(8)] by blast
  show ?thesis
    by (rule exI [of _ p'], rule exI [of _ dd'], rule exI [of _ m1], rule exI [of _ m2])
      (intro conjI c p'(2) dd'(2) m1(2) m2; simp add: p'(3) s'(7,8))
qed

text \<open>Half of 520 is 260, of which four is left; the motors get what they should.\<close>

theorem driver_sets_speeds_witness:
  "\<exists>p' dd m. setSpeeds (board_port (vessel keen)) 520 (- 520) 0 1023 (- 1023) 100 new_port = (SB_OK, p')
     \<and> boards other_chips (fst p') ! 3 = Distro_board dd \<and> boards other_chips (fst p') ! 6 = Other_board (Motor_board m)
     \<and> motorSpeed m = [179, 76, 128, 229, 26, 137, 128] \<and> mSpeeds dd = [4, 4, 0, 255, 255, 50]"
proof -
  let ?r = "\<lparr>UTXBF = True, T3IF = False, in_pump = [], before_motor = (\<lambda>i. []), i2c_ints = (\<lambda>i. prompt_send)\<rparr>"
  have m: "m_busState (motor_start 0) = M_STATE_TOP_LEVEL" "motorSpeed (motor_start 0) ! 6 = 128" by (simp_all add: motor_start_def)
  have d: "distro_inv (distro_start False)" "busState (distro_start False) = STATE_TOP_LEVEL"
    by (simp_all add: distro_start_def distro_inv_def distro_STATE_defs)
  have v: "\<forall>v\<in>set [520, - 520, 0, 1023, - 1023, 100 :: int]. \<bar>v\<bar> \<le> 1023" by simp
  have r: "obedient ?r" by (simp add: obedient_def quiet_round_def)
  have c: "map thruster_code [520, - 520, 0, 1023, - 1023, 100] = [179, 76, 128, 229, 26, 137]"
    "map (\<lambda>v. word_of_int (\<bar>v\<bar> div 2)) [520, - 520, 0, 1023, - 1023, 100 :: int] = ([4, 4, 0, 255, 255, 50] :: byte list)"
    by (simp_all add: thruster_code_def scaled_def Let_def)
  obtain p' dd m1 where p': "setSpeeds (board_port (vessel keen)) 520 (- 520) 0 1023 (- 1023) 100 new_port = (SB_OK, p')"
    "boards other_chips (fst p') = fleet (ic4_start idle_uarts) (ic3_start idle_uarts (replicate 60 0) True) (ic2_start idle_uarts)
       dd (balancer_start (\<lambda>n. True) True) (bfin_start False) m1"
    "mSpeeds dd = [4, 4, 0, 255, 255, 50]" "motorSpeed m1 = [179, 76, 128, 229, 26, 137] @ [128]"
    using driver_sets_speeds [OF new_port motor_start_ok m(1) d v r] unfolding c m(2) by blast
  then show ?thesis by (intro exI [of _ p'] exI [of _ dd] exI [of _ m1]) (simp add: fleet_def rack_def)
qed

end
