(* ===== verification/SonarCall.thy ===== *)
theory SonarCall
  imports Vessel
begin

text \<open>
  The sonar, from the packet the Blackfin board holds to the numbers the driver returns.
\<close>

section \<open>An answer read in two parts\<close>

lemma query_fetched_twice:
  assumes "at_ease other sched p" and "hostCommand E c (addressed [c] (fst p)) = Done () s'"
    and "tx s' = tx (fst p) @ r # as @ bs" and "ready other sched s'" and "rx s' = []" and "usb s' = usb (fst p)"
    and "failsafeTripped s' = failsafeTripped (fst p)" and "0 < length as" and "0 < length bs" and "buf = c # c # ws"
  obtains p1 p2 p' where "exchange (board_port E) 2 buf p = (r # c # ws, p1)"
    "\<And>off buf. next_bytes (board_port E) off (length as) buf p1 = (overwrite off as buf, p2)"
    "\<And>off buf. next_bytes (board_port E) off (length bs) buf p2 = (overwrite off bs buf, p')"
    "at_ease other sched p'" "fst p' = s'"
proof -
  have w: "port_write (board_port E) (take 2 buf) p = (s', r # as @ bs)"
    using board_reply [OF _ assms(2,3)] assms(1,10) by (simp add: at_ease_def)
  then have "snd (port_write (board_port E) (take 2 buf) p) = r # as @ bs" by simp
  then obtain p1 where p1: "exchange (board_port E) 2 buf p = (buf[0 := r], p1)" "snd p1 = as @ bs" "fst p1 = s'"
    using w by (metis board.exchange_waiting fst_conv)
  then have p1': "p1 = (s', as @ bs)" by (auto intro: prod_eqI)
  have n: "next_bytes (board_port E) off (length as) b (s', as @ rest) = (overwrite off as b, (s', rest))" if "0 < length as"
    for off b as rest
    using that by (simp add: next_bytes_def readData_def hasData_def board_port_def)
  have "at_ease other sched (s', [])" using at_easeI [OF assms(1,4-7), where p' = "(s', [])"] by simp
  then show thesis
    using that [of p1 "(s', bs)" "(s', [])"] p1(1) p1' n [of as _ _ bs] n [of bs _ _ "[]"] assms(8,9,10) by simp
qed

section \<open>The call\<close>

lemma sonar_asked:
  assumes "ready other_chips sched s" and "boards other_chips s = fleet d4 d3 d2 dd bb bf m"
    and "bfin_inv bf" and "busState bf = STATE_TOP_LEVEL" and "receives s [HOST_CMD_SONAR] evs"
  shows "\<exists>s' bf'. hostCommand (vessel sched) HOST_CMD_SONAR s = Done () s'
    \<and> tx s' = tx s @ HOST_REPLY_SONAR # sonarBuf bf @ [sum_list (sonarBuf bf) + HOST_REPLY_SONAR] \<and> rx s' = evs
    \<and> ready other_chips sched s' \<and> boards other_chips s' = fleet d4 d3 d2 dd bb bf' m
    \<and> sonarBuf bf' = sonarBuf bf \<and> busState bf' = STATE_TOP_LEVEL
    \<and> usb s' = usb s \<and> failsafeTripped s' = failsafeTripped s"
proof -
  let ?s = "s\<lparr>rx := evs, t1 := uint HOST_CMD_SONAR\<rparr>" and ?E = "vessel sched"
  have h: "hostCommand ?E HOST_CMD_SONAR s = query ?E BUS_CMD_SONAR SLAVE_ID_SONAR 22 HOST_REPLY_SONAR ?s"
    using assms(5) by (simp add: hostCommand_lookup(1) [OF command_lookup(26)] host_sonar_def echoT1_byte SONAR_PACKET_LEN_val)
  have l: "length (sonarBuf bf) = 22" using assms(3) by (simp add: bfin_inv_def SONAR_PACKET_LEN_val)
  obtain b1 b2 where b: "bfin_processData BUS_CMD_SONAR bf = Some b1" "draw_block bfin_chip b1 = Some (sonarBuf bf, b2)"
    "sonarBuf b2 = sonarBuf bf" "busState b2 = STATE_TOP_LEVEL"
    using sonar_command [OF assms(3,4)] by blast
  have f: "feed (tortuga_chips other_chips) [(BUS_CMD_SONAR, SLAVE_ID_SONAR)] (boards other_chips ?s) = Some (fleet d4 d3 d2 dd bb b1 m)"
    using assms(2) by (simp add: SLAVE_ID_SONAR_val feed_fleet(2) [OF b(1)] del: feed.simps(2))
  have id: "unat SLAVE_ID_SONAR = 5" by (simp add: SLAVE_ID_SONAR_val codes)
  have "draw_block (tortuga_chips other_chips 5) (Other_board (Sonar_board b1))
      = map_option (map_prod id Other_board) (draw_block (other_chips 5) (Sonar_board b1))"
    by (rule draw_block_mount) simp
  also have "draw_block (other_chips 5) (Sonar_board b1) = map_option (map_prod id Sonar_board) (draw_block bfin_chip b1)"
    by (rule draw_block_mount) simp
  finally have d: "draw_block (tortuga_chips other_chips (unat SLAVE_ID_SONAR)) (fleet d4 d3 d2 dd bb b1 m ! unat SLAVE_ID_SONAR)
      = Some (sonarBuf bf, Other_board (Sonar_board b2))"
    by (simp add: id fleet_def rack_def b(2))
  have r: "ready other_chips sched ?s" using assms(1) by simp
  have i: "slave_system.idle sched (tortuga_chips other_chips) ?s" "wf_master ?s"
    using r unfolding ready_def by blast+
  note q = slave_system.query_draw [OF i f [unfolded boards_def] d l, of HOST_REPLY_SONAR]
  have "(fleet d4 d3 d2 dd bb b1 m)[5 := Other_board (Sonar_board b2)] = fleet d4 d3 d2 dd bb b2 m"
    by (simp add: fleet_def rack_def)
  then obtain s' where "query ?E BUS_CMD_SONAR SLAVE_ID_SONAR 22 HOST_REPLY_SONAR ?s = Done () s'"
    "tx s' = tx s @ HOST_REPLY_SONAR # sonarBuf bf @ [sum_list (sonarBuf bf) + HOST_REPLY_SONAR]" "rx s' = evs"
    "ready other_chips sched s'" "boards other_chips s' = fleet d4 d3 d2 dd bb b2 m" "usb s' = usb s"
    "failsafeTripped s' = failsafeTripped s"
    using q unfolding tortuga_def boards_def ready_def id by auto
  then show ?thesis unfolding h using b(3,4) by blast
qed

text \<open>
  Property C12.  The sonar data the driver returns are those of the packet the Blackfin board holds: each
  number is read from its place in the 22 bytes, the call reports success, the packet stays with the
  board, and everything is ready for the next call.
\<close>

theorem driver_reads_sonar:
  assumes "at_ease other_chips sched p" and "boards other_chips (fst p) = fleet d4 d3 d2 dd bb bf m"
    and "bfin_inv bf" and "busState bf = STATE_TOP_LEVEL" and "sonarBuf bf = raw"
  shows "\<exists>p' bf'. getSonarData (board_port (vessel sched)) tenthous (Some d) p
      = ((SB_OK, Some (d\<lparr>vectorX := tenthous (signed_word_at raw 1), vectorY := tenthous (signed_word_at raw 3),
           sonar_status := raw ! 5, vectorZ := tenthous (signed_word_at raw 7), sonar_range := word_of_int (word_at raw 9),
           timeStampSec := word32_at raw 12, timeStampUSec := word32_at raw 17, pingerID := 0\<rparr>)), p')
    \<and> at_ease other_chips sched p' \<and> boards other_chips (fst p') = fleet d4 d3 d2 dd bb bf' m
    \<and> sonarBuf bf' = raw \<and> busState bf' = STATE_TOP_LEVEL"
proof -
  let ?E = "vessel sched" and ?ck = "sum_list raw + HOST_REPLY_SONAR"
  have l: "length raw = 22" using assms(3,5) by (simp add: bfin_inv_def SONAR_PACKET_LEN_val)
  have r: "ready other_chips sched (addressed [HOST_CMD_SONAR] (fst p))"
    "boards other_chips (addressed [HOST_CMD_SONAR] (fst p)) = fleet d4 d3 d2 dd bb bf m"
    using assms(1,2) by (simp_all add: at_ease_def)
  obtain s' bf' where s': "hostCommand ?E HOST_CMD_SONAR (addressed [HOST_CMD_SONAR] (fst p)) = Done () s'"
    "tx s' = tx (fst p) @ HOST_REPLY_SONAR # raw @ [?ck]" "rx s' = []" "ready other_chips sched s'" "usb s' = usb (fst p)"
    "failsafeTripped s' = failsafeTripped (fst p)" "boards other_chips s' = fleet d4 d3 d2 dd bb bf' m"
    "sonarBuf bf' = raw" "busState bf' = STATE_TOP_LEVEL"
    using sonar_asked [OF r assms(3,4) at_ease_receives [OF assms(1)]] assms(5) by auto
  let ?z = "replicate 20 0 :: byte list"
  have n: "0 < length raw" "0 < length [?ck]" using l by simp_all
  obtain p1 p2 p' where p': "exchange (board_port ?E) 2 (HOST_CMD_SONAR # HOST_CMD_SONAR # ?z) p
      = (HOST_REPLY_SONAR # HOST_CMD_SONAR # ?z, p1)"
    "\<And>off buf. next_bytes (board_port ?E) off (length raw) buf p1 = (overwrite off raw buf, p2)"
    "\<And>off buf. next_bytes (board_port ?E) off (length [?ck]) buf p2 = (overwrite off [?ck] buf, p')"
    "at_ease other_chips sched p'" "fst p' = s'"
    by (rule query_fetched_twice [OF assms(1) s'(1,2,4,3,5,6) n refl]) (rule that; assumption)
  have o: "overwrite 0 raw (replicate 22 0) = raw" using l by (intro nth_equalityI) (simp_all add: nth_overwrite)
  have c: "HOST_REPLY_SONAR = 0x0E" by (simp add: codes)
  have "getSonarData (board_port ?E) tenthous (Some d) p
      = ((SB_OK, Some (d\<lparr>vectorX := tenthous (signed_word_at raw 1), vectorY := tenthous (signed_word_at raw 3),
           sonar_status := raw ! 5, vectorZ := tenthous (signed_word_at raw 7), sonar_range := word_of_int (word_at raw 9),
           timeStampSec := word32_at raw 12, timeStampUSec := word32_at raw 17, pingerID := 0\<rparr>)), p')"
    using p'(1) p'(2) [of 0 "replicate 22 0"] p'(3) [of 0] l o
    by (simp add: getSonarData_def c add_ac del: replicate.simps)
  then show ?thesis using p'(4,5) s'(7-9) by auto
qed

text \<open>A packet that has come in, in three pieces, with a vector that points slightly astern.\<close>

definition heard_board :: bfin where
  "heard_board = fold U2RXInterrupt [[0xFF, 0xFF, 0xFF, 0xFF, 0xFF], [0xFF, 1, 0xFF, 0xFE, 0, 5, 3, 0, 0, 7],
     [1, 0, 0, 0, 0, 0, 9, 0, 0, 0, 0, 4, 0]] (bfin_start False)"

theorem driver_reads_sonar_witness:
  "\<forall>d. \<exists>p' d'. getSonarData (board_port (vessel keen)) id (Some d) (started (power_up ((!) (fleet (ic4_start idle_uarts)
       (ic3_start idle_uarts (replicate 60 0) True) (ic2_start idle_uarts) (distro_start False) (balancer_start (\<lambda>n. True) True)
       heard_board (motor_start 0)))) [], []) = ((SB_OK, Some d'), p')
     \<and> vectorX d' = - 2 \<and> vectorY d' = 5 \<and> timeStampSec d' = 9 \<and> timeStampUSec d' = 4"
proof
  fix d :: "int sonarData"
  let ?ds = "fleet (ic4_start idle_uarts) (ic3_start idle_uarts (replicate 60 0) True) (ic2_start idle_uarts) (distro_start False)
    (balancer_start (\<lambda>n. True) True) heard_board (motor_start 0)"
  have seven: "length ?ds = 7" by (simp add: fleet_def rack_def)
  have inv: "bfin_inv heard_board"
  proof -
    have p: "\<not> portalMode (bfin_start False)" by (simp add: bfin_start_def)
    show ?thesis unfolding heard_board_def interrupts_bytes [OF p] by (rule fold_sonarByte_inv [OF bfin_start_inv])
  qed
  have top: "busState heard_board = STATE_TOP_LEVEL" by code_simp
  have raw: "sonarBuf heard_board = [1, 0xFF, 0xFE, 0, 5, 3, 0, 0, 7, 1, 0, 0, 0, 0, 0, 9, 0, 0, 0, 0, 4, 0]" by code_simp
  let ?raw = "[1, 0xFF, 0xFE, 0, 5, 3, 0, 0, 7, 1, 0, 0, 0, 0, 0, 9, 0, 0, 0, 0, 4, 0] :: byte list"
  have v: "signed_word_at ?raw 1 = - 2" "signed_word_at ?raw 3 = 5" "word32_at ?raw 12 = 9" "word32_at ?raw 17 = 4" by code_simp+
  have b: "boards other_chips (fst (started (power_up ((!) ?ds)) [], [])) = ?ds" using power_up_ready(2) [OF seven] by simp
  show "\<exists>p' d'. getSonarData (board_port (vessel keen)) id (Some d) (started (power_up ((!) ?ds)) [], []) = ((SB_OK, Some d'), p')
     \<and> vectorX d' = - 2 \<and> vectorY d' = 5 \<and> timeStampSec d' = 9 \<and> timeStampUSec d' = 4"
    using driver_reads_sonar [OF power_up_ready(3) [OF seven] b inv top raw, of id d] unfolding v by force
qed

end
