(* ===== verification/Startup.thy ===== *)
theory Startup
  imports Protocol
begin

text \<open>
  \<^verbatim>\<open>main\<close> of \<^verbatim>\<open>sbr9/ic1.c\<close> before its loop: the self test, the question about the diagnostic mode, that mode
  itself, and the wait for the USB link.
\<close>

section \<open>Text for the display\<close>

text \<open>\<^verbatim>\<open>%2.3f\<close> of a 16-bit number over 1000.0: thousandths, which a float holds exactly enough.\<close>

fun decimal :: "nat \<Rightarrow> byte list" where
  "decimal n = (if n < 10 then [48 + of_nat n] else decimal (n div 10) @ [48 + of_nat (n mod 10)])"

declare decimal.simps [simp del]

definition fixed3 :: "int \<Rightarrow> byte list" where
  "fixed3 v =
     (let n = nat \<bar>v\<bar>; r = n mod 1000
      in (if v < 0 then [45] else []) @ decimal (n div 1000)
         @ [46, 48 + of_nat (r div 100), 48 + of_nat (r div 10 mod 10), 48 + of_nat (r mod 10)])"

text \<open>\<^verbatim>\<open>(rxBuf[i] << 8 | rxBuf[i+1])\<close>, an \<^verbatim>\<open>int\<close> of 16 bits.\<close>

definition rxInt :: "nat \<Rightarrow> 'e master \<Rightarrow> int" where
  "rxInt i s = speed16 (rxBuf s ! i) (rxBuf s ! (i + 1))"

text \<open>\<^verbatim>\<open>sprintf(tmp, ...)\<close> into \<^verbatim>\<open>unsigned char tmp[20]\<close>.\<close>

definition sprintf :: "byte list \<Rightarrow> 'e master \<Rightarrow> (byte list \<Rightarrow> (unit, 'e) fw) \<Rightarrow> (unit, 'e master) outcome" where
  "sprintf str s k = (if length str < 20 then k (str @ [0]) s else Stop Out_of_bounds)"

definition say_line :: "'e bus_env \<Rightarrow> byte list \<Rightarrow> nat \<Rightarrow> (unit, 'e) fw" where
  "say_line E str line s = sprintf str s (\<lambda>tmp. showString E tmp line)"

abbreviation letters :: "string \<Rightarrow> byte list" where
  "letters str \<equiv> map of_char str"

section \<open>The diagnostic mode\<close>

definition checkChip :: "'e bus_env \<Rightarrow> byte list \<Rightarrow> nat \<Rightarrow> byte \<Rightarrow> (byte list, 'e) fw" where
  "checkChip E tmp off irq s =
     on (busWriteByte E BUS_CMD_PING irq s) (\<lambda>ret s.
     if ret = BUS_ERROR then Done (overwrite off (letters ''fail'') tmp) s
     else if ret = BUS_FAILURE then Done (overwrite off (letters ''EPIC'') tmp) s
     else if ret = 0
     then on (readDataBlock E irq s) (\<lambda>len s.
          Done (overwrite off (if len = 0 then letters '' OK '' else letters ''rbad'') tmp) s)
     else Done tmp s)"

text \<open>The beginning of most modes: a command and its answer, or a message on line \<open>line\<close>.\<close>

definition ask :: "'e bus_env \<Rightarrow> byte \<Rightarrow> byte \<Rightarrow> int \<Rightarrow> string \<Rightarrow> string \<Rightarrow> nat \<Rightarrow> 'e master \<Rightarrow> (unit, 'e) fw
    \<Rightarrow> (unit, 'e master) outcome" where
  "ask E cmd irq n failed short line s k =
     on (busWriteByte E cmd irq s) (\<lambda>r s.
     if r \<noteq> 0 then showString E (cstr failed) line s else
     on (readDataBlock E irq s) (\<lambda>len s.
     if len \<noteq> n then showString E (cstr short) line s else k s))"

definition show_pair :: "'e bus_env \<Rightarrow> byte \<Rightarrow> int \<Rightarrow> string \<Rightarrow> string \<Rightarrow> string \<Rightarrow> string \<Rightarrow> string \<Rightarrow> nat \<Rightarrow> (unit, 'e) fw" where
  "show_pair E cmd n failed short a b u i s =
     ask E cmd SLAVE_ID_BATTSTAT n failed short 0 s (\<lambda>s.
     on (say_line E (letters a @ fixed3 (rxInt i s) @ letters u) 0 s) (\<lambda>_ s.
     say_line E (letters b @ fixed3 (rxInt (i + 2) s) @ letters u) 1 s))"

definition show_chips :: "'e bus_env \<Rightarrow> (unit, 'e) fw" where
  "show_chips E s =
     on (showString E (cstr ''BALN  DIST  SONR'') 0 s) (\<lambda>_ s.
     on (checkChip E (cstr ''                '') 0 IRQ_BALANCER s) (\<lambda>tmp s.
     on (checkChip E tmp 6 IRQ_DISTRO s) (\<lambda>tmp s.
     on (checkChip E tmp 12 IRQ_SONAR s) (\<lambda>tmp s.
     showString E tmp 1 s))))"

definition show_depth :: "'e bus_env \<Rightarrow> (unit, 'e) fw" where
  "show_depth E s =
     ask E BUS_CMD_DEPTH SLAVE_ID_DEPTH 2 ''DEPTH FAIL      '' ''DEPTH LEN FAIL'' 1 s (\<lambda>s.
     say_line E (letters ''Depth: '' @ hex2 (rxBuf s ! 0) @ [32] @ hex2 (rxBuf s ! 1) @ letters ''     '') 1 s)"

definition show_temps :: "'e bus_env \<Rightarrow> (unit, 'e) fw" where
  "show_temps E s =
     ask E BUS_CMD_TEMP SLAVE_ID_TEMP 5 ''TEMP FAIL       '' ''TEMP LEN FAIL   '' 1 s (\<lambda>s.
     on (say_line E (letters ''T:'' @ hex2 (rxBuf s ! 0) @ [32] @ hex2 (rxBuf s ! 1) @ [32] @ hex2 (rxBuf s ! 2) @ [32]
          @ hex2 (rxBuf s ! 3) @ [32] @ hex2 (rxBuf s ! 4)) 0 s) (\<lambda>_ s.
     ask E BUS_CMD_TEMP IRQ_DISTRO 1 ''DB Temp fail'' ''DB Temp len fail'' 1 s (\<lambda>s.
     let t1 = rxBuf s ! 0 in
     ask E BUS_CMD_TEMP IRQ_BALANCER 1 ''BB Temp fail'' ''BB Temp len fail'' 1 s (\<lambda>s.
     say_line E (letters ''D:'' @ hex2 t1 @ letters '' B: '' @ hex2 (rxBuf s ! 0) @ letters ''      '') 1 s))))"

definition show_rails :: "'e bus_env \<Rightarrow> (unit, 'e) fw" where
  "show_rails E s =
     ask E BUS_CMD_READ_ASTATUS SLAVE_ID_VLOW 10 ''VREAD FAIL'' ''VREAD BAD LEN'' 0 s (\<lambda>s.
     on (say_line E (fixed3 (rxInt 0 s) @ letters ''V '' @ fixed3 (rxInt 2 s) @ letters ''A   '') 0 s) (\<lambda>_ s.
     say_line E (fixed3 (rxInt 4 s) @ letters ''V '' @ fixed3 (rxInt 6 s) @ letters ''A   '') 1 s))"

definition showBootDiag :: "'e bus_env \<Rightarrow> byte \<Rightarrow> (unit, 'e) fw" where
  "showBootDiag E mode s =
     (if mode = 1 then show_chips E s
      else if mode = 0 then show_depth E s
      else if mode = 2 then show_temps E s
      else if mode = 3 then show_rails E s
      else if mode = 4 then show_pair E BUS_CMD_BATTVOLTAGE 14 ''BATTV READ FAIL '' ''BATTV LEN FAIL  '' ''B1: '' ''B2: '' ''V    '' 0 s
      else if mode = 5 then show_pair E BUS_CMD_BATTVOLTAGE 14 ''BATTV READ FAIL '' ''BATTV LEN FAIL  '' ''B3: '' ''B4: '' ''V    '' 4 s
      else if mode = 6 then show_pair E BUS_CMD_BATTVOLTAGE 14 ''BATTV READ FAIL '' ''BATTV LEN FAIL  '' ''B5: '' ''B6: '' ''V    '' 8 s
      else if mode = 7 then show_pair E BUS_CMD_BATTCURRENT 12 ''BATTI READ FAIL '' ''BATTI LEN FAIL  '' ''B1: '' ''B2: '' ''A    '' 0 s
      else if mode = 8 then show_pair E BUS_CMD_BATTCURRENT 12 ''BATTI READ FAIL '' ''BATTI LEN FAIL  '' ''B3: '' ''B4: '' ''A    '' 4 s
      else if mode = 9 then show_pair E BUS_CMD_BATTCURRENT 12 ''BATTI READ FAIL '' ''BATTI LEN FAIL  '' ''B5: '' ''B6: '' ''A    '' 8 s
      else Done () s)"

text \<open>
  The loops of \<^verbatim>\<open>diagBootMode\<close> poll the start switch for as long as the world wants; \<open>n\<close> bounds the number of
  rounds, and a computation that needs more of them is \<open>Waiting\<close>.
\<close>

fun whileSw :: "'e bus_env \<Rightarrow> nat \<Rightarrow> (unit, 'e) fw" where
  "whileSw E 0 s = Stop Waiting"
| "whileSw E (Suc n) s = on (pollStartSw E s) (\<lambda>r s. if r \<noteq> 0 then whileSw E n s else Done () s)"

text \<open>\<^verbatim>\<open>while(pollStartSw()) { j++; if(j == 5000) return; }\<close>: whether it returns, with \<open>k\<close> rounds left.\<close>

fun holdSw :: "'e bus_env \<Rightarrow> nat \<Rightarrow> (bool, 'e) fw" where
  "holdSw E 0 s = Done True s"
| "holdSw E (Suc k) s = on (pollStartSw E s) (\<lambda>r s. if r \<noteq> 0 then holdSw E k s else Done False s)"

fun diagLoop :: "'e bus_env \<Rightarrow> nat \<Rightarrow> byte \<Rightarrow> (unit, 'e) fw" where
  "diagLoop E 0 mode s = Stop Waiting"
| "diagLoop E (Suc n) mode s =
     on (pollStartSw E s) (\<lambda>r s.
     if r \<noteq> 0
     then let mode = mode + 1 in
          on (if mode = 10 then showString E (cstr ''Diagnostic Mode '') 0 s else Done () s) (\<lambda>_ s.
          let mode = (if mode = 10 then 0 else mode) in
          on (showBootDiag E mode s) (\<lambda>_ s.
          on (holdSw E 5000 s) (\<lambda>held s.
          if held then Done () s
          else on (showBootDiag E mode s) (\<lambda>_ s. diagLoop E n mode s))))
     else on (showBootDiag E mode s) (\<lambda>_ s. diagLoop E n mode s))"

definition diagBootMode :: "'e bus_env \<Rightarrow> nat \<Rightarrow> (unit, 'e) fw" where
  "diagBootMode E n s =
     on (showString E (cstr ''Diagnostic Mode '') 0 s) (\<lambda>_ s.
     on (whileSw E n s) (\<lambda>_ s. diagLoop E n 0 s))"

section \<open>The self test\<close>

text \<open>
  The loop of \<^verbatim>\<open>post\<close>: a chip whose ping fails turns the error light on, and is told by the number of blinks.  The
  results of the pings are listed here only to state what the self test finds; the program drops them.
\<close>

fun postChips :: "'e bus_env \<Rightarrow> byte list \<Rightarrow> (byte list, 'e) fw" where
  "postChips E [] s = Done [] s"
| "postChips E (irq # irqs) s =
     on (pingChip E irq s) (\<lambda>r s.
     on (postChips E irqs
       (if r \<noteq> 0 then blink (irq + 1) (blink (irq + 1) (s\<lparr>LAT_LED_ERR := True\<rparr>)) else s)) (\<lambda>rs s. Done (r # rs) s))"

definition post :: "'e bus_env \<Rightarrow> (unit, 'e) fw" where
  "post E s = on (postChips E postList s) (\<lambda>rs s. Done () s)"

section \<open>The way to the loop\<close>

definition master_initBus :: "'e master \<Rightarrow> 'e master" where
  "master_initBus s = freeBus s"

text \<open>\<^verbatim>\<open>for(j=0; j<25000 && (pollStartSw() == 0); j++);\<close>\<close>

fun askSw :: "'e bus_env \<Rightarrow> nat \<Rightarrow> (unit, 'e) fw" where
  "askSw E 0 s = Done () s"
| "askSw E (Suc k) s = on (pollStartSw E s) (\<lambda>r s. if r = 0 then askSw E k s else Done () s)"

text \<open>The wait for the USB link; the receiver is off, and bytes that arrive are lost.\<close>

fun bootUsb :: "uart_event list \<Rightarrow> (unit, 'e) fw" where
  "bootUsb evs s =
     (if usb s then Done () (s\<lparr>rx := evs\<rparr>) else
      (case evs of
         [] \<Rightarrow> Stop Waiting
       | Byte b # evs' \<Rightarrow> bootUsb evs' s
       | No_data # evs' \<Rightarrow> bootUsb evs' (s\<lparr>LAT_LED_ACT := \<not> LAT_LED_ACT s, LAT_LED_ERR := \<not> LAT_LED_ERR s\<rparr>)
       | Usb_pin level # evs' \<Rightarrow> bootUsb evs' (s\<lparr>usb := level\<rparr>)
       | T1_expired # evs' \<Rightarrow> bootUsb evs' s))"

declare bootUsb.simps [simp del]

definition blank :: string where
  "blank = ''                ''"

text \<open>The lines and the lights as they are set before the self test.\<close>

definition bootPins :: "'e master \<Rightarrow> 'e master" where
  "bootPins s =
     (let s = fold (\<lambda>i. setReq (of_nat i) False) [0..<NUM_SLAVES] s;
          s = s\<lparr>LAT_LED_ACT := True, LAT_LED_ERR := True\<rparr>;
          s = master_initBus s
      in s\<lparr>LAT_LED_ACT := False, LAT_LED_ERR := False\<rparr>)"

definition startup :: "'e bus_env \<Rightarrow> nat \<Rightarrow> (unit, 'e) fw" where
  "startup E n s =
     (let s = bootPins s
      in on (post E s) (\<lambda>_ s.
      on (showString E (cstr blank) 0 s) (\<lambda>_ s.
      on (showString E (cstr blank) 1 s) (\<lambda>_ s.
      on (showString E (cstr ''Diagnostic?'') 0 s) (\<lambda>_ s.
      on (askSw E 25000 s) (\<lambda>_ s.
      on (pollStartSw E s) (\<lambda>r s.
      on (if r \<noteq> 0 then diagBootMode E n s else Done () s) (\<lambda>_ s.
      let s = s\<lparr>LAT_LED_ACT := False\<rparr> in
      on (if \<not> usb s
          then on (showString E (cstr ''   Self-Test    '') 0 s) (\<lambda>_ s. showString E (cstr ''    Complete    '') 1 s)
          else Done () s) (\<lambda>_ s.
      let s = s\<lparr>LAT_LED_ACT := False, LAT_LED_ERR := True\<rparr> in
      on (bootUsb (rx s) s) (\<lambda>_ s.
      let s = s\<lparr>LAT_LED_ACT := False, LAT_LED_ERR := False\<rparr> in
      on (showString E (cstr ''Starting up...  '') 0 s) (\<lambda>_ s.
      showString E (cstr blank) 1 s)))))))))))"

section \<open>A start switch that does not answer\<close>

lemma finishes_never: "\<not> finishes m (\<lambda>a s. False)"
  by (cases m) simp_all

lemma whileSw_never:
  assumes "\<And>s. finishes (pollStartSw E s) (\<lambda>r s. r \<noteq> 0)"
  shows "\<not> finishes (whileSw E n s) Q"
proof (induction n arbitrary: s)
  case (Suc n)
  obtain r t where "pollStartSw E s = Done r t" "r \<noteq> 0" using assms [of s] by (auto simp: finishes_iff)
  then show ?case using Suc by simp
qed simp

text \<open>
  Property C31.  The slave of the start switch that does not take the byte of a poll keeps the master from
  its loop for ever: \<^verbatim>\<open>pollStartSw\<close> returns -1, which the start-up takes for a pressed switch, and the
  diagnostic mode it enters waits for the switch to be released.
\<close>

theorem boot_needs_switch:
  assumes "\<And>s. finishes (busWriteByte E BUS_CMD_STARTSW SLAVE_ID_STARTSW s) (\<lambda>r s. r \<noteq> 0)"
  shows "startup E n s \<noteq> Done () s'"
proof -
  have p: "finishes (pollStartSw E s) (\<lambda>r s. r \<noteq> 0)" for s
    using assms [of s] by (auto simp: finishes_iff pollStartSw_def sendByte_def)
  have d: "\<not> finishes (diagBootMode E n s) Q" for s Q
    using whileSw_never [OF p] finishes_never by (simp add: diagBootMode_def)
  have f: "\<not> finishes (on (pollStartSw E s) (\<lambda>r s. on (if r \<noteq> 0 then diagBootMode E n s else Done () s) k)) Q" for s k Q
  proof -
    obtain r t where "pollStartSw E s = Done r t" "r \<noteq> 0" using p [of s] by (auto simp: finishes_iff)
    then show ?thesis using d by simp
  qed
  have "\<not> finishes (startup E n s) (\<lambda>a s. True)"
    unfolding startup_def Let_def finishes_on [of "pollStartSw E _", symmetric]
    by (simp only: finishes_on [of "post E _"] finishes_on [of "showString E _ _ _"] finishes_on [of "askSw E _ _"] f finishes_never) simp
  then show ?thesis by (auto simp: finishes_iff)
qed

lemma waitAkn_dead: "\<exists>s'. waitAkn dead_bus True n s = (False, s')"
proof (induction n arbitrary: s)
  case 0
  show ?case by (simp add: sample_def dead_bus_def Let_def)
next
  case (Suc n)
  have "IN_AKN (sample dead_bus s) = False" by (simp add: sample_def dead_bus_def Let_def)
  then show ?case using Suc [of "sample dead_bus s"] by simp
qed

theorem boot_needs_switch_witness: "\<forall>s'. startup dead_bus 1000 (started () [Byte 7]) \<noteq> Done () s'"
proof -
  have "finishes (busWriteByte dead_bus BUS_CMD_STARTSW SLAVE_ID_STARTSW s) (\<lambda>r s. r \<noteq> 0)" for s
    using waitAkn_dead [of BUS_TIMEOUT "setReq SLAVE_ID_STARTSW True (writeBus BUS_CMD_STARTSW (s\<lparr>LAT_RW := RW_WRITE\<rparr>))"]
    by (auto simp: busWriteByte_def BUS_ERROR_def Let_def)
  then show ?thesis using boot_needs_switch [of dead_bus 1000 "started () [Byte 7]"] by blast
qed

section \<open>Numbers that do not fit\<close>

lemma decimal_length: "n < 100 \<Longrightarrow> length (decimal n) = (if n < 10 then 1 else 2)"
  using less_mult_imp_div_less [of n 10 10] by (simp add: decimal.simps [of n] decimal.simps [of "n div 10"])

lemma fixed3_length:
  assumes "\<bar>v\<bar> < 100000"
  shows "length (fixed3 v) = (if v < 0 then 1 else 0) + (if \<bar>v\<bar> < 10000 then 5 else 6)"
proof -
  have "nat \<bar>v\<bar> div 1000 < 100" using assms by linarith
  moreover have "nat \<bar>v\<bar> div 1000 < 10 \<longleftrightarrow> \<bar>v\<bar> < 10000" by linarith
  ultimately show ?thesis by (simp add: fixed3_def decimal_length Let_def)
qed

text \<open>
  Two numbers of the rails, read as signed, overrun \<^verbatim>\<open>tmp[20]\<close> by the terminating zero when both come out as -10.000 or
  less; the numbers of the batteries always fit.
\<close>

lemma rails_do_not_fit:
  assumes "\<bar>a\<bar> \<le> 32768" and "\<bar>b\<bar> \<le> 32768"
  shows "length (fixed3 a @ letters ''V '' @ fixed3 b @ letters ''A   '') < 20 \<longleftrightarrow> \<not> (a \<le> - 10000 \<and> b \<le> - 10000)"
  using fixed3_length [of a] fixed3_length [of b] assms by auto

lemma pair_fits:
  assumes "length x = 4" and "length u = 5" and "\<bar>v\<bar> \<le> 32768"
  shows "sprintf (letters x @ fixed3 v @ letters u) s k = k (letters x @ fixed3 v @ letters u @ [0]) s"
  using fixed3_length [of v] assms by (auto simp: sprintf_def)

end
