(* ===== verification/Boot.thy ===== *)
theory Boot
  imports Startup Failsafe Vessel
begin

text \<open>
  The start-up of the master with all seven boards on the bus: it leads to the state between two calls in
  which the properties of the driver begin.
\<close>

section \<open>Slaves that answer a ping\<close>

text \<open>Nothing but the buffer to the master.\<close>

definition still :: "'x core_scheme \<Rightarrow> 'x core_scheme \<Rightarrow> bool" where
  "still s t \<longleftrightarrow> t\<lparr>txPtr := 0, txBuf := []\<rparr> = s\<lparr>txPtr := 0, txBuf := []\<rparr>"

lemma still_refl [simp]: "still s s"
  by (simp add: still_def)

lemma still_trans: "still s t \<Longrightarrow> still t u \<Longrightarrow> still s u"
  by (simp add: still_def)

lemma still_putTx: "still s (putTx i b s)" "still s (s\<lparr>txPtr := p\<rparr>)" "still s ((putTx i b s)\<lparr>txPtr := p\<rparr>)"
  by (simp_all add: still_def putTx_def)

lemma still_busState: "still s t \<Longrightarrow> busState t = busState s"
  by (cases s; cases t; simp add: still_def)

lemma still_RB1: "still s t \<Longrightarrow> RB1 t = RB1 s"
  by (cases s; cases t; simp add: still_def)

locale still_slave = register_slave +
  assumes prep_still: "still s (prep s)"
begin

lemma ping_answered:
  assumes "inv s" and "busState s = STATE_TOP_LEVEL"
  obtains s' s'' where "process ch BUS_CMD_PING s = Some s'" "draw_block ch s' = Some ([], s'')" "inv s''" "still s s''"
proof -
  let ?s = "putTx 0 0 (prep s)"
  have l: "length (txBuf (prep s)) > 0" using inv_sizes [OF assms(1)] prep_core [of s] by auto
  have p: "process ch BUS_CMD_PING s = Some ?s" by (rule top_ping [OF assms(2)])
  have d: "draw_block ch ?s = Some ([], ?s\<lparr>txPtr := 1\<rparr>)"
    using l prep_core [of s] by (simp add: draw_block_def next_tx nextTx_def putTx_def)
  have "inv (?s\<lparr>txPtr := 1\<rparr>)" using keeps [OF assms(1) p] inv_ptr by simp
  moreover have "still s (?s\<lparr>txPtr := 1\<rparr>)" using prep_still still_putTx(3) still_trans by blast
  ultimately show thesis using that p d by blast
qed

end

interpretation ic2_still: still_slave ic2_chip ic2_inv "\<lambda>s. s\<lparr>txPtr := 0\<rparr>"
  by unfold_locales (rule still_putTx)

interpretation ic3_still: still_slave ic3_chip ic3_inv "\<lambda>s. putTx 1 9 (s\<lparr>txPtr := 0\<rparr>)"
  by unfold_locales (rule still_trans [OF still_putTx(2) still_putTx(1)])

interpretation ic4_still: still_slave ic4_chip ic4_inv "\<lambda>s. s\<lparr>txPtr := 0\<rparr>"
  by unfold_locales (rule still_putTx)

interpretation distro_still: still_slave distro_chip distro_inv "\<lambda>s. s\<lparr>txPtr := 0\<rparr>"
  by unfold_locales (rule still_putTx)

interpretation balancer_still: still_slave balancer_chip balancer_inv "\<lambda>s. s\<lparr>txPtr := 0\<rparr>"
  by unfold_locales (rule still_putTx)

interpretation bfin_still: still_slave bfin_chip bfin_inv "\<lambda>s. s\<lparr>txPtr := 0\<rparr>"
  by unfold_locales (rule still_putTx)

section \<open>The master and an answer\<close>

text \<open>A command and the block that comes back, with the whole system ready before and after.\<close>

lemma asked:
  assumes "ready other sched s" and "feed (tortuga_chips other) [(cmd, irq)] (boards other s) = Some ds"
    and "draw_block (tortuga_chips other (unat irq)) (ds ! unat irq) = Some (bs, d)" and "length bs < 60"
  obtains s1 s2 where "busWriteByte (tortuga other sched) cmd irq s = Done 0 s1"
    "readDataBlock (tortuga other sched) irq s1 = Done (int (length bs)) s2" "block_only s s2" "ready other sched s2"
    "boards other s2 = ds[unat irq := d]" "take (length bs) (rxBuf s2) = bs"
proof -
  have i: "slave_system.idle sched (tortuga_chips other) s" "wf_master s" using assms(1) unfolding ready_def by blast+
  have r: "unat irq < NUM_SLAVES" using assms(2) by (auto split: if_splits)
  obtain s1 where s1: "busWriteByte (tortuga other sched) cmd irq s = Done 0 s1" "bus_only s s1"
    "slave_system.idle sched (tortuga_chips other) s1" "boards other s1 = ds"
    using slave_system.busWriteByte_feed [OF i(1)] assms(2) unfolding tortuga_def boards_def by blast
  have w: "wf_master s1" using s1(2) i(2) by (simp add: wf_master_def bus_only_def)
  have "draw_block (tortuga_chips other (unat irq)) (devices (tortuga_chips other) (env s1) ! unat irq) = Some (bs, d)"
    using assms(3) s1(4) by (simp add: boards_def)
  then obtain s2 where s2: "readDataBlock (tortuga other sched) irq s1 = Done (int (length bs)) s2" "block_only s1 s2"
    "slave_system.idle sched (tortuga_chips other) s2" "boards other s2 = ds[unat irq := d]" "take (length bs) (rxBuf s2) = bs"
    using slave_system.readDataBlock_draw [OF s1(3) r _ w assms(4)] s1(4) unfolding tortuga_def boards_def by blast
  have "block_only s s2" using s1(2) s2(2) by (blast intro: bus_only_block_only block_only_trans)
  moreover have "ready other sched s2"
    using s2(2,3) w unfolding ready_def by (simp add: wf_master_def block_only_def)
  ultimately show thesis using that s1(1) s2 by blast
qed

lemma ping_passed:
  assumes "ready other sched s" and "feed (tortuga_chips other) [(BUS_CMD_PING, irq)] (boards other s) = Some ds"
    and "draw_block (tortuga_chips other (unat irq)) (ds ! unat irq) = Some ([], d)"
  obtains s' where "pingChip (tortuga other sched) irq s = Done 0 s'" "block_only s s'" "ready other sched s'"
    "boards other s' = ds[unat irq := d]"
proof -
  obtain s1 s2 where s: "busWriteByte (tortuga other sched) BUS_CMD_PING irq s = Done 0 s1"
    "readDataBlock (tortuga other sched) irq s1 = Done 0 s2" "block_only s s2" "ready other sched s2"
    "boards other s2 = ds[unat irq := d]"
    using asked [OF assms] by auto
  have "pingChip (tortuga other sched) irq s = Done 0 s2"
    by (simp add: pingChip_def s(1,2) BUS_ERROR_def BUS_FAILURE_def)
  then show thesis using that s(3-5) by blast
qed

lemma ping_leads:
  assumes "ready other sched s" and "feed (tortuga_chips other) [(BUS_CMD_PING, irq)] (boards other s) = Some ds"
    and "draw_block (tortuga_chips other (unat irq)) (ds ! unat irq) = Some ([], d)" and "ds[unat irq := d] = ds'"
  shows "\<exists>s'. pingChip (tortuga other sched) irq s = Done 0 s' \<and> block_only s s' \<and> ready other sched s' \<and> boards other s' = ds'"
  using ping_passed [OF assms(1-3)] assms(4) by metis

section \<open>The boards of the fleet\<close>

lemma board_draws:
  "draw_block (tortuga_chips other 0) (Depth_board d4) = map_option (map_prod id Depth_board) (draw_block ic4_chip d4)"
  "draw_block (tortuga_chips other (Suc 0)) (Temp_board d3) = map_option (map_prod id Temp_board) (draw_block ic3_chip d3)"
  "draw_block (tortuga_chips other 2) (Lcd_board d2) = map_option (map_prod id Lcd_board) (draw_block ic2_chip d2)"
  "draw_block (tortuga_chips other 3) (Distro_board dd) = map_option (map_prod id Distro_board) (draw_block distro_chip dd)"
  by (rule draw_block_mount; simp)+

lemma other_draws:
  "draw_block (tortuga_chips other_chips 4) (Other_board (Balancer_board bb))
     = map_option (map_prod id (Other_board \<circ> Balancer_board)) (draw_block balancer_chip bb)"
  "draw_block (tortuga_chips other_chips 5) (Other_board (Sonar_board bf))
     = map_option (map_prod id (Other_board \<circ> Sonar_board)) (draw_block bfin_chip bf)"
  "draw_block (tortuga_chips other_chips 6) (Other_board (Motor_board m))
     = map_option (map_prod id (Other_board \<circ> Motor_board)) (draw_block motor_chip m)"
proof -
  have o: "draw_block (tortuga_chips other_chips i) (Other_board x) = map_option (map_prod id Other_board) (draw_block (other_chips i) x)"
    if "4 \<le> i" for i x
    using that by (intro draw_block_mount) simp
  have "draw_block (other_chips 4) (Balancer_board bb) = map_option (map_prod id Balancer_board) (draw_block balancer_chip bb)"
    "draw_block (other_chips 5) (Sonar_board bf) = map_option (map_prod id Sonar_board) (draw_block bfin_chip bf)"
    "draw_block (other_chips 6) (Motor_board m) = map_option (map_prod id Motor_board) (draw_block motor_chip m)"
    by (rule draw_block_mount; simp)+
  then show "draw_block (tortuga_chips other_chips 4) (Other_board (Balancer_board bb))
     = map_option (map_prod id (Other_board \<circ> Balancer_board)) (draw_block balancer_chip bb)"
    "draw_block (tortuga_chips other_chips 5) (Other_board (Sonar_board bf))
     = map_option (map_prod id (Other_board \<circ> Sonar_board)) (draw_block bfin_chip bf)"
    "draw_block (tortuga_chips other_chips 6) (Other_board (Motor_board m))
     = map_option (map_prod id (Other_board \<circ> Motor_board)) (draw_block motor_chip m)"
    using o [of 4] o [of 5] o [of 6] by (simp_all add: option.map_comp map_prod.comp)
qed

lemma fleet_nth:
  "fleet d4 d3 d2 dd bb bf m ! 0 = Depth_board d4" "fleet d4 d3 d2 dd bb bf m ! Suc 0 = Temp_board d3"
  "fleet d4 d3 d2 dd bb bf m ! 2 = Lcd_board d2" "fleet d4 d3 d2 dd bb bf m ! 3 = Distro_board dd"
  "fleet d4 d3 d2 dd bb bf m ! 4 = Other_board (Balancer_board bb)" "fleet d4 d3 d2 dd bb bf m ! 5 = Other_board (Sonar_board bf)"
  "fleet d4 d3 d2 dd bb bf m ! 6 = Other_board (Motor_board m)"
  by (simp_all add: fleet_def rack_def)

lemma fleet_update:
  "(fleet d4 d3 d2 dd bb bf m)[0 := Depth_board d4'] = fleet d4' d3 d2 dd bb bf m"
  "(fleet d4 d3 d2 dd bb bf m)[Suc 0 := Temp_board d3'] = fleet d4 d3' d2 dd bb bf m"
  "(fleet d4 d3 d2 dd bb bf m)[2 := Lcd_board d2'] = fleet d4 d3 d2' dd bb bf m"
  "(fleet d4 d3 d2 dd bb bf m)[3 := Distro_board dd'] = fleet d4 d3 d2 dd' bb bf m"
  "(fleet d4 d3 d2 dd bb bf m)[4 := Other_board (Balancer_board bb')] = fleet d4 d3 d2 dd bb' bf m"
  "(fleet d4 d3 d2 dd bb bf m)[5 := Other_board (Sonar_board bf')] = fleet d4 d3 d2 dd bb bf' m"
  "(fleet d4 d3 d2 dd bb bf m)[6 := Other_board (Motor_board m')] = fleet d4 d3 d2 dd bb bf m'"
  by (simp_all add: fleet_def rack_def numeral_eq_Suc)

lemmas fleet_rules = fleet_nth fleet_update board_draws other_draws board_numbers

lemma fleet_feed:
  "ic4_processData b d4 = Some d4' \<Longrightarrow> feed (tortuga_chips other_chips) ((b, IRQ_IC4) # ws) (fleet d4 d3 d2 dd bb bf m)
     = feed (tortuga_chips other_chips) ws (fleet d4' d3 d2 dd bb bf m)"
  "ic3_processData b d3 = Some d3' \<Longrightarrow> feed (tortuga_chips other_chips) ((b, IRQ_IC3) # ws) (fleet d4 d3 d2 dd bb bf m)
     = feed (tortuga_chips other_chips) ws (fleet d4 d3' d2 dd bb bf m)"
  "ic2_processData b d2 = Some d2' \<Longrightarrow> feed (tortuga_chips other_chips) ((b, IRQ_IC2) # ws) (fleet d4 d3 d2 dd bb bf m)
     = feed (tortuga_chips other_chips) ws (fleet d4 d3 d2' dd bb bf m)"
  "distro_processData b dd = Some dd' \<Longrightarrow> feed (tortuga_chips other_chips) ((b, IRQ_DISTRO) # ws) (fleet d4 d3 d2 dd bb bf m)
     = feed (tortuga_chips other_chips) ws (fleet d4 d3 d2 dd' bb bf m)"
  by (simp_all add: fleet_def feed_boards del: feed.simps(2))

section \<open>The self test\<close>

lemma motor_pinged:
  assumes "m_busState m = M_STATE_TOP_LEVEL" and "take 1 (m_txBuf m) = [0]"
  shows "motor_processData BUS_CMD_PING m = Some (m\<lparr>m_txPtr := 0\<rparr>)"
    and "draw_block motor_chip (m\<lparr>m_txPtr := 0\<rparr>) = Some ([], m\<lparr>m_txPtr := 1\<rparr>)"
  using assms by (cases "m_txBuf m"; simp add: motor_processData_def motor_command_def forwarded_def draw_block_def motor_nextTx_def codes)+

lemma fleet_pinged:
  assumes "ready other_chips sched s" and "boards other_chips s = fleet d4 d3 d2 dd bb bf m"
  shows "process ic2_chip BUS_CMD_PING d2 = Some a1 \<Longrightarrow> draw_block ic2_chip a1 = Some ([], z1) \<Longrightarrow>
      \<exists>s'. pingChip (vessel sched) IRQ_IC2 s = Done 0 s' \<and> block_only s s' \<and> ready other_chips sched s' \<and> boards other_chips s' = fleet d4 d3 z1 dd bb bf m"
    and "process ic3_chip BUS_CMD_PING d3 = Some a2 \<Longrightarrow> draw_block ic3_chip a2 = Some ([], z2) \<Longrightarrow>
      \<exists>s'. pingChip (vessel sched) IRQ_IC3 s = Done 0 s' \<and> block_only s s' \<and> ready other_chips sched s' \<and> boards other_chips s' = fleet d4 z2 d2 dd bb bf m"
    and "process ic4_chip BUS_CMD_PING d4 = Some a3 \<Longrightarrow> draw_block ic4_chip a3 = Some ([], z3) \<Longrightarrow>
      \<exists>s'. pingChip (vessel sched) IRQ_IC4 s = Done 0 s' \<and> block_only s s' \<and> ready other_chips sched s' \<and> boards other_chips s' = fleet z3 d3 d2 dd bb bf m"
    and "process distro_chip BUS_CMD_PING dd = Some a4 \<Longrightarrow> draw_block distro_chip a4 = Some ([], z4) \<Longrightarrow>
      \<exists>s'. pingChip (vessel sched) IRQ_DISTRO s = Done 0 s' \<and> block_only s s' \<and> ready other_chips sched s' \<and> boards other_chips s' = fleet d4 d3 d2 z4 bb bf m"
    and "process balancer_chip BUS_CMD_PING bb = Some a5 \<Longrightarrow> draw_block balancer_chip a5 = Some ([], z5) \<Longrightarrow>
      \<exists>s'. pingChip (vessel sched) IRQ_BALANCER s = Done 0 s' \<and> block_only s s' \<and> ready other_chips sched s' \<and> boards other_chips s' = fleet d4 d3 d2 dd z5 bf m"
    and "process bfin_chip BUS_CMD_PING bf = Some a6 \<Longrightarrow> draw_block bfin_chip a6 = Some ([], z6) \<Longrightarrow>
      \<exists>s'. pingChip (vessel sched) IRQ_SONAR s = Done 0 s' \<and> block_only s s' \<and> ready other_chips sched s' \<and> boards other_chips s' = fleet d4 d3 d2 dd bb z6 m"
    and "process motor_chip BUS_CMD_PING m = Some a7 \<Longrightarrow> draw_block motor_chip a7 = Some ([], z7) \<Longrightarrow>
      \<exists>s'. pingChip (vessel sched) IRQ_MOTOR s = Done 0 s' \<and> block_only s s' \<and> ready other_chips sched s' \<and> boards other_chips s' = fleet d4 d3 d2 dd bb bf z7"
proof -
  show "process ic2_chip BUS_CMD_PING d2 = Some a \<Longrightarrow> draw_block ic2_chip a = Some ([], z) \<Longrightarrow>
      \<exists>s'. pingChip (vessel sched) IRQ_IC2 s = Done 0 s' \<and> block_only s s' \<and> ready other_chips sched s' \<and> boards other_chips s' = fleet d4 d3 z dd bb bf m"
    for a z by (rule ping_leads [OF assms(1), where ds = "fleet d4 d3 a dd bb bf m" and d = "Lcd_board z"]) (simp_all add: assms(2) fleet_rules fleet_feed del: feed.simps(2))
  show "process ic3_chip BUS_CMD_PING d3 = Some a \<Longrightarrow> draw_block ic3_chip a = Some ([], z) \<Longrightarrow>
      \<exists>s'. pingChip (vessel sched) IRQ_IC3 s = Done 0 s' \<and> block_only s s' \<and> ready other_chips sched s' \<and> boards other_chips s' = fleet d4 z d2 dd bb bf m"
    for a z by (rule ping_leads [OF assms(1), where ds = "fleet d4 a d2 dd bb bf m" and d = "Temp_board z"]) (simp_all add: assms(2) fleet_rules fleet_feed del: feed.simps(2))
  show "process ic4_chip BUS_CMD_PING d4 = Some a \<Longrightarrow> draw_block ic4_chip a = Some ([], z) \<Longrightarrow>
      \<exists>s'. pingChip (vessel sched) IRQ_IC4 s = Done 0 s' \<and> block_only s s' \<and> ready other_chips sched s' \<and> boards other_chips s' = fleet z d3 d2 dd bb bf m"
    for a z by (rule ping_leads [OF assms(1), where ds = "fleet a d3 d2 dd bb bf m" and d = "Depth_board z"]) (simp_all add: assms(2) fleet_rules fleet_feed del: feed.simps(2))
  show "process distro_chip BUS_CMD_PING dd = Some a \<Longrightarrow> draw_block distro_chip a = Some ([], z) \<Longrightarrow>
      \<exists>s'. pingChip (vessel sched) IRQ_DISTRO s = Done 0 s' \<and> block_only s s' \<and> ready other_chips sched s' \<and> boards other_chips s' = fleet d4 d3 d2 z bb bf m"
    for a z by (rule ping_leads [OF assms(1), where ds = "fleet d4 d3 d2 a bb bf m" and d = "Distro_board z"]) (simp_all add: assms(2) fleet_rules fleet_feed del: feed.simps(2))
  show "process balancer_chip BUS_CMD_PING bb = Some a \<Longrightarrow> draw_block balancer_chip a = Some ([], z) \<Longrightarrow>
      \<exists>s'. pingChip (vessel sched) IRQ_BALANCER s = Done 0 s' \<and> block_only s s' \<and> ready other_chips sched s' \<and> boards other_chips s' = fleet d4 d3 d2 dd z bf m"
    for a z by (rule ping_leads [OF assms(1), where ds = "fleet d4 d3 d2 dd a bf m" and d = "Other_board (Balancer_board z)"]) (simp_all add: assms(2) fleet_rules feed_fleet del: feed.simps(2))
  show "process bfin_chip BUS_CMD_PING bf = Some a \<Longrightarrow> draw_block bfin_chip a = Some ([], z) \<Longrightarrow>
      \<exists>s'. pingChip (vessel sched) IRQ_SONAR s = Done 0 s' \<and> block_only s s' \<and> ready other_chips sched s' \<and> boards other_chips s' = fleet d4 d3 d2 dd bb z m"
    for a z by (rule ping_leads [OF assms(1), where ds = "fleet d4 d3 d2 dd bb a m" and d = "Other_board (Sonar_board z)"]) (simp_all add: assms(2) fleet_rules feed_fleet del: feed.simps(2))
  show "process motor_chip BUS_CMD_PING m = Some a \<Longrightarrow> draw_block motor_chip a = Some ([], z) \<Longrightarrow>
      \<exists>s'. pingChip (vessel sched) IRQ_MOTOR s = Done 0 s' \<and> block_only s s' \<and> ready other_chips sched s' \<and> boards other_chips s' = fleet d4 d3 d2 dd bb bf z"
    for a z by (rule ping_leads [OF assms(1), where ds = "fleet d4 d3 d2 dd bb bf a" and d = "Other_board (Motor_board z)"]) (simp_all add: assms(2) fleet_rules feed_fleet del: feed.simps(2))
qed

text \<open>
  Every board keeps its invariant and waits for a command; the motor board, which knows no ping, answers
  it with the first byte of its buffer, which must still be zero.
\<close>

definition waiting_fleet :: "ic4 \<Rightarrow> ic3 \<Rightarrow> ic2 \<Rightarrow> distro \<Rightarrow> balancer \<Rightarrow> bfin \<Rightarrow> motor \<Rightarrow> bool" where
  "waiting_fleet d4 d3 d2 dd bb bf m \<longleftrightarrow>
     (ic4_inv d4 \<and> busState d4 = STATE_TOP_LEVEL) \<and> (ic3_inv d3 \<and> busState d3 = STATE_TOP_LEVEL)
     \<and> (ic2_inv d2 \<and> busState d2 = STATE_TOP_LEVEL) \<and> (distro_inv dd \<and> busState dd = STATE_TOP_LEVEL)
     \<and> (balancer_inv bb \<and> busState bb = STATE_TOP_LEVEL) \<and> (bfin_inv bf \<and> busState bf = STATE_TOP_LEVEL)
     \<and> (m_busState m = M_STATE_TOP_LEVEL \<and> take 1 (m_txBuf m) = [0])"

lemma fleet_passes:
  assumes "ready other_chips sched s" and "boards other_chips s = fleet d4 d3 d2 dd bb bf m"
    and "waiting_fleet d4 d3 d2 dd bb bf m"
  obtains s' d4' d3' d2' dd' bb' bf' where "postChips (vessel sched) postList s = Done (replicate 7 0) s'" "block_only s s'" "ready other_chips sched s'"
    "boards other_chips s' = fleet d4' d3' d2' dd' bb' bf' (m\<lparr>m_txPtr := 1\<rparr>)"
    "still d4 d4'" "still d3 d3'" "still d2 d2'" "still dd dd'" "still bb bb'" "still bf bf'"
    "ic4_inv d4'" "ic3_inv d3'" "ic2_inv d2'" "distro_inv dd'" "balancer_inv bb'" "bfin_inv bf'"
proof -
  have w: "ic4_inv d4" "ic3_inv d3" "ic2_inv d2" "distro_inv dd" "balancer_inv bb" "bfin_inv bf"
    "busState d4 = STATE_TOP_LEVEL" "busState d3 = STATE_TOP_LEVEL" "busState d2 = STATE_TOP_LEVEL" "busState dd = STATE_TOP_LEVEL"
    "busState bb = STATE_TOP_LEVEL" "busState bf = STATE_TOP_LEVEL" "m_busState m = M_STATE_TOP_LEVEL" "take 1 (m_txBuf m) = [0]"
    using assms(3) by (simp_all add: waiting_fleet_def)
  obtain a2 d2' where a2: "process ic2_chip BUS_CMD_PING d2 = Some a2" "draw_block ic2_chip a2 = Some ([], d2')" "ic2_inv d2'" "still d2 d2'"
    by (rule ic2_still.ping_answered [OF w(3,9)])
  obtain a3 d3' where a3: "process ic3_chip BUS_CMD_PING d3 = Some a3" "draw_block ic3_chip a3 = Some ([], d3')" "ic3_inv d3'" "still d3 d3'"
    by (rule ic3_still.ping_answered [OF w(2,8)])
  obtain a4 d4' where a4: "process ic4_chip BUS_CMD_PING d4 = Some a4" "draw_block ic4_chip a4 = Some ([], d4')" "ic4_inv d4'" "still d4 d4'"
    by (rule ic4_still.ping_answered [OF w(1,7)])
  obtain ad dd' where ad: "process distro_chip BUS_CMD_PING dd = Some ad" "draw_block distro_chip ad = Some ([], dd')" "distro_inv dd'" "still dd dd'"
    by (rule distro_still.ping_answered [OF w(4,10)])
  obtain ab bb' where ab: "process balancer_chip BUS_CMD_PING bb = Some ab" "draw_block balancer_chip ab = Some ([], bb')" "balancer_inv bb'" "still bb bb'"
    by (rule balancer_still.ping_answered [OF w(5,11)])
  obtain af bf' where af: "process bfin_chip BUS_CMD_PING bf = Some af" "draw_block bfin_chip af = Some ([], bf')" "bfin_inv bf'" "still bf bf'"
    by (rule bfin_still.ping_answered [OF w(6,12)])
  have am: "process motor_chip BUS_CMD_PING m = Some (m\<lparr>m_txPtr := 0\<rparr>)" "draw_block motor_chip (m\<lparr>m_txPtr := 0\<rparr>) = Some ([], m\<lparr>m_txPtr := 1\<rparr>)"
    using motor_pinged [OF w(13,14)] by simp_all
  obtain s1 where s1: "pingChip (vessel sched) IRQ_IC2 s = Done 0 s1" "block_only s s1" "ready other_chips sched s1"
    "boards other_chips s1 = fleet d4 d3 d2' dd bb bf m"
    using fleet_pinged(1) [OF assms(1,2) a2(1,2)] by blast
  obtain s2 where s2: "pingChip (vessel sched) IRQ_IC3 s1 = Done 0 s2" "block_only s1 s2" "ready other_chips sched s2"
    "boards other_chips s2 = fleet d4 d3' d2' dd bb bf m"
    using fleet_pinged(2) [OF s1(3,4) a3(1,2)] by blast
  obtain s3 where s3: "pingChip (vessel sched) IRQ_IC4 s2 = Done 0 s3" "block_only s2 s3" "ready other_chips sched s3"
    "boards other_chips s3 = fleet d4' d3' d2' dd bb bf m"
    using fleet_pinged(3) [OF s2(3,4) a4(1,2)] by blast
  obtain s4 where s4: "pingChip (vessel sched) IRQ_DISTRO s3 = Done 0 s4" "block_only s3 s4" "ready other_chips sched s4"
    "boards other_chips s4 = fleet d4' d3' d2' dd' bb bf m"
    using fleet_pinged(4) [OF s3(3,4) ad(1,2)] by blast
  obtain s5 where s5: "pingChip (vessel sched) IRQ_BALANCER s4 = Done 0 s5" "block_only s4 s5" "ready other_chips sched s5"
    "boards other_chips s5 = fleet d4' d3' d2' dd' bb' bf m"
    using fleet_pinged(5) [OF s4(3,4) ab(1,2)] by blast
  obtain s6 where s6: "pingChip (vessel sched) IRQ_SONAR s5 = Done 0 s6" "block_only s5 s6" "ready other_chips sched s6"
    "boards other_chips s6 = fleet d4' d3' d2' dd' bb' bf' m"
    using fleet_pinged(6) [OF s5(3,4) af(1,2)] by blast
  obtain s7 where s7: "pingChip (vessel sched) IRQ_MOTOR s6 = Done 0 s7" "block_only s6 s7" "ready other_chips sched s7"
    "boards other_chips s7 = fleet d4' d3' d2' dd' bb' bf' (m\<lparr>m_txPtr := 1\<rparr>)"
    using fleet_pinged(7) [OF s6(3,4) am] by blast
  have "postChips (vessel sched) postList s = Done (replicate 7 0) s7"
    by (simp add: postList_def numeral_eq_Suc s1(1) s2(1) s3(1) s4(1) s5(1) s6(1) s7(1))
  moreover have "block_only s s7"
    using s1(2) s2(2) s3(2) s4(2) s5(2) s6(2) s7(2) by (blast intro: block_only_trans)
  ultimately show thesis using that s7(3,4) a2 a3 a4 ad ab af by blast
qed

section \<open>The start switch and the display\<close>

lemma switch_polled:
  assumes "ready other_chips sched s" and "boards other_chips s = fleet d4 d3 d2 dd bb bf m"
    and "ic3_inv d3" and "busState d3 = STATE_TOP_LEVEL" and "RB1 d3"
  obtains s' d3' where "pollStartSw (vessel sched) s = Done 0 s'" "block_only s s'" "ready other_chips sched s'"
    "boards other_chips s' = fleet d4 d3' d2 dd bb bf m" "ic3_inv d3'" "still d3 d3'"
proof -
  let ?a = "putTx 1 (NOT 1) (putTx 0 1 (putTx 1 9 (d3\<lparr>txPtr := 0\<rparr>)))"
  have l: "length (txBuf d3) = 60" using assms(3) by (simp add: ic3_inv_def core_inv_def)
  have p: "ic3_processData BUS_CMD_STARTSW d3 = Some ?a"
    using assms(4,5) by (simp add: ic3_processData_def ic3_command_def putTx_def)
  have n: "next_tx ic3_chip ?a = Some (1, ?a\<lparr>txPtr := 1\<rparr>)" using l by (simp add: nextTx_def putTx_def)
  have "draw ic3_chip 1 (?a\<lparr>txPtr := of_nat 1\<rparr>)
      = Some (map (\<lambda>k. txBuf (?a\<lparr>txPtr := of_nat 1\<rparr>) ! (1 + k)) [0..<1], ?a\<lparr>txPtr := of_nat (1 + 1)\<rparr>)"
    using draw_tx [of "?a\<lparr>txPtr := of_nat 1\<rparr>" 1 1 ic3_chip] l by (simp add: putTx_def)
  then have d: "draw_block ic3_chip ?a = Some ([NOT 1], ?a\<lparr>txPtr := 2\<rparr>)"
    using l unfolding draw_block_def n by (simp add: putTx_def)
  have f: "feed (tortuga_chips other_chips) [(BUS_CMD_STARTSW, IRQ_IC3)] (boards other_chips s) = Some (fleet d4 ?a d2 dd bb bf m)"
    by (simp add: assms(2) fleet_feed(2) [OF p] del: feed.simps(2))
  have k: "draw_block (tortuga_chips other_chips (unat IRQ_IC3)) (fleet d4 ?a d2 dd bb bf m ! unat IRQ_IC3)
      = Some ([NOT 1], Temp_board (?a\<lparr>txPtr := 2\<rparr>))" by (simp add: fleet_rules d [simplified])
  have one: "length [NOT 1 :: byte] < 60" by simp
  obtain s1 s2 where s: "busWriteByte (vessel sched) BUS_CMD_STARTSW IRQ_IC3 s = Done 0 s1"
    "readDataBlock (vessel sched) IRQ_IC3 s1 = Done (int (length [NOT 1 :: byte])) s2" "block_only s s2" "ready other_chips sched s2"
    "boards other_chips s2 = (fleet d4 ?a d2 dd bb bf m)[unat IRQ_IC3 := Temp_board (?a\<lparr>txPtr := 2\<rparr>)]"
    "take (length [NOT 1 :: byte]) (rxBuf s2) = [NOT 1]"
    by (rule asked [OF assms(1) f k one])
  have "rxBuf s2 ! 0 = NOT 1" using s(6) by (cases "rxBuf s2") simp_all
  then have "pollStartSw (vessel sched) s = Done 0 s2"
    using s(1,2) by (simp add: pollStartSw_def SLAVE_ID_STARTSW_val)
  moreover have "ic3_inv (?a\<lparr>txPtr := 2\<rparr>)" using ic3_registers.keeps [OF assms(3)] p ic3_registers.inv_ptr by simp
  moreover have "still d3 (?a\<lparr>txPtr := 2\<rparr>)" by (simp add: still_def putTx_def)
  ultimately show thesis using that s(3,4,5) by (simp add: fleet_rules)
qed

lemma switch_not_pressed:
  assumes "ready other_chips sched s" and "boards other_chips s = fleet d4 d3 d2 dd bb bf m"
    and "ic3_inv d3" and "busState d3 = STATE_TOP_LEVEL" and "RB1 d3"
  shows "\<exists>s' d3'. askSw (vessel sched) n s = Done () s' \<and> block_only s s' \<and> ready other_chips sched s'
    \<and> boards other_chips s' = fleet d4 d3' d2 dd bb bf m \<and> ic3_inv d3' \<and> still d3 d3'"
  using assms
proof (induction n arbitrary: s d3)
  case (Suc n)
  obtain s1 z where s1: "pollStartSw (vessel sched) s = Done 0 s1" "block_only s s1" "ready other_chips sched s1"
    "boards other_chips s1 = fleet d4 z d2 dd bb bf m" "ic3_inv z" "still d3 z"
    by (rule switch_polled [OF Suc.prems])
  have "RB1 z = RB1 d3" "busState z = busState d3"
    using s1(6) still_RB1 still_busState by blast+
  then obtain s' d3' where "askSw (vessel sched) n s1 = Done () s'" "block_only s1 s'" "ready other_chips sched s'"
    "boards other_chips s' = fleet d4 d3' d2 dd bb bf m" "ic3_inv d3'" "still z d3'"
    using Suc.IH [OF s1(3-5)] Suc.prems(4,5) by auto
  then show ?case using s1(1,2,6) by (auto intro: block_only_trans still_trans)
qed (auto intro: still_refl)

lemma line_writes:
  "concat (map (\<lambda>k. [(BUS_CMD_LCD_WRITE, SLAVE_ID_LCD), (of_nat (line * 16 + i + k), SLAVE_ID_LCD), (cs ! k, SLAVE_ID_LCD)]) [0..<length cs])
     = text_writes (of_nat line) cs i"
proof (induction cs arbitrary: i)
  case (Cons c cs)
  have "map f [0..<Suc n] = f 0 # map (\<lambda>k. f (Suc k)) [0..<n]" for f :: "nat \<Rightarrow> (byte \<times> byte) list" and n
    by (simp add: upt_conv_Cons map_Suc_upt [symmetric] comp_def del: upt_Suc)
  then show ?case using Cons [of "Suc i"] by (simp add: add_ac del: upt_Suc)
qed simp

lemma line_shown:
  assumes "ready other_chips sched s" and "boards other_chips s = fleet d4 d3 d2 dd bb bf m" and "lcd_ready d2"
    and "line \<le> 1" and "length str \<le> 16" and "\<forall>c\<in>set str. (32 :: nat) \<le> of_char c"
  obtains s' d2' where "showString (vessel sched) (cstr str) line s = Done () s'" "block_only s s'" "ready other_chips sched s'"
    "boards other_chips s' = fleet d4 d3 d2' dd bb bf m" "lcd_ready d2'" "lcdBuf d2' = overwrite (line * 16) (letters str) (lcdBuf d2)"
proof -
  let ?ws = "text_writes (of_nat line) (letters str) 0" and ?cs = "letters str"
  have i: "slave_system.idle sched (tortuga_chips other_chips) s" "wf_master s" using assms(1) unfolding ready_def by blast+
  have m: "map (\<lambda>k. [(BUS_CMD_LCD_WRITE, SLAVE_ID_LCD), (of_nat (line * 16 + k), SLAVE_ID_LCD), (of_char (str ! k), SLAVE_ID_LCD)]) [0..<length str]
      = map (\<lambda>k. [(BUS_CMD_LCD_WRITE, SLAVE_ID_LCD), (of_nat (line * 16 + 0 + k), SLAVE_ID_LCD), (?cs ! k, SLAVE_ID_LCD)]) [0..<length ?cs]"
    by (rule map_cong) simp_all
  have "length str \<le> 32" using assms(5) by simp
  from showString_shows_all [OF this assms(6), of "vessel sched" line s] have e: "showString (vessel sched) (cstr str) line s = busWrites (vessel sched) (?ws @ [(BUS_CMD_LCD_REFRESH, SLAVE_ID_LCD)]) s"
    unfolding m line_writes .
  have l: "unat (of_nat line :: byte) = line" "(of_nat line :: byte) \<le> 1"
    using assms(4) by (auto simp: le_Suc_eq)
  obtain t where t: "feed (tortuga_chips other_chips) ?ws (fleet d4 d3 d2 dd bb bf m) = Some (fleet d4 d3 t dd bb bf m)"
    "lcd_ready t" "lcdBuf t = overwrite (line * 16) ?cs (lcdBuf d2)"
    using text_fed [OF assms(3) l(2), of 0 ?cs other_chips d4 d3 dd "(Balancer_board bb, Sonar_board bf, Motor_board m)"] assms(5) l(1)
    unfolding fleet_def by auto
  obtain d2' where d2': "ic2_processData BUS_CMD_LCD_REFRESH t = Some d2'" "lcd_ready d2'" "lcdBuf d2' = lcdBuf t"
    using lcd_refresh [OF t(2)] by (auto split: option.splits)
  have "feed (tortuga_chips other_chips) (?ws @ [(BUS_CMD_LCD_REFRESH, SLAVE_ID_LCD)]) (boards other_chips s)
      = Some (fleet d4 d3 d2' dd bb bf m)"
    by (simp add: feed_append assms(2) t(1) SLAVE_ID_LCD_val fleet_feed(3) [OF d2'(1)] del: feed.simps(2))
  then obtain s' where "busWrites (vessel sched) (?ws @ [(BUS_CMD_LCD_REFRESH, SLAVE_ID_LCD)]) s = Done () s'" "bus_only s s'"
    "slave_system.idle sched (tortuga_chips other_chips) s'" "boards other_chips s' = fleet d4 d3 d2' dd bb bf m"
    using slave_system.busWrites_feed [OF i(1)] unfolding tortuga_def boards_def by blast
  then show thesis
    using that e i(2) d2'(2,3) t(3) unfolding ready_def by (simp add: bus_only_block_only wf_master_def bus_only_def)
qed

section \<open>From power on to the loop\<close>

definition link_kept :: "'e master \<Rightarrow> 'e master \<Rightarrow> bool" where
  "link_kept s s' \<longleftrightarrow> tx s' = tx s \<and> rx s' = rx s \<and> usb s' = usb s \<and> failsafeTripped s' = failsafeTripped s"

lemma link_kept_block: "block_only s s' \<Longrightarrow> link_kept s s'"
  by (simp add: link_kept_def block_only_def bus_only_def)

lemma link_kept_trans: "link_kept s t \<Longrightarrow> link_kept t u \<Longrightarrow> link_kept s u"
  by (simp add: link_kept_def)

lemma lights_updates [simp]:
  "ready other sched (s\<lparr>LAT_LED_ACT := a\<rparr>) = ready other sched s" "ready other sched (s\<lparr>LAT_LED_ERR := a\<rparr>) = ready other sched s"
  "boards other (s\<lparr>LAT_LED_ACT := a\<rparr>) = boards other s" "boards other (s\<lparr>LAT_LED_ERR := a\<rparr>) = boards other s"
  "link_kept s (t\<lparr>LAT_LED_ACT := a\<rparr>) = link_kept s t" "link_kept s (t\<lparr>LAT_LED_ERR := a\<rparr>) = link_kept s t"
  by (simp_all add: ready_def slave_system.idle_def wf_master_def quiet_def released_def boards_def link_kept_def)

lemma requests_cleared: "fold (\<lambda>i. setReq (of_nat i) False) [0..<NUM_SLAVES] s = s\<lparr>LAT_IRQ := (\<lambda>i. i > 6 \<and> LAT_IRQ s i)\<rparr>"
proof -
  have f: "fold (\<lambda>i. setReq (of_nat i) False) [0..<n] s = s\<lparr>LAT_IRQ := (\<lambda>i. i \<ge> n \<and> LAT_IRQ s i)\<rparr>" if "n \<le> 7" for n
    using that
  proof (induction n)
    case (Suc n)
    have "unat (of_nat n :: byte) = n" using Suc.prems by (simp add: unat_of_nat take_bit_nat_def)
    moreover have "(\<lambda>i. i \<ge> n \<and> LAT_IRQ s i)(n := False) = (\<lambda>i. i \<ge> Suc n \<and> LAT_IRQ s i)" by (auto simp: fun_eq_iff)
    ultimately show ?case using Suc by (simp add: setReq_def word_le_nat_alt)
  qed simp
  show ?thesis using f [of 7] by (simp add: NUM_SLAVES_val Suc_le_eq [symmetric] del: upt_rec_numeral)
qed

lemma overwrite_halves:
  "length buf = 32 \<Longrightarrow> length a = 16 \<Longrightarrow> length b = 16 \<Longrightarrow> overwrite 16 b (overwrite 0 a buf) = a @ b"
  by (intro nth_equalityI) (auto simp: nth_overwrite nth_append)

lemma printable: "list_all (\<lambda>c. (32 :: nat) \<le> of_char c) str \<Longrightarrow> \<forall>c\<in>set str. (32 :: nat) \<le> of_char c"
  by (simp add: list_all_iff)

lemma bootUsb_present: "usb s \<Longrightarrow> rx s = evs \<Longrightarrow> bootUsb evs s = Done () s"
  by (auto simp: bootUsb.simps)

text \<open>The first half: the self test, two empty lines, and the question that nobody answers.\<close>

lemma boot_asks:
  assumes "ready other_chips sched s" and "boards other_chips s = fleet d4 d3 d2 dd bb bf m"
    and "waiting_fleet d4 d3 d2 dd bb bf m" and "RB1 d3"
  obtains s1 s2 s3 s4 s5 s6 d4' d3' d2' dd' bb' bf' where "postChips (vessel sched) postList s = Done (replicate 7 0) s1"
    "showString (vessel sched) (cstr blank) 0 s1 = Done () s2" "showString (vessel sched) (cstr blank) 1 s2 = Done () s3"
    "showString (vessel sched) (cstr ''Diagnostic?'') 0 s3 = Done () s4" "askSw (vessel sched) 25000 s4 = Done () s5"
    "pollStartSw (vessel sched) s5 = Done 0 s6" "link_kept s s6" "ready other_chips sched s6"
    "boards other_chips s6 = fleet d4' d3' d2' dd' bb' bf' (m\<lparr>m_txPtr := 1\<rparr>)" "lcd_ready d2'"
    "still d4 d4' \<and> still d3 d3' \<and> still dd dd' \<and> still bb bb' \<and> still bf bf'"
proof -
  let ?E = "vessel sched" and ?m = "m\<lparr>m_txPtr := 1\<rparr>"
  obtain s1 d4' e3 e2 dd' bb' bf' where s1: "postChips ?E postList s = Done (replicate 7 0) s1" "block_only s s1" "ready other_chips sched s1"
    "boards other_chips s1 = fleet d4' e3 e2 dd' bb' bf' ?m"
    "still d4 d4'" "still d3 e3" "still d2 e2" "still dd dd'" "still bb bb'" "still bf bf'"
    "ic4_inv d4'" "ic3_inv e3" "ic2_inv e2" "distro_inv dd'" "balancer_inv bb'" "bfin_inv bf'"
    by (rule fleet_passes [OF assms(1-3)])
  have t: "busState d3 = STATE_TOP_LEVEL" "busState d2 = STATE_TOP_LEVEL" using assms(3) by (simp_all add: waiting_fleet_def)
  have l1: "lcd_ready e2" using s1(7,13) t(2) by (simp add: lcd_ready_def still_busState)
  have c: "length blank \<le> 16" "\<forall>c\<in>set blank. (32 :: nat) \<le> of_char c" "length ''Diagnostic?'' \<le> 16"
    "\<forall>c\<in>set ''Diagnostic?''. (32 :: nat) \<le> of_char c" "(0 :: nat) \<le> 1" "(1 :: nat) \<le> 1"
    by (simp_all add: blank_def)
  obtain s2 f2 where s2: "showString ?E (cstr blank) 0 s1 = Done () s2" "block_only s1 s2" "ready other_chips sched s2"
    "boards other_chips s2 = fleet d4' e3 f2 dd' bb' bf' ?m" "lcd_ready f2"
    by (rule line_shown [OF s1(3,4) l1 c(5,1,2)])
  obtain s3 g2 where s3: "showString ?E (cstr blank) 1 s2 = Done () s3" "block_only s2 s3" "ready other_chips sched s3"
    "boards other_chips s3 = fleet d4' e3 g2 dd' bb' bf' ?m" "lcd_ready g2"
    by (rule line_shown [OF s2(3-5) c(6,1,2)])
  obtain s4 d2' where s4: "showString ?E (cstr ''Diagnostic?'') 0 s3 = Done () s4" "block_only s3 s4" "ready other_chips sched s4"
    "boards other_chips s4 = fleet d4' e3 d2' dd' bb' bf' ?m" "lcd_ready d2'"
    by (rule line_shown [OF s3(3-5) c(5,3,4)])
  have e3: "busState e3 = STATE_TOP_LEVEL" "RB1 e3"
    using s1(6) assms(4) t(1) by (simp_all add: still_busState still_RB1)
  obtain s5 f3 where s5: "askSw ?E 25000 s4 = Done () s5" "block_only s4 s5" "ready other_chips sched s5"
    "boards other_chips s5 = fleet d4' f3 d2' dd' bb' bf' ?m" "ic3_inv f3" "still e3 f3"
    using switch_not_pressed [OF s4(3,4) s1(12) e3, of 25000] by auto
  have f3: "busState f3 = STATE_TOP_LEVEL" "RB1 f3"
    using s5(6) e3 by (simp_all add: still_busState still_RB1)
  obtain s6 d3' where s6: "pollStartSw ?E s5 = Done 0 s6" "block_only s5 s6" "ready other_chips sched s6"
    "boards other_chips s6 = fleet d4' d3' d2' dd' bb' bf' ?m" "ic3_inv d3'" "still f3 d3'"
    by (rule switch_polled [OF s5(3-5) f3])
  have "block_only s s6" using s1(2) s2(2) s3(2) s4(2) s5(2) s6(2) by (blast intro: block_only_trans)
  moreover have "still d3 d3'" using s1(6) s5(6) s6(6) by (blast intro: still_trans)
  ultimately show thesis
    using that [OF s1(1) s2(1) s3(1) s4(1) s5(1) s6(1) _ s6(3,4) s4(5)] s1(5,8-10) by (simp add: link_kept_block)
qed

text \<open>
  Property C30.  A vehicle whose boards are up, with the USB link plugged in and the start switch not
  pressed, boots: the self test, run on the lines as the start-up has set them, finds each of the seven slaves in
  order; the start-up reaches the loop having sent nothing to the host; the display says that it starts; the other
  boards are as they were; and everything is ready for the first call of the driver.
\<close>

theorem vessel_boots:
  assumes "prompt sched" and "at_rest (tortuga_chips other_chips) (env s)" and "wf_master s" and "\<forall>i>6. \<not> LAT_IRQ s i"
    and "boards other_chips s = fleet d4 d3 d2 dd bb bf m" and "usb s" and "\<not> failsafeTripped s" and "rx s = []"
    and "waiting_fleet d4 d3 d2 dd bb bf m" and "RB1 d3"
  shows "\<exists>s1 s' d4' d3' d2' dd' bb' bf'. postChips (vessel sched) postList (bootPins s) = Done (replicate 7 0) s1
    \<and> startup (vessel sched) n s = Done () s' \<and> at_ease other_chips sched (s', []) \<and> tx s' = tx s
    \<and> boards other_chips s' = fleet d4' d3' d2' dd' bb' bf' (m\<lparr>m_txPtr := 1\<rparr>)
    \<and> (still d4 d4' \<and> still d3 d3' \<and> still dd dd' \<and> still bb bb' \<and> still bf bf')
    \<and> lcd_ready d2' \<and> lcdBuf d2' = letters (''Starting up...  '' @ blank)"
proof -
  let ?E = "vessel sched"
  let ?s0 = "(freeBus (s\<lparr>LAT_IRQ := (\<lambda>i. i > 6 \<and> LAT_IRQ s i), LAT_LED_ACT := True, LAT_LED_ERR := True\<rparr>))\<lparr>LAT_LED_ACT := False, LAT_LED_ERR := False\<rparr>"
  have r0: "ready other_chips sched ?s0"
    using assms(1-4) unfolding ready_def slave_system.idle_def
    by (simp add: freeBus_def wf_master_def quiet_def released_def TRIS_IN_def bit_simps)
  have b0: "boards other_chips ?s0 = fleet d4 d3 d2 dd bb bf m" "link_kept s ?s0"
    using assms(5) by (simp_all add: boards_def freeBus_def link_kept_def)
  obtain s1 s2 s3 s4 s5 s6 d4' d3' e2 dd' bb' bf' where a: "postChips ?E postList ?s0 = Done (replicate 7 0) s1"
    "showString ?E (cstr blank) 0 s1 = Done () s2" "showString ?E (cstr blank) 1 s2 = Done () s3"
    "showString ?E (cstr ''Diagnostic?'') 0 s3 = Done () s4" "askSw ?E 25000 s4 = Done () s5"
    "pollStartSw ?E s5 = Done 0 s6" "link_kept ?s0 s6" "ready other_chips sched s6"
    "boards other_chips s6 = fleet d4' d3' e2 dd' bb' bf' (m\<lparr>m_txPtr := 1\<rparr>)" "lcd_ready e2"
    "still d4 d4' \<and> still d3 d3' \<and> still dd dd' \<and> still bb bb' \<and> still bf bf'"
    by (rule boot_asks [OF r0 b0(1) assms(9,10)])
  let ?s7 = "s6\<lparr>LAT_LED_ACT := False, LAT_LED_ERR := False\<rparr>"
  have k: "link_kept s ?s7" using link_kept_trans [OF b0(2) a(7)] by simp
  then have u: "usb s6" "rx s6 = []" using assms(6,8) by (simp_all add: link_kept_def)
  have s7: "ready other_chips sched ?s7" "boards other_chips ?s7 = fleet d4' d3' e2 dd' bb' bf' (m\<lparr>m_txPtr := 1\<rparr>)"
    using a(8,9) by simp_all
  have c: "(0 :: nat) \<le> 1" "length ''Starting up...  '' \<le> 16" "\<forall>c\<in>set ''Starting up...  ''. (32 :: nat) \<le> of_char c"
    "(1 :: nat) \<le> 1" "length blank \<le> 16" "\<forall>c\<in>set blank. (32 :: nat) \<le> of_char c"
    by (simp_all add: blank_def)
  obtain s8 f2 where s8: "showString ?E (cstr ''Starting up...  '') 0 ?s7 = Done () s8" "block_only ?s7 s8" "ready other_chips sched s8"
    "boards other_chips s8 = fleet d4' d3' f2 dd' bb' bf' (m\<lparr>m_txPtr := 1\<rparr>)" "lcd_ready f2"
    "lcdBuf f2 = overwrite (0 * 16) (letters ''Starting up...  '') (lcdBuf e2)"
    by (rule line_shown [OF s7 a(10) c(1-3)])
  obtain s9 d2' where s9: "showString ?E (cstr blank) 1 s8 = Done () s9" "block_only s8 s9" "ready other_chips sched s9"
    "boards other_chips s9 = fleet d4' d3' d2' dd' bb' bf' (m\<lparr>m_txPtr := 1\<rparr>)" "lcd_ready d2'"
    "lcdBuf d2' = overwrite (1 * 16) (letters blank) (lcdBuf f2)"
    by (rule line_shown [OF s8(3-5) c(4-6)])
  have k9: "link_kept s s9" using k link_kept_block [OF s8(2)] link_kept_block [OF s9(2)] by (blast intro: link_kept_trans)
  have p: "bootPins s = ?s0" unfolding bootPins_def Let_def requests_cleared master_initBus_def ..
  have "startup ?E n s = Done () s9"
    unfolding startup_def Let_def p post_def a(1-6) on_Done
    using u by (simp add: bootUsb_present s8(1) s9(1) del: One_nat_def)
  moreover have "lcdBuf d2' = letters (''Starting up...  '' @ blank)"
    using s8(6) s9(6) a(10) overwrite_halves [of "lcdBuf e2" "letters ''Starting up...  ''" "letters blank"]
    by (simp add: lcd_ready_def ic2_inv_def blank_def)
  moreover have "at_ease other_chips sched (s9, [])"
    using s9(3) k9 assms(6-8) by (simp add: at_ease_def settled_def attentive_def link_kept_def ready_def)
  moreover have "tx s9 = tx s" using k9 by (simp add: link_kept_def)
  ultimately show ?thesis using s9(4,5) a(1,11) unfolding p by blast
qed

lemma lcd_driver_busState [simp]:
  "busState (lcdChar b s) = busState s" "busState (lcdWrite b s) = busState s" "busState (initLCD s) = busState s"
proof -
  have w: "busState (lcdWrite b s) = busState s" "busState (setRS v s) = busState s" "busState (lcdPulse s) = busState s" for b v s
    by (simp_all add: lcdWrite_def setRS_def lcdPulse_def Let_def)
  then have b: "busState (lcdByte b s) = busState s" for b s by (simp add: lcdByte_def Let_def)
  show "busState (lcdChar b s) = busState s" "busState (lcdWrite b s) = busState s" "busState (initLCD s) = busState s"
    by (simp_all add: w b lcdChar_def initLCD_def Let_def)
qed

text \<open>
  The vehicle with all boards fresh from their own start-up, and a master whose request lines
  stand anyhow.
\<close>

theorem vessel_boots_witness:
  "\<exists>s1 s' d2. postChips (vessel keen) postList (bootPins ((started (power_up ((!) new_fleet)) [])\<lparr>LAT_IRQ := (\<lambda>i. i = 3), LAT_LED_ERR := True\<rparr>))
       = Done [0, 0, 0, 0, 0, 0, 0] s1
     \<and> startup (vessel keen) 1 ((started (power_up ((!) new_fleet)) [])\<lparr>LAT_IRQ := (\<lambda>i. i = 3), LAT_LED_ERR := True\<rparr>) = Done () s'
     \<and> at_ease other_chips keen (s', []) \<and> boards other_chips s' ! 2 = Lcd_board d2
     \<and> lcdBuf d2 = letters (''Starting up...  '' @ blank)"
proof -
  let ?s = "(started (power_up ((!) new_fleet)) [])\<lparr>LAT_IRQ := (\<lambda>i. i = 3), LAT_LED_ERR := True\<rparr>"
  let ?d4 = "ic4_start idle_uarts" and ?d3 = "ic3_start idle_uarts (replicate 60 0) True" and ?d2 = "ic2_start idle_uarts"
  let ?dd = "distro_start False" and ?bb = "balancer_start (\<lambda>n. True) True" and ?bf = "bfin_start False" and ?m = "motor_start 0"
  have p: "prompt keen" by (auto simp: prompt_def keen_def intro: exI [of _ 0])
  have r: "at_rest (tortuga_chips other_chips) (env ?s)" using power_up_rest(1) by (simp add: started_def)
  have s: "wf_master ?s" "\<forall>i>6. \<not> LAT_IRQ ?s i" "usb ?s" "\<not> failsafeTripped ?s" "rx ?s = []"
    by (simp_all add: started_def wf_master_def)
  have "boards other_chips (fst new_port) = boards other_chips ?s" by (simp add: new_port_def boards_def started_def)
  then have b: "boards other_chips ?s = fleet ?d4 ?d3 ?d2 ?dd ?bb ?bf ?m" using new_port(2) by simp
  have lcd: "busState ?d2 = STATE_TOP_LEVEL" by (simp add: ic2_start_def Let_def STATE_TOP_LEVEL_def)
  have w: "waiting_fleet ?d4 ?d3 ?d2 ?dd ?bb ?bf ?m"
    unfolding waiting_fleet_def
    by (intro conjI ic4_start_inv ic3_start_inv ic2_start_inv balancer_start_inv bfin_start_inv lcd)
      (simp_all add: ic4_start_def ic3_start_def distro_start_def balancer_start_def bfin_start_def motor_start_def distro_inv_def
        STATE_defs distro_STATE_defs)
  have sw: "RB1 ?d3" by (simp add: ic3_start_def)
  obtain s1 s' d4' d3' d2' dd' bb' bf' where t: "postChips (vessel keen) postList (bootPins ?s) = Done (replicate 7 0) s1"
    and "startup (vessel keen) 1 ?s = Done () s'" "at_ease other_chips keen (s', [])"
    "boards other_chips s' = fleet d4' d3' d2' dd' bb' bf' (?m\<lparr>m_txPtr := 1\<rparr>)" "lcdBuf d2' = letters (''Starting up...  '' @ blank)"
    using vessel_boots [OF p r s(1,2) b s(3-5) w sw, of 1] by blast
  moreover from this(4) have "boards other_chips s' ! 2 = Lcd_board d2'" by (simp add: fleet_nth)
  moreover have "postChips (vessel keen) postList (bootPins ?s) = Done [0, 0, 0, 0, 0, 0, 0] s1" using t by (simp add: numeral_eq_Suc)
  ultimately show ?thesis by blast
qed

end
