(* ===== verification/HexFile.thy ===== *)
theory HexFile
  imports Prelude
begin

text \<open>
  The files of the loader that puts firmware into the chips (\<^verbatim>\<open>src/packages/embedded/bootloader/client\<close>):
  the memory rows of \<^verbatim>\<open>dsppmrow.c\<close> and the reader and writers of Intel hex files of \<^verbatim>\<open>dspphex.c\<close>.  Addresses in a
  hex file are twice those of the chip.
\<close>

section \<open>The errors of the loader\<close>

text \<open>
  \<^verbatim>\<open>ErrExit\<close> ends the program with a message; \<open>Crash\<close> stands for the use of a null pointer or of a place
  outside an array.
\<close>

datatype hex_error = Invalid_line nat | Unimplemented nat | Unknown_type nat | Crash

fun attempt :: "'e + 'a \<Rightarrow> ('a \<Rightarrow> 'e + 'b) \<Rightarrow> 'e + 'b" where
  "attempt (Inl e) f = Inl e"
| "attempt (Inr a) f = f a"

lemma attempt_cong [fundef_cong]:
  "m = m' \<Longrightarrow> (\<And>a. m' = Inr a \<Longrightarrow> f a = g a) \<Longrightarrow> attempt m f = attempt m' g"
  by (cases m') simp_all

definition or_crash :: "'a option \<Rightarrow> hex_error + 'a" where
  "or_crash x = (case x of None \<Rightarrow> Inl Crash | Some a \<Rightarrow> Inr a)"

lemma or_crash_simps [simp]: "or_crash None = Inl Crash" "or_crash (Some a) = Inr a"
  by (simp_all add: or_crash_def)

section \<open>Memory rows\<close>

datatype mem_type = CODE_MEM | DATA_MEM | CNFG_MEM

definition DATA_MEM_MAX :: "32 word" where "DATA_MEM_MAX = 0x800000"
definition CNFG_MEM_MIN :: "32 word" where "CNFG_MEM_MIN = 0xF80000"
definition CNFG_MEM_MAX :: "32 word" where "CNFG_MEM_MAX = 0xF800E0"

record chip_type =
  chip_Name :: string
  ProgramWords :: "16 word"
  DataWords :: "16 word"

definition SupportedChips :: "chip_type list" where
  "SupportedChips =
     [\<lparr>chip_Name = ''pic30f2010'', ProgramWords = 0x1000, DataWords = 0x200\<rparr>,
      \<lparr>chip_Name = ''pic30f3010'', ProgramWords = 0x2000, DataWords = 0x200\<rparr>,
      \<lparr>chip_Name = ''pic30f4012'', ProgramWords = 0x4000, DataWords = 0x200\<rparr>,
      \<lparr>chip_Name = ''pic30f3011'', ProgramWords = 0x2000, DataWords = 0x200\<rparr>,
      \<lparr>chip_Name = ''pic30f4011'', ProgramWords = 0x4000, DataWords = 0x200\<rparr>,
      \<lparr>chip_Name = ''pic30f5015'', ProgramWords = 0x5800, DataWords = 0x200\<rparr>,
      \<lparr>chip_Name = ''pic30f6010'', ProgramWords = 0xC000, DataWords = 0x800\<rparr>]"

record memory_row =
  mr_Address :: "32 word"
  mr_Type :: mem_type
  mr_Buffer :: "byte list"

definition CodeMemMax :: "chip_type \<Rightarrow> 32 word" where
  "CodeMemMax c = 2 * ucast (ProgramWords c)"

definition DataMemMin :: "chip_type \<Rightarrow> 32 word" where
  "DataMemMin c = 0x800000 - 2 * ucast (DataWords c)"

text \<open>The first part of \<^verbatim>\<open>GetMemoryRow\<close>: which row holds the address, and the size of its buffer.\<close>

definition row_place :: "chip_type \<Rightarrow> 32 word \<Rightarrow> (32 word \<times> mem_type \<times> nat) option" where
  "row_place c adr =
     (let a = drop_bit 1 adr in
      if a < CodeMemMax c then Some (a AND 0xFFFFFC0, CODE_MEM, 128)
      else if DataMemMin c \<le> a \<and> a < DATA_MEM_MAX then Some (a AND 0xFFFFFC0, DATA_MEM, 64)
      else if CNFG_MEM_MIN \<le> a \<and> a < CNFG_MEM_MAX then Some (a, CNFG_MEM, 4)
      else None)"

text \<open>
  The list \<^verbatim>\<open>MRList\<close>, newest row first.  A pointer to a row is the row's address: a new row is made only for
  an address that no row of the list has.  \<open>None\<close> is the null pointer.
\<close>

definition GetMemoryRow :: "chip_type \<Rightarrow> 32 word \<Rightarrow> memory_row list \<Rightarrow> 32 word option \<times> memory_row list" where
  "GetMemoryRow c adr rows =
     (case row_place c adr of
        None \<Rightarrow> (None, rows)
      | Some (a, t, len) \<Rightarrow>
          (Some a, if a \<in> mr_Address ` set rows then rows
                   else \<lparr>mr_Address = a, mr_Type = t, mr_Buffer = replicate len 0\<rparr> # rows))"

text \<open>\<^verbatim>\<open>MR->Buffer[k] = b\<close>\<close>

fun poke :: "32 word option \<Rightarrow> int \<Rightarrow> byte \<Rightarrow> memory_row list \<Rightarrow> hex_error + memory_row list" where
  "poke p k b [] = Inl Crash"
| "poke p k b (r # rows) =
     (if p = Some (mr_Address r)
      then if 0 \<le> k \<and> k < int (length (mr_Buffer r)) then Inr (r\<lparr>mr_Buffer := (mr_Buffer r)[nat k := b]\<rparr> # rows)
           else Inl Crash
      else attempt (poke p k b rows) (\<lambda>rows. Inr (r # rows)))"

section \<open>What the C library does\<close>

text \<open>\<^verbatim>\<open>fgets\<close> of at most \<open>n\<close> bytes: the line and the rest of the file.\<close>

fun fgets :: "nat \<Rightarrow> byte list \<Rightarrow> byte list \<times> byte list" where
  "fgets 0 stream = ([], stream)"
| "fgets (Suc n) [] = ([], [])"
| "fgets (Suc n) (ch # stream) = (if ch = 10 then ([ch], stream) else (let (line, rest) = fgets n stream in (ch # line, rest)))"

text \<open>\<^verbatim>\<open>strtoul(s, 0, 16)\<close> of a string too short for its result to overflow.\<close>

definition hexval :: "byte \<Rightarrow> nat option" where
  "hexval ch =
     (if 48 \<le> ch \<and> ch \<le> 57 then Some (unat ch - 48)
      else if 65 \<le> ch \<and> ch \<le> 70 then Some (unat ch - 55)
      else if 97 \<le> ch \<and> ch \<le> 102 then Some (unat ch - 87)
      else None)"

fun hexdigits :: "64 word \<Rightarrow> byte list \<Rightarrow> 64 word" where
  "hexdigits v [] = v"
| "hexdigits v (ch # cs) = (case hexval ch of None \<Rightarrow> v | Some d \<Rightarrow> hexdigits (16 * v + of_nat d) cs)"

definition strtoul :: "byte list \<Rightarrow> 64 word" where
  "strtoul s =
     (let s = dropWhile (\<lambda>ch. ch = 32 \<or> 9 \<le> ch \<and> ch \<le> 13) s;
          neg = (s \<noteq> [] \<and> hd s = 45);
          s = (if s \<noteq> [] \<and> (hd s = 45 \<or> hd s = 43) then tl s else s);
          s = (if 2 \<le> length s \<and> s ! 0 = 48 \<and> (s ! 1 = 120 \<or> s ! 1 = 88) then drop 2 s else s);
          v = hexdigits 0 s
      in if neg then - v else v)"

section \<open>Reading a hex file\<close>

text \<open>\<^verbatim>\<open>Buf2[0]=FileBuffer[j++]; Buf2[1]=FileBuffer[j++]; (BYTE)strtoul(Buf2,0,16)\<close>\<close>

definition hexPair :: "byte list \<Rightarrow> nat \<Rightarrow> hex_error + byte" where
  "hexPair FileBuffer j =
     (if j + 1 < length FileBuffer then Inr (ucast (strtoul [FileBuffer ! j, FileBuffer ! (j + 1)])) else Inl Crash)"

text \<open>The words of a record for the configuration memory, \<open>n\<close> bytes of it left.\<close>

fun putConfig :: "chip_type \<Rightarrow> byte list \<Rightarrow> nat \<Rightarrow> nat \<Rightarrow> 32 word \<Rightarrow> memory_row list \<Rightarrow> hex_error + memory_row list" where
  "putConfig c FileBuffer n j adr rows =
     (if n = 0 then Inr rows else
      let (mr, rows) = GetMemoryRow c adr rows in
      attempt (hexPair FileBuffer j) (\<lambda>b.
      attempt (poke mr 0 b rows) (\<lambda>rows.
      attempt (hexPair FileBuffer (j + 2)) (\<lambda>b.
      attempt (poke mr 1 b rows) (\<lambda>rows.
      putConfig c FileBuffer (n - 4) (j + 8) adr rows)))))"

declare putConfig.simps [simp del]

text \<open>The loop over the bytes of a record for code or data memory, \<open>n\<close> of them left.\<close>

fun putRecord :: "chip_type \<Rightarrow> byte list \<Rightarrow> nat \<Rightarrow> nat \<Rightarrow> nat \<Rightarrow> word16 \<Rightarrow> int \<Rightarrow> 32 word option \<Rightarrow> memory_row list
    \<Rightarrow> hex_error + memory_row list" where
  "putRecord c FileBuffer 0 i j AddressLow Offset mr rows = Inr rows"
| "putRecord c FileBuffer (Suc n) i j AddressLow Offset mr rows =
     attempt (hexPair FileBuffer j) (\<lambda>b.
     let j = j + 2 in
     if uint AddressLow + int i + Offset \<ge> 128
     then case mr of
            None \<Rightarrow> Inl Crash
          | Some a \<Rightarrow>
              let (mr, rows) = GetMemoryRow c (push_bit 1 (a + 0x40)) rows;
                  AddressLow = 0;
                  Offset = - int i
              in attempt (poke mr (uint AddressLow + int i + Offset) b rows) (\<lambda>rows.
                 putRecord c FileBuffer n (Suc i) j AddressLow Offset mr rows)
     else attempt (poke mr (uint AddressLow + int i + Offset) b rows) (\<lambda>rows.
          putRecord c FileBuffer n (Suc i) j AddressLow Offset mr rows))"

text \<open>One line; whether it was the last, the buffer, the upper half of the address and the rows after it.\<close>

definition hexLine :: "chip_type \<Rightarrow> nat \<Rightarrow> byte list \<Rightarrow> word16 \<Rightarrow> memory_row list
    \<Rightarrow> hex_error + bool \<times> byte list \<times> word16 \<times> memory_row list" where
  "hexLine c LineNo FileBuffer AddressHigh rows =
     (if FileBuffer ! 0 \<noteq> 58 then Inl (Invalid_line LineNo) else
      let IdentWord = strtoul (take 8 (drop 1 FileBuffer));
          RecLen = unat (drop_bit 24 IdentWord AND 0xFF);
          AddressLow = (ucast (drop_bit 8 IdentWord AND 0x00FFFF) :: word16);
          RecType = IdentWord AND 0xFF
      in if RecType = 0x01 then Inr (True, FileBuffer, AddressHigh, rows)
         else if RecType = 0x04
         then if RecLen \<noteq> 2 \<or> AddressLow \<noteq> 0 then Inl (Invalid_line LineNo)
              else let FileBuffer = FileBuffer[13 := 0]
                   in Inr (False, FileBuffer, ucast (strtoul (take 4 (drop 9 FileBuffer))), rows)
         else if RecType = 0x00
         then let adr = push_bit 16 (ucast AddressHigh) OR ucast AddressLow :: 32 word in
              if AddressHigh = 0x00F8
              then attempt (putConfig c FileBuffer RecLen 9 adr rows) (\<lambda>rows. Inr (False, FileBuffer, AddressHigh, rows))
              else case GetMemoryRow c adr rows of
                     (None, rows) \<Rightarrow> Inl (Unimplemented LineNo)
                   | (Some a, rows) \<Rightarrow>
                       let AddressLow = AddressLow - 2 * ucast (a AND 0xFFFF)
                       in attempt (putRecord c FileBuffer RecLen 0 9 AddressLow 0 (Some a) rows)
                            (\<lambda>rows. Inr (False, FileBuffer, AddressHigh, rows))
         else Inl (Unknown_type LineNo))"

text \<open>The loop of \<^verbatim>\<open>ReadHexFile\<close>, and the function, whose buffer starts with anything.\<close>

lemma fgets_shorter: "length (snd (fgets (Suc n) (ch # stream))) \<le> length stream"
proof (induction n arbitrary: ch stream)
  case (Suc n)
  show ?case
  proof (cases stream)
    case (Cons d f)
    then show ?thesis using Suc [of d f] by (auto split: prod.splits)
  qed simp
qed simp

lemma fgets_rest:
  assumes "fgets 99 stream = (line, rest')" and "stream \<noteq> []"
  shows "length rest' < length stream"
  using fgets_shorter [of 98 "hd stream" "tl stream"] assms by (cases stream) auto

function readLines :: "chip_type \<Rightarrow> nat \<Rightarrow> byte list \<Rightarrow> word16 \<Rightarrow> memory_row list \<Rightarrow> byte list \<Rightarrow> hex_error + memory_row list" where
  "readLines c LineNo FileBuffer AddressHigh rows stream =
     (if stream = [] then Inr rows else
      let (line, rest') = fgets 99 stream;
          FileBuffer = overwrite 0 (line @ [0]) FileBuffer;
          LineNo = LineNo + 1
      in attempt (hexLine c LineNo FileBuffer AddressHigh rows) (\<lambda>(eof, FileBuffer, AddressHigh, rows).
         if eof then Inr rows else readLines c LineNo FileBuffer AddressHigh rows rest'))"
  by pat_completeness auto
termination
  by (relation "measure (\<lambda>(c, n, b, h, r, stream). length stream)") (auto dest: fgets_rest [OF sym])

declare readLines.simps [simp del]

definition ReadHexFile :: "chip_type \<Rightarrow> byte list \<Rightarrow> byte list \<Rightarrow> hex_error + memory_row list" where
  "ReadHexFile c FileBuffer stream = readLines c 0 FileBuffer 0 [] stream"

section \<open>Writing one\<close>

definition hex4 :: "word16 \<Rightarrow> byte list" where
  "hex4 w = hex2 (ucast (drop_bit 8 w)) @ hex2 (ucast w)"

definition WriteELARecord :: "32 word \<Rightarrow> byte list" where
  "WriteELARecord Address =
     (let Address = drop_bit 15 Address AND 0xFFFF;
          CheckSum = ucast (1 + NOT (0x02 + 0x04 + (Address AND 0xFF) + drop_bit 8 (Address AND 0xFF00))) :: byte
      in map of_char '':02000004'' @ hex4 (ucast Address) @ hex2 CheckSum @ [10])"

definition WriteDataRecord :: "word16 \<Rightarrow> byte list \<Rightarrow> byte list" where
  "WriteDataRecord AdrsLow Buffer =
     (let AdrsLow = AdrsLow * 2;
          CheckSum = 0x10 + ucast (AdrsLow AND 0xFF) + ucast (drop_bit 8 (AdrsLow AND 0xFF00)) :: byte;
          CheckSum = fold (\<lambda>i s. s + Buffer ! i) [0..<16] CheckSum;
          OutString = concat (map (\<lambda>i. hex2 (Buffer ! i)) [0..<16]);
          CheckSum = 1 + NOT CheckSum
      in map of_char '':10'' @ hex4 AdrsLow @ map of_char ''00'' @ OutString @ hex2 CheckSum @ [10])"

definition WriteEOFRecord :: "byte list" where
  "WriteEOFRecord = map of_char '':00000001FF'' @ [10]"

end
