(* ===== verification/HexImage.thy ===== *)
theory HexImage
  imports HexFile
begin

text \<open>
  What a hex file means: a memory, addressed as in the file, that its records write one after the other.  The
  reader of the loader puts exactly this memory into its rows when the records stay within the code memory.
\<close>

section \<open>Rows as a memory\<close>

type_synonym memory = "nat \<Rightarrow> byte"

fun image_of :: "memory_row list \<Rightarrow> memory" where
  "image_of [] x = 0"
| "image_of (r # rows) x = (if unat (mr_Address r) = x div 128 * 64 then mr_Buffer r ! (x mod 128) else image_of rows x)"

lemma image_of_Nil: "image_of [] = (\<lambda>x. 0)"
  by (rule ext) simp

definition store_bytes :: "nat \<Rightarrow> byte list \<Rightarrow> memory \<Rightarrow> memory" where
  "store_bytes a bs m = (\<lambda>x. if a \<le> x \<and> x < a + length bs then bs ! (x - a) else m x)"

definition code_row :: "chip_type \<Rightarrow> memory_row \<Rightarrow> bool" where
  "code_row c r \<longleftrightarrow> mr_Type r = CODE_MEM \<and> length (mr_Buffer r) = 128 \<and> 64 dvd unat (mr_Address r) \<and> mr_Address r < CodeMemMax c"

definition rows_ok :: "chip_type \<Rightarrow> memory_row list \<Rightarrow> bool" where
  "rows_ok c rows \<longleftrightarrow> distinct (map mr_Address rows) \<and> (\<forall>r\<in>set rows. code_row c r)"

lemma rows_ok_simps [simp]:
  "rows_ok c []"
  "rows_ok c (r # rows) \<longleftrightarrow> code_row c r \<and> mr_Address r \<notin> mr_Address ` set rows \<and> rows_ok c rows"
  by (auto simp: rows_ok_def)

lemma store_bytes_simps:
  "store_bytes a [] m = m" "store_bytes a (b # bs) m = store_bytes (Suc a) bs (m(a := b))"
proof -
  show "store_bytes a (b # bs) m = store_bytes (Suc a) bs (m(a := b))"
  proof
    fix x
    consider "x = a" | "x < a" | y where "x = Suc (a + y)" using less_imp_Suc_add [of a x] by fastforce
    then show "store_bytes a (b # bs) m x = store_bytes (Suc a) bs (m(a := b)) x"
      by cases (simp_all add: store_bytes_def)
  qed
qed (auto simp: store_bytes_def fun_eq_iff)

lemma row_split:
  assumes "k < (128 :: nat)"
  shows "64 * q = x div 128 * 64 \<and> x mod 128 = k \<longleftrightarrow> x = 128 * q + k"
proof
  assume "64 * q = x div 128 * 64 \<and> x mod 128 = k"
  then show "x = 128 * q + k" using mult_div_mod_eq [of 128 x] by simp
qed (use assms in simp)

lemma poke_code:
  assumes "rows_ok c rows" and "a \<in> mr_Address ` set rows" and "0 \<le> k" and "k < 128"
  shows "\<exists>rows'. poke (Some a) k b rows = Inr rows' \<and> rows_ok c rows' \<and> map mr_Address rows' = map mr_Address rows
    \<and> image_of rows' = (image_of rows)(2 * unat a + nat k := b)"
  using assms(1,2)
proof (induction rows)
  case (Cons r rows)
  have k: "nat k < 128" using assms(3,4) by linarith
  have r: "length (mr_Buffer r) = 128" "64 dvd unat (mr_Address r)" using Cons.prems(1) by (simp_all add: code_row_def)
  show ?case
  proof (cases "a = mr_Address r")
    case True
    obtain q where q: "unat a = 64 * q" using r(2) True by (auto simp: dvd_def)
    have "image_of (r\<lparr>mr_Buffer := (mr_Buffer r)[nat k := b]\<rparr> # rows) x = ((image_of (r # rows))(2 * unat a + nat k := b)) x" for x
    proof -
      have "unat a = x div 128 * 64 \<and> x mod 128 = nat k \<longleftrightarrow> x = 2 * unat a + nat k"
        unfolding q row_split [OF k] by linarith
      then show ?thesis using True r(1) by (cases "x = 2 * unat a + nat k") auto
    qed
    then have "image_of (r\<lparr>mr_Buffer := (mr_Buffer r)[nat k := b]\<rparr> # rows) = (image_of (r # rows))(2 * unat a + nat k := b)"
      by blast
    then show ?thesis using True Cons.prems(1) assms(3,4) r(1) by (simp add: code_row_def fun_upd_def del: image_of.simps)
  next
    case False
    then have "rows_ok c rows" "a \<in> mr_Address ` set rows" using Cons.prems by auto
    then obtain rows' where rows': "poke (Some a) k b rows = Inr rows'" "rows_ok c rows'" "map mr_Address rows' = map mr_Address rows"
      "image_of rows' = (image_of rows)(2 * unat a + nat k := b)"
      using Cons.IH by blast
    obtain q where q: "unat a = 64 * q" using Cons.prems(2) False Cons.prems(1) by (auto simp: rows_ok_def code_row_def dvd_def)
    have "unat (mr_Address r) \<noteq> (2 * unat a + nat k) div 128 * 64" using False q k by (auto simp: word_unat_eq_iff)
    then have "image_of (r # rows') = (image_of (r # rows))(2 * unat a + nat k := b)" using rows'(4) by (auto simp: fun_eq_iff)
    moreover have "mr_Address ` set rows' = mr_Address ` set rows" using rows'(3) by (metis list.set_map)
    ultimately show ?thesis using rows' False Cons.prems(1) by (intro exI [of _ "r # rows'"]) (simp del: image_of.simps)
  qed
qed simp

lemma row_start:
  fixes w :: "32 word"
  assumes "unat w < 2 ^ 28"
  shows "unat (w AND 0xFFFFFC0) = unat w div 64 * 64"
proof -
  have m: "(0xFFFFFC0 :: nat) = push_bit 6 (mask 22)" by (simp add: mask_eq_exp_minus_1)
  have w: "\<not> bit (unat w) n" if "28 \<le> n" for n
    using assms that by (metis bit_take_bit_iff not_less take_bit_nat_eq_self)
  have "unat w AND 0xFFFFFC0 = push_bit 6 (drop_bit 6 (unat w))"
    unfolding m using w by (intro bit_eqI) (auto simp: bit_simps intro: ccontr)
  then show ?thesis by (simp add: unsigned_and_eq push_bit_eq_mult drop_bit_eq_div)
qed

lemma CodeMemMax_bound: "unat (CodeMemMax c) < 2 ^ 17"
proof -
  have "unat (ProgramWords c) < 2 ^ 16" using unsigned_less [of "ProgramWords c", where ?'a = nat] by simp
  moreover have "unat (2 * ucast (ProgramWords c) :: 32 word) = 2 * unat (ProgramWords c)"
    using calculation by (subst unat_word_ariths) (simp add: unsigned_ucast_eq take_bit_nat_eq_self)
  ultimately show ?thesis by (simp add: CodeMemMax_def)
qed

lemma GetMemoryRow_code:
  assumes "rows_ok c rows" and "unat adr div 2 < unat (CodeMemMax c)"
  shows "\<exists>a rows'. GetMemoryRow c adr rows = (Some a, rows') \<and> unat a = unat adr div 128 * 64 \<and> a \<in> mr_Address ` set rows'
    \<and> rows_ok c rows' \<and> image_of rows' = image_of rows"
proof -
  let ?w = "drop_bit 1 adr" let ?a = "?w AND 0xFFFFFC0"
  let ?r = "\<lparr>mr_Address = ?a, mr_Type = CODE_MEM, mr_Buffer = replicate 128 0\<rparr>"
  have w: "unat ?w = unat adr div 2" using unat_drop_bit_eq [of 1 adr] by (simp add: drop_bit_eq_div)
  have p: "row_place c adr = Some (?a, CODE_MEM, 128)"
    using assms(2) w by (simp add: row_place_def word_less_nat_alt)
  have a: "unat ?a = unat adr div 128 * 64"
    using row_start [of ?w] w assms(2) CodeMemMax_bound [of c] by (simp add: div_mult2_eq)
  then have "unat ?a < unat (CodeMemMax c)" using assms(2) by linarith
  then have r: "code_row c ?r" using a by (simp add: code_row_def word_less_nat_alt)
  have "image_of (?r # rows) = image_of rows" if "?a \<notin> mr_Address ` set rows"
  proof
    fix x
    have "image_of rows x = 0" if "unat ?a = x div 128 * 64"
      using that \<open>?a \<notin> mr_Address ` set rows\<close>
    proof (induction rows)
      case (Cons r rows)
      then have "unat (mr_Address r) \<noteq> x div 128 * 64" by (metis image_eqI list.set_intros(1) word_unat_eq_iff)
      then show ?case using Cons by simp
    qed simp
    then show "image_of (?r # rows) x = image_of rows x" by simp
  qed
  then show ?thesis using p a r assms(1) by (auto simp: GetMemoryRow_def)
qed

lemma putRecord_code:
  assumes "rows_ok c rows" and "a \<in> mr_Address ` set rows" and "64 dvd unat (CodeMemMax c)"
    and "0 \<le> uint low + int i + off" and "uint low + int i + off \<le> 128"
    and "2 * unat a + nat (uint low + int i + off) + length bs \<le> 2 * unat (CodeMemMax c)"
    and "\<forall>t<length bs. hexPair buf (j + 2 * t) = Inr (bs ! t)"
  shows "\<exists>rows'. putRecord c buf (length bs) i j low off (Some a) rows = Inr rows' \<and> rows_ok c rows'
    \<and> image_of rows' = store_bytes (2 * unat a + nat (uint low + int i + off)) bs (image_of rows)"
  using assms(1,2,4-7)
proof (induction bs arbitrary: i j low off a rows)
  case Nil
  then show ?case by (simp add: store_bytes_simps)
next
  case (Cons b bs)
  let ?x = "uint low + int i + off"
  have b: "hexPair buf j = Inr b" "\<forall>t<length bs. hexPair buf (j + 2 + 2 * t) = Inr (bs ! t)"
    using Cons.prems(6) by (force, metis (no_types, lifting) Suc_less_eq add.assoc length_Cons mult_Suc_right nth_Cons_Suc)
  show ?case
  proof (cases "128 \<le> ?x")
    case False
    then obtain rows' where r: "poke (Some a) ?x b rows = Inr rows'" "rows_ok c rows'" "map mr_Address rows' = map mr_Address rows"
      "image_of rows' = (image_of rows)(2 * unat a + nat ?x := b)"
      using poke_code [OF Cons.prems(1,2,3), of b] by auto
    have a: "a \<in> mr_Address ` set rows'" using Cons.prems(2) r(3) by (metis list.set_map)
    have x: "uint low + int (Suc i) + off = ?x + 1" "nat (?x + 1) = Suc (nat ?x)" using Cons.prems(3) by simp_all
    have "0 \<le> uint low + int (Suc i) + off" "uint low + int (Suc i) + off \<le> 128"
      "2 * unat a + nat (uint low + int (Suc i) + off) + length bs \<le> 2 * unat (CodeMemMax c)"
      unfolding x using Cons.prems(3,5) False x(2) by simp_all
    then obtain rows2 where r2: "putRecord c buf (length bs) (Suc i) (j + 2) low off (Some a) rows' = Inr rows2" "rows_ok c rows2"
      "image_of rows2 = store_bytes (2 * unat a + nat (uint low + int (Suc i) + off)) bs (image_of rows')"
      using Cons.IH [OF r(2) a _ _ _ b(2)] by blast
    have "putRecord c buf (length (b # bs)) i j low off (Some a) rows = Inr rows2"
      using r2(1) r(1) b(1) False by simp
    then show ?thesis using r2(2,3) by (intro exI [of _ rows2]) (simp only: x r(4) store_bytes_simps add_Suc_right simp_thms)
  next
    case True
    then have x: "?x = 128" using Cons.prems(4) by simp
    obtain q where q: "unat a = 64 * q" using Cons.prems(1,2) by (auto simp: rows_ok_def code_row_def dvd_def)
    have l: "2 * unat a + 128 < 2 * unat (CodeMemMax c)" using Cons.prems(5) x by simp
    have "unat (a + 0x40) = unat a + 64" using l CodeMemMax_bound [of c] by (subst unat_plus_if_size) (simp add: word_size)
    moreover have "unat (push_bit 1 (a + 0x40)) = 2 * unat (a + 0x40)"
      using calculation l CodeMemMax_bound [of c] by (simp add: push_bit_eq_mult unat_word_ariths)
    ultimately have n: "unat (push_bit 1 (a + 0x40)) = 128 * Suc q" using q by simp
    obtain a' rows1 where g: "GetMemoryRow c (push_bit 1 (a + 0x40)) rows = (Some a', rows1)" "unat a' = 64 * Suc q"
      "a' \<in> mr_Address ` set rows1" "rows_ok c rows1" "image_of rows1 = image_of rows"
      using GetMemoryRow_code [OF Cons.prems(1), of "push_bit 1 (a + 0x40)"] n l q by auto
    obtain rows' where r: "poke (Some a') 0 b rows1 = Inr rows'" "rows_ok c rows'" "map mr_Address rows' = map mr_Address rows1"
      "image_of rows' = (image_of rows1)(2 * unat a' := b)"
      using poke_code [OF g(4,3), of 0 b] by auto
    have a: "a' \<in> mr_Address ` set rows'" using g(3) r(3) by (metis list.set_map)
    have e: "2 * unat a + 128 = 2 * unat a'" using q g(2) by simp
    have "2 * unat a' + 1 + length bs \<le> 2 * unat (CodeMemMax c)" using Cons.prems(5) x e by simp
    then have "\<exists>rows2. putRecord c buf (length bs) (Suc i) (j + 2) 0 (- int i) (Some a') rows' = Inr rows2 \<and> rows_ok c rows2
        \<and> image_of rows2 = store_bytes (Suc (2 * unat a')) bs (image_of rows')"
      using Cons.IH [of rows' a' 0 "Suc i" "- int i" "j + 2"] r(2) a b(2) by simp
    then show ?thesis
      using b(1) g(1,5) r(1,4) x e by (auto simp: store_bytes_simps)
  qed
qed

section \<open>Lines as records\<close>

text \<open>
  The records of a file: the upper half of the addresses that follow, and bytes for an address below it.  The last
  byte of a line is its checksum.
\<close>

datatype hex_record = Base word16 byte | Bytes word16 "byte list" byte

definition record_line :: "byte \<Rightarrow> word16 \<Rightarrow> byte \<Rightarrow> byte list \<Rightarrow> byte \<Rightarrow> byte list" where
  "record_line len adr typ bs cs = 58 # hex2 len @ hex4 adr @ hex2 typ @ concat (map hex2 bs) @ hex2 cs"

fun line_of :: "hex_record \<Rightarrow> byte list" where
  "line_of (Base w cs) = record_line 2 0 4 [ucast (drop_bit 8 w), ucast w] cs"
| "line_of (Bytes a bs cs) = record_line (of_nat (length bs)) a 0 bs cs"

fun meaning :: "word16 \<Rightarrow> hex_record list \<Rightarrow> memory \<Rightarrow> memory" where
  "meaning h [] m = m"
| "meaning h (Base w cs # rs) m = meaning w rs m"
| "meaning h (Bytes a bs cs # rs) m = meaning h rs (store_bytes (unat h * 65536 + unat a) bs m)"

text \<open>
  A line that fits into the buffer of a hundred characters: a longer one goes on in the next call of \<^verbatim>\<open>fgets\<close>, and
  the reader, which goes by the length in the record, reads past the buffer.
\<close>

fun fits_line :: "hex_record \<Rightarrow> bool" where
  "fits_line (Base w cs) = True"
| "fits_line (Bytes a bs cs) \<longleftrightarrow> bs \<noteq> [] \<and> length bs \<le> 43"

text \<open>Every record stays within the code memory.\<close>

fun within :: "chip_type \<Rightarrow> word16 \<Rightarrow> hex_record list \<Rightarrow> bool" where
  "within c h [] = True"
| "within c h (Base w cs # rs) = within c w rs"
| "within c h (Bytes a bs cs # rs) \<longleftrightarrow>
     unat h * 65536 + unat a + length bs \<le> 2 * unat (CodeMemMax c) \<and> within c h rs"

lemma hex_digit_table:
  "\<forall>n\<in>set [0..<16]. hexval (hex_digit n) = Some n \<and> 48 \<le> hex_digit n \<and> hex_digit n \<noteq> 120 \<and> hex_digit n \<noteq> 88"
  by code_simp

lemma hex_digit_facts:
  assumes "n < 16"
  shows "hexval (hex_digit n) = Some n" "\<not> (hex_digit n = 32 \<or> 9 \<le> hex_digit n \<and> hex_digit n \<le> 13)"
    "hex_digit n \<noteq> 45" "hex_digit n \<noteq> 43" "hex_digit n \<noteq> 120" "hex_digit n \<noteq> 88" "hex_digit n \<noteq> 10"
proof -
  have h: "hexval (hex_digit n) = Some n" "48 \<le> hex_digit n" "hex_digit n \<noteq> 120" "hex_digit n \<noteq> 88"
    using bspec [OF hex_digit_table, of n] assms by auto
  then show "hexval (hex_digit n) = Some n" "\<not> (hex_digit n = 32 \<or> 9 \<le> hex_digit n \<and> hex_digit n \<le> 13)"
    "hex_digit n \<noteq> 45" "hex_digit n \<noteq> 43" "hex_digit n \<noteq> 120" "hex_digit n \<noteq> 88" "hex_digit n \<noteq> 10"
    by (auto simp: word_le_nat_alt)
qed

lemma nibbles: "unat (b :: byte) div 16 < 16" "unat b mod 16 < 16"
  using byte_lt_256 [of b] by (simp_all add: less_mult_imp_div_less)

lemma length_hex [simp]: "length (hex2 b) = 2" "length (hex4 w) = 4" "length (concat (map hex2 bs)) = 2 * length bs"
  by (simp_all add: hex2_def hex4_def length_concat comp_def sum_list_triv)

lemma hexdigits_hex2 [simp]: "hexdigits v (hex2 b @ s) = hexdigits (push_bit 8 v OR ucast b) s"
proof -
  have "of_nat (unat b) = (ucast b :: 64 word)" by simp
  then have b: "16 * of_nat (unat b div 16) + of_nat (unat b mod 16) = (ucast b :: 64 word)"
    by (metis mult_div_mod_eq of_nat_add of_nat_mult of_nat_numeral)
  have "push_bit 8 v AND ucast b = 0" by (rule bit_word_eqI) (auto simp: bit_simps dest: bit_imp_le_length)
  then have "push_bit 8 v OR ucast b = 256 * v + ucast b"
    by (simp add: disjunctive_add_eq_or [symmetric] push_bit_eq_mult)
  also have "256 * v = 16 * (16 * v)" by simp
  finally have "push_bit 8 v OR ucast b = 16 * (16 * v + of_nat (unat b div 16)) + of_nat (unat b mod 16)"
    unfolding b [symmetric] by (simp only: distrib_left add.assoc)
  then show ?thesis by (simp add: hex2_def hex_digit_facts nibbles)
qed

lemma strtoul_hex2: "strtoul (hex2 b @ s) = hexdigits 0 (hex2 b @ s)"
proof -
  let ?s = "hex2 b @ s"
  have s: "hd ?s = hex_digit (unat b div 16)" "?s ! 1 = hex_digit (unat b mod 16)" "?s \<noteq> []" by (simp_all add: hex2_def)
  have "dropWhile (\<lambda>ch. ch = 32 \<or> 9 \<le> ch \<and> ch \<le> 13) ?s = ?s"
    using hex_digit_facts(2) [OF nibbles(1) [of b]] by (simp add: hex2_def del: de_Morgan_disj de_Morgan_conj)
  then show ?thesis unfolding strtoul_def Let_def s(1,2) using hex_digit_facts [OF nibbles(1)] hex_digit_facts [OF nibbles(2)] s
    by (simp only: simp_thms if_False)
qed

lemma ucast_back: "ucast (ucast b :: 64 word) = (b :: byte)"
  by (rule bit_word_eqI) (simp add: bit_simps)

lemma hexPair_read:
  assumes "drop j buf = hex2 b @ s"
  shows "hexPair buf j = Inr b"
proof -
  have l: "length buf - j = length (hex2 b @ s)" using assms by (metis length_drop)
  then have "j + 1 < length buf" by simp
  moreover have "[buf ! j, buf ! (j + 1)] = hex2 b"
    using arg_cong [OF assms, of "take 2"] calculation
    by (simp add: numeral_2_eq_2 take_Suc_conv_app_nth)
  moreover have "strtoul (hex2 b) = ucast b" using strtoul_hex2 [of b "[]"] hexdigits_hex2 [of 0 b "[]"] by simp
  ultimately show ?thesis by (simp add: hexPair_def ucast_back)
qed

lemma fgets_line:
  "10 \<notin> set line \<Longrightarrow> length line < n \<Longrightarrow> fgets n (line @ 10 # rest) = (line @ [10], rest)"
proof (induction line arbitrary: n)
  case (Nil n)
  then show ?case by (cases n) simp_all
next
  case (Cons ch line n)
  then show ?case by (cases n) auto
qed

lemma overwrite_start: "length bs \<le> length buf \<Longrightarrow> overwrite 0 bs buf = bs @ drop (length bs) buf"
  by (rule nth_equalityI) (simp_all add: nth_overwrite nth_append)

lemma hexdigits_hex2_end [simp]: "hexdigits v (hex2 b) = push_bit 8 v OR ucast b"
  using hexdigits_hex2 [of v b "[]"] by simp

lemma strtoul_hex4: "strtoul (hex4 w) = ucast w"
  unfolding hex4_def strtoul_hex2
  by (rule bit_word_eqI) (auto simp: bit_simps dest: bit_imp_le_length intro: ccontr)

lemma ident_fields:
  assumes "ident = strtoul (hex2 len @ hex4 adr @ hex2 typ)"
  shows "unat (drop_bit 24 ident AND 0xFF) = unat len" "ucast (drop_bit 8 ident AND 0x00FFFF) = adr" "ident AND 0xFF = ucast typ"
proof -
  have i: "ident = push_bit 8 (push_bit 8 (push_bit 8 (ucast len) OR ucast (ucast (drop_bit 8 adr) :: byte)) OR ucast (ucast adr :: byte))
      OR ucast typ"
    using assms by (simp add: hex4_def strtoul_hex2)
  have m: "(0xFF :: 64 word) = mask 8" "(0x00FFFF :: 64 word) = mask 16" by (simp_all add: mask_eq_exp_minus_1)
  have "drop_bit 24 ident AND 0xFF = ucast len"
    unfolding i m by (rule bit_word_eqI) (auto simp: bit_simps dest: bit_imp_le_length)
  then show "unat (drop_bit 24 ident AND 0xFF) = unat len"
    by (simp add: unsigned_ucast_eq take_bit_nat_eq_self less_trans [OF byte_lt_256])
  show "ucast (drop_bit 8 ident AND 0x00FFFF) = adr" unfolding i m
    by (rule bit_word_eqI) (auto simp: bit_simps dest: bit_imp_le_length)
  show "ident AND 0xFF = ucast typ" unfolding i m
    by (rule bit_word_eqI) (auto simp: bit_simps dest: bit_imp_le_length)
qed

lemma line_buffer:
  assumes "length buf = 100" and "length bs \<le> 43"
  shows "\<exists>tail. length tail = 100 - (13 + 2 * length bs)
    \<and> overwrite 0 (record_line len adr typ bs cs @ [10] @ [0]) buf
      = 58 # (hex2 len @ hex4 adr @ hex2 typ) @ concat (map hex2 bs) @ hex2 cs @ 10 # 0 # tail"
  using assms by (subst overwrite_start) (simp_all add: record_line_def)

lemma hexPair_line:
  assumes "length pre = 9" and "buf = pre @ concat (map hex2 bs) @ post" and "k < length bs"
  shows "hexPair buf (9 + 2 * k) = Inr (bs ! k)"
proof (rule hexPair_read)
  have "bs = take k bs @ bs ! k # drop (Suc k) bs" using assms(3) by (rule id_take_nth_drop)
  then have "concat (map hex2 bs) = concat (map hex2 (take k bs)) @ hex2 (bs ! k) @ concat (map hex2 (drop (Suc k) bs))"
    by (metis append.assoc concat.simps(2) concat_append list.simps(9) map_append)
  then show "drop (9 + 2 * k) buf = hex2 (bs ! k) @ concat (map hex2 (drop (Suc k) bs)) @ post"
    using assms by simp
qed

lemma hexLine_Base:
  assumes "buf = 58 # (hex2 2 @ hex4 0 @ hex2 4) @ hex4 w @ hex2 cs @ post"
  shows "hexLine c n buf h rows = Inr (False, buf[13 := 0], w, rows)"
proof -
  let ?ident = "strtoul (take 8 (drop 1 buf))"
  have i: "?ident = strtoul (hex2 2 @ hex4 0 @ hex2 4)" using assms by simp
  have b: "take 4 (drop 9 (buf[13 := 0])) = hex4 w" using assms by (simp add: drop_update_swap del: drop_Suc_Cons)
  have "ucast (strtoul (hex4 w)) = w" unfolding strtoul_hex4 by (rule bit_word_eqI) (simp add: bit_simps)
  moreover have "buf ! 0 = 58" using assms by simp
  ultimately show ?thesis
    using ident_fields [OF i] b by (simp add: hexLine_def Let_def)
qed

lemma hex_address: "unat (push_bit 16 (ucast h) OR ucast adr :: 32 word) = unat (h :: word16) * 65536 + unat (adr :: word16)"
proof -
  have "push_bit 16 (ucast h) AND (ucast adr :: 32 word) = 0" by (rule bit_word_eqI) (auto simp: bit_simps dest: bit_imp_le_length)
  then have "push_bit 16 (ucast h) OR ucast adr = (ucast h * 65536 + ucast adr :: 32 word)"
    by (simp add: disjunctive_add_eq_or [symmetric] push_bit_eq_mult)
  moreover have "unat h < 65536" "unat adr < 65536"
    using unsigned_less [of h, where ?'a = nat] unsigned_less [of adr, where ?'a = nat] by simp_all
  ultimately show ?thesis by (simp add: unat_word_ariths unsigned_ucast_eq take_bit_nat_eq_self)
qed

text \<open>\<^verbatim>\<open>AddressLow-=2*((MR->Address)&0xFFFF)\<close> leaves the offset in the row.\<close>

lemma row_offset:
  assumes "unat (r :: 32 word) = unat (push_bit 16 (ucast (h :: word16)) OR ucast adr :: 32 word) div 128 * 64"
  shows "unat (adr - 2 * ucast (r AND 0xFFFF) :: word16) = unat (push_bit 16 (ucast h) OR ucast adr :: 32 word) mod 128"
proof -
  let ?n = "unat h * 65536 + unat adr"
  have s: "2 * unat r + ?n mod 128 = ?n" using assms unfolding hex_address by simp
  have m: "(0xFFFF :: 32 word) = mask 16" by (simp add: mask_eq_exp_minus_1)
  have "ucast (r AND 0xFFFF) = (of_nat (unat r) :: word16)"
    unfolding m by (rule bit_word_eqI) (simp add: bit_simps)
  moreover have "(65536 :: word16) = 0" by code_simp
  then have "of_nat (unat h * 65536) = (0 :: word16)" by (simp only: of_nat_mult of_nat_numeral mult_zero_right)
  then have "adr = of_nat ?n" unfolding of_nat_add by simp
  then have "adr = 2 * of_nat (unat r) + of_nat (?n mod 128)" by (metis of_nat_add of_nat_mult of_nat_numeral s)
  ultimately have "adr - 2 * ucast (r AND 0xFFFF) = of_nat (?n mod 128)" by (metis add_diff_cancel_left')
  then show ?thesis by (simp add: hex_address unat_of_nat)
qed

lemma hexLine_Bytes:
  assumes "rows_ok c rows" and "64 dvd unat (CodeMemMax c)" and "bs \<noteq> []" and "length bs \<le> 43"
    and "unat h * 65536 + unat adr + length bs \<le> 2 * unat (CodeMemMax c)"
    and "buf = 58 # (hex2 (of_nat (length bs)) @ hex4 adr @ hex2 0) @ concat (map hex2 bs) @ post"
  shows "\<exists>rows'. hexLine c n buf h rows = Inr (False, buf, h, rows') \<and> rows_ok c rows'
    \<and> image_of rows' = store_bytes (unat h * 65536 + unat adr) bs (image_of rows)"
proof -
  let ?ident = "strtoul (take 8 (drop 1 buf))" and ?a = "push_bit 16 (ucast h) OR ucast adr :: 32 word"
  have i: "?ident = strtoul (hex2 (of_nat (length bs)) @ hex4 adr @ hex2 0)" using assms(6) by simp
  have len: "unat (of_nat (length bs) :: byte) = length bs" using assms(4) by (simp add: unat_of_nat)
  have h: "unat h < 4" using assms(3,5) CodeMemMax_bound [of c] by (cases bs) auto
  have a: "unat ?a = unat h * 65536 + unat adr" by (rule hex_address)
  have "1 \<le> length bs" using assms(3) by (cases bs) simp_all
  then have d: "unat ?a div 2 < unat (CodeMemMax c)" using assms(5) a by linarith
  obtain r rows1 where g: "GetMemoryRow c ?a rows = (Some r, rows1)" "unat r = unat ?a div 128 * 64"
    "r \<in> mr_Address ` set rows1" "rows_ok c rows1" "image_of rows1 = image_of rows"
    using GetMemoryRow_code [OF assms(1) d] by blast
  let ?low = "adr - 2 * ucast (r AND 0xFFFF)"
  have s: "2 * unat r + unat ?a mod 128 = unat ?a" using g(2) by simp
  have low: "unat ?low = unat ?a mod 128" by (rule row_offset [OF g(2)])
  then have x: "nat (uint ?low + int 0 + 0) = unat ?a mod 128" by simp
  have l: "uint ?low + int 0 + 0 \<le> 128" using low by (simp add: uint_nat del: unat_sub)
  have "\<forall>k<length bs. hexPair buf (9 + 2 * k) = Inr (bs ! k)"
    using hexPair_line [of "58 # hex2 (of_nat (length bs)) @ hex4 adr @ hex2 0" buf bs post] assms(6) by simp
  then obtain rows' where p: "putRecord c buf (length bs) 0 9 ?low 0 (Some r) rows1 = Inr rows'" "rows_ok c rows'"
    "image_of rows' = store_bytes (unat ?a) bs (image_of rows)"
    using putRecord_code [OF g(4,3) assms(2), of ?low 0 0 bs buf 9] x l s assms(5) a g(5) by auto
  have "h \<noteq> 0x00F8" using h by auto
  moreover have "buf ! 0 = 58" using assms(6) by simp
  ultimately show ?thesis
    using ident_fields [OF i] g(1) p a len by (simp add: hexLine_def Let_def)
qed

section \<open>Reading back\<close>

lemma hex2_no_newline: "10 \<notin> set (hex2 b)" "10 \<notin> set (hex4 w)" "10 \<notin> set (concat (map hex2 bs))"
proof -
  have h: "\<forall>b. 10 \<notin> set (hex2 b)"
    using hex_digit_facts(7) [OF nibbles(1)] hex_digit_facts(7) [OF nibbles(2)] unfolding hex2_def by fastforce
  then show "10 \<notin> set (hex2 b)" by blast
  show "10 \<notin> set (hex4 w)" "10 \<notin> set (concat (map hex2 bs))" using h by (auto simp: hex4_def)
qed

lemma fgets_record:
  assumes "length bs \<le> 43"
  shows "fgets 99 (record_line len adr typ bs cs @ 10 # rest) = (record_line len adr typ bs cs @ [10], rest)"
  using assms hex2_no_newline by (intro fgets_line) (simp_all add: record_line_def)

lemma readLines_record:
  assumes "length bs \<le> 43" and "length buf = 100"
  shows "\<exists>tail. length tail = 100 - (13 + 2 * length bs) \<and>
    readLines c n buf h rows (record_line len adr typ bs cs @ 10 # rest)
      = attempt (hexLine c (n + 1) (58 # (hex2 len @ hex4 adr @ hex2 typ) @ concat (map hex2 bs) @ hex2 cs @ 10 # 0 # tail) h rows)
          (\<lambda>(eof, buf, h, rows). if eof then Inr rows else readLines c (n + 1) buf h rows rest)"
proof -
  obtain tail where tail: "length tail = 100 - (13 + 2 * length bs)"
    "overwrite 0 (record_line len adr typ bs cs @ [10] @ [0]) buf
      = 58 # (hex2 len @ hex4 adr @ hex2 typ) @ concat (map hex2 bs) @ hex2 cs @ 10 # 0 # tail"
    using line_buffer [OF assms(2,1)] by blast
  have "record_line len adr typ bs cs @ 10 # rest \<noteq> []" by simp
  then show ?thesis
    using tail by (intro exI [of _ tail], subst readLines.simps) (simp add: fgets_record [OF assms(1)] Let_def cong del: if_weak_cong)
qed

lemma WriteEOFRecord_line: "WriteEOFRecord = record_line 0 0 1 [] 0xFF @ [10]"
  by code_simp

lemma readLines_meaning:
  assumes "rows_ok c rows" and "64 dvd unat (CodeMemMax c)" and "within c h recs" and "list_all fits_line recs"
    and "length buf = 100"
  shows "\<exists>rows'. readLines c n buf h rows (concat (map (\<lambda>r. line_of r @ [10]) recs) @ WriteEOFRecord @ rest) = Inr rows'
    \<and> rows_ok c rows' \<and> image_of rows' = meaning h recs (image_of rows)"
  using assms(1,3,5,4)
proof (induction recs arbitrary: h rows buf n)
  case Nil
  obtain tail where "readLines c n buf h rows (WriteEOFRecord @ rest)
      = attempt (hexLine c (n + 1) (58 # (hex2 0 @ hex4 0 @ hex2 1) @ concat (map hex2 []) @ hex2 0xFF @ 10 # 0 # tail) h rows)
          (\<lambda>(eof, buf, h, rows). if eof then Inr rows else readLines c (n + 1) buf h rows rest)"
    using readLines_record [of "[]" buf c n h rows 0 0 1 "0xFF" rest] Nil.prems(3) unfolding WriteEOFRecord_line by auto
  moreover have "hexLine c (n + 1) (58 # (hex2 0 @ hex4 0 @ hex2 1) @ concat (map hex2 []) @ hex2 0xFF @ 10 # 0 # tail) h rows
      = Inr (True, 58 # (hex2 0 @ hex4 0 @ hex2 1) @ concat (map hex2 []) @ hex2 0xFF @ 10 # 0 # tail, h, rows)"
    using ident_fields(3) [OF refl, of 0 0 1] by (simp add: hexLine_def Let_def)
  ultimately show ?case using Nil.prems(1) by simp
next
  case (Cons r recs)
  let ?rest = "concat (map (\<lambda>r. line_of r @ [10]) recs) @ WriteEOFRecord @ rest"
  show ?case
  proof (cases r)
    case (Base w cs)
    let ?bs = "[ucast (drop_bit 8 w), ucast w]"
    obtain tail where tail: "length tail = 100 - (13 + 2 * length ?bs)" "readLines c n buf h rows (record_line 2 0 4 ?bs cs @ 10 # ?rest)
      = attempt (hexLine c (n + 1) (58 # (hex2 2 @ hex4 0 @ hex2 4) @ concat (map hex2 ?bs) @ hex2 cs @ 10 # 0 # tail) h rows)
          (\<lambda>(eof, buf, h, rows). if eof then Inr rows else readLines c (n + 1) buf h rows ?rest)"
      using readLines_record [of ?bs buf c n h rows 2 0 4 cs ?rest] Cons.prems(3) by auto
    let ?buf = "58 # (hex2 2 @ hex4 0 @ hex2 4) @ hex4 w @ hex2 cs @ 10 # 0 # tail"
    have "readLines c n buf h rows (record_line 2 0 4 ?bs cs @ 10 # ?rest) = readLines c (n + 1) (?buf[13 := 0]) w rows ?rest"
      using tail(2) hexLine_Base [OF refl, of c "n + 1" w cs "10 # 0 # tail" h rows] by (simp add: hex4_def)
    moreover have "length (?buf[13 := 0]) = 100" using tail(1) by simp
    ultimately show ?thesis
      using Cons.IH [OF Cons.prems(1), of w "?buf[13 := 0]" "n + 1"] Cons.prems(2,4) Base by simp
  next
    case (Bytes adr bs cs)
    have w: "bs \<noteq> []" "length bs \<le> 43" "unat h * 65536 + unat adr + length bs \<le> 2 * unat (CodeMemMax c)" "within c h recs"
      "list_all fits_line recs"
      using Cons.prems(2,4) Bytes by simp_all
    let ?len = "of_nat (length bs) :: byte"
    obtain tail where tail: "length tail = 100 - (13 + 2 * length bs)" "readLines c n buf h rows (record_line ?len adr 0 bs cs @ 10 # ?rest)
      = attempt (hexLine c (n + 1) (58 # (hex2 ?len @ hex4 adr @ hex2 0) @ concat (map hex2 bs) @ hex2 cs @ 10 # 0 # tail) h rows)
          (\<lambda>(eof, buf, h, rows). if eof then Inr rows else readLines c (n + 1) buf h rows ?rest)"
      using readLines_record [OF w(2) Cons.prems(3), of c n h rows ?len adr 0 cs ?rest] by blast
    let ?buf = "58 # (hex2 ?len @ hex4 adr @ hex2 0) @ concat (map hex2 bs) @ hex2 cs @ 10 # 0 # tail"
    obtain rows1 where r: "hexLine c (n + 1) ?buf h rows = Inr (False, ?buf, h, rows1)" "rows_ok c rows1"
      "image_of rows1 = store_bytes (unat h * 65536 + unat adr) bs (image_of rows)"
      using hexLine_Bytes [OF Cons.prems(1) assms(2) w(1-3) refl] by blast
    have "length ?buf = 100" using tail(1) w(2) by simp
    then obtain rows2 where "readLines c (n + 1) ?buf h rows1 ?rest = Inr rows2" "rows_ok c rows2"
      "image_of rows2 = meaning h recs (image_of rows1)"
      using Cons.IH [OF r(2) w(4), of ?buf "n + 1"] w(5) by blast
    then show ?thesis using tail(2) r Bytes by simp
  qed
qed

lemma supported_rows: "c \<in> set SupportedChips \<Longrightarrow> 64 dvd unat (CodeMemMax c)"
  by (auto simp: SupportedChips_def CodeMemMax_def)

text \<open>
  Property C26.  A hex file whose records fit on their lines and stay within the code memory of a supported chip is read,
  whatever its checksums are and whatever the line buffer held before: the rows are aligned code rows, no two for one address, and
  as a memory they are what the records write one after the other, across the borders of rows.
\<close>

theorem hex_file_read:
  assumes "c \<in> set SupportedChips" and "within c 0 recs" and "list_all fits_line recs" and "length buf = 100"
  shows "\<exists>rows. ReadHexFile c buf (concat (map (\<lambda>r. line_of r @ [10]) recs) @ WriteEOFRecord @ rest) = Inr rows
    \<and> rows_ok c rows \<and> image_of rows = meaning 0 recs (\<lambda>x. 0)"
  using readLines_meaning [OF rows_ok_simps(1) supported_rows [OF assms(1)] assms(2-4), of 0 rest]
  by (simp add: ReadHexFile_def image_of_Nil)

theorem hex_file_read_witness:
  "\<exists>rows. ReadHexFile (SupportedChips ! 6) (replicate 100 7)
       (concat (map (\<lambda>r. line_of r @ [10]) [Base 0 0xFA, Bytes 0x7E [1, 2, 3, 4] 0, Base 1 0xF9, Bytes 0x10 [5] 1]) @ WriteEOFRecord @ [99]) = Inr rows
     \<and> rows_ok (SupportedChips ! 6) rows
     \<and> image_of rows 0x7E = 1 \<and> image_of rows 0x81 = 4 \<and> image_of rows 0x82 = 0 \<and> image_of rows 0x10010 = 5"
proof -
  let ?recs = "[Base 0 0xFA, Bytes 0x7E [1, 2, 3, 4] 0, Base 1 0xF9, Bytes 0x10 [5] 1]" and ?c = "SupportedChips ! 6"
  have c: "?c \<in> set SupportedChips" "within ?c 0 ?recs" "list_all fits_line ?recs" by (simp_all add: SupportedChips_def CodeMemMax_def)
  obtain rows where r: "ReadHexFile ?c (replicate 100 7) (concat (map (\<lambda>r. line_of r @ [10]) ?recs) @ WriteEOFRecord @ [99]) = Inr rows"
    "rows_ok ?c rows" "image_of rows = meaning 0 ?recs (\<lambda>x. 0)"
    using hex_file_read [OF c, of "replicate 100 7" "[99]"] by auto
  then have "image_of rows 0x7E = 1" "image_of rows 0x81 = 4" "image_of rows 0x82 = 0" "image_of rows 0x10010 = 5"
    by (simp_all add: store_bytes_def)
  then show ?thesis using r(1,2) by blast
qed

section \<open>Writing and reading\<close>

lemma byte_of_word32:
  "(ucast (a + b :: 32 word) :: byte) = ucast a + ucast b" "(ucast (- a :: 32 word) :: byte) = - ucast a"
proof -
  have t: "take_bit 8 (take_bit 32 x) = take_bit 8 x" for x :: int by simp
  show "(ucast (a + b) :: byte) = ucast a + ucast b"
    by (transfer, simp only: t len_num0 len_num1 len_bit0 len_bit1, simp) (metis take_bit_add t)
  show "(ucast (- a) :: byte) = - ucast a"
    by transfer (simp, metis take_bit_minus t)
qed

lemma WriteELARecord_line:
  "WriteELARecord p = line_of (Base (ucast (drop_bit 15 p)) (- (6 + ucast (drop_bit 15 p) + ucast (drop_bit 23 p)))) @ [10]"
proof -
  let ?a = "drop_bit 15 p AND 0xFFFF" and ?w = "ucast (drop_bit 15 p) :: word16"
  have m: "(0xFFFF :: 32 word) = mask 16" "(0xFF :: 32 word) = mask 8" "(0xFF00 :: 32 word) = push_bit 8 (mask 8)"
    by (simp_all add: mask_eq_exp_minus_1)
  have w: "ucast ?a = ?w" unfolding m by (rule bit_word_eqI) (simp add: bit_simps)
  have "(ucast (?a AND 0xFF) :: byte) = ucast (drop_bit 15 p)" "(ucast (drop_bit 8 (?a AND 0xFF00)) :: byte) = ucast (drop_bit 23 p)"
    unfolding m by (rule bit_word_eqI, auto simp: bit_simps)+
  then have cs: "(ucast (1 + NOT (0x02 + 0x04 + (?a AND 0xFF) + drop_bit 8 (?a AND 0xFF00))) :: byte)
      = - (6 + ucast (drop_bit 15 p) + ucast (drop_bit 23 p))"
    by (simp only: minus_eq_not_plus_1 [symmetric] add.commute [of 1] byte_of_word32) simp
  have "map of_char '':02000004'' = 58 # hex2 2 @ hex4 0 @ hex2 (4 :: byte)" by code_simp
  then show ?thesis
    unfolding WriteELARecord_def Let_def cs w by (simp add: record_line_def hex4_def)
qed

lemma fold_bytes: "fold (\<lambda>i s. s + bs ! i) [0..<length bs] s = s + sum_list (bs :: byte list)"
proof -
  have "fold (\<lambda>i s. s + bs ! i) [0..<length bs] s = fold (\<lambda>b s. s + b) (map ((!) bs) [0..<length bs]) s"
    by (simp add: fold_map comp_def)
  moreover have "fold (\<lambda>b s. s + b) xs s = s + sum_list xs" for xs :: "byte list"
    by (induction xs arbitrary: s) (simp_all add: add.assoc)
  ultimately show ?thesis by (simp only: map_nth)
qed

lemma WriteDataRecord_line:
  assumes "length bs = 16"
  shows "WriteDataRecord a bs
    = line_of (Bytes (2 * a) bs (- (16 + ucast (2 * a) + ucast (drop_bit 8 (2 * a)) + sum_list bs))) @ [10]"
proof -
  have m: "(0xFF :: word16) = mask 8" "(0xFF00 :: word16) = push_bit 8 (mask 8)" by (simp_all add: mask_eq_exp_minus_1)
  have b: "(ucast (w AND 0xFF) :: byte) = ucast w" "(ucast (drop_bit 8 (w AND 0xFF00)) :: byte) = ucast (drop_bit 8 w)" for w :: word16
    unfolding m by (rule bit_word_eqI, auto simp: bit_simps)+
  have "map of_char '':10'' = 58 # hex2 (16 :: byte)" "map of_char ''00'' = hex2 (0 :: byte)" by code_simp+
  moreover have "concat (map (\<lambda>i. hex2 (bs ! i)) [0..<16]) = concat (map hex2 bs)"
    using assms map_nth [of bs] by (metis (no_types, lifting) list.map_comp comp_def map_eq_conv)
  moreover have "fold (\<lambda>i s. s + bs ! i) [0..<16] s = s + sum_list bs" for s using fold_bytes [of bs s] assms by simp
  ultimately show ?thesis
    using assms by (simp add: WriteDataRecord_def Let_def record_line_def b minus_eq_not_plus_1 add.commute [of 1] mult.commute del: upt_rec_numeral upt_Suc)
qed

lemma doubled_address:
  assumes "unat p < 2 ^ 31"
  shows "unat (ucast (drop_bit 15 p) :: word16) * 65536 + unat (2 * ucast p :: word16) = 2 * unat (p :: 32 word)"
proof -
  have "unat (ucast (drop_bit 15 p) :: word16) = unat p div 32768"
    using assms unat_drop_bit_eq [of 15 p]
    by (simp add: unsigned_ucast_eq drop_bit_eq_div take_bit_nat_eq_self less_mult_imp_div_less del: drop_bit_numeral_bit0 drop_bit_numeral_bit1)
  moreover have "unat (2 * ucast p :: word16) = 2 * unat p mod 65536"
    by (simp add: unat_word_ariths unsigned_ucast_eq take_bit_eq_mod mod_mult_right_eq)
  moreover have "2 * unat p mod 65536 = 2 * (unat p mod 32768)" using mult_mod_right [of 2 "unat p" 32768] by simp
  ultimately show ?thesis using div_mult_mod_eq [of "unat p" 32768] by linarith
qed

text \<open>A list of blocks of sixteen bytes, each with the address in the chip it is for, written as a file.\<close>

definition write_hex :: "(32 word \<times> byte list) list \<Rightarrow> byte list" where
  "write_hex blocks = concat (map (\<lambda>(p, bs). WriteELARecord p @ WriteDataRecord (ucast p) bs) blocks) @ WriteEOFRecord"

text \<open>
  Property C27.  Code written with the writers and read again is the same: the memory of the rows holds each block at
  twice its address, later blocks over earlier ones, and zeros elsewhere.
\<close>

theorem hex_round_trip:
  assumes "c \<in> set SupportedChips" and "\<forall>(p, bs)\<in>set blocks. length bs = 16 \<and> unat p + 8 \<le> unat (CodeMemMax c)"
    and "length buf = 100"
  shows "\<exists>rows. ReadHexFile c buf (write_hex blocks) = Inr rows \<and> rows_ok c rows
    \<and> image_of rows = fold (\<lambda>(p, bs). store_bytes (2 * unat p) bs) blocks (\<lambda>x. 0)"
proof -
  let ?cs = "\<lambda>p. - (6 + ucast (drop_bit 15 p) + ucast (drop_bit 23 p)) :: byte"
  let ?ds = "\<lambda>a bs. - (16 + ucast (2 * a) + ucast (drop_bit 8 (2 * a)) + sum_list bs) :: byte"
  let ?rec = "\<lambda>(p, bs). [Base (ucast (drop_bit 15 p)) (?cs p), Bytes (2 * ucast p) bs (?ds (ucast p :: word16) bs)]"
  let ?recs = "\<lambda>blocks. concat (map ?rec blocks)"
  have f: "concat (map (\<lambda>(p, bs). WriteELARecord p @ WriteDataRecord (ucast p) bs) blocks)
      = concat (map (\<lambda>r. line_of r @ [10]) (?recs blocks))"
    using assms(2) by (induction blocks) (auto simp: WriteELARecord_line WriteDataRecord_line)
  have p: "unat p < 2 ^ 31" if "unat p + 8 \<le> unat (CodeMemMax c)" for p :: "32 word"
    using that CodeMemMax_bound [of c] by simp
  have "within c h (?recs blocks) \<and> list_all fits_line (?recs blocks)" for h
    using assms(2)
  proof (induction blocks arbitrary: h)
    case (Cons b blocks)
    obtain q bs where b: "b = (q, bs)" "length bs = 16" "unat q + 8 \<le> unat (CodeMemMax c)" using Cons.prems by auto
    then show ?case using Cons doubled_address [OF p [OF b(3)]] by auto
  qed simp
  moreover have "meaning h (?recs blocks) m = fold (\<lambda>(p, bs). store_bytes (2 * unat p) bs) blocks m" for h m
    using assms(2)
  proof (induction blocks arbitrary: h m)
    case (Cons b blocks)
    obtain q bs where b: "b = (q, bs)" "unat q + 8 \<le> unat (CodeMemMax c)" using Cons.prems by auto
    then show ?case using Cons doubled_address [OF p [OF b(2)]] by simp
  qed simp
  ultimately show ?thesis
    using readLines_meaning [OF rows_ok_simps(1) supported_rows [OF assms(1)] _ _ assms(3), of 0 "?recs blocks" 0 "[]"]
    unfolding ReadHexFile_def write_hex_def f append_Nil2 image_of_Nil by metis
qed

theorem hex_round_trip_witness:
  "\<exists>rows. ReadHexFile (SupportedChips ! 1) (replicate 100 0) (write_hex [(0, replicate 16 9), (0x3C, map of_nat [0..<16])]) = Inr rows
     \<and> image_of rows 15 = 9 \<and> image_of rows 16 = 0 \<and> image_of rows 0x87 = 15"
proof -
  let ?blocks = "[(0, replicate 16 9), (0x3C, map of_nat [0..<16])] :: (32 word \<times> byte list) list" and ?c = "SupportedChips ! 1"
  have c: "?c \<in> set SupportedChips" "\<forall>(p, bs)\<in>set ?blocks. length bs = 16 \<and> unat p + 8 \<le> unat (CodeMemMax ?c)"
    by (simp_all add: SupportedChips_def CodeMemMax_def)
  obtain rows where r: "ReadHexFile ?c (replicate 100 0) (write_hex ?blocks) = Inr rows"
    "image_of rows = fold (\<lambda>(p, bs). store_bytes (2 * unat p) bs) ?blocks (\<lambda>x. 0)"
    using hex_round_trip [OF c, of "replicate 100 0"] by auto
  then have "image_of rows 15 = 9" "image_of rows 16 = 0" "image_of rows 0x87 = 15"
    by (simp_all add: store_bytes_def)
  then show ?thesis using r(1) by blast
qed

section \<open>Records the reader does not survive\<close>

lemma poke_null: "poke None k b rows = Inl Crash"
  by (induction rows) simp_all

lemma supported_data: "c \<in> set SupportedChips \<Longrightarrow> DataMemMin c \<in> {0x7FFC00, 0x7FF000}"
  by (auto simp: SupportedChips_def DataMemMin_def)

lemma config_not_placed:
  assumes "c \<in> set SupportedChips"
  shows "row_place c (push_bit 16 (ucast (0xF8 :: word16)) OR ucast (adr :: word16)) = None"
proof -
  let ?a = "push_bit 16 (ucast (0xF8 :: word16)) OR ucast adr :: 32 word"
  have "unat adr < 65536" using unsigned_less [of adr, where ?'a = nat] by simp
  then have "unat (drop_bit 1 ?a) < 0x7C8000" "0x7C0000 \<le> unat (drop_bit 1 ?a)"
    using hex_address [of "0xF8" adr] unat_drop_bit_eq [of 1 ?a] by (simp_all add: drop_bit_eq_div)
  then show ?thesis
    using supported_data [OF assms] CodeMemMax_bound [of c]
    by (auto simp: row_place_def Let_def word_less_nat_alt word_le_nat_alt DATA_MEM_MAX_def CNFG_MEM_MIN_def CNFG_MEM_MAX_def)
qed

lemma readLines_Base_Bytes:
  assumes "length buf = 100" and "length bs \<le> 43"
    and "\<And>post. hexLine c 2 (58 # (hex2 (of_nat (length bs)) @ hex4 adr @ hex2 0) @ concat (map hex2 bs) @ post) h [] = Inl e"
  shows "ReadHexFile c buf (line_of (Base h cs) @ [10] @ line_of (Bytes adr bs ds) @ [10] @ rest) = Inl e"
proof -
  let ?bs = "[ucast (drop_bit 8 h), ucast h]" and ?len = "of_nat (length bs) :: byte"
  let ?rest = "record_line ?len adr 0 bs ds @ 10 # rest"
  obtain tail where tail: "length tail = 100 - (13 + 2 * length ?bs)" "readLines c 0 buf 0 [] (record_line 2 0 4 ?bs cs @ 10 # ?rest)
    = attempt (hexLine c (0 + 1) (58 # (hex2 2 @ hex4 0 @ hex2 4) @ concat (map hex2 ?bs) @ hex2 cs @ 10 # 0 # tail) 0 [])
        (\<lambda>(eof, buf, h, rows). if eof then Inr rows else readLines c (0 + 1) buf h rows ?rest)"
    using readLines_record [of ?bs buf c 0 0 "[]" 2 0 4 cs ?rest] assms(1) by auto
  let ?buf = "58 # (hex2 2 @ hex4 0 @ hex2 4) @ hex4 h @ hex2 cs @ 10 # 0 # tail"
  have r: "readLines c 0 buf 0 [] (record_line 2 0 4 ?bs cs @ 10 # ?rest) = readLines c 1 (?buf[13 := 0]) h [] ?rest"
    using tail(2) hexLine_Base [OF refl, of c 1 h cs "10 # 0 # tail" 0 "[]"] by (simp add: hex4_def)
  have "length (?buf[13 := 0]) = 100" using tail(1) by simp
  then obtain tail' where "readLines c 1 (?buf[13 := 0]) h [] ?rest
    = attempt (hexLine c (1 + 1) (58 # (hex2 ?len @ hex4 adr @ hex2 0) @ concat (map hex2 bs) @ hex2 ds @ 10 # 0 # tail') h [])
        (\<lambda>(eof, buf, h, rows). if eof then Inr rows else readLines c (1 + 1) buf h rows rest)"
    using readLines_record [OF assms(2)] by blast
  then have "readLines c 1 (?buf[13 := 0]) h [] ?rest = Inl e"
    using assms(3) [of "hex2 ds @ 10 # 0 # tail'"] by (simp only: one_add_one) simp
  then show ?thesis unfolding ReadHexFile_def using r by simp
qed

lemma eeprom_row:
  assumes "c \<in> set SupportedChips" and "adr \<ge> 0xF800"
  shows "\<exists>r. GetMemoryRow c (push_bit 16 (ucast (0xFF :: word16)) OR ucast (adr :: word16)) []
      = (Some r, [\<lparr>mr_Address = r, mr_Type = DATA_MEM, mr_Buffer = replicate 64 0\<rparr>])
    \<and> unat r = unat (push_bit 16 (ucast (0xFF :: word16)) OR ucast adr :: 32 word) div 128 * 64"
proof -
  let ?a = "push_bit 16 (ucast (0xFF :: word16)) OR ucast adr :: 32 word" let ?w = "drop_bit 1 ?a"
  have "unat adr < 65536" "0xF800 \<le> unat adr" using unsigned_less [of adr, where ?'a = nat] assms(2) by (simp_all add: word_le_nat_alt)
  then have w: "unat ?w < 0x800000" "0x7FFC00 \<le> unat ?w" "unat ?w = unat ?a div 2"
    using hex_address [of "0xFF" adr] unat_drop_bit_eq [of 1 ?a] by (simp_all add: drop_bit_eq_div)
  then have "row_place c ?a = Some (?w AND 0xFFFFFC0, DATA_MEM, 64)"
    using supported_data [OF assms(1)] CodeMemMax_bound [of c]
    by (auto simp: row_place_def Let_def word_less_nat_alt word_le_nat_alt DATA_MEM_MAX_def)
  moreover have "unat (?w AND 0xFFFFFC0) = unat ?a div 128 * 64"
    using row_start [of ?w] w by (simp add: div_mult2_eq)
  ultimately show ?thesis by (simp add: GetMemoryRow_def)
qed

text \<open>
  Property C29.  A record at the addresses the reader takes for configuration memory makes it use a null pointer, and a
  record that begins in the upper half of a row of the EEPROM writes beyond the buffer of the row, which has half
  the size of the row.
\<close>

theorem reader_crashes:
  assumes "c \<in> set SupportedChips" and "length buf = 100" and "bs \<noteq> []" and "length bs \<le> 43"
    and "h = 0xF8 \<or> h = 0xFF \<and> adr \<ge> 0xF800 \<and> 64 \<le> unat adr mod 128"
  shows "ReadHexFile c buf (line_of (Base h cs) @ [10] @ line_of (Bytes adr bs ds) @ [10] @ rest) = Inl Crash"
proof (rule readLines_Base_Bytes [OF assms(2,4)])
  fix post
  let ?buf = "58 # (hex2 (of_nat (length bs)) @ hex4 adr @ hex2 0) @ concat (map hex2 bs) @ post"
  let ?ident = "strtoul (take 8 (drop 1 ?buf))" and ?a = "push_bit 16 (ucast h) OR ucast adr :: 32 word"
  have i: "?ident = strtoul (hex2 (of_nat (length bs)) @ hex4 adr @ hex2 0)" by simp
  have len: "unat (of_nat (length bs) :: byte) = length bs" using assms(4) by (simp add: unat_of_nat)
  obtain n where n: "length bs = Suc n" using assms(3) by (cases bs) auto
  have b: "hexPair ?buf 9 = Inr (bs ! 0)"
    using hexPair_line [of "58 # hex2 (of_nat (length bs)) @ hex4 adr @ hex2 0" ?buf bs post 0] n by simp
  show "hexLine c 2 ?buf h [] = Inl Crash"
  proof (cases "h = 0xF8")
    case True
    then have "GetMemoryRow c ?a [] = (None, [])" using config_not_placed [OF assms(1)] by (simp add: GetMemoryRow_def)
    then have "putConfig c ?buf (length bs) 9 ?a [] = Inl Crash"
      using b n by (subst putConfig.simps) (simp add: poke_null)
    then show ?thesis using ident_fields [OF i] True len by (simp add: hexLine_def Let_def)
  next
    case False
    then have h: "h = 0xFF" "adr \<ge> 0xF800" "64 \<le> unat adr mod 128" using assms(5) by simp_all
    obtain r where r: "GetMemoryRow c ?a [] = (Some r, [\<lparr>mr_Address = r, mr_Type = DATA_MEM, mr_Buffer = replicate 64 0\<rparr>])"
      "unat r = unat ?a div 128 * 64"
      using eeprom_row [OF assms(1) h(2)] h(1) by blast
    let ?low = "adr - 2 * ucast (r AND 0xFFFF)"
    have "unat ?low = unat ?a mod 128" by (rule row_offset [OF r(2)])
    moreover have "unat ?a mod 128 = unat adr mod 128" unfolding hex_address using mod_mult_self3 [of "unat h * 512" 128 "unat adr"] by (simp add: mult.commute)
    ultimately have "unat ?low = unat adr mod 128" by simp
    moreover have "uint ?low = int (unat ?low)" by (rule uint_nat)
    ultimately have "64 \<le> uint ?low" "uint ?low < 128" using h(3) by simp_all
    then have "putRecord c ?buf (length bs) 0 9 ?low 0 (Some r) [\<lparr>mr_Address = r, mr_Type = DATA_MEM, mr_Buffer = replicate 64 0\<rparr>]
        = Inl Crash"
      using b n by simp
    then show ?thesis using ident_fields [OF i] False r(1) len by (simp add: hexLine_def Let_def)
  qed
qed

theorem reader_crashes_witness:
  "ReadHexFile (SupportedChips ! 2) (replicate 100 0) (line_of (Base 0xFF 0xFB) @ [10] @ line_of (Bytes 0xF840 [1, 2] 0xC3) @ [10] @ WriteEOFRecord)
     = Inl Crash"
  by (rule reader_crashes) (simp_all add: SupportedChips_def)

section \<open>Rows from any file\<close>














end
