(* ===== verification/Loader.thy ===== *)
theory Loader
  imports HexImage
begin

text \<open>
  The loader itself: the serial line of \<^verbatim>\<open>linux.c\<close>, the handshake, the packets and \<^verbatim>\<open>main\<close> of \<^verbatim>\<open>loader.c\<close>, and what
  it hands to its line.
\<close>

section \<open>The serial line\<close>

text \<open>
  The file descriptor is an environment.  A \<^verbatim>\<open>read\<close> of one byte returns 1 with the byte, 0 after half a second, or -1;
  \<^verbatim>\<open>tty_stack\<close> is what the uninitialised buffer of \<^verbatim>\<open>readByte\<close> holds.  The result of \<^verbatim>\<open>write\<close> is not looked at.
\<close>

datatype tty_read = Got byte | Nothing | Failed

record 'p tty =
  tty_read :: "'p \<Rightarrow> tty_read \<times> 'p"
  tty_write :: "byte \<Rightarrow> 'p \<Rightarrow> 'p"
  tty_stack :: "'p \<Rightarrow> byte"

fun readTries :: "'p tty \<Rightarrow> nat \<Rightarrow> byte \<Rightarrow> bool \<Rightarrow> 'p \<Rightarrow> bool \<times> byte \<times> 'p" where
  "readTries E 0 buf r p = (r, buf, p)"
| "readTries E (Suc n) buf r p =
     (case tty_read E p of
        (Got b, p) \<Rightarrow> if b \<noteq> 0xFF then (True, b, p) else readTries E n b True p
      | (Nothing, p) \<Rightarrow> readTries E n buf False p
      | (Failed, p) \<Rightarrow> if buf \<noteq> 0xFF then (True, buf, p) else readTries E n buf True p)"

definition tty_readByte :: "'p tty \<Rightarrow> 'p \<Rightarrow> int \<times> 'p" where
  "tty_readByte E p = (let (r, buf, p) = readTries E 3 (tty_stack E p) False p in (if r then uint buf else -1, p))"

definition tty_writeByte :: "'p tty \<Rightarrow> byte \<Rightarrow> 'p \<Rightarrow> 'p" where
  "tty_writeByte E b p = tty_write E b p"

section \<open>The handshake\<close>

text \<open>The loop, with \<open>n\<close> of its thirty rounds left, and the last byte read.\<close>

fun knock :: "'p tty \<Rightarrow> nat \<Rightarrow> int \<Rightarrow> 'p \<Rightarrow> int \<times> 'p" where
  "knock E 0 j p = (j, p)"
| "knock E (Suc n) j p =
     (let p = tty_writeByte E 0x55 p;
          (j, p) = tty_readByte E p
      in if j = 0x55 \<or> j = 0xFF then (j, p) else knock E n j p)"

definition handshake :: "'p tty \<Rightarrow> 'p \<Rightarrow> bool \<times> 'p" where
  "handshake E p =
     (let (j, p) = knock E 30 0 p in
      if j \<noteq> 0x55 then (False, p) else
      let p = tty_writeByte E 0x55 p;
          (i, p) = tty_readByte E p;
          p = tty_writeByte E 0x03 p;
          (i, p) = tty_readByte E p
      in if i \<noteq> 1 then (False, p) else
      let (i, p) = tty_readByte E p in
      if i \<noteq> 1 then (False, p) else
      let (i, p) = tty_readByte E p in
      (i = 0x55, p))"

section \<open>Writing the program\<close>

text \<open>The reset vector that the loader puts in place of the program's.\<close>

definition bootVector :: "byte list" where
  "bootVector = [0x00, 0x7D, 0x04, 0x00, 0x01, 0x00]"

text \<open>\<^verbatim>\<open>while (i == -1 && (c++) < 100)\<close>, with \<open>c\<close> rounds left.\<close>

fun awaitAck :: "'p tty \<Rightarrow> nat \<Rightarrow> int \<Rightarrow> 'p \<Rightarrow> int \<times> 'p" where
  "awaitAck E 0 i p = (i, p)"
| "awaitAck E (Suc c) i p = (if i = -1 then let (i, p) = tty_readByte E p in awaitAck E c i p else (i, p))"

definition writeRow :: "'p tty \<Rightarrow> memory_row \<Rightarrow> 'p \<Rightarrow> bool \<times> 'p" where
  "writeRow E mr p =
     (let adr = mr_Address mr;
          p = tty_writeByte E 0x02 p;
          p = tty_writeByte E (ucast (drop_bit 16 adr)) p;
          crc = ucast (0xFF AND drop_bit 16 adr) :: byte;
          p = tty_writeByte E (ucast (drop_bit 8 adr)) p;
          crc = crc + ucast (0xFF AND drop_bit 8 adr);
          p = tty_writeByte E (ucast adr) p;
          crc = crc + ucast (0xFF AND adr);
          p = tty_writeByte E 0x81 p;
          crc = crc + 0x81;
          mr = (if adr = 0 then mr\<lparr>mr_Buffer := overwrite 0 bootVector (mr_Buffer mr)\<rparr> else mr);
          (crc, p) = fold (\<lambda>i (crc, p). (crc + mr_Buffer mr ! i, tty_writeByte E (mr_Buffer mr ! i) p)) [0..<128] (crc, p);
          p = tty_writeByte E (0xFF - crc + 1) p;
          (i, p) = tty_readByte E p;
          (i, p) = awaitAck E 100 i p
      in (i = 0x55, p))"

fun writeProgram :: "'p tty \<Rightarrow> memory_row list \<Rightarrow> 'p \<Rightarrow> bool \<times> 'p" where
  "writeProgram E [] p = (True, p)"
| "writeProgram E (mr # rows) p =
     (if mr_Type mr \<noteq> CODE_MEM then writeProgram E rows p
      else let (ok, p) = writeRow E mr p in if ok then writeProgram E rows p else (False, p))"

section \<open>The program\<close>

datatype upload = Uploaded | Upload_failed | Not_connected | No_port

text \<open>\<^verbatim>\<open>main\<close> with the contents of the file, and whether the port can be opened.\<close>

definition loader_main :: "'p tty \<Rightarrow> byte list \<Rightarrow> byte list \<Rightarrow> bool \<Rightarrow> 'p \<Rightarrow> hex_error + upload \<times> 'p" where
  "loader_main E FileBuffer HexFile port_ok p =
     attempt (ReadHexFile (SupportedChips ! 6) FileBuffer HexFile) (\<lambda>MRList.
     if \<not> port_ok then Inr (No_port, p) else
     let (ok, p) = handshake E p in
     if \<not> ok then Inr (Not_connected, p) else
     let (ok, p) = writeProgram E MRList p in
     if ok then Inr (Uploaded, tty_writeByte E 0x0F p) else Inr (Upload_failed, p))"

section \<open>What goes over the line\<close>

text \<open>The bytes of a row as the chip is to have them, and its packet.\<close>

definition patched :: "memory_row \<Rightarrow> byte list" where
  "patched r = (if mr_Address r = 0 then overwrite 0 bootVector (mr_Buffer r) else mr_Buffer r)"

definition address_bytes :: "32 word \<Rightarrow> byte list" where
  "address_bytes a = [ucast (drop_bit 16 a), ucast (drop_bit 8 a), ucast a]"

definition row_packet :: "memory_row \<Rightarrow> byte list" where
  "row_packet r = (let bs = address_bytes (mr_Address r) @ [0x81] @ patched r in [0x02] @ bs @ [- sum_list bs])"

lemma low_byte: "(ucast (0xFF AND w :: 32 word) :: byte) = ucast w"
proof -
  have m: "(0xFF :: 32 word) = mask 8" by (simp add: mask_eq_exp_minus_1)
  show ?thesis unfolding m by (rule bit_word_eqI) (auto simp: bit_simps)
qed

text \<open>A line that keeps a record of the bytes written to it.\<close>

locale recorded_line =
  fixes E :: "'p tty" and sent :: "'p \<Rightarrow> byte list"
  assumes sent_write: "sent (tty_write E b p) = sent p @ [b]"
    and sent_read: "sent (snd (tty_read E p)) = sent p"
begin

lemma sent_writeByte [simp]: "sent (tty_writeByte E b p) = sent p @ [b]"
  by (simp add: tty_writeByte_def sent_write)

lemma sent_readTries: "readTries E n buf r p = (r', buf', p') \<Longrightarrow> sent p' = sent p"
proof (induction n arbitrary: buf r p)
  case (Suc n)
  have "sent (snd (tty_read E p)) = sent p" by (rule sent_read)
  then show ?case using Suc by (cases "tty_read E p") (auto split: tty_read.splits if_splits)
qed simp

lemma sent_readByte: "tty_readByte E p = (i, p') \<Longrightarrow> sent p' = sent p"
  using sent_readTries by (auto simp: tty_readByte_def split: prod.splits)

lemma sent_awaitAck: "awaitAck E c i p = (i', p') \<Longrightarrow> sent p' = sent p"
  by (induction c arbitrary: i p) (auto simp: sent_readByte split: if_splits prod.splits)

lemma sent_knock: "knock E n j p = (j', p') \<Longrightarrow> \<exists>k\<le>n. sent p' = sent p @ replicate k 0x55"
proof (induction n arbitrary: j p)
  case (Suc n)
  obtain i q where q: "tty_readByte E (tty_writeByte E 0x55 p) = (i, q)" by force
  then have s: "sent q = sent p @ [0x55]" using sent_readByte by fastforce
  show ?case
  proof (cases "i = 0x55 \<or> i = 0xFF")
    case True
    then show ?thesis using Suc.prems q s by (intro exI [of _ 1]) auto
  next
    case False
    then have "knock E n i q = (j', p')" using Suc.prems q by simp
    then obtain k where "k \<le> n" "sent p' = sent q @ replicate k 0x55" using Suc.IH by blast
    then show ?thesis using s by (intro exI [of _ "Suc k"]) simp
  qed
qed simp

lemma sent_handshake:
  assumes "handshake E p = (True, q)"
  shows "\<exists>k\<le>30. sent q = sent p @ replicate k 0x55 @ [0x55, 0x03]"
proof -
  obtain j p1 where p1: "knock E 30 0 p = (j, p1)" by force
  obtain i2 p2 where p2: "tty_readByte E (tty_writeByte E 0x55 p1) = (i2, p2)" by force
  obtain i3 p3 where p3: "tty_readByte E (tty_writeByte E 0x03 p2) = (i3, p3)" by force
  obtain i4 p4 where p4: "tty_readByte E p3 = (i4, p4)" by force
  obtain i5 p5 where p5: "tty_readByte E p4 = (i5, p5)" by force
  have "q = p5" using assms p1 p2 p3 p4 p5 by (simp add: handshake_def split: if_splits)
  moreover obtain k where "k \<le> 30" "sent p1 = sent p @ replicate k 0x55" using sent_knock [OF p1] by blast
  ultimately show ?thesis
    using sent_readByte [OF p2] sent_readByte [OF p3] sent_readByte [OF p4] sent_readByte [OF p5] by simp
qed

lemma sent_bytes:
  "fold (\<lambda>i (crc, p). (crc + bs ! i, tty_writeByte E (bs ! i) p)) [0..<length bs] (crc, p) = (crc', p')
     \<Longrightarrow> crc' = crc + sum_list bs \<and> sent p' = sent p @ bs"
proof -
  have "fold (\<lambda>i (crc, p). (crc + bs ! i, tty_writeByte E (bs ! i) p)) [0..<length bs] (crc, p)
      = fold (\<lambda>b (crc, p). (crc + b, tty_writeByte E b p)) (map ((!) bs) [0..<length bs]) (crc, p)"
    by (simp add: fold_map comp_def)
  moreover have "fold (\<lambda>b (crc, p). (crc + b, tty_writeByte E b p)) xs (crc, p) = (crc', p')
      \<Longrightarrow> crc' = crc + sum_list xs \<and> sent p' = sent p @ xs" for xs
  proof (induction xs arbitrary: crc p)
    case (Cons b xs)
    then have "crc' = crc + b + sum_list xs \<and> sent p' = sent (tty_writeByte E b p) @ xs" by simp
    then show ?case by (simp add: add.assoc)
  qed simp
  ultimately show "fold (\<lambda>i (crc, p). (crc + bs ! i, tty_writeByte E (bs ! i) p)) [0..<length bs] (crc, p) = (crc', p')
     \<Longrightarrow> crc' = crc + sum_list bs \<and> sent p' = sent p @ bs" by (simp only: map_nth)
qed

lemma sent_row:
  assumes "length (mr_Buffer r) = 128" and "writeRow E r p = (ok, p')"
  shows "sent p' = sent p @ row_packet r"
proof -
  let ?a = "mr_Address r" and ?r = "if mr_Address r = 0 then r\<lparr>mr_Buffer := overwrite 0 bootVector (mr_Buffer r)\<rparr> else r"
  let ?p = "fold (\<lambda>b p. tty_writeByte E b p) ([0x02] @ address_bytes ?a @ [0x81]) p"
  obtain crc q where q: "fold (\<lambda>i (crc, p). (crc + mr_Buffer ?r ! i, tty_writeByte E (mr_Buffer ?r ! i) p)) [0..<128]
      (sum_list (address_bytes ?a) + 0x81, ?p) = (crc, q)"
    by force
  have buf: "mr_Buffer ?r = patched r" by (simp add: patched_def)
  have "length (patched r) = 128" using assms(1) by (simp add: patched_def)
  then have s: "crc = sum_list (address_bytes ?a) + 0x81 + sum_list (patched r)" "sent q = sent ?p @ patched r"
    using sent_bytes [of "patched r"] q unfolding buf by (simp_all del: upt_rec_numeral upt_Suc)
  obtain i u where u: "tty_readByte E (tty_writeByte E (0xFF - crc + 1) q) = (i, u)" by force
  obtain i' v where v: "awaitAck E 100 i u = (i', v)" by force
  have "writeRow E r p = (i' = 0x55, v)"
    using q u v unfolding writeRow_def Let_def low_byte by (simp add: address_bytes_def add.assoc split del: if_split del: upt_rec_numeral upt_Suc)
  then have "sent p' = sent q @ [0xFF - crc + 1]" using assms(2) sent_readByte [OF u] sent_awaitAck [OF v] by simp
  moreover have "sent ?p = sent p @ [0x02] @ address_bytes ?a @ [0x81]" by (simp add: address_bytes_def)
  moreover have "0xFF - crc + 1 = - crc" by simp
  ultimately show ?thesis using s by (simp add: row_packet_def Let_def add.assoc)
qed

lemma sent_program:
  assumes "\<forall>r\<in>set rows. mr_Type r = CODE_MEM \<and> length (mr_Buffer r) = 128" and "writeProgram E rows p = (ok, p')"
  shows "\<exists>n\<le>length rows. sent p' = sent p @ concat (map row_packet (take n rows)) \<and> (ok \<longrightarrow> n = length rows)"
  using assms
proof (induction rows arbitrary: p)
  case (Cons r rows)
  obtain ok1 q where q: "writeRow E r p = (ok1, q)" by force
  then have s: "sent q = sent p @ row_packet r" using sent_row Cons.prems(1) by simp
  show ?case
  proof (cases ok1)
    case True
    then have "writeProgram E rows q = (ok, p')" using Cons.prems q by simp
    then obtain n where "n \<le> length rows" "sent p' = sent q @ concat (map row_packet (take n rows))" "ok \<longrightarrow> n = length rows"
      using Cons by auto
    then show ?thesis using s by (intro exI [of _ "Suc n"]) simp
  next
    case False
    then have "\<not> ok" "p' = q" using Cons.prems q by simp_all
    then show ?thesis using s by (intro exI [of _ 1]) simp
  qed
qed simp

end

lemma rows_ok_code: "rows_ok c rows \<Longrightarrow> \<forall>r\<in>set rows. mr_Type r = CODE_MEM \<and> length (mr_Buffer r) = 128"
  by (simp add: rows_ok_def code_row_def)

section \<open>The log of a line\<close>

text \<open>
  The line with a log of the bytes that are handed to \<^verbatim>\<open>write\<close>, whether it takes them or not.  The log is only kept,
  never looked at: what the loader does is the same.
\<close>

definition logged :: "'p tty \<Rightarrow> ('p \<times> byte list) tty" where
  "logged E =
     \<lparr>tty_read = (\<lambda>(p, l). let (r, p) = tty_read E p in (r, (p, l))),
      tty_write = (\<lambda>b (p, l). (tty_write E b p, l @ [b])),
      tty_stack = (\<lambda>(p, l). tty_stack E p)\<rparr>"

interpretation logged_line: recorded_line "logged E" snd for E :: "'p tty"
  by unfold_locales (auto simp: logged_def split: prod.splits)

lemma logged_readTries:
  "readTries E n buf r p = (r', buf', p') \<Longrightarrow> readTries (logged E) n buf r (p, l) = (r', buf', (p', l))"
  by (induction n arbitrary: buf r p) (auto simp: logged_def split: prod.splits tty_read.splits if_splits)

lemma logged_readByte: "tty_readByte E p = (i, p') \<Longrightarrow> tty_readByte (logged E) (p, l) = (i, (p', l))"
  using logged_readTries [of E 3 "tty_stack E p" False p]
  by (auto simp: tty_readByte_def logged_def Let_def split: prod.splits)

lemma logged_writeByte [simp]: "tty_writeByte (logged E) b (p, l) = (tty_writeByte E b p, l @ [b])"
  by (simp add: tty_writeByte_def logged_def)

lemma logged_knock: "knock E n j p = (j', p') \<Longrightarrow> \<exists>l'. knock (logged E) n j (p, l) = (j', (p', l'))"
proof (induction n arbitrary: j p l)
  case (Suc n)
  obtain i q where q: "tty_readByte E (tty_writeByte E 0x55 p) = (i, q)" by force
  then show ?case using Suc logged_readByte [OF q, of "l @ [0x55]"] by (cases "i = 0x55 \<or> i = 0xFF") auto
qed simp

lemma logged_awaitAck: "awaitAck E n i p = (i', p') \<Longrightarrow> awaitAck (logged E) n i (p, l) = (i', (p', l))"
proof (induction n arbitrary: i p)
  case (Suc n)
  obtain j q where q: "tty_readByte E p = (j, q)" by force
  then show ?case using Suc logged_readByte [OF q, of l] by (cases "i = -1") auto
qed simp

lemma logged_handshake:
  assumes "handshake E p = (ok, p')"
  shows "\<exists>l'. handshake (logged E) (p, l) = (ok, (p', l'))"
proof -
  obtain j p1 where p1: "knock E 30 0 p = (j, p1)" by force
  obtain l1 where l1: "knock (logged E) 30 0 (p, l) = (j, (p1, l1))" using logged_knock [OF p1] by blast
  obtain i2 p2 where p2: "tty_readByte E (tty_writeByte E 0x55 p1) = (i2, p2)" by force
  obtain i3 p3 where p3: "tty_readByte E (tty_writeByte E 0x03 p2) = (i3, p3)" by force
  obtain i4 p4 where p4: "tty_readByte E p3 = (i4, p4)" by force
  obtain i5 p5 where p5: "tty_readByte E p4 = (i5, p5)" by force
  note l = logged_readByte [OF p2] logged_readByte [OF p3] logged_readByte [OF p4] logged_readByte [OF p5]
  show ?thesis using assms p1 p2 p3 p4 p5 l1 l by (auto simp: handshake_def split: if_splits)
qed

lemma logged_bytes:
  "fold (\<lambda>i (crc, p). (crc + bs ! i, tty_writeByte E (bs ! i) p)) ns (crc, p) = (crc', p') \<Longrightarrow>
     \<exists>l'. fold (\<lambda>i (crc, p). (crc + bs ! i, tty_writeByte (logged E) (bs ! i) p)) ns (crc, (p, l)) = (crc', (p', l'))"
  by (induction ns arbitrary: crc p l) auto

lemma logged_row:
  assumes "writeRow E r p = (ok, p')"
  shows "\<exists>l'. writeRow (logged E) r (p, l) = (ok, (p', l'))"
proof -
  let ?a = "mr_Address r" and ?r = "if mr_Address r = 0 then r\<lparr>mr_Buffer := overwrite 0 bootVector (mr_Buffer r)\<rparr> else r"
  let ?w = "\<lambda>E. fold (\<lambda>b p. tty_writeByte E b p) ([0x02] @ address_bytes ?a @ [0x81])"
  let ?f = "\<lambda>E. fold (\<lambda>i (crc, p). (crc + mr_Buffer ?r ! i, tty_writeByte E (mr_Buffer ?r ! i) p)) [0..<128]"
  let ?s = "sum_list (address_bytes ?a) + 0x81"
  have w: "?w (logged E) (p, l) = (?w E p, l @ [0x02] @ address_bytes ?a @ [0x81])" by (simp add: address_bytes_def)
  obtain crc q where q: "?f E (?s, ?w E p) = (crc, q)" by force
  obtain lq where lq: "?f (logged E) (?s, ?w (logged E) (p, l)) = (crc, (q, lq))" unfolding w using logged_bytes [OF q] by blast
  obtain i u where u: "tty_readByte E (tty_writeByte E (0xFF - crc + 1) q) = (i, u)" by force
  obtain i' v where v: "awaitAck E 100 i u = (i', v)" by force
  have "writeRow E r p = (i' = 0x55, v)"
    using q u v unfolding writeRow_def Let_def low_byte
    by (simp add: address_bytes_def add.assoc split del: if_split del: upt_rec_numeral upt_Suc)
  moreover have "writeRow (logged E) r (p, l) = (i' = 0x55, (v, lq @ [0xFF - crc + 1]))"
    using lq logged_readByte [OF u] logged_awaitAck [OF v] unfolding writeRow_def Let_def low_byte
    by (simp add: address_bytes_def add.assoc split del: if_split del: upt_rec_numeral upt_Suc)
  ultimately show ?thesis using assms by simp
qed

lemma logged_program:
  "writeProgram E rows p = (ok, p') \<Longrightarrow> \<exists>l'. writeProgram (logged E) rows (p, l) = (ok, (p', l'))"
proof (induction rows arbitrary: p l)
  case (Cons r rows)
  obtain ok1 q where q: "writeRow E r p = (ok1, q)" by force
  obtain l1 where "writeRow (logged E) r (p, l) = (ok1, (q, l1))" using logged_row [OF q] by blast
  then show ?case using Cons q by (cases "mr_Type r \<noteq> CODE_MEM"; cases ok1) auto
qed simp

text \<open>What the loader hands to the line when it says that it has uploaded the rows.\<close>

lemma uploaded_log:
  assumes "ReadHexFile (SupportedChips ! 6) buf file = Inr rows" and "rows_ok (SupportedChips ! 6) rows"
    and "loader_main E buf file port_ok p = Inr (Uploaded, p')"
  shows "\<exists>k. loader_main (logged E) buf file port_ok (p, []) = Inr (Uploaded,
    (p', replicate k 0x55 @ [0x55, 0x03] @ concat (map row_packet rows) @ [0x0F])) \<and> k \<le> 30"
proof -
  obtain q u where h: "handshake E p = (True, q)" "writeProgram E rows q = (True, u)" "p' = tty_writeByte E 0x0F u" "port_ok"
    using assms(1,3) by (auto simp: loader_main_def split: prod.splits if_splits)
  obtain l1 where l1: "handshake (logged E) (p, []) = (True, (q, l1))" using logged_handshake [OF h(1)] by blast
  obtain l2 where l2: "writeProgram (logged E) rows (q, l1) = (True, (u, l2))" using logged_program [OF h(2)] by blast
  obtain k where k: "k \<le> 30" "l1 = replicate k 0x55 @ [0x55, 0x03]" using logged_line.sent_handshake [OF l1] by auto
  have "l2 = l1 @ concat (map row_packet rows)"
    using logged_line.sent_program [OF rows_ok_code [OF assms(2)] l2] by auto
  then show ?thesis using assms(1) h(3,4) l1 l2 k
    by (intro exI [of _ k]) (simp add: loader_main_def)
qed

section \<open>A line that answers\<close>

text \<open>A line with a script of answers: each read takes the next one.\<close>

definition scripted :: "tty_read list tty" where
  "scripted =
     \<lparr>tty_read = (\<lambda>answers. case answers of [] \<Rightarrow> (Nothing, []) | a # answers \<Rightarrow> (a, answers)),
      tty_write = (\<lambda>b answers. answers),
      tty_stack = (\<lambda>answers. 0)\<rparr>"

lemma scripted_simps [simp]:
  "tty_writeByte scripted b answers = answers"
  "tty_read scripted [] = (Nothing, [])"
  "tty_read scripted (a # answers) = (a, answers)"
  by (simp_all add: tty_writeByte_def scripted_def)

lemma scripted_readByte: "b \<noteq> 0xFF \<Longrightarrow> tty_readByte scripted (Got b # answers) = (uint b, answers)"
  by (simp add: tty_readByte_def numeral_3_eq_3)

lemma scripted_row: "writeRow scripted r (Got 0x55 # answers) = (True, answers)"
proof -
  have f: "snd (fold (\<lambda>i (crc, p). (crc + bs ! i, p)) ns (crc, a)) = a" for ns bs and crc :: byte and a :: "tty_read list"
    by (induction ns arbitrary: crc) auto
  have k: "awaitAck scripted 100 0x55 p = (0x55, p)" for p by (simp add: numeral_eq_Suc)
  show ?thesis unfolding writeRow_def Let_def
    by (simp add: scripted_readByte k f case_prod_beta split del: if_split del: upt_rec_numeral upt_Suc)
qed

lemma scripted_program:
  "\<forall>r\<in>set rows. mr_Type r = CODE_MEM \<Longrightarrow> writeProgram scripted rows (replicate (length rows) (Got 0x55) @ answers) = (True, answers)"
  by (induction rows) (simp_all add: scripted_row)

end
