(* ===== verification/BootChip.thy ===== *)
theory BootChip
  imports HexImage
begin

text \<open>
  The chip side of the loader: the serial commands of the boot loader in \<^verbatim>\<open>iBL.s\<close>, from \<^verbatim>\<open>StartFrame\<close> on, over the
  data memory, the program memory and the write latches of the chip.  The part of \<^verbatim>\<open>iBL.s\<close> before
  \<^verbatim>\<open>StartFrame\<close>, a reader of the vehicle's bus that is not finished, is not modelled.
\<close>

section \<open>The chip\<close>

text \<open>
  An instruction has 24 bits; \<open>flash\<close> is counted in instructions, of which each takes two addresses.  A row of 32
  instructions is programmed at once, from the latches.  What the linker decides is a parameter: the place of the
  buffer, of the stack, and of the boot loader itself (its first instruction and the one behind its last), and the
  addresses to which its calls return.
\<close>

type_synonym instruction = "24 word"

datatype boot_call = In_address nat | In_count | In_fill | In_read nat | In_erase | In_program

record boot_link =
  recBuf :: word16
  SP_init :: word16
  return_to :: "boot_call \<Rightarrow> 32 word"
  bootArea :: "nat \<times> nat"

record boot_chip =
  ram :: "word16 \<Rightarrow> byte"
  flash :: "nat \<Rightarrow> instruction"
  latches :: "nat \<Rightarrow> instruction"
  W4 :: byte
  TBLPAG :: byte
  NVMADRU :: byte
  NVMADR :: word16
  URX :: "byte list"
  UTX :: "byte list"

definition MAX_WORD_ROW :: nat where
  "MAX_WORD_ROW = 48"

definition boot_send :: "byte list \<Rightarrow> boot_chip \<Rightarrow> boot_chip" where
  "boot_send bs s = s\<lparr>UTX := UTX s @ bs\<rparr>"

text \<open>A call leaves its return address on the stack: four bytes, which stay there after the return.\<close>

definition boot_rcall :: "boot_link \<Rightarrow> boot_call \<Rightarrow> boot_chip \<Rightarrow> boot_chip" where
  "boot_rcall L c s =
     (let p = SP_init L; r = return_to L c in
      s\<lparr>ram := (ram s)(p := ucast r, p + 1 := ucast (drop_bit 8 r), p + 2 := ucast (drop_bit 16 r), p + 3 := ucast (drop_bit 24 r))\<rparr>)"

text \<open>
  \<open>URX\<close> holds the bytes that are still to come.  When there is none the wait times out: the stack is reset, and the
  answer is NACK.
\<close>

definition boot_recv :: "boot_link \<Rightarrow> boot_call \<Rightarrow> boot_chip \<Rightarrow> (byte \<Rightarrow> boot_chip \<Rightarrow> boot_chip option) \<Rightarrow> boot_chip option" where
  "boot_recv L c s k =
     (let s = boot_rcall L c s in
      case URX s of
        [] \<Rightarrow> Some (boot_send [0xFF] s)
      | b # bs \<Rightarrow> k b (s\<lparr>URX := bs, W4 := W4 s + b\<rparr>))"

section \<open>Writing a row\<close>

text \<open>\<^verbatim>\<open>FillBufLoop\<close>: the count in W3 is decremented before it is tested, and there is no test for the end of the buffer.\<close>

function fillBuf :: "boot_link \<Rightarrow> word16 \<Rightarrow> word16 \<Rightarrow> boot_chip \<Rightarrow> (boot_chip \<Rightarrow> boot_chip option) \<Rightarrow> boot_chip option" where
  "fillBuf L W2 W3 s k =
     (let s = boot_rcall L In_fill s in
      case URX s of
        [] \<Rightarrow> Some (boot_send [0xFF] s)
      | b # bs \<Rightarrow>
          let s = s\<lparr>URX := bs, W4 := W4 s + b, ram := (ram s)(W2 := b)\<rparr> in
          if W3 - 1 \<noteq> 0 then fillBuf L (W2 + 1) (W3 - 1) s k else k s)"
  by pat_completeness auto
termination by (relation "measure (\<lambda>(L, W2, W3, s, k). length (URX s))") (auto simp: boot_rcall_def Let_def)

declare fillBuf.simps [simp del]

text \<open>A table write goes into the latch for the address, and sets the address for the next programming.\<close>

definition latch_of :: "word16 \<Rightarrow> nat" where
  "latch_of a = unat a div 2 mod 32"

definition tblwtl :: "word16 \<Rightarrow> word16 \<Rightarrow> boot_chip \<Rightarrow> boot_chip" where
  "tblwtl W2 W5 s =
     s\<lparr>latches := (latches s)(latch_of W5 :=
         (latches s (latch_of W5) AND 0xFF0000) OR push_bit 8 (ucast (ram s (W2 + 1))) OR ucast (ram s W2)),
       NVMADR := W5, NVMADRU := TBLPAG s\<rparr>"

text \<open>The upper half of an instruction has only one byte: the other byte of the word is lost.\<close>

definition tblwth :: "word16 \<Rightarrow> word16 \<Rightarrow> boot_chip \<Rightarrow> boot_chip" where
  "tblwth W2 W5 s =
     s\<lparr>latches := (latches s)(latch_of W5 := (latches s (latch_of W5) AND 0xFFFF) OR push_bit 16 (ucast (ram s W2))),
       NVMADR := W5, NVMADRU := TBLPAG s\<rparr>"

text \<open>\<^verbatim>\<open>LoadLatch\<close>, with the count of words in W3, which is not zero at the start.\<close>

fun loadLatch :: "word16 \<Rightarrow> word16 \<Rightarrow> nat \<Rightarrow> boot_chip \<Rightarrow> boot_chip" where
  "loadLatch W2 W5 0 s = s"
| "loadLatch W2 W5 (Suc 0) s = tblwtl W2 W5 s"
| "loadLatch W2 W5 (Suc (Suc n)) s = loadLatch (W2 + 4) (W5 + 2) n (tblwth (W2 + 2) W5 (tblwtl W2 W5 s))"

text \<open>
  \<^verbatim>\<open>WriteKey\<close> starts an operation of the controller on the row of the address: 32 instructions of the program, or 16
  words of the EEPROM, are erased or programmed, or one configuration word is written.  Programming can only clear
  bits.  No result: the boot loader erases itself.
\<close>

definition nvm_words :: "word16 \<Rightarrow> nat" where
  "nvm_words W0 = (if W0 = 0x4071 \<or> W0 = 0x4001 then 32 else if W0 = 0x4075 \<or> W0 = 0x4005 then 16 else 1)"

definition writeKey :: "boot_link \<Rightarrow> boot_call \<Rightarrow> word16 \<Rightarrow> boot_chip \<Rightarrow> (boot_chip \<Rightarrow> boot_chip option) \<Rightarrow> boot_chip option" where
  "writeKey L c W0 s k =
     (let s = boot_rcall L c s;
          n = nvm_words W0;
          first = (unat (NVMADRU s) * 65536 + unat (NVMADR s)) div 2 div n * n
      in if first < snd (bootArea L) \<and> fst (bootArea L) < first + n then None
      else k (s\<lparr>flash := (\<lambda>i. if i div n * n \<noteq> first then flash s i
                             else if W0 = 0x4071 \<or> W0 = 0x4075 then - 1
                             else if W0 = 0x4008 then latches s (i mod 32)
                             else flash s i AND latches s (i mod 32))\<rparr>))"

definition writeMemCmd :: "boot_link \<Rightarrow> boot_chip \<Rightarrow> boot_chip option" where
  "writeMemCmd L s =
     boot_recv L (In_address 0) (s\<lparr>W4 := 0\<rparr>) (\<lambda>b s.
     let s = s\<lparr>TBLPAG := b, NVMADRU := b\<rparr> in
     boot_recv L (In_address 1) s (\<lambda>b s.
     let s = s\<lparr>NVMADR := (NVMADR s AND 0x00FF) OR push_bit 8 (ucast b)\<rparr> in
     boot_recv L (In_address 2) s (\<lambda>b s.
     let s = s\<lparr>NVMADR := (NVMADR s AND 0xFF00) OR ucast b\<rparr> in
     boot_recv L In_count s (\<lambda>n s.
     fillBuf L (recBuf L) (ucast n) s (\<lambda>s.
     if W4 s \<noteq> 0 then Some (boot_send [0xFF] s) else
     let W5 = NVMADR s in
     if TBLPAG s = 0xF8 then
       writeKey L In_program 0x4008 (loadLatch (recBuf L) W5 1 s) (\<lambda>s. Some (boot_send [0x55] s))
     else if TBLPAG s = 0x7F then
       writeKey L In_erase 0x4075 s (\<lambda>s.
       writeKey L In_program 0x4005 (loadLatch (recBuf L) W5 32 s) (\<lambda>s. Some (boot_send [0x55] s)))
     else
       writeKey L In_erase 0x4071 s (\<lambda>s.
       writeKey L In_program 0x4001 (loadLatch (recBuf L) W5 64 s) (\<lambda>s. Some (boot_send [0x55] s))))))))"

section \<open>The other commands\<close>

definition readMemCmd :: "boot_link \<Rightarrow> boot_chip \<Rightarrow> boot_chip option" where
  "readMemCmd L s =
     boot_recv L (In_read 0) s (\<lambda>u s.
     let s = s\<lparr>TBLPAG := u\<rparr> in
     boot_recv L (In_read 1) s (\<lambda>m s.
     boot_recv L (In_read 2) s (\<lambda>l s.
     let w = flash s ((unat (TBLPAG s) * 65536 + unat m * 256 + unat l) div 2) in
     Some (boot_send [ucast (drop_bit 16 w), ucast (drop_bit 8 w), ucast w, 0x55] s))))"

definition versionCmd :: "boot_chip \<Rightarrow> boot_chip" where
  "versionCmd s = boot_send [0x01, 0x01, 0x55] s"

text \<open>
  \<^verbatim>\<open>StartFrame\<close> and what follows it, for all the bytes that come: at their end the boot loader waits for the
  next, or it has started the program, or it has erased itself.
\<close>

datatype boot_end = Awaits boot_chip | Runs_program boot_chip | Destroyed

definition bootCommand :: "boot_link \<Rightarrow> byte \<Rightarrow> boot_chip \<Rightarrow> boot_chip option" where
  "bootCommand L c s =
     (if c = 0x01 then readMemCmd L s
      else if c = 0x02 then writeMemCmd L s
      else if c = 0x03 then Some (versionCmd s)
      else Some (boot_send [0xFF] s))"

text \<open>A command that leaves at most \<open>n\<close> of the bytes that are to come.\<close>

definition leaves_at_most :: "nat \<Rightarrow> boot_chip option \<Rightarrow> bool" where
  "leaves_at_most n r \<longleftrightarrow> (\<forall>s'. r = Some s' \<longrightarrow> length (URX s') \<le> n)"

lemma leaves_simps [simp]:
  "leaves_at_most n None" "leaves_at_most n (Some s) \<longleftrightarrow> length (URX s) \<le> n"
  by (simp_all add: leaves_at_most_def)

lemma URX_kept [simp]:
  "URX (boot_rcall L c s) = URX s" "URX (boot_send bs s) = URX s" "URX (tblwtl W2 W5 s) = URX s" "URX (tblwth W2 W5 s) = URX s"
  by (simp_all add: boot_rcall_def boot_send_def tblwtl_def tblwth_def Let_def)

lemma leaves_recv:
  assumes "length (URX s) \<le> n" and "\<And>b t. length (URX t) \<le> n \<Longrightarrow> leaves_at_most n (k b t)"
  shows "leaves_at_most n (boot_recv L c s k)"
  using assms by (auto simp: boot_recv_def Let_def split: list.splits)

lemma leaves_fillBuf:
  assumes "\<And>t. length (URX t) \<le> n \<Longrightarrow> leaves_at_most n (k t)"
  shows "length (URX s) \<le> n \<Longrightarrow> leaves_at_most n (fillBuf L W2 W3 s k)"
proof (induction "URX s" arbitrary: s W2 W3)
  case Nil
  then show ?case by (subst fillBuf.simps) (simp add: Let_def)
next
  case (Cons b bs)
  then show ?case
    by (subst fillBuf.simps) (simp add: Let_def assms flip: Cons.hyps(2))
qed

lemma loadLatch_URX [simp]: "URX (loadLatch W2 W5 n s) = URX s"
  by (induction W2 W5 n s rule: loadLatch.induct) simp_all

lemma leaves_writeKey:
  assumes "length (URX s) \<le> n" and "\<And>t. length (URX t) \<le> n \<Longrightarrow> leaves_at_most n (k t)"
  shows "leaves_at_most n (writeKey L c W0 s k)"
  using assms by (simp add: writeKey_def Let_def)

lemma leaves_command: "leaves_at_most (length (URX s)) (bootCommand L c s)"
proof -
  have "leaves_at_most (length (URX s)) (writeMemCmd L s)"
    unfolding writeMemCmd_def Let_def by (intro leaves_recv leaves_fillBuf) (auto intro!: leaves_writeKey)
  moreover have "leaves_at_most (length (URX s)) (readMemCmd L s)"
    unfolding readMemCmd_def Let_def by (intro leaves_recv) auto
  ultimately show ?thesis by (simp add: bootCommand_def versionCmd_def)
qed

function startFrame :: "boot_link \<Rightarrow> boot_chip \<Rightarrow> boot_end" where
  "startFrame L s =
     (case URX s of
        [] \<Rightarrow> Awaits s
      | c # bs \<Rightarrow>
          if c = 0x0F then Runs_program (s\<lparr>URX := bs\<rparr>)
          else case bootCommand L c (s\<lparr>URX := bs\<rparr>) of None \<Rightarrow> Destroyed | Some s \<Rightarrow> startFrame L s)"
  by pat_completeness auto
termination
proof (relation "measure (\<lambda>(L, s). length (URX s))")
  fix L s c bs s'
  assume "URX s = c # bs" "bootCommand L c (s\<lparr>URX := bs\<rparr>) = Some s'"
  then show "((L, s'), L, s) \<in> measure (\<lambda>(L, s). length (URX s))"
    using leaves_command [of "s\<lparr>URX := bs\<rparr>" L c] by (simp add: leaves_at_most_def)
qed simp

declare startFrame.simps [simp del]

section \<open>What a packet for a row does\<close>

definition stack_bytes :: "boot_link \<Rightarrow> word16 set" where
  "stack_bytes L = (\<lambda>j. SP_init L + of_nat j) ` {..<4}"

definition data_bytes :: "word16 \<Rightarrow> nat \<Rightarrow> word16 set" where
  "data_bytes a n = (\<lambda>k. a + of_nat k) ` {..<n}"

lemma boot_rcall_ram: "x \<notin> stack_bytes L \<Longrightarrow> ram (boot_rcall L c s) x = ram s x"
  by (auto simp: boot_rcall_def stack_bytes_def Let_def lessThan_nat_numeral lessThan_Suc)

lemma boot_rcall_is: "\<exists>m. boot_rcall L c s = s\<lparr>ram := m\<rparr> \<and> (\<forall>x. x \<notin> stack_bytes L \<longrightarrow> m x = ram s x)"
  using boot_rcall_ram [of _ L c s] by (intro exI [of _ "ram (boot_rcall L c s)"]) (simp add: boot_rcall_def Let_def)

lemma fillBuf_bytes:
  assumes "URX s = bs @ rest" and "bs \<noteq> []" and "length bs = unat W3" and "stack_bytes L \<inter> data_bytes W2 (length bs) = {}"
  shows "\<exists>m. fillBuf L W2 W3 s k = k (s\<lparr>URX := rest, W4 := W4 s + sum_list bs, ram := m\<rparr>)
    \<and> (\<forall>i<length bs. m (W2 + of_nat i) = bs ! i)
    \<and> (\<forall>x. x \<notin> stack_bytes L \<union> data_bytes W2 (length bs) \<longrightarrow> m x = ram s x)"
  using assms
proof (induction bs arbitrary: s W2 W3)
  case (Cons b bs)
  obtain m where m: "boot_rcall L In_fill s = s\<lparr>ram := m\<rparr>" "\<forall>x. x \<notin> stack_bytes L \<longrightarrow> m x = ram s x"
    using boot_rcall_is by blast
  let ?s = "s\<lparr>URX := bs @ rest, W4 := W4 s + b, ram := m(W2 := b)\<rparr>"
  have f: "fillBuf L W2 W3 s k = (if W3 - 1 \<noteq> 0 then fillBuf L (W2 + 1) (W3 - 1) ?s k else k ?s)"
    using Cons.prems(1) m(1) by (subst fillBuf.simps) (simp add: Let_def)
  have w: "data_bytes W2 (Suc n) = insert W2 (data_bytes (W2 + 1) n)" for n
    by (auto simp: data_bytes_def lessThan_Suc_eq_insert_0 image_image add.assoc)
  have W2: "W2 \<notin> stack_bytes L" using Cons.prems(4) w [of "length bs"] by auto
  show ?case
  proof (cases "bs = []")
    case True
    then have "W3 = 1" using Cons.prems(3) by (simp add: word_unat_eq_iff)
    then show ?thesis using f True m(2) by (intro exI [of _ "m(W2 := b)"]) (simp add: w fun_upd_def)
  next
    case False
    have "W3 \<noteq> 0" using Cons.prems(3) by auto
    then have l: "length bs = unat (W3 - 1)" using Cons.prems(3) by (simp add: unat_minus_one)
    then have "W3 - 1 \<noteq> 0" using False by auto
    then obtain m' where m': "fillBuf L W2 W3 s k = k (?s\<lparr>URX := rest, W4 := W4 ?s + sum_list bs, ram := m'\<rparr>)"
      "\<forall>i<length bs. m' (W2 + 1 + of_nat i) = bs ! i"
      "\<forall>x. x \<notin> stack_bytes L \<union> data_bytes (W2 + 1) (length bs) \<longrightarrow> m' x = ram ?s x"
      using Cons.IH [of ?s "W3 - 1" "W2 + 1"] f l False Cons.prems(4) w [of "length bs"] by auto
    have "W2 \<notin> data_bytes (W2 + 1) (length bs)"
    proof
      assume "W2 \<in> data_bytes (W2 + 1) (length bs)"
      then obtain i where i: "i < length bs" "W2 = W2 + 1 + of_nat i" by (auto simp: data_bytes_def)
      then have "W2 + of_nat (Suc i) = W2 + 0" by (simp add: add.assoc)
      then have "of_nat (Suc i) = (0 :: word16)" by (simp only: add_left_cancel)
      moreover have "Suc i < 2 ^ 16" using i(1) Cons.prems(3) unsigned_less [of W3, where ?'a = nat] by simp
      ultimately show False using unat_of_nat [of "Suc i", where ?'a = 16] by simp
    qed
    then have "m' W2 = b" using m'(3) W2 by simp
    then have "\<forall>i<length (b # bs). m' (W2 + of_nat i) = (b # bs) ! i"
      using m'(2) by (auto simp: less_Suc_eq_0_disj add.assoc)
    then show ?thesis using m'(1,3) m(2) by (intro exI [of _ m']) (auto simp: w add.assoc)
  qed
qed simp

text \<open>The instruction whose three bytes are at an address; the fourth byte is left out.\<close>

definition instruction_at :: "('a::numeral \<Rightarrow> byte) \<Rightarrow> 'a \<Rightarrow> instruction" where
  "instruction_at m a = push_bit 16 (ucast (m (a + 2))) OR push_bit 8 (ucast (m (a + 1))) OR ucast (m a)"

lemma latch_loaded:
  "(((x AND 0xFF0000) OR push_bit 8 (ucast (b1 :: byte)) OR ucast (b0 :: byte)) AND 0xFFFF) OR push_bit 16 (ucast (b2 :: byte))
     = (push_bit 16 (ucast b2) OR push_bit 8 (ucast b1) OR ucast b0 :: instruction)"
proof -
  have m: "(0xFF0000 :: instruction) = push_bit 16 (mask 8)" "(0xFFFF :: instruction) = mask 16"
    by (simp_all add: mask_eq_exp_minus_1)
  show ?thesis unfolding m by (rule bit_word_eqI) (auto simp: bit_simps dest: bit_imp_le_length)
qed

lemma tblwt_pair:
  "tblwth (W2 + 2) W5 (tblwtl W2 W5 s)
     = s\<lparr>latches := (latches s)(latch_of W5 := instruction_at (ram s) W2), NVMADR := W5, NVMADRU := TBLPAG s\<rparr>"
  using latch_loaded by (simp add: tblwth_def tblwtl_def instruction_at_def fun_upd_def cong: if_cong)

lemma loadLatch_row:
  assumes "n \<le> 32" and "unat a = 64 * q" and "unat (NVMADR s) div 64 = q" and "NVMADRU s = TBLPAG s"
  shows "\<exists>lat adr. loadLatch W2 (a + 2 * of_nat (32 - n)) (2 * n) s = s\<lparr>latches := lat, NVMADR := adr\<rparr> \<and> unat adr div 64 = q
    \<and> (\<forall>i<32. lat i = (if i < 32 - n then latches s i else instruction_at (ram s) (W2 + 4 * of_nat (i - (32 - n)))))"
  using assms(1,3,4)
proof (induction n arbitrary: W2 s)
  case 0
  then show ?case by (intro exI [of _ "latches s"] exI [of _ "NVMADR s"]) simp
next
  case (Suc n)
  define j where "j = 32 - Suc n"
  let ?W5 = "a + 2 * of_nat j"
  let ?s = "tblwth (W2 + 2) ?W5 (tblwtl W2 ?W5 s)" and ?w = "instruction_at (ram s) W2"
  have j: "32 - n = Suc j" "j < 32" using Suc.prems(1) by (auto simp: j_def)
  have "unat (2 * of_nat j :: word16) = 2 * j" using j(2) by (simp add: unat_word_ariths unat_of_nat)
  moreover have "64 * q + 64 \<le> 65536" using assms(2) unsigned_less [of a, where ?'a = nat] by simp
  ultimately have u: "unat ?W5 = 64 * q + 2 * j" using assms(2) j(2) by (subst unat_word_ariths) simp
  then have i: "latch_of ?W5 = j" "unat ?W5 div 64 = q" using j(2) by (simp_all add: latch_of_def)
  have s: "?s = s\<lparr>latches := (latches s)(j := ?w), NVMADR := ?W5\<rparr>"
    unfolding tblwt_pair i(1) by (rule boot_chip.equality) (simp_all add: Suc.prems(3))
  have "?W5 + 2 = a + 2 * of_nat (32 - n)" unfolding j(1) by (simp add: distrib_left)
  moreover have "2 * Suc n = Suc (Suc (2 * n))" by simp
  ultimately have "loadLatch W2 ?W5 (2 * Suc n) s = loadLatch (W2 + 4) (a + 2 * of_nat (32 - n)) (2 * n) ?s"
    by (simp only: loadLatch.simps)
  then obtain lat adr where l: "loadLatch W2 ?W5 (2 * Suc n) s = ?s\<lparr>latches := lat, NVMADR := adr\<rparr>" "unat adr div 64 = q"
    "\<forall>i<32. lat i = (if i < Suc j then latches ?s i else instruction_at (ram ?s) (W2 + 4 + 4 * of_nat (i - Suc j)))"
    using Suc.IH [of ?s "W2 + 4"] Suc.prems i(2) unfolding s j(1) by auto
  have "lat i = (if i < j then latches s i else instruction_at (ram s) (W2 + 4 * of_nat (i - j)))" if "i < 32" for i
  proof -
    consider "i < j" | "i = j" | d where "i = Suc (j + d)" using less_imp_Suc_add [of j i] by fastforce
    then show ?thesis
    proof cases
      case 3
      then have "lat i = instruction_at (ram s) (W2 + 4 + 4 * of_nat d)" using l(3) that unfolding s by simp
      then show ?thesis using 3 by (simp add: distrib_left add.assoc)
    qed (use l(3) that in \<open>simp_all add: s\<close>)
  qed
  moreover have "loadLatch W2 ?W5 (2 * Suc n) s = s\<lparr>latches := lat, NVMADR := adr\<rparr>" unfolding l(1) s by simp
  ultimately show ?case using l(2) unfolding j_def by blast
qed

definition spares :: "boot_link \<Rightarrow> nat \<Rightarrow> bool" where
  "spares L first \<longleftrightarrow> snd (bootArea L) \<le> first \<or> first + 32 \<le> fst (bootArea L)"

lemma writeKey_row:
  assumes "spares L (unat (TBLPAG s) * 32768 + 32 * q)" and "unat (NVMADR s) div 64 = q" and "NVMADRU s = TBLPAG s"
    and "W0 = 0x4071 \<or> W0 = 0x4001"
  shows "\<exists>m. writeKey L c W0 s k
      = k (s\<lparr>ram := m, flash := (\<lambda>i. if i div 32 = unat (TBLPAG s) * 1024 + q
             then if W0 = 0x4071 then - 1 else flash s i AND latches s (i mod 32) else flash s i)\<rparr>)
    \<and> (\<forall>x. x \<notin> stack_bytes L \<longrightarrow> m x = ram s x)"
proof -
  obtain m where m: "boot_rcall L c s = s\<lparr>ram := m\<rparr>" "\<forall>x. x \<notin> stack_bytes L \<longrightarrow> m x = ram s x"
    using boot_rcall_is by blast
  have n: "nvm_words W0 = 32" using assms(4) by (simp add: nvm_words_def)
  have f: "(unat (TBLPAG s) * 65536 + unat (NVMADR s)) div 2 div 32 = unat (TBLPAG s) * 1024 + q"
    using assms(2) by (simp flip: div_mult2_eq)
  have e: "i div 32 * 32 \<noteq> (unat (TBLPAG s) * 1024 + q) * 32 \<longleftrightarrow> i div 32 \<noteq> unat (TBLPAG s) * 1024 + q" for i
    by (simp only: mult_cancel_right) simp
  have "\<not> ((unat (TBLPAG s) * 1024 + q) * 32 < snd (bootArea L) \<and> fst (bootArea L) < (unat (TBLPAG s) * 1024 + q) * 32 + 32)"
    using assms(1) by (auto simp: spares_def distrib_right mult.assoc)
  moreover have s: "NVMADRU (boot_rcall L c s) = TBLPAG s" "NVMADR (boot_rcall L c s) = NVMADR s"
    "flash (boot_rcall L c s) = flash s" "latches (boot_rcall L c s) = latches s"
    using assms(3) m(1) by simp_all
  ultimately have "writeKey L c W0 s k
      = k (s\<lparr>ram := m, flash := (\<lambda>i. if i div 32 = unat (TBLPAG s) * 1024 + q
             then if W0 = 0x4071 then - 1 else flash s i AND latches s (i mod 32) else flash s i)\<rparr>)"
    unfolding writeKey_def Let_def n s using assms(4)
    by (simp only: f e m(1) if_False simp_thms) (rule arg_cong [where f = k], rule boot_chip.equality, auto)
  then show ?thesis using m(2) by blast
qed

text \<open>
  A packet of 129 bytes for a row of the program, taken behind its command byte: the row holds the first three bytes of
  each group of four, it is acknowledged, and all 129 bytes are in the data memory from the buffer on.
\<close>

lemma address_joined:
  "(((x AND 0xFF) OR push_bit 8 (ucast (m :: byte))) AND 0xFF00) OR ucast (l :: byte) = (push_bit 8 (ucast m) OR ucast l :: word16)"
proof -
  have k: "(0xFF00 :: word16) = push_bit 8 (mask 8)" "(0xFF :: word16) = mask 8" by (simp_all add: mask_eq_exp_minus_1)
  show ?thesis unfolding k by (rule bit_word_eqI) (auto simp: bit_simps dest: bit_imp_le_length)
qed

lemma boot_recv_byte:
  "URX s = b # bs \<Longrightarrow> boot_recv L c s k = k b ((boot_rcall L c s)\<lparr>URX := bs, W4 := W4 s + b\<rparr>)"
  by (simp add: boot_recv_def boot_rcall_def Let_def)

lemma boot_rcall_keeps [simp]:
  "W4 (boot_rcall L c s) = W4 s" "TBLPAG (boot_rcall L c s) = TBLPAG s" "NVMADRU (boot_rcall L c s) = NVMADRU s"
  "NVMADR (boot_rcall L c s) = NVMADR s" "UTX (boot_rcall L c s) = UTX s" "flash (boot_rcall L c s) = flash s"
  by (simp_all add: boot_rcall_def Let_def)

lemma writeMemCmd_row:
  assumes "URX s = [u, m, l, 0x81] @ bs @ [ck] @ rest" and "length bs = 128" and "u + m + l + 0x81 + sum_list bs + ck = 0"
    and "u \<noteq> 0xF8" and "u \<noteq> 0x7F" and "unat m * 256 + unat l = 64 * q"
    and "stack_bytes L \<inter> data_bytes (recBuf L) 129 = {}" and "spares L (unat u * 32768 + 32 * q)"
  shows "\<exists>s'. writeMemCmd L s = Some s' \<and> URX s' = rest \<and> UTX s' = UTX s @ [0x55]
    \<and> flash s' = (\<lambda>i. if i div 32 = unat u * 1024 + q then instruction_at ((!) bs) (4 * (i mod 32)) else flash s i)
    \<and> (\<forall>k<129. ram s' (recBuf L + of_nat k) = (bs @ [ck]) ! k)"
proof -
  let ?a = "push_bit 8 (ucast m) OR ucast l :: word16"
  have d: "push_bit 8 (ucast m :: word16) AND ucast l = 0" by (rule bit_word_eqI) (auto simp: bit_simps dest: bit_imp_le_length)
  have "unat m * 256 + unat l < 65536" using byte_lt_256 [of m] byte_lt_256 [of l] by linarith
  then have a: "unat ?a = 64 * q" unfolding assms(6) [symmetric] disjunctive_add_eq_or [OF d, symmetric]
    by (simp add: push_bit_eq_mult unat_word_ariths unsigned_ucast_eq take_bit_nat_eq_self)
  let ?K = "\<lambda>s. if W4 s \<noteq> 0 then Some (boot_send [0xFF] s) else
       if TBLPAG s = 0xF8 then
         writeKey L In_program 0x4008 (loadLatch (recBuf L) (NVMADR s) 1 s) (\<lambda>s. Some (boot_send [0x55] s))
       else if TBLPAG s = 0x7F then
         writeKey L In_erase 0x4075 s (\<lambda>t.
         writeKey L In_program 0x4005 (loadLatch (recBuf L) (NVMADR s) 32 t) (\<lambda>s. Some (boot_send [0x55] s)))
       else
         writeKey L In_erase 0x4071 s (\<lambda>t.
         writeKey L In_program 0x4001 (loadLatch (recBuf L) (NVMADR s) 64 t) (\<lambda>s. Some (boot_send [0x55] s)))"
  obtain s1 where s1: "writeMemCmd L s = fillBuf L (recBuf L) (ucast (0x81 :: byte)) s1 ?K"
    "URX s1 = (bs @ [ck]) @ rest" "W4 s1 = u + m + l + 0x81" "TBLPAG s1 = u" "NVMADRU s1 = u" "NVMADR s1 = ?a" "UTX s1 = UTX s" "flash s1 = flash s"
    using assms(1) address_joined unfolding writeMemCmd_def Let_def
    by (simp add: boot_recv_byte)
  have z: "data_bytes (recBuf L) (length (bs @ [ck])) = data_bytes (recBuf L) 129" using assms(2) by simp
  obtain r2 where r2: "fillBuf L (recBuf L) (ucast (0x81 :: byte)) s1 ?K
      = ?K (s1\<lparr>URX := rest, W4 := W4 s1 + sum_list (bs @ [ck]), ram := r2\<rparr>)" "\<forall>i<length (bs @ [ck]). r2 (recBuf L + of_nat i) = (bs @ [ck]) ! i"
    using fillBuf_bytes [OF s1(2), of "ucast (0x81 :: byte)" L "recBuf L" ?K] assms(2,7) unfolding z by auto
  let ?s2 = "s1\<lparr>URX := rest, W4 := W4 s1 + sum_list (bs @ [ck]), ram := r2\<rparr>"
  have 2: "W4 ?s2 = 0" using assms(3) s1(3) by (simp add: add.assoc)
  have k: "?K ?s2 = writeKey L In_erase 0x4071 ?s2 (\<lambda>t.
         writeKey L In_program 0x4001 (loadLatch (recBuf L) ?a 64 t) (\<lambda>s. Some (boot_send [0x55] s)))"
    using 2 s1(4,6) assms(4,5) by simp
  let ?f = "\<lambda>g i. if i div 32 = unat u * 1024 + q then g i else flash s i"
  have n: "unat (NVMADR ?s2) div 64 = q" "NVMADRU ?s2 = TBLPAG ?s2" "spares L (unat (TBLPAG ?s2) * 32768 + 32 * q)"
    using s1(4-6) a assms(8) by simp_all
  let ?k4 = "\<lambda>s. Some (boot_send [0x55] s)"
  let ?k3 = "\<lambda>t. writeKey L In_program 0x4001 (loadLatch (recBuf L) ?a 64 t) ?k4"
  obtain r3 where r3: "writeKey L In_erase 0x4071 ?s2 ?k3 = ?k3 (?s2\<lparr>ram := r3, flash := ?f (\<lambda>i. - 1)\<rparr>)"
    "\<forall>x. x \<notin> stack_bytes L \<longrightarrow> r3 x = r2 x"
    using writeKey_row [OF n(3,1,2), of "0x4071" In_erase ?k3] s1(4,8) by (auto cong: if_cong)
  let ?s3 = "?s2\<lparr>ram := r3, flash := ?f (\<lambda>i. - 1)\<rparr>"
  obtain lat adr where l: "loadLatch (recBuf L) ?a 64 ?s3 = ?s3\<lparr>latches := lat, NVMADR := adr\<rparr>" "unat adr div 64 = q"
    "\<forall>i<32. lat i = instruction_at r3 (recBuf L + 4 * of_nat i)"
    using loadLatch_row [of 32 ?a q ?s3 "recBuf L"] a n(1,2) by auto
  let ?s4 = "?s3\<lparr>latches := lat, NVMADR := adr\<rparr>"
  have n4: "unat (NVMADR ?s4) div 64 = q" "NVMADRU ?s4 = TBLPAG ?s4" "spares L (unat (TBLPAG ?s4) * 32768 + 32 * q)"
    using n l(2) by simp_all
  let ?f5 = "\<lambda>i. if i div 32 = unat u * 1024 + q then flash ?s4 i AND latches ?s4 (i mod 32) else flash ?s4 i"
  obtain r5 where r5: "writeKey L In_program 0x4001 ?s4 ?k4 = ?k4 (?s4\<lparr>ram := r5, flash := ?f5\<rparr>)"
    "\<forall>x. x \<notin> stack_bytes L \<longrightarrow> r5 x = r3 x"
    using writeKey_row [OF n4(3,1,2), of "0x4001" In_program ?k4] s1(4) by (auto cong: if_cong)
  have w: "writeMemCmd L s = Some (boot_send [0x55] (?s4\<lparr>ram := r5, flash := ?f5\<rparr>))"
    unfolding s1(1) r2(1) k r3(1) l(1) r5(1) ..
  have b: "recBuf L + of_nat k \<notin> stack_bytes L" if "k < 129" for k
    using assms(7) that by (auto simp: data_bytes_def)
  have m: "r3 (recBuf L + of_nat k) = (bs @ [ck]) ! k" "r5 (recBuf L + of_nat k) = (bs @ [ck]) ! k" if "k < 129" for k
    using b [OF that] r2(2) r3(2) r5(2) that assms(2) by simp_all
  have "?f5 i = ?f (\<lambda>i. instruction_at ((!) bs) (4 * (i mod 32))) i" for i
  proof -
    let ?j = "4 * (i mod 32)"
    have j: "?j + 3 < 128" by presburger
    then have "r3 (recBuf L + of_nat (?j + k)) = bs ! (?j + k)" if "k < 3" for k
      using m(1) [of "?j + k"] that assms(2) by (simp add: nth_append)
    from this [of 0] this [of 1] this [of 2]
    have "lat (i mod 32) = instruction_at ((!) bs) ?j" using l(3) by (simp add: instruction_at_def ac_simps)
    then show ?thesis by simp
  qed
  then have f: "?f5 = ?f (\<lambda>i. instruction_at ((!) bs) (4 * (i mod 32)))" by blast
  show ?thesis using w f m(2) s1(7) by (simp add: boot_send_def)
qed

end
