(* ===== verification/Upload.thy ===== *)
theory Upload
  imports Loader BootChip
begin

text \<open>
  The loader and the chip together: what \<^verbatim>\<open>loader.c\<close> hands to the line, taken by the boot loader of \<^verbatim>\<open>iBL.s\<close>,
  and what is in the program memory afterwards.
\<close>

section \<open>Rows in the program memory\<close>





section \<open>The packets at the chip\<close>












section \<open>The handshake and this boot loader\<close>

text \<open>
  The chip as the line of the loader: what is written waits until the loader reads, which it does only behind complete
  commands.  With the measuring of the speed commented out, \<^verbatim>\<open>iBL.s\<close> answers a knock with NACK, for which the
  loader does not look: it gives up after thirty knocks.
\<close>

definition boot_line :: "boot_link \<Rightarrow> boot_end tty" where
  "boot_line L =
     \<lparr>tty_read = (\<lambda>e. case e of
          Awaits s \<Rightarrow> (case startFrame L s of
              Awaits s \<Rightarrow> (case UTX s of [] \<Rightarrow> (Nothing, Awaits s) | b # bs \<Rightarrow> (Got b, Awaits (s\<lparr>UTX := bs\<rparr>)))
            | e \<Rightarrow> (Nothing, e))
        | e \<Rightarrow> (Nothing, e)),
      tty_write = (\<lambda>b e. case e of Awaits s \<Rightarrow> Awaits (s\<lparr>URX := URX s @ [b]\<rparr>) | e \<Rightarrow> e),
      tty_stack = (\<lambda>e. 0)\<rparr>"

lemma knock_refused:
  "URX s = [] \<Longrightarrow> UTX s = [] \<Longrightarrow> knock (boot_line L) n (-1) (Awaits s) = (-1, Awaits s)"
proof (induction n)
  case (Suc n)
  let ?r = "s\<lparr>URX := [0x55]\<rparr>" and ?t = "s\<lparr>URX := [], UTX := [0xFF]\<rparr>"
  have i: "startFrame L t = Awaits t" if "URX t = []" for t using that by (subst startFrame.simps) simp
  have f: "startFrame L ?r = Awaits ?t"
    using Suc.prems(2) i by (subst startFrame.simps) (simp add: bootCommand_def boot_send_def)
  have e: "?t\<lparr>UTX := []\<rparr> = s" using Suc.prems by (intro boot_chip.equality) simp_all
  have "tty_readByte (boot_line L) (tty_writeByte (boot_line L) 0x55 (Awaits s)) = (-1, Awaits s)"
  proof -
    have "tty_read (boot_line L) (Awaits ?r) = (Got 0xFF, Awaits s)" "tty_read (boot_line L) (Awaits s) = (Nothing, Awaits s)"
      "tty_write (boot_line L) 0x55 (Awaits s) = Awaits ?r"
      using Suc.prems f e i [of s] by (simp_all add: boot_line_def)
    then show ?thesis by (simp add: tty_readByte_def tty_writeByte_def numeral_3_eq_3)
  qed
  then show ?case using Suc by simp
qed simp

theorem iBL_refuses_loader:
  assumes "URX s = []" and "UTX s = []" and "ReadHexFile (SupportedChips ! 6) buf file = Inr rows"
  shows "loader_main (boot_line L) buf file True (Awaits s) = Inr (Not_connected, Awaits s)"
proof -
  have "knock (boot_line L) 30 0 (Awaits s) = knock (boot_line L) 30 (-1) (Awaits s)" by (simp add: numeral_eq_Suc)
  then show ?thesis using assms knock_refused [OF assms(1,2), of L 30] by (simp add: loader_main_def handshake_def)
qed

end
