(* ===== verification/Instruments.thy ===== *)
theory Instruments
  imports Common "HOL-Library.Sublist" Complex_Main
begin

text \<open>
  The drivers of the two instruments that send packets on their own: the inertial measurement unit
  (\<^verbatim>\<open>src/packages/drivers/imu/src/imuapi.c\<close>) and the Doppler velocity log (\<^verbatim>\<open>src/packages/drivers/dvl/src/dvlapi.c\<close>).
\<close>

section \<open>Reading from a device file\<close>

text \<open>
  What arrives on a device file: chunks of bytes, and errors.  A \<^verbatim>\<open>read\<close> of up to \<open>n\<close> bytes takes the first of them, of a
  chunk that is longer than \<open>n\<close> only its beginning; \<open>None\<close> is the result -1.
\<close>

datatype arrival = Chunk "byte list" | Read_error

fun fd_read :: "nat \<Rightarrow> arrival list \<Rightarrow> (byte list option, arrival list) outcome" where
  "fd_read n [] = Stop Waiting"
| "fd_read n (Chunk bs # fd) = Done (Some (take n bs)) (if length bs \<le> n then fd else Chunk (drop n bs) # fd)"
| "fd_read n (Read_error # fd) = Done None fd"

fun fd_bytes :: "arrival list \<Rightarrow> byte list" where
  "fd_bytes [] = []"
| "fd_bytes (Chunk bs # fd) = bs @ fd_bytes fd"
| "fd_bytes (Read_error # fd) = fd_bytes fd"

definition fd_size :: "arrival list \<Rightarrow> nat" where
  "fd_size fd = length fd + length (fd_bytes fd)"

lemma fd_read_smaller: "fd_read (Suc n) fd = Done r fd' \<Longrightarrow> fd_size fd' < fd_size fd"
  by (cases "(Suc n, fd)" rule: fd_read.cases) (auto simp: fd_size_def split: if_splits)

lemma fd_read_clean:
  assumes "Read_error \<notin> set fd" and "fd \<noteq> []"
  obtains bs fd' where "fd_read (Suc n) fd = Done (Some bs) fd'" "fd_bytes fd = bs @ fd_bytes fd'" "length bs \<le> Suc n"
    "Read_error \<notin> set fd'"
proof (cases fd)
  case (Cons a fd1)
  then obtain xs where a: "a = Chunk xs" using assms(1) by (cases a) auto
  then show thesis
    using that [of "take (Suc n) xs" "if length xs \<le> Suc n then fd1 else Chunk (drop (Suc n) xs) # fd1"] Cons assms(1) by auto
qed (use assms in simp)

text \<open>\<^verbatim>\<open>while(len < limit) len += read(fd, buf+len, limit+extra-len);\<close> with an error counted as -1.\<close>

function read_loop :: "nat \<Rightarrow> nat \<Rightarrow> int \<Rightarrow> byte list \<Rightarrow> arrival list \<Rightarrow> (int \<times> byte list, arrival list) outcome" where
  "read_loop extra limit len buf fd =
     (if int limit \<le> len then Done (len, buf) fd
      else if len < 0 then Stop Out_of_bounds
      else on (fd_read (Suc (limit - 1 + extra - nat len)) fd) (\<lambda>r fd.
           case r of
             None \<Rightarrow> read_loop extra limit (len - 1) buf fd
           | Some bs \<Rightarrow>
               if nat len + length bs > length buf then Stop Out_of_bounds
               else read_loop extra limit (len + int (length bs)) (overwrite (nat len) bs buf) fd))"
  by pat_completeness auto
termination
  by (relation "measure (\<lambda>(extra, limit, len, buf, fd). fd_size fd)") (auto dest: fd_read_smaller)

declare read_loop.simps [simp del]

lemma overwrite_append: "overwrite p (xs @ ys) buf = overwrite (p + length xs) ys (overwrite p xs buf)"
  by (induction xs arbitrary: p buf) simp_all

text \<open>Without errors the loop stores the bytes in the order they come, however they are cut.\<close>

lemma read_loop_clean:
  assumes "Read_error \<notin> set fd" and "0 < limit" and "limit - len \<le> length (fd_bytes fd)" and "limit + extra \<le> length buf"
  shows "\<exists>n fd'. read_loop extra limit (int len) buf fd = Done (int (len + n), overwrite len (take n (fd_bytes fd)) buf) fd'
    \<and> fd_bytes fd' = drop n (fd_bytes fd) \<and> Read_error \<notin> set fd' \<and> n \<le> length (fd_bytes fd)
    \<and> (if limit \<le> len then n = 0 else limit \<le> len + n \<and> len + n \<le> limit + extra)"
  using assms(1,3,4)
proof (induction "fd_size fd" arbitrary: len buf fd rule: less_induct)
  case less
  show ?case
  proof (cases "limit \<le> len")
    case True
    then show ?thesis using less.prems by (intro exI [of _ 0] exI [of _ fd]) (simp add: read_loop.simps)
  next
    case False
    then have "fd \<noteq> []" using less.prems(2) by auto
    let ?n = "limit - 1 + extra - len"
    obtain bs fd1 where r: "fd_read (Suc ?n) fd = Done (Some bs) fd1" "fd_bytes fd = bs @ fd_bytes fd1" "length bs \<le> Suc ?n"
      "Read_error \<notin> set fd1"
      by (rule fd_read_clean [OF less.prems(1) \<open>fd \<noteq> []\<close>])
    have s: "fd_size fd1 < fd_size fd" by (rule fd_read_smaller [OF r(1)])
    have l: "len + length bs \<le> limit + extra" using r(3) False assms(2) by simp
    have e: "read_loop extra limit (int len) buf fd = read_loop extra limit (int (len + length bs)) (overwrite len bs buf) fd1"
      using False r(1) l less.prems(3) by (subst read_loop.simps) simp
    have "limit - (len + length bs) \<le> length (fd_bytes fd1)" using less.prems(2) r(2) by simp
    then obtain n fd2 where n: "read_loop extra limit (int (len + length bs)) (overwrite len bs buf) fd1
        = Done (int (len + length bs + n), overwrite (len + length bs) (take n (fd_bytes fd1)) (overwrite len bs buf)) fd2"
      "fd_bytes fd2 = drop n (fd_bytes fd1)" "Read_error \<notin> set fd2" "n \<le> length (fd_bytes fd1)"
      "if limit \<le> len + length bs then n = 0 else limit \<le> len + length bs + n \<and> len + length bs + n \<le> limit + extra"
      using less.hyps [OF s r(4), of "len + length bs" "overwrite len bs buf"] less.prems(3) by auto
    show ?thesis
      using e n r(2) l False
      by (intro exI [of _ "length bs + n"] exI [of _ fd2]) (auto simp: overwrite_append add.assoc split: if_splits)
  qed
qed

section \<open>The inertial measurement unit\<close>

function imu_waitByte :: "arrival list \<Rightarrow> (byte, arrival list) outcome" where
  "imu_waitByte fd = on (fd_read (Suc 0) fd) (\<lambda>r fd. case r of Some [b] \<Rightarrow> Done b fd | _ \<Rightarrow> imu_waitByte fd)"
  by pat_completeness auto
termination by (relation "measure fd_size") (auto dest: fd_read_smaller)

declare imu_waitByte.simps [simp del]

lemma imu_waitByte_smaller: "imu_waitByte fd = Done b fd' \<Longrightarrow> fd_size fd' < fd_size fd"
proof (induction "fd_size fd" arbitrary: fd rule: less_induct)
  case less
  then obtain r fd1 where r: "fd_read (Suc 0) fd = Done r fd1" by (cases "fd_read (Suc 0) fd") (simp_all add: imu_waitByte.simps)
  have s: "fd_size fd1 < fd_size fd" by (rule fd_read_smaller [OF r])
  have e: "imu_waitByte fd = (case r of Some [b] \<Rightarrow> Done b fd1 | _ \<Rightarrow> imu_waitByte fd1)"
    by (subst imu_waitByte.simps) (simp add: r)
  then have "fd' = fd1 \<or> imu_waitByte fd1 = Done b fd'" using less.prems by (auto split: option.splits list.splits)
  then show ?case using less.hyps [OF s] s by (auto intro: less_trans)
qed

text \<open>\<^verbatim>\<open>imu_waitSync\<close> with \<open>fs\<close> bytes 0xFF seen in a row; the length it counts is only for a message.\<close>

function imu_sync :: "nat \<Rightarrow> arrival list \<Rightarrow> (unit, arrival list) outcome" where
  "imu_sync fs fd =
     (if fs = 4 then Done () fd
      else on (imu_waitByte fd) (\<lambda>b fd. if b = 0xFF then imu_sync (fs + 1) fd else imu_sync 0 fd))"
  by pat_completeness auto
termination by (relation "measure (\<lambda>(fs, fd). fd_size fd)") (auto dest: imu_waitByte_smaller)

declare imu_sync.simps [simp del]

definition imu_waitSync :: "arrival list \<Rightarrow> (unit, arrival list) outcome" where
  "imu_waitSync fd = imu_sync 0 fd"

definition imu_convert16 :: "byte \<Rightarrow> byte \<Rightarrow> int" where
  "imu_convert16 msb lsb = sint (push_bit 8 (ucast msb) OR ucast lsb :: word16)"

text \<open>The type \<^verbatim>\<open>double\<close> is taken as the reals: the roundings of the arithmetic are left out.\<close>

definition imu_convertData :: "byte \<Rightarrow> byte \<Rightarrow> real \<Rightarrow> real" where
  "imu_convertData msb lsb rng = of_int (imu_convert16 msb lsb) * ((rng / 2) * 1.5) / 32768"

definition DEGS_TO_RADIANS :: real where
  "DEGS_TO_RADIANS = pi / 180"

record RawIMUData =
  messageID :: int
  sampleTimer :: int
  gyroX :: real  gyroY :: real  gyroZ :: real
  accelX :: real  accelY :: real  accelZ :: real
  magX :: real  magY :: real  magZ :: real
  tempX :: real  tempY :: real  tempZ :: real
  checksumValid :: bool

definition imu_temperature :: "byte \<Rightarrow> byte \<Rightarrow> real" where
  "imu_temperature msb lsb = (of_int (imu_convert16 msb lsb) * 5 / 32768) / 0.0084 + 25"

definition imu_decode :: "byte list \<Rightarrow> RawIMUData" where
  "imu_decode d =
     \<lparr>messageID = uint (d ! 0),
      sampleTimer = push_bit 8 (uint (d ! 3)) OR uint (d ! 4),
      gyroX = imu_convertData (d ! 9) (d ! 10) 600 * DEGS_TO_RADIANS,
      gyroY = imu_convertData (d ! 11) (d ! 12) 600 * DEGS_TO_RADIANS,
      gyroZ = imu_convertData (d ! 13) (d ! 14) 600 * DEGS_TO_RADIANS,
      accelX = imu_convertData (d ! 15) (d ! 16) 4,
      accelY = imu_convertData (d ! 17) (d ! 18) 4,
      accelZ = imu_convertData (d ! 19) (d ! 20) 4,
      magX = imu_convertData (d ! 21) (d ! 22) 1.9,
      magY = imu_convertData (d ! 23) (d ! 24) 1.9,
      magZ = imu_convertData (d ! 25) (d ! 26) 1.9,
      tempX = imu_temperature (d ! 27) (d ! 28),
      tempY = imu_temperature (d ! 29) (d ! 30),
      tempZ = imu_temperature (d ! 31) (d ! 32),
      checksumValid = (let sum = fold (\<lambda>i sum. sum + uint (d ! i)) [0..<33] 0; sum = sum + 0xFF * 4 in uint (d ! 33) = sum AND 0xFF)\<rparr>"

definition readIMUData :: "byte list \<Rightarrow> arrival list \<Rightarrow> (RawIMUData, arrival list) outcome" where
  "readIMUData imuData fd =
     on (imu_waitSync fd) (\<lambda>_ fd.
     on (read_loop 0 34 0 imuData fd) (\<lambda>(len, imuData) fd.
     Done (imu_decode imuData) fd))"

text \<open>The synchronisation as a function of the bytes alone.\<close>

fun sync_rest :: "nat \<Rightarrow> byte list \<Rightarrow> byte list option" where
  "sync_rest fs [] = (if fs = 4 then Some [] else None)"
| "sync_rest fs (b # bs) = (if fs = 4 then Some (b # bs) else sync_rest (if b = 0xFF then fs + 1 else 0) bs)"

lemma imu_waitByte_clean:
  assumes "Read_error \<notin> set fd" and "fd_bytes fd = b # bs"
  shows "\<exists>fd'. imu_waitByte fd = Done b fd' \<and> fd_bytes fd' = bs \<and> Read_error \<notin> set fd'"
  using assms
proof (induction "fd_size fd" arbitrary: fd rule: less_induct)
  case less
  then have "fd \<noteq> []" by auto
  obtain xs fd1 where r: "fd_read (Suc 0) fd = Done (Some xs) fd1" "fd_bytes fd = xs @ fd_bytes fd1" "length xs \<le> Suc 0" "Read_error \<notin> set fd1"
    by (rule fd_read_clean [OF less.prems(1) \<open>fd \<noteq> []\<close>])
  have s: "fd_size fd1 < fd_size fd" by (rule fd_read_smaller [OF r(1)])
  show ?case
  proof (cases xs)
    case Nil
    then show ?thesis using less.hyps [OF s r(4)] r(1,2) less.prems(2) by (subst imu_waitByte.simps) simp
  next
    case (Cons x ys)
    then show ?thesis using r less.prems(2) by (subst imu_waitByte.simps) simp
  qed
qed

lemma imu_sync_clean:
  "Read_error \<notin> set fd \<Longrightarrow> sync_rest fs (fd_bytes fd) = Some bs \<Longrightarrow>
     \<exists>fd'. imu_sync fs fd = Done () fd' \<and> fd_bytes fd' = bs \<and> Read_error \<notin> set fd'"
proof (induction "fd_bytes fd" arbitrary: fs fd)
  case Nil
  then have "fs = 4" "bs = []" by (auto split: if_splits)
  then show ?case using Nil by (simp add: imu_sync.simps)
next
  case (Cons b xs)
  show ?case
  proof (cases "fs = 4")
    case True
    then show ?thesis using Cons by (metis imu_sync.simps option.inject sync_rest.simps(2))
  next
    case False
    obtain fd1 where w: "imu_waitByte fd = Done b fd1" "fd_bytes fd1 = xs" "Read_error \<notin> set fd1"
      using imu_waitByte_clean [OF Cons.prems(1)] Cons.hyps(2) by metis
    have "sync_rest (if b = 0xFF then fs + 1 else 0) (fd_bytes fd1) = Some bs"
      using Cons.prems(2) Cons.hyps(2) [symmetric] w(2) False by simp
    then show ?thesis
      using Cons.hyps(1) [of fd1] w False by (subst imu_sync.simps) (auto split: if_splits)
  qed
qed

lemma sync_found:
  assumes "fs \<le> 3" and "\<not> sublist (replicate 4 0xFF) (replicate fs 0xFF @ pre @ replicate 3 0xFF)"
  shows "sync_rest fs (pre @ replicate 4 0xFF @ bs) = Some bs"
  using assms
proof (induction pre arbitrary: fs)
  case Nil
  have "fs = 0"
  proof (rule ccontr)
    assume "fs \<noteq> 0"
    then have "replicate fs 0xFF @ replicate 3 0xFF = replicate 4 0xFF @ replicate (fs - 1) (0xFF :: byte)"
      by (simp add: replicate_add [symmetric])
    then show False using Nil(2) by (simp only: append_Nil) (metis sublist_appendI append_Nil)
  qed
  moreover have "sync_rest 4 bs = Some bs" by (cases bs) simp_all
  ultimately show ?case by (simp add: numeral_eq_Suc)
next
  case (Cons b pre)
  show ?case
  proof (cases "b = 0xFF")
    case True
    have e: "replicate fs 0xFF @ (b # pre) @ replicate 3 0xFF = replicate (fs + 1) 0xFF @ pre @ replicate 3 0xFF"
      using True by (simp add: replicate_app_Cons_same)
    have "fs \<noteq> 3"
    proof
      assume "fs = 3"
      then show False using Cons.prems(2) unfolding e by (simp add: numeral_eq_Suc)
    qed
    then have "sync_rest (fs + 1) (pre @ replicate 4 0xFF @ bs) = Some bs"
      using Cons.IH [of "fs + 1"] Cons.prems unfolding e by simp
    then show ?thesis using True Cons.prems(1) by simp
  next
    case False
    have "\<not> sublist (replicate 4 0xFF) (replicate 0 0xFF @ pre @ replicate 3 0xFF)"
    proof
      assume "sublist (replicate 4 0xFF) (replicate 0 0xFF @ pre @ replicate 3 0xFF)"
      then obtain u v where "pre @ replicate 3 0xFF = u @ replicate 4 (0xFF :: byte) @ v" by (auto simp: sublist_def)
      then have "replicate fs 0xFF @ (b # pre) @ replicate 3 0xFF = (replicate fs 0xFF @ b # u) @ replicate 4 0xFF @ v" by simp
      then show False using Cons.prems(2) by (metis sublist_appendI)
    qed
    then show ?thesis using Cons.IH [of 0] Cons.prems(1) False by auto
  qed
qed

lemma fold_uint: "fold (\<lambda>i sum. sum + uint (d ! i)) [0..<n] c = c + (\<Sum>i<n. uint (d ! i))"
  by (induction n) simp_all

lemma uint_sum_mod: "uint (sum_list bs) = (\<Sum>i<length bs. uint (bs ! i)) mod 256" for bs :: "byte list"
proof (induction bs rule: rev_induct)
  case (snoc b bs)
  have "uint (sum_list (bs @ [b])) = (uint (sum_list bs) + uint b) mod 256" by (simp add: uint_word_ariths)
  then show ?case using snoc by (simp add: nth_append mod_add_left_eq)
qed simp

lemma imu_valid_iff:
  assumes "length d = 34"
  shows "checksumValid (imu_decode d) \<longleftrightarrow> d ! 33 = sum_list (replicate 4 0xFF @ take 33 d)"
proof -
  let ?n = "\<Sum>i<33. uint (d ! i)"
  have m: "(0xFF :: int) = mask 8" by (simp add: mask_eq_exp_minus_1)
  have n: "uint (sum_list (take 33 d)) = ?n mod 256" using uint_sum_mod [of "take 33 d"] assms by simp
  have f: "sum_list (replicate 4 (0xFF :: byte)) = 0xFC" by code_simp
  have p: "uint (a + b) = (uint a + uint b) mod 256" for a b :: byte by (simp add: uint_word_ariths)
  have c: "uint (0xFC :: byte) = 0xFC" by simp
  have g: "(0xFC + k mod 256) mod 256 = (0xFF * 4 + k) mod 256" for k :: int
    using mod_mult_self1 [of "0xFC + k" 3 256] by (simp add: mod_add_right_eq add.commute)
  have "uint (sum_list (replicate 4 0xFF @ take 33 d)) = (0xFF * 4 + ?n) mod 256"
    unfolding sum_list_append f p n c by (rule g)
  moreover have "(?n + 0xFF * 4) AND 0xFF = (0xFF * 4 + ?n) mod 256"
    unfolding m by (simp add: take_bit_eq_mask [symmetric] take_bit_eq_mod add.commute)
  ultimately show ?thesis
    by (simp add: imu_decode_def Let_def fold_uint word_uint_eq_iff del: upt_rec_numeral upt_Suc)
qed

lemma imu_reads:
  assumes "Read_error \<notin> set fd" and "fd_bytes fd = pre @ replicate 4 0xFF @ packet @ rest" and "length packet = 34"
    and "\<not> sublist (replicate 4 0xFF) (pre @ replicate 3 0xFF)" and "length buf = 34"
  shows "\<exists>fd'. readIMUData buf fd = Done (imu_decode packet) fd' \<and> fd_bytes fd' = rest \<and> Read_error \<notin> set fd'"
proof -
  have "sync_rest 0 (fd_bytes fd) = Some (packet @ rest)"
    using sync_found [of 0 pre "packet @ rest"] assms(2,4) by simp
  then obtain fd1 where s: "imu_waitSync fd = Done () fd1" "fd_bytes fd1 = packet @ rest" "Read_error \<notin> set fd1"
    using imu_sync_clean [OF assms(1)] unfolding imu_waitSync_def by blast
  obtain n fd2 where r: "read_loop 0 34 (int 0) buf fd1 = Done (int (0 + n), overwrite 0 (take n (fd_bytes fd1)) buf) fd2"
    "fd_bytes fd2 = drop n (fd_bytes fd1)" "Read_error \<notin> set fd2" "n = 34"
    using read_loop_clean [OF s(3), of 34 0 0 buf] s(2) assms(3,5) by fastforce
  moreover have "overwrite 0 packet buf = packet"
    using assms(3,5) by (intro nth_equalityI) (simp_all add: nth_overwrite)
  ultimately show ?thesis using s assms(3) by (simp add: readIMUData_def)
qed

lemma imu_damaged:
  assumes "length d = 34" and "checksumValid (imu_decode d)" and "i < 34" and "b \<noteq> d ! i"
  shows "\<not> checksumValid (imu_decode (d[i := b]))"
proof (cases "i = 33")
  case True
  then show ?thesis using assms imu_valid_iff [of d] imu_valid_iff [of "d[i := b]"] by simp
next
  case False
  then have "i < length (take 33 d)" "take 33 (d[i := b]) = (take 33 d)[i := b]" "d[i := b] ! 33 = d ! 33"
    using assms by (simp_all add: take_update_swap)
  then have "sum_list (replicate 4 0xFF @ take 33 (d[i := b])) = sum_list (replicate 4 0xFF @ take 33 d) - d ! i + b"
    using sum_list_update_byte [of i "take 33 d" b] by simp
  then show ?thesis
    using assms imu_valid_iff [of d] imu_valid_iff [of "d[i := b]"] \<open>d[i := b] ! 33 = d ! 33\<close> by (simp add: eq_diff_eq)
qed

text \<open>
  Property C37.  Without errors on the line the IMU driver takes the first 34 bytes after the first four bytes 0xFF in a
  row, however the bytes are cut into reads, and leaves what follows; it calls them valid exactly if the last byte is the
  sum of the others and of the synchronisation, so that no packet with one damaged byte is valid.
\<close>

theorem imu_reads_packet:
  assumes "Read_error \<notin> set fd" and "fd_bytes fd = pre @ replicate 4 0xFF @ packet @ rest" and "length packet = 34"
    and "\<not> sublist (replicate 4 0xFF) (pre @ replicate 3 0xFF)" and "length buf = 34"
  shows "\<exists>fd'. readIMUData buf fd = Done (imu_decode packet) fd' \<and> fd_bytes fd' = rest
    \<and> (checksumValid (imu_decode packet) \<longleftrightarrow> packet ! 33 = sum_list (replicate 4 0xFF @ take 33 packet))
    \<and> (checksumValid (imu_decode packet) \<longrightarrow> (\<forall>i<34. \<forall>b. b \<noteq> packet ! i \<longrightarrow> \<not> checksumValid (imu_decode (packet[i := b]))))"
  using imu_reads [OF assms] imu_valid_iff [OF assms(3)] imu_damaged [OF assms(3)] by blast

theorem imu_reads_packet_witness:
  "\<exists>fd' d. readIMUData (replicate 34 0) [Chunk [7, 0xFF, 0xFF], Chunk [], Chunk (3 # replicate 4 0xFF @ replicate 20 1), Chunk (replicate 13 2 @ [42, 9])]
     = Done d fd' \<and> fd_bytes fd' = [9] \<and> checksumValid d \<and> messageID d = 1"
proof -
  let ?fd = "[Chunk [7, 0xFF, 0xFF], Chunk [], Chunk (3 # replicate 4 0xFF @ replicate 20 1), Chunk (replicate 13 2 @ [42, 9])]"
  let ?pre = "[7, 0xFF, 0xFF, 3] :: byte list" and ?packet = "replicate 20 1 @ replicate 13 2 @ [42] :: byte list"
  have p: "fd_bytes ?fd = ?pre @ replicate 4 0xFF @ ?packet @ [9]" by simp
  have s: "\<not> sublist (replicate 4 0xFF) (?pre @ replicate 3 0xFF)" by code_simp
  have v: "?packet ! 33 = sum_list (replicate 4 0xFF @ take 33 ?packet)" by code_simp
  have "?packet ! 0 = 1" by code_simp
  then have "messageID (imu_decode ?packet) = 1" by (simp add: imu_decode_def)
  then show ?thesis using imu_reads_packet [OF _ p _ s, of "replicate 34 0"] v by auto
qed

section \<open>The Doppler velocity log\<close>

definition SYNC_FAIL_BYTECOUNT :: nat where "SYNC_FAIL_BYTECOUNT = 2000"
definition ERR_NOSYNC :: "32 word" where "ERR_NOSYNC = 0x0001"
definition ERR_CHKSUM :: "32 word" where "ERR_CHKSUM = 0x0006"

definition dvl_convert16 :: "byte \<Rightarrow> byte \<Rightarrow> word16" where
  "dvl_convert16 msb lsb = push_bit 8 (ucast msb) OR ucast lsb"

text \<open>On an error the byte is what the uninitialised variable \<open>junk\<close> holds.\<close>

function dvl_waitByte :: "byte \<Rightarrow> arrival list \<Rightarrow> (byte, arrival list) outcome" where
  "dvl_waitByte junk fd =
     on (fd_read (Suc 0) fd) (\<lambda>r fd. case r of None \<Rightarrow> Done junk fd | Some [b] \<Rightarrow> Done b fd | Some _ \<Rightarrow> dvl_waitByte junk fd)"
  by pat_completeness auto
termination by (relation "measure (\<lambda>(j, fd). fd_size fd)") (auto dest: fd_read_smaller)

declare dvl_waitByte.simps [simp del]

text \<open>The loop of \<^verbatim>\<open>dvl_waitSync\<close> with \<open>n\<close> rounds left; whether it found the two bytes.\<close>

fun dvl_sync :: "byte \<Rightarrow> nat \<Rightarrow> arrival list \<Rightarrow> (bool, arrival list) outcome" where
  "dvl_sync junk 0 fd = Done False fd"
| "dvl_sync junk (Suc n) fd =
     on (dvl_waitByte junk fd) (\<lambda>b fd.
     if b = 0x7D
     then on (dvl_waitByte junk fd) (\<lambda>b fd. if b = 0x00 then Done True fd else dvl_sync junk n fd)
     else dvl_sync junk n fd)"

definition dvl_waitSync :: "byte \<Rightarrow> arrival list \<Rightarrow> (bool, arrival list) outcome" where
  "dvl_waitSync junk fd = dvl_sync junk SYNC_FAIL_BYTECOUNT fd"

record RawDVLData =
  valid :: "32 word"
  xvel_btm :: int  yvel_btm :: int  zvel_btm :: int  evel_btm :: int
  beam1_range :: word16  beam2_range :: word16  beam3_range :: word16  beam4_range :: word16
  TOFP_hundreths :: "32 word"

definition dvl_decode :: "byte list \<Rightarrow> RawDVLData \<Rightarrow> RawDVLData" where
  "dvl_decode d dvl =
     (let t = ucast (d ! 35) :: 32 word;
          t = t * 60;
          t = t + ucast (d ! 36);
          t = t * 60;
          t = t + ucast (d ! 37);
          t = t * 100;
          t = t + ucast (d ! 38)
      in dvl\<lparr>valid := 1,
        xvel_btm := sint (dvl_convert16 (d ! 6) (d ! 5)), yvel_btm := sint (dvl_convert16 (d ! 8) (d ! 7)),
        zvel_btm := sint (dvl_convert16 (d ! 10) (d ! 9)), evel_btm := sint (dvl_convert16 (d ! 12) (d ! 11)),
        beam1_range := dvl_convert16 (d ! 14) (d ! 13), beam2_range := dvl_convert16 (d ! 16) (d ! 15),
        beam3_range := dvl_convert16 (d ! 18) (d ! 17), beam4_range := dvl_convert16 (d ! 20) (d ! 19),
        TOFP_hundreths := t\<rparr>)"

definition dvl_sum :: "byte list \<Rightarrow> nat \<Rightarrow> word16" where
  "dvl_sum d len = fold (\<lambda>i checksum. checksum + ucast (d ! i)) [0..<len] 0"

definition readDVLData :: "byte \<Rightarrow> byte list \<Rightarrow> RawDVLData \<Rightarrow> arrival list \<Rightarrow> (32 word \<times> RawDVLData, arrival list) outcome" where
  "readDVLData junk dvlData dvl fd =
     on (dvl_waitSync junk fd) (\<lambda>found fd.
     if \<not> found then Done (ERR_NOSYNC, dvl\<lparr>valid := ERR_NOSYNC\<rparr>) fd else
     let dvl = dvl\<lparr>valid := -1\<rparr>;
         dvlData = dvlData[0 := 0x7D, 1 := 0]
     in on (read_loop 2 4 2 dvlData fd) (\<lambda>(len, dvlData) fd.
     let tempsize = unat (dvl_convert16 (dvlData ! 3) (dvlData ! 2)) in
     on (read_loop 0 tempsize len dvlData fd) (\<lambda>(len, dvlData) fd.
     let checksum = dvl_sum dvlData (nat len);
         tempsize = tempsize + 2
     in on (read_loop 0 tempsize len dvlData fd) (\<lambda>(len, dvlData) fd.
     if checksum \<noteq> dvl_convert16 (dvlData ! 46) (dvlData ! 45)
     then Done (ERR_CHKSUM, dvl\<lparr>valid := ERR_CHKSUM\<rparr>) fd
     else Done (0, dvl_decode dvlData dvl) fd))))"

lemma dvl_waitByte_clean:
  assumes "Read_error \<notin> set fd" and "fd_bytes fd = b # bs"
  shows "\<exists>fd'. dvl_waitByte junk fd = Done b fd' \<and> fd_bytes fd' = bs \<and> Read_error \<notin> set fd'"
  using assms
proof (induction "fd_size fd" arbitrary: fd rule: less_induct)
  case less
  then have "fd \<noteq> []" by auto
  obtain xs fd1 where r: "fd_read (Suc 0) fd = Done (Some xs) fd1" "fd_bytes fd = xs @ fd_bytes fd1" "length xs \<le> Suc 0" "Read_error \<notin> set fd1"
    by (rule fd_read_clean [OF less.prems(1) \<open>fd \<noteq> []\<close>])
  have s: "fd_size fd1 < fd_size fd" by (rule fd_read_smaller [OF r(1)])
  show ?case
  proof (cases xs)
    case Nil
    then show ?thesis using less.hyps [OF s r(4)] r(1,2) less.prems(2) by (subst dvl_waitByte.simps) simp
  next
    case (Cons x ys)
    then show ?thesis using r less.prems(2) by (subst dvl_waitByte.simps) simp
  qed
qed

lemma dvl_sync_clean:
  assumes "Read_error \<notin> set fd" and "fd_bytes fd = pre @ [0x7D, 0] @ bs" and "0x7D \<notin> set pre" and "length pre < n"
  shows "\<exists>fd'. dvl_sync junk n fd = Done True fd' \<and> fd_bytes fd' = bs \<and> Read_error \<notin> set fd'"
  using assms
proof (induction pre arbitrary: fd n)
  case Nil
  obtain m where n: "n = Suc m" using Nil(4) by (cases n) auto
  obtain fd1 where a: "dvl_waitByte junk fd = Done 0x7D fd1" "fd_bytes fd1 = 0 # bs" "Read_error \<notin> set fd1"
    using dvl_waitByte_clean [OF Nil(1)] Nil(2) by fastforce
  obtain fd2 where "dvl_waitByte junk fd1 = Done 0 fd2" "fd_bytes fd2 = bs" "Read_error \<notin> set fd2"
    using dvl_waitByte_clean [OF a(3,2)] by blast
  then show ?case using a(1) n by simp
next
  case (Cons b pre)
  obtain m where n: "n = Suc m" using Cons.prems(4) by (cases n) auto
  obtain fd1 where a: "dvl_waitByte junk fd = Done b fd1" "fd_bytes fd1 = pre @ [0x7D, 0] @ bs" "Read_error \<notin> set fd1"
    using dvl_waitByte_clean [OF Cons.prems(1)] Cons.prems(2) by fastforce
  then show ?case using Cons.IH [OF a(3,2), of m] Cons.prems(3,4) n by auto
qed

lemma dvl_sum_cong: "(\<And>i. i < n \<Longrightarrow> d ! i = d' ! i) \<Longrightarrow> dvl_sum d n = dvl_sum d' n"
  unfolding dvl_sum_def by (rule fold_cong) auto

text \<open>
  Property C38.  Without errors on the line the driver of the velocity log takes a packet of 47 bytes that announces 45
  bytes before its checksum, however it is cut into reads and after up to 1999 other bytes none of which begins a
  packet, and leaves what follows; it fills in the velocities, ranges and time exactly if the checksum is right, and then
  sets \<^verbatim>\<open>valid\<close> to 1, which by the comment in \<^verbatim>\<open>dvlapi.h\<close> would say that the data are not valid.
\<close>

theorem dvl_reads_packet:
  assumes "Read_error \<notin> set fd" and "fd_bytes fd = pre @ packet @ rest" and "take 4 packet = [0x7D, 0, 45, 0]" and "length packet = 47"
    and "0x7D \<notin> set pre" and "length pre < SYNC_FAIL_BYTECOUNT" and "length buf = 512"
  shows "\<exists>fd'. readDVLData junk buf dvl fd =
      Done (if dvl_sum packet 45 = dvl_convert16 (packet ! 46) (packet ! 45) then (0, dvl_decode packet dvl)
            else (ERR_CHKSUM, dvl\<lparr>valid := ERR_CHKSUM\<rparr>)) fd'
    \<and> fd_bytes fd' = rest"
proof -
  define bs where "bs = drop 2 packet @ rest"
  have t: "take 2 packet = [0x7D, 0]" using arg_cong [OF assms(3), of "take 2"] by simp
  have "packet = take 2 packet @ drop 2 packet" by simp
  then have p4: "packet = [0x7D, 0] @ drop 2 packet" "packet ! 2 = 45" "packet ! 3 = 0"
    using arg_cong [OF assms(3), of "\<lambda>xs. xs ! 2"] arg_cong [OF assms(3), of "\<lambda>xs. xs ! 3"] assms(4) unfolding t by simp_all
  have "fd_bytes fd = pre @ [0x7D, 0] @ bs" using assms(2) p4(1) by (simp add: bs_def)
  then obtain fd1 where s: "dvl_waitSync junk fd = Done True fd1" "fd_bytes fd1 = bs" "Read_error \<notin> set fd1"
    using dvl_sync_clean [OF assms(1) _ assms(5,6)] unfolding dvl_waitSync_def by blast
  let ?b0 = "buf[0 := 0x7D, 1 := 0]"
  define D where "D = (\<lambda>n. overwrite 2 (take n bs) ?b0)"
  have D: "D n ! i = packet ! i" if "i < 2 + n" "n \<le> 45" for i n
  proof -
    have "length (take n bs) = n" using assms(4) that(2) by (simp add: bs_def)
    moreover have "i < 2 \<Longrightarrow> ?b0 ! i = packet ! i" using p4(1) assms(7) by (cases i; cases "i - 1") (auto simp: less_Suc_eq numeral_2_eq_2, metis append_Cons nth_Cons_0, metis append_Cons nth_Cons_0 nth_Cons_Suc)
    moreover have "2 \<le> i \<Longrightarrow> bs ! (i - 2) = packet ! i"
      using that assms(4) by (auto simp: bs_def nth_append dest!: le_Suc_ex)
    ultimately show ?thesis using that assms(7) by (auto simp: D_def nth_overwrite)
  qed
  have step: "D (n + k) = overwrite (2 + n) (take k (drop n bs)) (D n)" if "n \<le> 45" for n k
  proof -
    have "length (take n bs) = n" using assms(4) that by (simp add: bs_def)
    then show ?thesis by (simp add: D_def take_add overwrite_append)
  qed
  have L: "length (D n) = 512" for n using assms(7) by (simp add: D_def)
  have "4 - 2 \<le> length (fd_bytes fd1)" "4 + 2 \<le> length ?b0" using s(2) assms(4,7) by (simp_all add: bs_def)
  then have "\<exists>n fd2. read_loop 2 4 (int 2) ?b0 fd1 = Done (int (2 + n), D n) fd2 \<and> fd_bytes fd2 = drop n bs \<and> Read_error \<notin> set fd2
      \<and> 4 \<le> 2 + n \<and> 2 + n \<le> 4 + 2"
    using read_loop_clean [OF s(3), of 4 2 2 ?b0] s(2) unfolding D_def by auto
  then obtain n fd2 where a: "read_loop 2 4 (int 2) ?b0 fd1 = Done (int (2 + n), D n) fd2" "fd_bytes fd2 = drop n bs" "Read_error \<notin> set fd2"
    "2 \<le> n" "n \<le> 4"
    by auto
  have "dvl_convert16 (D n ! 3) (D n ! 2) = 45" using D [of 2 n] D [of 3 n] a(4,5) p4(2,3) by (simp add: dvl_convert16_def)
  then have z: "unat (dvl_convert16 (D n ! 3) (D n ! 2)) = 45" by simp
  have "\<exists>m fd'. read_loop 0 45 (int (2 + n)) (D n) fd2 = Done (int (2 + n + m), overwrite (2 + n) (take m (drop n bs)) (D n)) fd'
      \<and> fd_bytes fd' = drop m (drop n bs) \<and> Read_error \<notin> set fd' \<and> 2 + n + m = 45"
  proof -
    have "45 - (2 + n) \<le> length (fd_bytes fd2)" "45 + 0 \<le> length (D n)" using a(2,5) assms(4) L by (simp_all add: bs_def)
    then show ?thesis using read_loop_clean [OF a(3), of 45 "2 + n" 0 "D n"] a(2,5) by (auto split: if_splits)
  qed
  then obtain m fd3 where "2 + n + m = 45" "read_loop 0 45 (int (2 + n)) (D n) fd2 = Done (int (2 + n + m), overwrite (2 + n) (take m (drop n bs)) (D n)) fd3"
    "fd_bytes fd3 = drop m (drop n bs)" "Read_error \<notin> set fd3" by blast
  moreover have "n + m = 43" using calculation(1) by simp
  ultimately have b: "read_loop 0 45 (int (2 + n)) (D n) fd2 = Done (45, D 43) fd3" "fd_bytes fd3 = drop 43 bs" "Read_error \<notin> set fd3"
    using step [of n m] a(5) by (simp_all add: add.commute)
  have "\<exists>m fd'. read_loop 0 47 (int 45) (D 43) fd3 = Done (int (45 + m), overwrite 45 (take m (drop 43 bs)) (D 43)) fd'
      \<and> fd_bytes fd' = drop m (drop 43 bs) \<and> 45 + m = 47"
  proof -
    have "47 - 45 \<le> length (fd_bytes fd3)" "47 + 0 \<le> length (D 43)" using b(2) assms(4) L by (simp_all add: bs_def)
    then show ?thesis using read_loop_clean [OF b(3), of 47 45 0 "D 43"] b(2) by auto
  qed
  then obtain fd4 where c: "read_loop 0 47 45 (D 43) fd3 = Done (47, D 45) fd4" "fd_bytes fd4 = rest"
    using step [of 43 2] assms(4) by (auto simp: bs_def)
  have "dvl_sum (D 43) 45 = dvl_sum packet 45" by (rule dvl_sum_cong) (simp add: D)
  moreover have "dvl_decode (D 45) (dvl\<lparr>valid := -1\<rparr>) = dvl_decode packet dvl" by (simp add: dvl_decode_def D)
  ultimately show ?thesis
    using s(1) a(1) b(1) c z D [of 45 45] D [of 46 45] by (simp add: readDVLData_def Let_def)
qed

theorem dvl_reads_packet_witness:
  "\<exists>fd'. readDVLData 0 (replicate 512 0) (dvl_decode (replicate 47 0) \<lparr>valid = 0, xvel_btm = 0, yvel_btm = 0, zvel_btm = 0, evel_btm = 0,
       beam1_range = 0, beam2_range = 0, beam3_range = 0, beam4_range = 0, TOFP_hundreths = 0\<rparr>)
     [Chunk [1, 2], Chunk [0x7D], Chunk [0, 45, 0, 0, 5], Chunk (1 # replicate 10 0), Chunk (replicate 28 0 @ [176, 0, 9])]
     = Done (0, \<lparr>valid = 1, xvel_btm = 261, yvel_btm = 0, zvel_btm = 0, evel_btm = 0,
         beam1_range = 0, beam2_range = 0, beam3_range = 0, beam4_range = 0, TOFP_hundreths = 0\<rparr>) fd'
     \<and> fd_bytes fd' = [9]"
proof -
  let ?fd = "[Chunk [1, 2], Chunk [0x7D], Chunk [0, 45, 0, 0, 5], Chunk (1 # replicate 10 0), Chunk (replicate 28 0 @ [176, 0, 9])]"
  let ?packet = "[0x7D, 0, 45, 0, 0, 5, 1] @ replicate 38 0 @ [176, 0] :: byte list"
  let ?dvl = "dvl_decode (replicate 47 0) \<lparr>valid = 0, xvel_btm = 0, yvel_btm = 0, zvel_btm = 0, evel_btm = 0,
       beam1_range = 0, beam2_range = 0, beam3_range = 0, beam4_range = 0, TOFP_hundreths = 0\<rparr>"
  have p: "fd_bytes ?fd = [1, 2] @ ?packet @ [9]" by code_simp
  have s: "dvl_sum ?packet 45 = dvl_convert16 (?packet ! 46) (?packet ! 45)" by code_simp
  have d: "dvl_decode ?packet ?dvl = \<lparr>valid = 1, xvel_btm = 261, yvel_btm = 0, zvel_btm = 0, evel_btm = 0,
         beam1_range = 0, beam2_range = 0, beam3_range = 0, beam4_range = 0, TOFP_hundreths = 0\<rparr>" by code_simp
  show ?thesis
    using dvl_reads_packet [OF _ p, of "replicate 512 0" 0 ?dvl] s d by (simp add: SYNC_FAIL_BYTECOUNT_def)
qed

text \<open>A length that is too large for the buffer of 512 bytes makes the driver write beyond it.\<close>

lemma read_loop_overrun:
  assumes "Read_error \<notin> set fd" and "len \<le> length buf" and "length buf < limit" and "length buf < len + length (fd_bytes fd)"
  shows "read_loop 0 limit (int len) buf fd = Stop Out_of_bounds"
  using assms
proof (induction "fd_size fd" arbitrary: len buf fd rule: less_induct)
  case less
  then have "fd \<noteq> []" by auto
  obtain bs fd1 where r: "fd_read (Suc (limit - 1 - len)) fd = Done (Some bs) fd1" "fd_bytes fd = bs @ fd_bytes fd1" "Read_error \<notin> set fd1"
    by (rule fd_read_clean [OF less.prems(1) \<open>fd \<noteq> []\<close>])
  have s: "fd_size fd1 < fd_size fd" by (rule fd_read_smaller [OF r(1)])
  have e: "read_loop 0 limit (int len) buf fd = (if len + length bs > length buf then Stop Out_of_bounds
      else read_loop 0 limit (int (len + length bs)) (overwrite len bs buf) fd1)"
    using r(1) less.prems(2,3) by (subst read_loop.simps) simp
  then show ?case using less.hyps [OF s r(3), of "len + length bs" "overwrite len bs buf"] less.prems r(2) by auto
qed

end
