(* ===== verification/Thrusters.thy ===== *)
theory Thrusters
  imports DriverFaults Uart
begin

text \<open>
  The driver of the motor controllers when they hang on the host's own serial line
  (\<^verbatim>\<open>src/packages/drivers/thruster/src/thrusterapi.c\<close>).  Its calls of the operating system are those of the sensor
  board's driver.  The waits between two commands are kept, the half millisecond after an answer is not.
\<close>

definition TH_TIMEOUTERROR :: int where "TH_TIMEOUTERROR = -1"

text \<open>\<^verbatim>\<open>clearBuf\<close>; \<open>None\<close> if the input never ends.\<close>

definition clearBuf :: "'p port_env \<Rightarrow> 'p \<Rightarrow> 'p option" where
  "clearBuf P p = map_option snd (drain P p)"

text \<open>\<^verbatim>\<open>waitForData(fd, buf, nbytes, timeout)\<close>: the result and the bytes.\<close>

definition waitForData :: "'p port_env \<Rightarrow> nat \<Rightarrow> nat \<Rightarrow> 'p \<Rightarrow> int \<times> byte list \<times> 'p" where
  "waitForData P nbytes timeout p =
     (case hasData P timeout p of (h, p) \<Rightarrow>
        if \<not> h then (TH_TIMEOUTERROR, [], p)
        else case port_read P nbytes p of (r, p) \<Rightarrow>
          (case r of None \<Rightarrow> (-1, [], p) | Some bs \<Rightarrow> (int (length (take nbytes bs)), take nbytes bs, p)))"

text \<open>\<^verbatim>\<open>multiCmd\<close>, for the at most three bytes of data its callers pass.\<close>

definition multiCmd :: "'p port_env \<Rightarrow> int \<Rightarrow> int \<Rightarrow> byte list \<Rightarrow> nat \<Rightarrow> 'p \<Rightarrow> (int \<times> 'p) option" where
  "multiCmd P cmd addr data timeout p =
     (case clearBuf P p of
        None \<Rightarrow> None
      | Some p \<Rightarrow>
          let len = length data;
              txData = (replicate 8 0)[0 := word_of_int cmd, 1 := word_of_int addr];
              txData = fold (\<lambda>i tx. tx[i + 2 := data ! i]) [0..<len] txData;
              txData = fold (\<lambda>i tx. tx[len + 2 := (tx ! (len + 2) + tx ! i) AND 0xFF]) [0..<len + 2] txData;
              p = writeData P (take (len + 3) txData) p
          in case waitForData P 1 timeout p of (n, resp, p) \<Rightarrow>
               Some (if n \<noteq> 1 then TH_TIMEOUTERROR else of_bool (resp ! 0 \<noteq> 0x06), p))"

definition int_bytes :: "int \<Rightarrow> byte list" where
  "int_bytes v = [word_of_int (v AND 0xFF), word_of_int (drop_bit 8 v AND 0xFF)]"

definition th_setSpeed :: "'p port_env \<Rightarrow> int \<Rightarrow> int \<Rightarrow> 'p \<Rightarrow> (int \<times> 'p) option" where
  "th_setSpeed P addr speed p = multiCmd P 0x14 addr (int_bytes speed) 200 (port_sleep P 3 p)"

definition setVelocityLimit :: "'p port_env \<Rightarrow> int \<Rightarrow> int \<Rightarrow> 'p \<Rightarrow> (int \<times> 'p) option" where
  "setVelocityLimit P addr limit p = multiCmd P 0x18 addr (1 # int_bytes limit) 200 p"

definition writeVelocityLimit :: "'p port_env \<Rightarrow> int \<Rightarrow> int \<Rightarrow> 'p \<Rightarrow> (int \<times> 'p) option" where
  "writeVelocityLimit P addr limit p = multiCmd P 0x19 addr (1 # int_bytes limit) 200 p"

definition setReg :: "'p port_env \<Rightarrow> int \<Rightarrow> int \<Rightarrow> int \<Rightarrow> 'p \<Rightarrow> (int \<times> 'p) option" where
  "setReg P addr r val p = multiCmd P 0x18 addr [word_of_int r, word_of_int val] 200 p"

definition writeReg :: "'p port_env \<Rightarrow> int \<Rightarrow> int \<Rightarrow> int \<Rightarrow> 'p \<Rightarrow> (int \<times> 'p) option" where
  "writeReg P addr r val p = multiCmd P 0x19 addr [word_of_int r, word_of_int val] 200 p"

definition resetDevice :: "'p port_env \<Rightarrow> int \<Rightarrow> 'p \<Rightarrow> (int \<times> 'p) option" where
  "resetDevice P addr p = multiCmd P 0x1C addr [] 200 p"

section \<open>One protocol\<close>

text \<open>The frame of a command: its bytes and their sum.\<close>

definition th_frame :: "byte list \<Rightarrow> byte list" where
  "th_frame bs = bs @ [sum_list bs]"

definition th_result :: "int \<times> byte list \<times> 'p \<Rightarrow> int \<times> 'p" where
  "th_result r = (case r of (n, resp, p) \<Rightarrow> (if n \<noteq> 1 then TH_TIMEOUTERROR else of_bool (resp ! 0 \<noteq> 0x06), p))"

lemma short_list:
  assumes "length xs \<le> 3"
  obtains "xs = []" | x where "xs = [x]" | x y where "xs = [x, y]" | x y z where "xs = [x, y, z]"
  using assms by (cases xs; cases "tl xs"; cases "tl (tl xs)"; cases "tl (tl (tl xs))") auto

lemma multiCmd_frame:
  assumes "length data \<le> 3"
  shows "multiCmd P cmd addr data timeout p =
    (case clearBuf P p of
       None \<Rightarrow> None
     | Some p \<Rightarrow> Some (th_result (waitForData P 1 timeout (port_write P (th_frame (word_of_int cmd # word_of_int addr # data)) p))))"
proof -
  let ?tx = "(replicate 8 0)[0 := word_of_int cmd, 1 := word_of_int addr]" and ?len = "length data"
  let ?tx2 = "fold (\<lambda>i tx. tx[i + 2 := data ! i]) [0..<?len] ?tx"
  have e: "take (?len + 3) (fold (\<lambda>i tx. tx[?len + 2 := (tx ! (?len + 2) + tx ! i) AND 0xFF]) [0..<?len + 2] ?tx2)
      = th_frame (word_of_int cmd # word_of_int addr # data)"
    using assms by (cases data rule: short_list) (simp_all add: th_frame_def numeral_eq_Suc add.assoc)
  show ?thesis
  proof (cases "clearBuf P p")
    case (Some q)
    obtain n resp r where w: "waitForData P 1 timeout (port_write P (th_frame (word_of_int cmd # word_of_int addr # data)) q) = (n, resp, r)"
      by (cases "waitForData P 1 timeout (port_write P (th_frame (word_of_int cmd # word_of_int addr # data)) q)")
    show ?thesis by (simp only: multiCmd_def Let_def writeData_def Some option.case e w th_result_def prod.case)
  qed (simp add: multiCmd_def)
qed

text \<open>
  Property C39.  The host's own driver and the boards speak the same language to the motor controllers: for a speed, the
  driver writes exactly the frame that \<^verbatim>\<open>UARTSendSpeed\<close> of the boards queues for the two bytes of that speed, and it
  reports success exactly if one byte 6 comes back in time.
\<close>

theorem same_frames:
  assumes "port_inv (u1 u)" and "length (queue (TX (u1 u))) + 5 \<le> 32" and "clearBuf P (port_sleep P 3 p) = Some q"
  shows "\<exists>frame. queue (TX (u1 (UARTSendSpeed (word_of_int addr) (word_of_int (drop_bit 8 v)) (word_of_int v) 0 u)))
      = queue (TX (u1 u)) @ frame
    \<and> th_setSpeed P addr v p = Some (th_result (waitForData P 1 200 (port_write P frame q)))"
proof -
  have m: "(0xFF :: int) = mask 8" by (simp add: mask_eq_exp_minus_1)
  have b: "(word_of_int (k AND 0xFF) :: byte) = word_of_int k" for k
    unfolding m by (rule bit_word_eqI) (simp add: bit_simps)
  have "length (int_bytes v) \<le> 3" by (simp add: int_bytes_def)
  then have "th_setSpeed P addr v p = Some (th_result (waitForData P 1 200
      (port_write P (th_frame (0x14 # word_of_int addr # int_bytes v)) q)))"
    using assms(3) by (simp add: th_setSpeed_def multiCmd_frame)
  moreover have "th_frame (0x14 # word_of_int addr # int_bytes v)
      = [0x14, word_of_int addr, word_of_int v, word_of_int (drop_bit 8 v),
         0x14 + word_of_int addr + word_of_int (drop_bit 8 v) + word_of_int v]"
    by (simp add: th_frame_def int_bytes_def b add.commute add.left_commute del: drop_bit_numeral_bit0)
  ultimately show ?thesis
    using UARTSendSpeed_frame [OF assms(1,2), of "word_of_int addr" "word_of_int (drop_bit 8 v)" "word_of_int v"]
    by (simp add: Let_def)
qed

theorem same_frames_witness:
  "\<exists>frame. queue (TX (u1 (UARTSendSpeed 4 0xFE 0x0C 0 \<lparr>u1 = fresh_port, u2 = fresh_port\<rparr>))) = frame
     \<and> th_setSpeed (line_port (\<lambda>bs. if bs = frame then [6] else [15]) (\<lambda>n. 0)) 4 (-500) [] = Some (0, [])"
proof -
  let ?u = "\<lparr>u1 = fresh_port, u2 = fresh_port\<rparr>"
  let ?frame = "[0x14, 4, 0x0C, 0xFE, 0x22] :: byte list"
  let ?P = "line_port (\<lambda>bs. if bs = ?frame then [6] else [15]) (\<lambda>n. 0)"
  have u: "port_inv (u1 ?u)" "queue (TX (u1 ?u)) = []" by (simp_all add: fresh_port)
  have c: "clearBuf ?P (port_sleep ?P 3 []) = Some []"
    unfolding clearBuf_def by (subst drain.simps) (simp add: hasData_def line_port_def)
  have w: "word_of_int 4 = (4 :: byte)" "word_of_int (drop_bit 8 (-500)) = (0xFE :: byte)" "word_of_int (-500) = (0x0C :: byte)"
    by code_simp+
  obtain frame where f: "queue (TX (u1 (UARTSendSpeed 4 0xFE 0x0C 0 ?u))) = frame"
    "th_setSpeed ?P 4 (-500) [] = Some (th_result (waitForData ?P 1 200 (port_write ?P frame [])))"
    using same_frames [OF u(1) _ c, of 4 "-500"] unfolding w by (auto simp: fresh_port)
  have "frame = ?frame" using UARTSendSpeed_frame [OF u(1), of 4 "0xFE" "0x0C"] f(1) by (simp add: Let_def fresh_port)
  then show ?thesis using f by (intro exI [of _ frame]) (simp add: th_result_def waitForData_def hasData_def line_port_def)
qed

end
