(* ===== verification/Spec2Isabelle.thy ===== *)
theory Spec2Isabelle
  imports Failsafe DriverFaults Speeds SonarCall Boot PneuRun Upload Instruments Thrusters
begin

text \<open>
  Tortuga is an autonomous underwater vehicle.  Its sensor board is a set of dsPIC chips on a
  parallel bus: a master (\<^verbatim>\<open>src/packages/embedded/sbr9/ic1.c\<close>) talks to the host computer over a
  serial link and to seven slaves over eight data lines, a read/write line, an acknowledge line the
  slaves share and one request line per slave.  This development models that firmware
  and the driver of the sensor board on the host (\<^verbatim>\<open>src/packages/drivers/sensor-r5/src/sensorapi.c\<close>).

  What the theories hold, in the order in which they build on each other.

  \<^item> \<^verbatim>\<open>Prelude\<close>: the monad of the firmware.  A computation takes a state and is \<open>Done\<close> with a value
    and a state, or stops: \<open>Waiting\<close> when the trace of events of the serial link is used up,
    \<open>Out_of_bounds\<close> when the code leaves an array.
  \<^item> \<^verbatim>\<open>BusCodes\<close>: \<^verbatim>\<open>buscodes.h\<close> and the slave numbers of \<^verbatim>\<open>ic1.c\<close>.
  \<^item> \<^verbatim>\<open>Common\<close>: \<^verbatim>\<open>chksum\<close> of \<^verbatim>\<open>common.c\<close> and \<^verbatim>\<open>convertSpeed\<close>.
  \<^item> \<^verbatim>\<open>Master\<close>, \<^verbatim>\<open>MasterBus\<close>: the registers and global variables of the master, the pins, and the
    transfers of a byte and of a block; whatever the other chips do is an environment that moves
    between two samples of the pins.
  \<^item> \<^verbatim>\<open>MasterIO\<close>: \<^verbatim>\<open>waitchar\<close> over a trace of events, the timers with their interrupts, the motor
    failsafe, the messages on the display, the start switch and the ping of a chip.
  \<^item> \<^verbatim>\<open>Commands\<close>, \<^verbatim>\<open>CommandsSet\<close>, \<^verbatim>\<open>Firmware\<close>: the 53 cases of the switch of \<^verbatim>\<open>main\<close>, the switch, and
    the loop around it.
  \<^item> \<^verbatim>\<open>Replies\<close>, \<^verbatim>\<open>Answers\<close>, \<^verbatim>\<open>Protocol\<close>: what a reply to a command looks like, and that every command
    sends exactly one.
  \<^item> \<^verbatim>\<open>Frames\<close>, \<^verbatim>\<open>Plans\<close>, \<^verbatim>\<open>Safety\<close>: which byte sequences are good frames of a command, the table of
    the bus transfers each command stands for, and that good frames are carried out and bad ones
    refused; how many polls of the acknowledge line a transfer takes, over an environment that counts them.
  \<^item> \<^verbatim>\<open>Failsafe\<close>: the motor failsafe and the messages on the display.
  \<^item> \<^verbatim>\<open>Uart\<close>: the interrupt-driven serial ports of the slaves (\<^verbatim>\<open>uart.c\<close>), with an abstract queue as
    their specification.
  \<^item> \<^verbatim>\<open>Slave\<close>, \<^verbatim>\<open>SlaveBus\<close>: \<^verbatim>\<open>checkBus\<close> of the slaves as a state machine, seven of them on the lines as
    an environment of the master, and the transfers between master and slave.
  \<^item> \<^verbatim>\<open>Contract\<close>: the contract of the bus as a locale, what commands achieve under it, and its
    interpretation on the seven slaves.
  \<^item> \<^verbatim>\<open>SlaveCore\<close>, \<^verbatim>\<open>Lcd\<close>, \<^verbatim>\<open>Temp\<close>, \<^verbatim>\<open>Depth\<close>: the commands the slaves on the sensor board share, the LCD
    controller \<^verbatim>\<open>ic2.c\<close> down to the pins of the display and what it shows, the temperature and start
    switch slave \<^verbatim>\<open>ic3.c\<close>, and the depth slave \<^verbatim>\<open>ic4.c\<close> with the average its ADC interrupt keeps.
  \<^item> \<^verbatim>\<open>Distro\<close>, \<^verbatim>\<open>DistroSafety\<close>: the power distribution board \<^verbatim>\<open>distro.c\<close>: its commands, the loop that
    watches the kill switch and the motor currents, and that a tripped thruster stays off.
  \<^item> \<^verbatim>\<open>Registers\<close>: the contract of a slave with registers, kept by the four boards above.
  \<^item> \<^verbatim>\<open>System\<close>: the boards mounted on the bus, and commands of the host followed to their effect.
  \<^item> \<^verbatim>\<open>Driver\<close>: the calls of \<^verbatim>\<open>sensorapi.c\<close> over a serial port that may time out, fail or cut reads short,
    and its update cycle.
  \<^item> \<^verbatim>\<open>Link\<close>: the contract of a line that delivers bytes in order, kept by the port with the firmware of
    the master behind it; the commands the driver sends are commands the master takes.
  \<^item> \<^verbatim>\<open>Vehicle\<close>: a call of the driver followed to the pins and the display of the slaves, and back.
  \<^item> \<^verbatim>\<open>DriverFaults\<close>: the driver on lines that are cut, at the edges of its ranges, and the progress of its
    update cycle.
  \<^item> \<^verbatim>\<open>Motor\<close>, \<^verbatim>\<open>MotorBoard\<close>: the motor board \<^verbatim>\<open>motor.c\<close>: its commands, the interrupt that sends a packet
    over I2C, the loop that sends the speeds and passes commands on to the pneumatics board; which packets can
    ever start.  I2C interrupts come during the timed wait of a packet and after it, and the timer flag may come up after
    a wait that the interrupts ended.
  \<^item> \<^verbatim>\<open>Pneumatics\<close>, \<^verbatim>\<open>PneuTable\<close>, \<^verbatim>\<open>PneuAgenda\<close>, \<^verbatim>\<open>PneuRun\<close>: the pneumatics board \<^verbatim>\<open>pneumatics_control.c\<close>, the
    scan of its table of counted commands, the agenda the table stands for, and what packets and ticks of
    the timer do to the valves, with the positions of the valves at every tick after each packet for a piston.
  \<^item> \<^verbatim>\<open>Balancer\<close>, \<^verbatim>\<open>BalancerBoard\<close>: the battery balancer \<^verbatim>\<open>balancer.c\<close>, its averages, and its power kill.
  \<^item> \<^verbatim>\<open>Blackfin\<close>, \<^verbatim>\<open>Sonar\<close>: the board \<^verbatim>\<open>bfin.c\<close> in the place of the sonar, and the packets it takes from the
    Blackfin processor.
  \<^item> \<^verbatim>\<open>Vessel\<close>: the bus with all seven boards on it, the three above included.
  \<^item> \<^verbatim>\<open>Torpedo\<close>, \<^verbatim>\<open>Speeds\<close>, \<^verbatim>\<open>SonarCall\<close>: a torpedo, a set of speeds and a sonar packet followed from a call of the
    driver to the valves, to the I2C line of the motor controllers, and back from the Blackfin.
  \<^item> \<^verbatim>\<open>Startup\<close>, \<^verbatim>\<open>Boot\<close>: \<^verbatim>\<open>main\<close> of the master before its loop with the self test and the diagnostic mode,
    and the boot of the vessel.
  \<^item> \<^verbatim>\<open>HexFile\<close>, \<^verbatim>\<open>HexImage\<close>, \<^verbatim>\<open>Loader\<close>, \<^verbatim>\<open>BootChip\<close>, \<^verbatim>\<open>Upload\<close>: the program on the bench that puts firmware into the chips
    (\<^verbatim>\<open>src/packages/embedded/bootloader/client\<close>): its memory rows, the reader and writers of Intel hex files, the memory
    a file stands for, and the packets the loader hands to its line; the serial commands of the boot loader in the chip
    (\<^verbatim>\<open>src/packages/embedded/bootloader/src/iBL.s\<close>) over its data memory, latches and program memory; and what an
    upload leaves in the chip.
  \<^item> \<^verbatim>\<open>Instruments\<close>, \<^verbatim>\<open>Thrusters\<close>: the drivers of the inertial measurement unit, the Doppler velocity log and the motor
    controllers (\<^verbatim>\<open>src/packages/drivers\<close>): which packets they take from a line that cuts them anyhow, and that the
    driver of the motor controllers and \<^verbatim>\<open>uart.c\<close> of the boards send the same frames.

  Bounds.  The polls of the bus are bounded by \<^verbatim>\<open>BUS_TIMEOUT\<close>, as in the code.  The main loop is taken
  for any number of iterations, and \<^verbatim>\<open>waitchar\<close> over any finite trace of events, so no fuel is needed.
  A schedule of the slaves is \<open>prompt\<close> when every slave runs at least once in any 12000 samples of
  the master, so that the two steps a request can need come before the 25001 samples of a poll loop.
  The driver's own loop that empties the input of the port has no bound in the code; it is a partial
  function whose result \<open>None\<close> is the input that never ends.  The loops of the diagnostic mode poll a switch
  a person holds; they take a bound \<open>n\<close> on their rounds and are \<open>Waiting\<close> beyond it.  That the vessel boots is
  proved for every \<open>n\<close>, as the mode is not entered, and that a dead switch blocks the boot for every \<open>n\<close> too.
  The loader reads a file line by line, which ends as every line takes at least a byte of it.

  Parameters.  The serial port of the host is an environment, and what the driver divides in floating
  point and the contents of its uninitialised arrays are arguments.  The ADC readings, the byte \<^verbatim>\<open>readTemp\<close>
  returns and the floating-point calibrations of \<^verbatim>\<open>distro.c\<close> and \<^verbatim>\<open>balancer.c\<close> are arguments of their loops, and
  what the I2C bus does is an argument of the loop of \<^verbatim>\<open>motor.c\<close>; the terminal of the loader is an environment, and so are the device files of the
  instruments, whose results of type \<^verbatim>\<open>double\<close> are taken as reals; the pins other chips drive are an
  environment.  \<^verbatim>\<open>System\<close> leaves the chips in the last three places open, \<^verbatim>\<open>Vessel\<close> puts the balancer, the
  Blackfin board and the motor board there.  \<^verbatim>\<open>distro.c\<close> is taken as it is configured in the file, with
  \<^verbatim>\<open>DVL_INSIDE\<close> and \<^verbatim>\<open>DERPY_ATTACHED\<close> and without \<^verbatim>\<open>HAS_UART\<close>.

  The places of the buffer, the stack and the code of the boot loader in the chip are chosen by the linker and are
  parameters; what an erase or a program operation does to a row is the documented behaviour of the chip's controller.

  Not modelled.  The part of \<^verbatim>\<open>iBL.s\<close> before \<^verbatim>\<open>StartFrame\<close>, which is not finished.  Delay loops, the set-up of the peripherals, the analog parts, the debug monitor \<^verbatim>\<open>debug.c\<close>, the older
  firmware \<^verbatim>\<open>sbr5\<close>, the older sonar slave \<^verbatim>\<open>sonar.c\<close>, which does not compile, the
  configuration of the terminal device in \<^verbatim>\<open>openSensorBoard\<close>, and everything on the host above the driver: the C++ packages are a
  different program and rest on libraries that are not part of the repository.
\<close>

end
